(* ===== verification/Go_Prelude.thy ===== *)
theory Go_Prelude
  imports Main "HOL-Library.Char_ord" "HOL-Library.List_Lexorder" "HOL-Library.Sublist"
begin

text \<open>
  Shared prelude of the development: the Go values every component uses (strings as byte lists,
  machine integers, instants and durations), the helpers of package \<open>strings\<close> and
  \<open>strconv\<close> the source calls, early-return chains as lists of optional errors, and the generic
  reachability interface used by the state machines.

  Conventions. A Go \<open>string\<close> or \<open>[]byte\<close> is a \<open>string\<close> (a list of bytes). A
  \<open>time.Time\<close> is the number of nanoseconds since Go's zero instant, so \<open>IsZero\<close> is
  \<open>= 0\<close>. A \<open>time.Duration\<close> is an \<open>int\<close> in the signed 64-bit range; where the source
  can leave that range the wrap-around or saturation is written out.
\<close>

type_synonym time = int
type_synonym duration = int

named_theorems go_strings \<open>characterisations of the string helpers\<close>
named_theorems go_defs \<open>definitions that proofs of a component unfold together\<close>

subsection \<open>Early returns\<close>

text \<open>
  A Go function that runs checks in order and returns at the first failure is the list of its
  checks, each \<open>None\<close> (passed) or \<open>Some e\<close>.
\<close>

fun first_err :: "'e option list \<Rightarrow> 'e option" where
  "first_err [] = None"
| "first_err (None # xs) = first_err xs"
| "first_err (Some e # xs) = Some e"

definition fail_if :: "bool \<Rightarrow> 'e \<Rightarrow> 'e option" where
  "fail_if b e = (if b then Some e else None)"

lemma fail_if_None [simp]: "fail_if b e = None \<longleftrightarrow> \<not> b"
  by (simp add: fail_if_def)

lemma fail_if_Some [simp]: "fail_if b e = Some e' \<longleftrightarrow> b \<and> e' = e"
  by (auto simp: fail_if_def)

lemma fail_if_simps [simp]: "fail_if True e = Some e" "fail_if False e = None"
  by (simp_all add: fail_if_def)

lemma first_err_None [simp]: "first_err xs = None \<longleftrightarrow> (\<forall>x\<in>set xs. x = None)"
  by (induction xs rule: first_err.induct) auto

lemma first_err_append:
  "first_err (xs @ ys) = (case first_err xs of None \<Rightarrow> first_err ys | Some e \<Rightarrow> Some e)"
  by (induction xs rule: first_err.induct) auto

lemma first_err_SomeD:
  "first_err xs = Some e \<Longrightarrow>
     \<exists>us vs. xs = us @ Some e # vs \<and> (\<forall>u\<in>set us. u = None)"
proof (induction xs rule: first_err.induct)
  case (2 xs)
  then obtain us vs where "xs = us @ Some e # vs" "\<forall>u\<in>set us. u = None" by auto
  then have "None # xs = (None # us) @ Some e # vs \<and> (\<forall>u\<in>set (None # us). u = None)" by simp
  then show ?case by blast
next
  case (3 e' xs)
  then have "Some e' # xs = [] @ Some e # xs \<and> (\<forall>u\<in>set ([] :: 'a option list). u = None)" by simp
  then show ?case by blast
qed simp

subsection \<open>Lists\<close>

text \<open>\<open>xs[i:]\<close> enumerated with its index, as in \<open>for i, x := range xs\<close>.\<close>

definition indexed :: "'a list \<Rightarrow> (nat \<times> 'a) list" where
  "indexed xs = zip [0..<length xs] xs"

lemma set_indexed: "(i, x) \<in> set (indexed xs) \<longleftrightarrow> i < length xs \<and> xs ! i = x"
  by (force simp: indexed_def in_set_zip)

lemma in_set_indexed: "x \<in> set xs \<longleftrightarrow> (\<exists>i. (i, x) \<in> set (indexed xs))"
  unfolding set_indexed by (auto simp: in_set_conv_nth)

lemma ball_indexed: "(\<forall>(i, x)\<in>set (indexed xs). P x) \<longleftrightarrow> (\<forall>x\<in>set xs. P x)"
proof -
  have "snd ` set (indexed xs) = set xs" by (simp add: indexed_def flip: set_map)
  then show ?thesis by (metis (no_types, lifting) case_prod_unfold imageE imageI)
qed

text \<open>The first element that satisfies a predicate: a loop that returns at the first hit.\<close>

fun find_first :: "('a \<Rightarrow> bool) \<Rightarrow> 'a list \<Rightarrow> 'a option" where
  "find_first P [] = None"
| "find_first P (x # xs) = (if P x then Some x else find_first P xs)"

lemma find_first_None: "find_first P xs = None \<longleftrightarrow> (\<forall>x\<in>set xs. \<not> P x)"
  by (induction xs) auto

lemma find_first_SomeD: "find_first P xs = Some x \<Longrightarrow> x \<in> set xs \<and> P x"
  by (induction xs) (auto split: if_splits)

lemma find_first_split:
  "find_first P xs = Some x \<Longrightarrow>
     \<exists>us vs. xs = us @ x # vs \<and> (\<forall>u\<in>set us. \<not> P u)"
proof (induction xs)
  case (Cons y ys)
  show ?case
  proof (cases "P y")
    case True
    with Cons.prems have "y # ys = [] @ x # ys" by simp
    then show ?thesis by (metis empty_iff empty_set)
  next
    case False
    with Cons obtain us vs where "ys = us @ x # vs" "\<forall>u\<in>set us. \<not> P u" by auto
    with False have "y # ys = (y # us) @ x # vs" "\<forall>u\<in>set (y # us). \<not> P u" by auto
    then show ?thesis by blast
  qed
qed simp

text \<open>A Go map built by assigning in list order: a later entry with the same key wins.\<close>

definition map_by :: "('a \<Rightarrow> 'k) \<Rightarrow> 'a list \<Rightarrow> ('k \<rightharpoonup> 'a)" where
  "map_by k xs = foldl (\<lambda>m x. m(k x \<mapsto> x)) Map.empty xs"

lemma map_by_Nil [simp]: "map_by k [] = Map.empty"
  by (simp add: map_by_def)

lemma map_by_snoc [simp]: "map_by k (xs @ [x]) = (map_by k xs)(k x \<mapsto> x)"
  by (simp add: map_by_def)

lemma map_by_SomeD: "map_by k xs n = Some x \<Longrightarrow> x \<in> set xs \<and> k x = n"
  by (induction xs rule: rev_induct) (auto split: if_splits)

lemma map_by_distinct:
  "distinct (map k xs) \<Longrightarrow> x \<in> set xs \<Longrightarrow> map_by k xs (k x) = Some x"
  by (induction xs rule: rev_induct) (auto simp: image_iff)

lemma map_by_None: "map_by k xs n = None \<longleftrightarrow> n \<notin> k ` set xs"
  by (induction xs rule: rev_induct) auto

subsection \<open>Package strings\<close>

definition has_prefix :: "string \<Rightarrow> string \<Rightarrow> bool" where
  "has_prefix s p \<longleftrightarrow> take (length p) s = p"

definition has_suffix :: "string \<Rightarrow> string \<Rightarrow> bool" where
  "has_suffix s p \<longleftrightarrow> length p \<le> length s \<and> drop (length s - length p) s = p"

definition cut_prefix :: "string \<Rightarrow> string \<Rightarrow> string option" where
  "cut_prefix s p = (if has_prefix s p then Some (drop (length p) s) else None)"

definition cut_suffix :: "string \<Rightarrow> string \<Rightarrow> string option" where
  "cut_suffix s p = (if has_suffix s p then Some (take (length s - length p) s) else None)"

definition trim_prefix :: "string \<Rightarrow> string \<Rightarrow> string" where
  "trim_prefix s p = (case cut_prefix s p of None \<Rightarrow> s | Some t \<Rightarrow> t)"

lemma has_prefix_iff [go_strings]: "has_prefix s p \<longleftrightarrow> (\<exists>t. s = p @ t)"
  by (metis append_eq_conv_conj append_take_drop_id has_prefix_def)

lemma has_suffix_iff [go_strings]: "has_suffix s p \<longleftrightarrow> (\<exists>t. s = t @ p)"
  unfolding has_suffix_def by (metis add_diff_cancel_right' append_eq_append_conv append_take_drop_id
      diff_diff_cancel length_append length_drop le_add2)

lemma has_prefix_append [simp]: "has_prefix (p @ t) p"
  by (auto simp: has_prefix_iff)

lemma cut_prefix_Some [simp]: "cut_prefix s p = Some t \<longleftrightarrow> s = p @ t"
  by (auto simp: cut_prefix_def has_prefix_iff)

lemma cut_prefix_append [simp]: "cut_prefix (p @ t) p = Some t"
  by simp

lemma trim_prefix_append [simp]: "trim_prefix (p @ t) p = t"
  by (simp add: trim_prefix_def)

lemma cut_suffix_Some [simp]: "cut_suffix s p = Some t \<longleftrightarrow> s = t @ p"
  by (auto simp: cut_suffix_def has_suffix_iff)

text \<open>\<open>strings.Split\<close> on one byte: always at least one piece.\<close>

fun split_char :: "char \<Rightarrow> string \<Rightarrow> string list" where
  "split_char c [] = [[]]"
| "split_char c (x # xs) =
     (if x = c then [] # split_char c xs
      else (case split_char c xs of [] \<Rightarrow> [[x]] | w # ws \<Rightarrow> (x # w) # ws))"

lemma split_char_not_Nil [simp]: "split_char c s \<noteq> []"
  by (induction s) (auto split: list.splits)

lemma split_char_none: "c \<notin> set s \<Longrightarrow> split_char c s = [s]"
  by (induction s) auto

lemma split_char_append_sep:
  "c \<notin> set w \<Longrightarrow> split_char c (w @ c # s) = w # split_char c s"
  by (induction w) auto

text \<open>\<open>strings.Split(s, "\n\n")\<close>: leftmost, not overlapping.\<close>

abbreviation "newline \<equiv> CHR 0x0A"
abbreviation "tab \<equiv> CHR 0x09"
abbreviation "backslash \<equiv> CHR 0x5C"

fun split_paragraphs :: "string \<Rightarrow> string list" where
  "split_paragraphs [] = [[]]"
| "split_paragraphs [x] = [[x]]"
| "split_paragraphs (x # y # xs) =
     (if x = newline \<and> y = newline then [] # split_paragraphs xs
      else (case split_paragraphs (y # xs) of [] \<Rightarrow> [[x]] | w # ws \<Rightarrow> (x # w) # ws))"

text \<open>\<open>strings.FieldsFunc\<close>: maximal runs of bytes that do not satisfy the predicate.\<close>

fun fields_aux :: "(char \<Rightarrow> bool) \<Rightarrow> string \<Rightarrow> string list" where
  "fields_aux P [] = [[]]"
| "fields_aux P (x # xs) =
     (if P x then [] # fields_aux P xs
      else (case fields_aux P xs of [] \<Rightarrow> [[x]] | w # ws \<Rightarrow> (x # w) # ws))"

definition fields_func :: "(char \<Rightarrow> bool) \<Rightarrow> string \<Rightarrow> string list" where
  "fields_func P s = filter (\<lambda>w. w \<noteq> []) (fields_aux P s)"

text \<open>\<open>strings.TrimSpace\<close> on ASCII text.\<close>

definition is_space :: "char \<Rightarrow> bool" where
  "is_space c \<longleftrightarrow> c \<in> {CHR '' '', tab, newline, CHR 0x0B, CHR 0x0C, CHR 0x0D}"

definition trim_space :: "string \<Rightarrow> string" where
  "trim_space s = rev (dropWhile is_space (rev (dropWhile is_space s)))"

lemma dropWhile_none: "\<forall>c\<in>set s. \<not> P c \<Longrightarrow> dropWhile P s = s"
  by (cases s) auto

lemma trim_space_id: "\<forall>c\<in>set s. \<not> is_space c \<Longrightarrow> trim_space s = s"
  by (simp add: trim_space_def dropWhile_none)

text \<open>\<open>strings.LastIndex(s, "@")\<close> split: the text before and after the last occurrence.\<close>

fun cut_last :: "char \<Rightarrow> string \<Rightarrow> (string \<times> string) option" where
  "cut_last c [] = None"
| "cut_last c (x # xs) =
     (case cut_last c xs of
        Some (a, b) \<Rightarrow> Some (x # a, b)
      | None \<Rightarrow> (if x = c then Some ([], xs) else None))"

lemma cut_last_None: "cut_last c s = None \<longleftrightarrow> c \<notin> set s"
  by (induction s) (auto split: option.splits)

lemma cut_last_SomeD: "cut_last c s = Some (a, b) \<Longrightarrow> s = a @ c # b \<and> c \<notin> set b"
  by (induction s arbitrary: a b) (auto simp: cut_last_None split: option.splits if_splits)

lemma cut_last_append: "c \<notin> set b \<Longrightarrow> cut_last c (a @ c # b) = Some (a, b)"
proof (induction a)
  case Nil
  then have "cut_last c b = None" by (simp add: cut_last_None)
  then show ?case by simp
qed simp

lemma append_sep_eq:
  "c \<notin> set xs \<Longrightarrow> c \<notin> set ys \<Longrightarrow> xs @ c # us = ys @ c # vs \<Longrightarrow> xs = ys \<and> us = vs"
proof (induction xs arbitrary: ys)
  case Nil
  then show ?case by (cases ys) auto
next
  case (Cons x xs)
  then show ?case by (cases ys) auto
qed

subsection \<open>Character classes and the regular expressions of the source\<close>

definition in_range :: "char \<Rightarrow> char \<Rightarrow> char \<Rightarrow> bool" where
  "in_range lo hi c \<longleftrightarrow> of_char lo \<le> (of_char c :: nat) \<and> (of_char c :: nat) \<le> of_char hi"

definition is_digit :: "char \<Rightarrow> bool" where
  "is_digit = in_range (CHR ''0'') (CHR ''9'')"

definition is_lower :: "char \<Rightarrow> bool" where
  "is_lower = in_range (CHR ''a'') (CHR ''z'')"

definition is_upper :: "char \<Rightarrow> bool" where
  "is_upper = in_range (CHR ''A'') (CHR ''Z'')"

definition all_digits :: "string \<Rightarrow> bool" where
  "all_digits s \<longleftrightarrow> s \<noteq> [] \<and> list_all is_digit s"

lemmas char_class_defs [go_defs] = is_digit_def is_lower_def is_upper_def in_range_def

subsection \<open>Decimal numbers\<close>

definition digit_char :: "nat \<Rightarrow> char" where
  "digit_char d = char_of (48 + d)"

definition digit_val :: "char \<Rightarrow> nat" where
  "digit_val c = of_char c - 48"

fun show_nat :: "nat \<Rightarrow> string" where
  "show_nat n = (if n < 10 then [digit_char n] else show_nat (n div 10) @ [digit_char (n mod 10)])"

declare show_nat.simps [simp del]

definition read_nat :: "string \<Rightarrow> nat" where
  "read_nat s = foldl (\<lambda>n c. 10 * n + digit_val c) 0 s"

lemma of_char_digit_char: "d < 10 \<Longrightarrow> (of_char (digit_char d) :: nat) = 48 + d"
  by (simp add: digit_char_def of_char_of take_bit_nat_eq_self)

lemma digit_val_digit_char: "d < 10 \<Longrightarrow> digit_val (digit_char d) = d"
  by (simp add: digit_val_def of_char_digit_char)

lemma is_digit_digit_char: "d < 10 \<Longrightarrow> is_digit (digit_char d)"
  by (simp add: is_digit_def in_range_def of_char_digit_char)

lemma read_show_nat [simp]: "read_nat (show_nat n) = n"
proof (induction n rule: show_nat.induct)
  case (1 n)
  show ?case
  proof (cases "n < 10")
    case True
    then show ?thesis by (simp add: show_nat.simps [of n] read_nat_def digit_val_digit_char)
  next
    case False
    with 1 have "read_nat (show_nat (n div 10)) = n div 10" by simp
    with False show ?thesis
      by (simp add: show_nat.simps [of n] read_nat_def digit_val_digit_char)
  qed
qed

lemma show_nat_digits: "list_all is_digit (show_nat n)"
proof (induction n rule: show_nat.induct)
  case (1 n)
  then show ?case
    by (cases "n < 10") (simp_all add: show_nat.simps [of n] is_digit_digit_char)
qed

lemma show_nat_not_Nil [simp]: "show_nat n \<noteq> []"
  by (simp add: show_nat.simps [of n])

lemma show_nat_inject [simp]: "show_nat m = show_nat n \<longleftrightarrow> m = n"
  by (metis read_show_nat)

lemma show_nat_no_char: "\<not> is_digit c \<Longrightarrow> c \<notin> set (show_nat n)"
  using show_nat_digits [of n] by (auto simp: list_all_iff)

definition int64_max :: int where "int64_max = 9223372036854775807"
definition int64_min :: int where "int64_min = -9223372036854775808"

text \<open>\<open>strconv.Atoi\<close>: an optional sign, digits, and a 64-bit range check.\<close>

definition atoi :: "string \<Rightarrow> int option" where
  "atoi s =
     (let (neg, ds) = (case s of
            [] \<Rightarrow> (False, [])
          | c # cs \<Rightarrow> (if c = CHR ''-'' then (True, cs)
                       else if c = CHR ''+'' then (False, cs) else (False, s)));
          v = (if neg then - int (read_nat ds) else int (read_nat ds))
      in if all_digits ds \<and> int64_min \<le> v \<and> v \<le> int64_max then Some v else None)"

lemma atoi_show_nat: "int n \<le> int64_max \<Longrightarrow> atoi (show_nat n) = Some (int n)"
proof -
  assume n: "int n \<le> int64_max"
  obtain c cs where s: "show_nat n = c # cs" by (cases "show_nat n") auto
  have "is_digit c" using show_nat_digits [of n] by (simp add: s)
  then have "c \<noteq> CHR ''-''" "c \<noteq> CHR ''+''" by (auto simp: is_digit_def in_range_def)
  moreover have "all_digits (show_nat n)" by (simp add: all_digits_def show_nat_digits)
  moreover have "read_nat (c # cs) = n" by (metis read_show_nat s)
  ultimately show ?thesis using n by (simp add: atoi_def s Let_def int64_min_def)
qed

subsection \<open>Machine integers and durations\<close>

text \<open>Two's complement wrap-around of a 64-bit result.\<close>

definition wrap64 :: "int \<Rightarrow> int" where
  "wrap64 x = (x + 2 ^ 63) mod 2 ^ 64 - 2 ^ 63"

lemma wrap64_bounds: "int64_min \<le> wrap64 x" "wrap64 x \<le> int64_max"
  by (simp_all add: wrap64_def int64_min_def int64_max_def)

lemma wrap64_id: "int64_min \<le> x \<Longrightarrow> x \<le> int64_max \<Longrightarrow> wrap64 x = x"
  by (simp add: wrap64_def int64_min_def int64_max_def)

text \<open>\<open>time.Time.Sub\<close> saturates at the ends of the duration range.\<close>

definition time_sub :: "time \<Rightarrow> time \<Rightarrow> duration" where
  "time_sub t u = max int64_min (min int64_max (t - u))"

lemma time_sub_bounds: "int64_min \<le> time_sub t u" "time_sub t u \<le> int64_max"
  by (simp_all add: time_sub_def int64_min_def int64_max_def)

text \<open>Go's integer division truncates towards zero.\<close>

definition go_quot :: "int \<Rightarrow> int \<Rightarrow> int" where
  "go_quot n d = (let q = \<bar>n\<bar> div \<bar>d\<bar> in if (n < 0) = (d < 0) then q else - q)"

lemma go_quot_nonneg: "0 \<le> n \<Longrightarrow> 0 < d \<Longrightarrow> go_quot n d = n div d"
  by (simp add: go_quot_def Let_def)

definition second :: duration where "second = 1000000000"
definition minute :: duration where "minute = 60 * second"
definition hour :: duration where "hour = 60 * minute"

lemmas time_units = second_def minute_def hour_def

definition succeeds :: "('b \<Rightarrow> bool) \<Rightarrow> 'a + 'b \<Rightarrow> bool" where
  "succeeds P x = (case x of Inl e \<Rightarrow> False | Inr y \<Rightarrow> P y)"

lemma succeeds_iff: "succeeds P x \<longleftrightarrow> (\<exists>y. x = Inr y \<and> P y)"
  by (simp add: succeeds_def split: sum.splits)

lemma map_sum_Inr_iff [simp]: "map_sum id f x = Inr y \<longleftrightarrow> (\<exists>z. x = Inr z \<and> y = f z)"
  by (cases x) auto

subsection \<open>Reachable states\<close>

inductive reach :: "('s \<Rightarrow> bool) \<Rightarrow> ('s \<Rightarrow> 's \<Rightarrow> bool) \<Rightarrow> 's \<Rightarrow> bool" for init step where
  reach_init: "init s \<Longrightarrow> reach init step s"
| reach_step: "reach init step s \<Longrightarrow> step s t \<Longrightarrow> reach init step t"

text \<open>
  The contract of a state machine: an invariant that holds initially and that every step keeps.
  A machine interprets it on its own step relation and gets the invariant on every reachable state.
\<close>

locale invariant_system =
  fixes init :: "'s \<Rightarrow> bool"
    and step :: "'s \<Rightarrow> 's \<Rightarrow> bool"
    and inv :: "'s \<Rightarrow> bool"
  assumes inv_init: "init s \<Longrightarrow> inv s"
    and inv_step: "inv s \<Longrightarrow> step s t \<Longrightarrow> inv t"
begin

lemma reach_inv: "reach init step s \<Longrightarrow> inv s"
  by (induction rule: reach.induct) (blast intro: inv_init inv_step)+

lemma steps_inv: "step\<^sup>*\<^sup>* s t \<Longrightarrow> inv s \<Longrightarrow> inv t"
  by (induction rule: rtranclp_induct) (blast intro: inv_step)+

end

end
