(* ===== verification/Go_Lib.thy ===== *)
theory Go_Lib
  imports Go_Prelude
begin

text \<open>
  The parts of Go's standard library the source's rules are written in: \<open>path.Match\<close> patterns,
  \<open>time.ParseDuration\<close>, and the decimal numbers \<open>strconv.ParseFloat\<close> accepts under the
  source's own syntax check. Names and patterns are byte strings; a character class or \<open>?\<close>
  consumes one byte, which is Go's behaviour on ASCII text.
\<close>

subsection \<open>Package path: Match\<close>

text \<open>\<open>scanChunk\<close>: leading stars are dropped, then everything up to the next star that is not
  inside a character class.\<close>

fun scan_body :: "bool \<Rightarrow> string \<Rightarrow> string \<times> string" where
  "scan_body inrange [] = ([], [])"
| "scan_body inrange (c # cs) =
     (if c = backslash then
        (case cs of
           [] \<Rightarrow> ([c], [])
         | d # ds \<Rightarrow> (let (a, b) = scan_body inrange ds in (c # d # a, b)))
      else if c = CHR ''*'' \<and> \<not> inrange then ([], c # cs)
      else (let (a, b) = scan_body
              (if c = CHR ''['' then True else if c = CHR '']'' then False else inrange) cs
            in (c # a, b)))"

definition scan_chunk :: "string \<Rightarrow> bool \<times> string \<times> string" where
  "scan_chunk p = (let q = dropWhile (\<lambda>c. c = CHR ''*'') p
                   in (has_prefix p ''*'', scan_body False q))"

text \<open>\<open>getEsc\<close>: one possibly escaped character of a class; \<open>None\<close> is \<open>ErrBadPattern\<close>. The
  rest must not be empty, since the class still has to be closed.\<close>

fun get_esc :: "string \<Rightarrow> (char \<times> string) option" where
  "get_esc [] = None"
| "get_esc (c # cs) =
     (if c = CHR ''-'' \<or> c = CHR '']'' then None
      else if c = backslash then (case cs of d # e # es \<Rightarrow> Some (d, e # es) | _ \<Rightarrow> None)
      else (case cs of [] \<Rightarrow> None | _ # _ \<Rightarrow> Some (c, cs)))"

lemma get_esc_length: "get_esc s = Some (r, t) \<Longrightarrow> length t < length s"
  by (cases s rule: get_esc.cases) (auto split: if_splits list.splits)

text \<open>The ranges of a character class: whether \<open>r\<close> is in one of them, and the pattern after the
  closing bracket. The character is \<open>None\<close> once the match has failed (Go's zero rune).\<close>

definition rune_in :: "char option \<Rightarrow> char \<Rightarrow> char \<Rightarrow> bool" where
  "rune_in r lo hi =
     (let n = (case r of None \<Rightarrow> (0 :: nat) | Some c \<Rightarrow> of_char c)
      in of_char lo \<le> n \<and> n \<le> of_char hi)"

function class_ranges :: "char option \<Rightarrow> nat \<Rightarrow> bool \<Rightarrow> string \<Rightarrow> (bool \<times> string) option" where
  "class_ranges r n hit chunk =
     (if 0 < n \<and> chunk \<noteq> [] \<and> hd chunk = CHR '']'' then Some (hit, tl chunk)
      else (case get_esc chunk of
              None \<Rightarrow> None
            | Some (lo, rest) \<Rightarrow>
                (if hd rest = CHR ''-'' then
                   (case get_esc (tl rest) of
                      None \<Rightarrow> None
                    | Some (hi, rest2) \<Rightarrow> class_ranges r (Suc n) (hit \<or> rune_in r lo hi) rest2)
                 else class_ranges r (Suc n) (hit \<or> rune_in r lo lo) rest)))"
  by pat_completeness auto
termination
proof (relation "measure (\<lambda>(r, n, hit, chunk). length chunk)", goal_cases)
  case (2 r n hit chunk x lo rest xa hi rest2)
  then have "length rest < length chunk" "length rest2 < length (tl rest)"
    by (auto dest: get_esc_length)
  then show ?case by simp
next
  case (3 r n hit chunk x lo rest)
  then show ?case by (auto dest: get_esc_length)
qed simp

declare class_ranges.simps [simp del]

lemma class_ranges_length:
  "class_ranges r n hit chunk = Some (m, t) \<Longrightarrow> length t < length chunk \<or> (chunk = [] \<and> t = [])"
proof (induction r n hit chunk rule: class_ranges.induct)
  case (1 r n hit chunk)
  show ?case
  proof (cases "0 < n \<and> chunk \<noteq> [] \<and> hd chunk = CHR '']''")
    case True
    with 1(3) show ?thesis by (auto simp: class_ranges.simps [of r n hit chunk])
  next
    case False
    note F = False
    from 1(3) F obtain lo rest where e: "get_esc chunk = Some (lo, rest)"
      by (auto simp: class_ranges.simps [of r n hit chunk] split: option.splits)
    then have l: "length rest < length chunk" by (rule get_esc_length)
    show ?thesis
    proof (cases "hd rest = CHR ''-''")
      case True
      from 1(3) F e True obtain hi rest2 where e2: "get_esc (tl rest) = Some (hi, rest2)"
        by (auto simp: class_ranges.simps [of r n hit chunk] split: option.splits)
      have "length rest2 < length (tl rest)" using e2 by (rule get_esc_length)
      moreover have "class_ranges r (Suc n) (hit \<or> rune_in r lo hi) rest2 = Some (m, t)"
        using 1(3) F e True e2 by (simp add: class_ranges.simps [of r n hit chunk])
      ultimately show ?thesis using 1(1) [OF F e refl True e2 refl] l by auto
    next
      case False
      then have "class_ranges r (Suc n) (hit \<or> rune_in r lo lo) rest = Some (m, t)"
        using 1(3) F e by (simp add: class_ranges.simps [of r n hit chunk])
      then show ?thesis using 1(2) [OF F e refl False] l by auto
    qed
  qed
qed

text \<open>\<open>matchChunk\<close>: \<open>None\<close> is \<open>ErrBadPattern\<close>; \<open>Some None\<close> no match; \<open>Some (Some s)\<close> a
  match leaving \<open>s\<close>. After a failure the rest of the chunk is still checked for syntax.\<close>

function match_chunk :: "bool \<Rightarrow> string \<Rightarrow> string \<Rightarrow> string option option" where
  "match_chunk failed chunk s =
     (case chunk of
        [] \<Rightarrow> Some (if failed then None else Some s)
      | c # cs \<Rightarrow>
          (let failed = (failed \<or> s = []) in
           if c = CHR ''['' then
             (let r = (if failed then None else Some (hd s));
                  s' = (if failed then s else tl s);
                  negated = has_prefix cs ''^'';
                  body = (if negated then tl cs else cs)
              in (case class_ranges r 0 False body of
                    None \<Rightarrow> None
                  | Some (hit, rest) \<Rightarrow> match_chunk (failed \<or> hit = negated) rest s'))
           else if c = CHR ''?'' then
             (if failed then match_chunk True cs s
              else match_chunk (hd s = CHR ''/'') cs (tl s))
           else if c = backslash \<and> cs = [] then None
           else
             (let d = (if c = backslash then hd cs else c);
                  rest = (if c = backslash then tl cs else cs)
              in if failed then match_chunk True rest s
                 else match_chunk (d \<noteq> hd s) rest (tl s))))"
  by pat_completeness auto
termination
proof (relation "measure (\<lambda>(failed, chunk, s). length chunk)", goal_cases)
  case (2 failed chunk s c cs x xa xb xc xd xe hit rest)
  then have "length rest < length xd \<or> (xd = [] \<and> rest = [])"
    by (auto dest: class_ranges_length)
  moreover have "length xd \<le> length cs" using 2 by auto
  ultimately show ?case using 2(1) by auto
qed auto

declare match_chunk.simps [simp del]

text \<open>The outer loop of \<open>Match\<close>. \<open>skip_star\<close> is the inner search: the first position, not
  beyond a slash, at which the chunk matches (and exhausts the name when it is the last chunk).\<close>

fun skip_star :: "string \<Rightarrow> bool \<Rightarrow> string \<Rightarrow> string option option" where
  "skip_star chunk final [] = Some None"
| "skip_star chunk final (c # cs) =
     (if c = CHR ''/'' then Some None
      else (case match_chunk False chunk cs of
              None \<Rightarrow> None
            | Some None \<Rightarrow> skip_star chunk final cs
            | Some (Some t) \<Rightarrow> (if final \<and> t \<noteq> [] then skip_star chunk final cs else Some (Some t))))"

lemma scan_body_length: "length (snd (scan_body b q)) \<le> length q"
proof (induction b q rule: scan_body.induct)
  case (2 inrange c cs)
  show ?case
  proof (cases "c = backslash")
    case True
    then show ?thesis
      using 2(1) [OF True] by (cases cs) (auto simp: split_def Let_def intro: le_SucI)
  next
    case False
    then show ?thesis using 2(2) by (auto simp: split_def Let_def le_SucI)
  qed
qed simp

lemma scan_body_shorter:
  assumes "q \<noteq> []" "hd q \<noteq> CHR ''*''"
  shows "length (snd (scan_body False q)) < length q"
proof -
  obtain c cs where q: "q = c # cs" and c: "c \<noteq> CHR ''*''" using assms by (cases q) auto
  show ?thesis
  proof (cases "c = backslash")
    case True
    then show ?thesis using q
      by (cases cs) (auto simp: split_def Let_def less_Suc_eq_le intro: le_SucI scan_body_length)
  next
    case False
    then show ?thesis using q c by (simp add: split_def Let_def less_Suc_eq_le scan_body_length)
  qed
qed

lemma scan_chunk_shorter:
  assumes "p \<noteq> []"
  shows "length (snd (snd (scan_chunk p))) < length p"
proof -
  let ?q = "dropWhile (\<lambda>c. c = CHR ''*'') p"
  have len: "length ?q \<le> length p" by (simp add: length_dropWhile_le)
  show ?thesis
  proof (cases "?q = []")
    case True
    then show ?thesis using assms by (simp add: scan_chunk_def Let_def True del: dropWhile_eq_Nil_conv)
  next
    case False
    then have "hd ?q \<noteq> CHR ''*''" by (rule hd_dropWhile)
    with False have "length (snd (scan_body False ?q)) < length ?q" by (rule scan_body_shorter)
    with len show ?thesis by (simp add: scan_chunk_def Let_def)
  qed
qed

function pattern_ok :: "string \<Rightarrow> bool" where
  "pattern_ok p =
     (if p = [] then True
      else match_chunk False (fst (snd (scan_chunk p))) [] \<noteq> None \<and> pattern_ok (snd (snd (scan_chunk p))))"
  by pat_completeness auto
termination
  by (relation "measure length") (simp_all add: scan_chunk_shorter)

declare pattern_ok.simps [simp del]

function path_match :: "string \<Rightarrow> string \<Rightarrow> bool option" where
  "path_match pattern name =
     (if pattern = [] then Some (name = [])
      else let (star, chunk, rest) = scan_chunk pattern in
        if star \<and> chunk = [] then Some (CHR ''/'' \<notin> set name)
        else (case match_chunk False chunk name of
                None \<Rightarrow> None
              | Some here \<Rightarrow>
                  (if here \<noteq> None \<and> (the here = [] \<or> rest \<noteq> []) then path_match rest (the here)
                   else (case (if star then skip_star chunk (rest = []) name else Some None) of
                           None \<Rightarrow> None
                         | Some (Some t) \<Rightarrow> path_match rest t
                         | Some None \<Rightarrow> (if pattern_ok rest then Some False else None)))))"
  by pat_completeness auto
termination
  by (relation "measure (\<lambda>(p, n). length p)") (auto, (metis scan_chunk_shorter snd_conv)+)

declare path_match.simps [simp del]

text \<open>A literal pattern (no metacharacter) matches exactly itself.\<close>

definition is_meta :: "char \<Rightarrow> bool" where
  "is_meta c \<longleftrightarrow> c \<in> {CHR ''*'', CHR ''?'', CHR ''['', CHR '']'', backslash}"

lemma scan_body_literal: "\<forall>c\<in>set q. \<not> is_meta c \<Longrightarrow> scan_body False q = (q, [])"
  by (induction q) (auto simp: is_meta_def)

lemma match_chunk_failed_literal:
  "\<forall>c\<in>set q. \<not> is_meta c \<Longrightarrow> match_chunk True q s = Some None"
proof (induction q arbitrary: s)
  case Nil
  then show ?case by (simp add: match_chunk.simps)
next
  case (Cons c q)
  then show ?case by (subst match_chunk.simps) (auto simp: is_meta_def Let_def)
qed

lemma match_chunk_literal:
  "\<forall>c\<in>set q. \<not> is_meta c \<Longrightarrow>
     match_chunk False q s = Some (if has_prefix s q then Some (drop (length q) s) else None)"
proof (induction q arbitrary: s)
  case Nil
  then show ?case by (simp add: match_chunk.simps has_prefix_def)
next
  case (Cons c q)
  show ?case
  proof (cases s)
    case Nil
    with Cons.prems show ?thesis
      by (subst match_chunk.simps)
        (auto simp: is_meta_def Let_def has_prefix_def match_chunk_failed_literal)
  next
    case (Cons d s')
    show ?thesis
    proof (cases "c = d")
      case True
      with Cons Cons.prems Cons.IH [of s'] show ?thesis
        by (subst match_chunk.simps) (auto simp: is_meta_def Let_def has_prefix_def)
    next
      case False
      with Cons Cons.prems show ?thesis
        by (subst match_chunk.simps)
          (auto simp: is_meta_def Let_def has_prefix_def match_chunk_failed_literal)
    qed
  qed
qed

lemma path_match_literal:
  assumes "\<forall>c\<in>set p. \<not> is_meta c"
  shows "path_match p name = Some (p = name)"
proof (cases "p = []")
  case True
  then show ?thesis by (auto simp: path_match.simps)
next
  case False
  then have star: "hd p \<noteq> CHR ''*''" using assms by (cases p) (auto simp: is_meta_def)
  with False have "dropWhile (\<lambda>c. c = CHR ''*'') p = p" by (cases p) auto
  moreover from False star have "\<not> has_prefix p ''*''" by (cases p) (auto simp: has_prefix_def)
  ultimately have sc: "scan_chunk p = (False, p, [])"
    by (simp add: scan_chunk_def scan_body_literal [OF assms])
  show ?thesis
    using False by (subst path_match.simps)
      (auto simp: sc match_chunk_literal [OF assms] path_match.simps [of "[]"] pattern_ok.simps
        has_prefix_iff)
qed

subsection \<open>Package time: ParseDuration\<close>

text \<open>
  A sequence of decimal numbers, each with an optional fraction and a unit suffix. \<open>None\<close> is any
  parse error, including a value beyond the 64-bit range. Go computes the fractional part in
  floating point and truncates; the model truncates the exact value.
\<close>

definition unit_of :: "string \<Rightarrow> int option" where
  "unit_of u =
     (if u = ''ns'' then Some 1
      else if u = ''us'' \<or> u = [CHR 0xC2, CHR 0xB5, CHR ''s''] \<or> u = [CHR 0xCE, CHR 0xBC, CHR ''s'']
      then Some 1000
      else if u = ''ms'' then Some 1000000
      else if u = ''s'' then Some second
      else if u = ''m'' then Some minute
      else if u = ''h'' then Some hour
      else None)"

definition duration_term :: "string \<Rightarrow> (int \<times> string) option" where
  "duration_term s =
     (let whole = takeWhile is_digit s; r1 = dropWhile is_digit s;
          dot = has_prefix r1 ''.'';
          frac = (if dot then takeWhile is_digit (tl r1) else []);
          r2 = (if dot then dropWhile is_digit (tl r1) else r1);
          u = takeWhile (\<lambda>c. \<not> is_digit c \<and> c \<noteq> CHR ''.'') r2;
          r3 = dropWhile (\<lambda>c. \<not> is_digit c \<and> c \<noteq> CHR ''.'') r2
      in if (whole = [] \<and> frac = []) \<or> u = [] then None
         else case unit_of u of
                None \<Rightarrow> None
              | Some k \<Rightarrow> Some (int (read_nat whole) * k
                                + (int (read_nat frac) * k) div 10 ^ length frac, r3))"

lemma length_tail_dropWhile: "xs = takeWhile P ys \<Longrightarrow> xs \<noteq> [] \<Longrightarrow> length (dropWhile P ys) < length ys"
  by (metis add_less_cancel_right add_0 length_append length_greater_0_conv takeWhile_dropWhile_id)

lemma duration_term_length:
  assumes "duration_term s = Some (v, r)"
  shows "length r < length s"
proof -
  define r1 where "r1 = dropWhile is_digit s"
  define r2 where "r2 = (if has_prefix r1 ''.'' then dropWhile is_digit (tl r1) else r1)"
  let ?P = "\<lambda>c. \<not> is_digit c \<and> c \<noteq> CHR ''.''"
  have "r = dropWhile ?P r2" "takeWhile ?P r2 \<noteq> []"
    using assms unfolding duration_term_def Let_def r1_def [symmetric] r2_def [symmetric]
    by (auto split: if_splits option.splits)
  then have "length r < length r2" using length_tail_dropWhile [OF refl] by blast
  also have "length r2 \<le> length r1"
    unfolding r2_def by (auto intro: order_trans [OF length_dropWhile_le])
  also have "length r1 \<le> length s" by (simp add: r1_def length_dropWhile_le)
  finally show ?thesis .
qed

function duration_terms :: "string \<Rightarrow> int \<Rightarrow> int option" where
  "duration_terms s acc =
     (if s = [] then Some acc
      else case duration_term s of
             None \<Rightarrow> None
           | Some (v, r) \<Rightarrow> (if acc + v > int64_max + 1 then None else duration_terms r (acc + v)))"
  by pat_completeness auto
termination
  by (relation "measure (\<lambda>(s, acc). length s)") (auto dest: duration_term_length)

declare duration_terms.simps [simp del]

definition parse_duration :: "string \<Rightarrow> duration option" where
  "parse_duration s =
     (let neg = has_prefix s ''-'';
          body = (if neg \<or> has_prefix s ''+'' then tl s else s)
      in if body = ''0'' then Some 0
         else if body = [] then None
         else case duration_terms body 0 of
                None \<Rightarrow> None
              | Some d \<Rightarrow> (if neg then Some (- d) else if d > int64_max then None else Some d))"

text \<open>\<open>d, err := time.ParseDuration(s); err == nil && d > 0\<close>\<close>

definition positive_duration :: "string \<Rightarrow> bool" where
  "positive_duration s \<longleftrightarrow> (case parse_duration s of None \<Rightarrow> False | Some d \<Rightarrow> 0 < d)"

definition duration_or :: "string \<Rightarrow> duration \<Rightarrow> duration" where
  "duration_or s d = (case parse_duration s of None \<Rightarrow> d | Some v \<Rightarrow> if 0 < v then v else d)"

lemma duration_or_positive: "0 < d \<Longrightarrow> 0 < duration_or s d"
  by (auto simp: duration_or_def split: option.splits)

lemma duration_or_parsed:
  "positive_duration s \<Longrightarrow> parse_duration s = Some (duration_or s d)"
  by (auto simp: duration_or_def positive_duration_def split: option.splits)

subsection \<open>Package strconv: ParseFloat on plain decimals\<close>

text \<open>
  \<open>cpuCount\<close> is the syntax \<open>[0-9]+(\.[0-9]+)?\<close>. On such a text \<open>ParseFloat(s, 64)\<close> fails only
  when the value rounds to infinity, and yields 0 only when it rounds to 0; both bounds are exact
  comparisons of the decimal \<open>digits / 10 ^ scale\<close>.
\<close>

definition decimal_parts :: "string \<Rightarrow> (nat \<times> nat) option" where
  "decimal_parts s =
     (case split_char (CHR ''.'') s of
        [a] \<Rightarrow> (if all_digits a then Some (read_nat a, 0) else None)
      | [a, b] \<Rightarrow> (if all_digits a \<and> all_digits b then Some (read_nat (a @ b), length b) else None)
      | _ \<Rightarrow> None)"

definition positive_cpus :: "string \<Rightarrow> bool" where
  "positive_cpus s \<longleftrightarrow>
     (case decimal_parts s of
        None \<Rightarrow> False
      | Some (d, k) \<Rightarrow> 10 ^ k < d * 2 ^ 1075 \<and> d < (2 ^ 1024 - 2 ^ 970) * 10 ^ k)"

end
