(* ===== verification/Go_Encoding.thy ===== *)
theory Go_Encoding
  imports Go_Prelude
begin

text \<open>
  \<open>encoding/hex\<close> and \<open>encoding/base64\<close> (\<open>StdEncoding\<close>) as the source uses them. The
  base64 decoder is Go's non-strict one: carriage returns and newlines are skipped, padding is
  required and must end the text, and the unused low bits of a padded group are ignored.
\<close>

definition byte :: "char \<Rightarrow> nat" where
  "byte c = of_char c"

lemma byte_less [simp]: "byte c < 256"
  by (simp add: byte_def nat_of_char_less_256)

lemma char_of_byte [simp]: "char_of (byte c) = c"
  by (simp add: byte_def)

subsection \<open>Hexadecimal\<close>

definition hex_digit :: "nat \<Rightarrow> char" where
  "hex_digit n = (if n < 10 then char_of (48 + n) else char_of (87 + n))"

definition hex_encode :: "string \<Rightarrow> string" where
  "hex_encode s = concat (map (\<lambda>c. [hex_digit (byte c div 16), hex_digit (byte c mod 16)]) s)"

definition is_hex :: "char \<Rightarrow> bool" where
  "is_hex c \<longleftrightarrow> is_digit c \<or> in_range (CHR ''a'') (CHR ''f'') c"

text \<open>A full lowercase object id: 40 or 64 hexadecimal digits.\<close>

definition full_hex :: "string \<Rightarrow> bool" where
  "full_hex s \<longleftrightarrow> (length s = 40 \<or> length s = 64) \<and> list_all is_hex s"

lemma length_hex_encode [simp]: "length (hex_encode s) = 2 * length s"
  by (induction s) (simp_all add: hex_encode_def)

lemma hex_digit_is_hex: "n < 16 \<Longrightarrow> is_hex (hex_digit n)"
  by (auto simp: is_hex_def hex_digit_def is_digit_def in_range_def of_char_of
      take_bit_nat_eq_self)

lemma hex_encode_is_hex: "list_all is_hex (hex_encode s)"
proof (induction s)
  case (Cons c s)
  have "byte c div 16 < 16" using byte_less [of c] by (simp add: div_less_iff_less_mult)
  then show ?case using Cons by (simp add: hex_encode_def hex_digit_is_hex)
qed (simp add: hex_encode_def)

subsection \<open>Base64\<close>

definition b64_char :: "nat \<Rightarrow> char" where
  "b64_char n = char_of (if n < 26 then n + 65 else if n < 52 then n + 71 else if n < 62 then n - 4
                         else if n = 62 then 43 else 47)"

definition b64_val :: "char \<Rightarrow> nat option" where
  "b64_val c =
     (let n = byte c in
      if 65 \<le> n \<and> n \<le> 90 then Some (n - 65)
      else if 97 \<le> n \<and> n \<le> 122 then Some (n - 71)
      else if 48 \<le> n \<and> n \<le> 57 then Some (n + 4)
      else if n = 43 then Some 62
      else if n = 47 then Some 63
      else None)"

fun b64_encode :: "string \<Rightarrow> string" where
  "b64_encode [] = []"
| "b64_encode [a] =
     [b64_char (byte a div 4), b64_char (byte a mod 4 * 16), CHR ''='', CHR ''='']"
| "b64_encode [a, b] =
     [b64_char (byte a div 4), b64_char (byte a mod 4 * 16 + byte b div 16),
      b64_char (byte b mod 16 * 4), CHR ''='']"
| "b64_encode (a # b # c # rest) =
     [b64_char (byte a div 4), b64_char (byte a mod 4 * 16 + byte b div 16),
      b64_char (byte b mod 16 * 4 + byte c div 64), b64_char (byte c mod 64)] @ b64_encode rest"

fun b64_quads :: "string \<Rightarrow> string option" where
  "b64_quads [] = Some []"
| "b64_quads (a # b # c # d # rest) =
     (case (b64_val a, b64_val b) of
        (Some x, Some y) \<Rightarrow>
          (if c = CHR ''='' \<and> d = CHR ''='' \<and> rest = [] then Some [char_of (x * 4 + y div 16)]
           else (case b64_val c of
                   None \<Rightarrow> None
                 | Some z \<Rightarrow>
                     (if d = CHR ''='' \<and> rest = []
                      then Some [char_of (x * 4 + y div 16), char_of (y mod 16 * 16 + z div 4)]
                      else (case (b64_val d, b64_quads rest) of
                              (Some w, Some ds) \<Rightarrow>
                                Some (char_of (x * 4 + y div 16) # char_of (y mod 16 * 16 + z div 4)
                                      # char_of (z mod 4 * 64 + w) # ds)
                            | _ \<Rightarrow> None))))
      | _ \<Rightarrow> None)"
| "b64_quads _ = None"

definition b64_decode :: "string \<Rightarrow> string option" where
  "b64_decode s = b64_quads (filter (\<lambda>c. c \<noteq> CHR 0x0D \<and> c \<noteq> newline) s)"

lemma byte_b64_char:
  "i < 64 \<Longrightarrow> byte (b64_char i) = (if i < 26 then i + 65 else if i < 52 then i + 71 else if i < 62 then i - 4
                         else if i = 62 then 43 else 47)"
  by (simp add: byte_def b64_char_def of_char_of take_bit_nat_eq_self)

lemma b64_char_facts:
  assumes "i < 64"
  shows "b64_val (b64_char i) = Some i" "b64_char i \<noteq> CHR ''=''"
    "b64_char i \<noteq> CHR 0x0D" "b64_char i \<noteq> newline" "\<not> is_space (b64_char i)"
proof -
  show "b64_val (b64_char i) = Some i"
    using assms by (auto simp: b64_val_def byte_b64_char Let_def)
  have "byte (b64_char i) \<noteq> 61" "byte (b64_char i) \<noteq> 13" "byte (b64_char i) \<noteq> 10"
    using assms by (auto simp: byte_b64_char)
  then show "b64_char i \<noteq> CHR ''=''" "b64_char i \<noteq> CHR 0x0D" "b64_char i \<noteq> newline"
    by (auto simp: byte_def)
  have "32 < byte (b64_char i)" using assms by (auto simp: byte_b64_char)
  then show "\<not> is_space (b64_char i)" by (auto simp: is_space_def byte_def)
qed

lemma byte_div [simp]: "byte a div 4 < 64" "byte a div 16 < 16" "byte a div 64 < 4"
  using byte_less [of a] by (simp_all add: div_less_iff_less_mult)

lemma byte_sextets:
  "byte a mod 4 * 16 < 64" "byte a mod 4 * 16 + byte b div 16 < 64"
  "byte b mod 16 * 4 < 64" "byte b mod 16 * 4 + byte c div 64 < 64" "byte c mod 64 < 64"
proof -
  have "byte a mod 4 < 4" "byte b mod 16 < 16" by simp_all
  moreover have "byte b div 16 < 16" "byte c div 64 < 4" by simp_all
  ultimately show "byte a mod 4 * 16 < 64" "byte a mod 4 * 16 + byte b div 16 < 64"
    "byte b mod 16 * 4 < 64" "byte b mod 16 * 4 + byte c div 64 < 64" by linarith+
qed simp

lemma b64_quads_encode: "b64_quads (b64_encode s) = Some s"
proof (induction s rule: b64_encode.induct)
  case (2 a)
  show ?case by (simp add: b64_char_facts byte_sextets)
next
  case (3 a b)
  show ?case by (simp add: b64_char_facts byte_sextets)
next
  case (4 a b c rest)
  then show ?case by (simp add: b64_char_facts byte_sextets)
qed simp

lemma eq_not_space: "\<not> is_space (CHR ''='')"
  by (simp add: is_space_def)

lemma b64_encode_no_space: "\<forall>c\<in>set (b64_encode s). \<not> is_space c"
proof (induction s rule: b64_encode.induct)
  case (2 a)
  show ?case by (simp add: b64_char_facts byte_sextets eq_not_space)
next
  case (3 a b)
  show ?case by (simp add: b64_char_facts byte_sextets eq_not_space)
next
  case (4 a b c rest)
  then show ?case by (simp add: b64_char_facts byte_sextets eq_not_space)
qed simp

lemma b64_roundtrip [simp]: "b64_decode (b64_encode s) = Some s"
proof -
  have "filter (\<lambda>c. c \<noteq> CHR 0x0D \<and> c \<noteq> newline) (b64_encode s) = b64_encode s"
    using b64_encode_no_space [of s] by (intro filter_True) (auto simp: is_space_def)
  then show ?thesis by (simp add: b64_decode_def b64_quads_encode)
qed

end
