(* ===== verification/Attest.thy ===== *)
theory Attest
  imports Go_Encoding
begin

text \<open>
  Package \<open>line/attest\<close>: DSSE envelopes (\<open>dsse.go\<close>), the in-toto statement a witness signs
  (\<open>statement.go\<close>), unsigned command-event statements (\<open>event.go\<close>) and key identities
  (\<open>keys.go\<close>).

  The cryptographic primitives and the JSON codec are parameters, collected in the record
  \<open>lib\<close>: \<open>ed25519\<close> signing and verification, \<open>sha256\<close>, and \<open>json.Marshal\<close> /
  \<open>json.Unmarshal\<close> at the two statement types. What is assumed of them is stated in each lemma
  that needs it. Error texts are constructors carrying the values the message prints.
\<close>

subsection \<open>Data\<close>

record signature =
  sig_keyid :: string
  sig_sig :: string

record envelope =
  env_payload_type :: string
  env_payload :: string
  env_signatures :: "signature list"

record subject =
  sub_name :: string
  sub_digest :: "string \<rightharpoonup> string"

record check_result =
  cr_name :: string
  cr_command :: string
  cr_exit_code :: int
  cr_evidence_id :: string
  cr_skipped :: string

record checks_predicate =
  pr_role :: string
  pr_agent_id :: string
  pr_constitution :: string
  pr_runner :: string
  pr_checks :: "check_result list"
  pr_finished_at :: time

record statement =
  st_type :: string
  st_subject :: "subject list"
  st_predicate_type :: string
  st_predicate :: checks_predicate

record command_event_predicate =
  ev_command :: string
  ev_env :: "string \<rightharpoonup> string"
  ev_capabilities :: "string list"
  ev_executor :: string
  ev_exit_code :: int
  ev_output_blobs :: "string \<rightharpoonup> string"
  ev_result_tree :: string
  ev_started_at :: time
  ev_finished_at :: time

record command_event_statement =
  es_type :: string
  es_subject :: "subject list"
  es_predicate_type :: string
  es_predicate :: command_event_predicate

record lib =
  lib_sign :: "string \<Rightarrow> string \<Rightarrow> string"            \<comment> \<open>private key, message\<close>
  lib_public :: "string \<Rightarrow> string"                   \<comment> \<open>public half of a private key\<close>
  lib_verify :: "string \<Rightarrow> string \<Rightarrow> string \<Rightarrow> bool"  \<comment> \<open>public key, message, signature\<close>
  lib_sha256 :: "string \<Rightarrow> string"
  lib_marshal :: "statement \<Rightarrow> string"
  lib_unmarshal :: "string \<Rightarrow> statement option"
  lib_marshal_event :: "command_event_statement \<Rightarrow> string"
  lib_unmarshal_event :: "string \<Rightarrow> command_event_statement option"

datatype attest_error =
    Bad_Payload_Type string
  | Bad_Payload_Encoding
  | No_Trusted_Signature
  | Bad_Statement_JSON
  | Unexpected_Statement string string
  | No_Subject string
  | Bad_Key_Encoding
  | Bad_Key_Length nat

definition PayloadType :: string where "PayloadType = ''application/vnd.in-toto+json''"
definition StatementType :: string where "StatementType = ''https://in-toto.io/Statement/v1''"
definition ChecksPredicateType :: string where
  "ChecksPredicateType = ''https://github.com/Fewbytes/sweatshop/line/attest/checks/v0''"
definition EventPredicateType :: string where
  "EventPredicateType = ''https://github.com/Fewbytes/sweatshop/line/attest/command-event/v0''"
definition CommitSubjectName :: string where "CommitSubjectName = ''git-commit''"
definition CommitDigestAlgorithm :: string where "CommitDigestAlgorithm = ''gitCommit''"
definition TreeSubjectName :: string where "TreeSubjectName = ''git-tree''"
definition TreeDigestAlgorithm :: string where "TreeDigestAlgorithm = ''gitTree''"
definition SkippedDocsOnly :: string where "SkippedDocsOnly = ''docs-only change''"

lemmas attest_consts = PayloadType_def StatementType_def ChecksPredicateType_def
  EventPredicateType_def CommitSubjectName_def CommitDigestAlgorithm_def TreeSubjectName_def
  TreeDigestAlgorithm_def SkippedDocsOnly_def

subsection \<open>Keys\<close>

definition KeyID :: "lib \<Rightarrow> string \<Rightarrow> string" where
  "KeyID L pub = hex_encode (lib_sha256 L pub)"

definition EncodePublicKey :: "string \<Rightarrow> string" where
  "EncodePublicKey pub = b64_encode pub"

definition ParsePublicKey :: "string \<Rightarrow> attest_error + string" where
  "ParsePublicKey encoded =
     (case b64_decode (trim_space encoded) of
        None \<Rightarrow> Inl Bad_Key_Encoding
      | Some raw \<Rightarrow> (if length raw \<noteq> 32 then Inl (Bad_Key_Length (length raw)) else Inr raw))"

subsection \<open>DSSE\<close>

definition PAE :: "string \<Rightarrow> string \<Rightarrow> string" where
  "PAE payload_type payload =
     ''DSSEv1 '' @ show_nat (length payload_type) @ '' '' @ payload_type @ '' ''
     @ show_nat (length payload) @ '' '' @ payload"

definition Sign :: "lib \<Rightarrow> string \<Rightarrow> string \<Rightarrow> string \<Rightarrow> envelope" where
  "Sign L key payload_type payload =
     \<lparr>env_payload_type = payload_type, env_payload = b64_encode payload,
      env_signatures =
        [\<lparr>sig_keyid = KeyID L (lib_public L key),
          sig_sig = b64_encode (lib_sign L key (PAE payload_type payload))\<rparr>]\<rparr>"

definition good_signature :: "lib \<Rightarrow> (string \<rightharpoonup> string) \<Rightarrow> string \<Rightarrow> signature \<Rightarrow> bool" where
  "good_signature L trusted message s \<longleftrightarrow>
     (case trusted (sig_keyid s) of
        None \<Rightarrow> False
      | Some pub \<Rightarrow> (case b64_decode (sig_sig s) of
                       None \<Rightarrow> False
                     | Some sg \<Rightarrow> lib_verify L pub message sg))"

definition Verify :: "lib \<Rightarrow> envelope \<Rightarrow> (string \<rightharpoonup> string) \<Rightarrow> attest_error + (string \<times> string)" where
  "Verify L env trusted =
     (case b64_decode (env_payload env) of
        None \<Rightarrow> Inl Bad_Payload_Encoding
      | Some payload \<Rightarrow>
          (case find_first (good_signature L trusted (PAE (env_payload_type env) payload))
                  (env_signatures env) of
             None \<Rightarrow> Inl No_Trusted_Signature
           | Some s \<Rightarrow> Inr (payload, sig_keyid s)))"

subsection \<open>Statements\<close>

definition NewStatement :: "string \<Rightarrow> string \<Rightarrow> checks_predicate \<Rightarrow> statement" where
  "NewStatement commit tree predicate =
     \<lparr>st_type = StatementType,
      st_subject =
        [\<lparr>sub_name = CommitSubjectName, sub_digest = [CommitDigestAlgorithm \<mapsto> commit]\<rparr>,
         \<lparr>sub_name = TreeSubjectName, sub_digest = [TreeDigestAlgorithm \<mapsto> tree]\<rparr>],
      st_predicate_type = ChecksPredicateType,
      st_predicate = predicate\<rparr>"

text \<open>Indexing a Go map with a missing key gives the zero value, here the empty string.\<close>

definition digest_get :: "(string \<rightharpoonup> string) \<Rightarrow> string \<Rightarrow> string" where
  "digest_get m k = (case m k of None \<Rightarrow> [] | Some v \<Rightarrow> v)"

definition subject_of :: "subject list \<Rightarrow> string \<Rightarrow> string \<Rightarrow> attest_error + string" where
  "subject_of subs name algorithm =
     (case find_first (\<lambda>s. sub_name s = name \<and> digest_get (sub_digest s) algorithm \<noteq> []) subs of
        None \<Rightarrow> Inl (No_Subject name)
      | Some s \<Rightarrow> Inr (digest_get (sub_digest s) algorithm))"

definition st_commit :: "statement \<Rightarrow> attest_error + string" where
  "st_commit s = subject_of (st_subject s) CommitSubjectName CommitDigestAlgorithm"

definition st_tree :: "statement \<Rightarrow> attest_error + string" where
  "st_tree s = subject_of (st_subject s) TreeSubjectName TreeDigestAlgorithm"

definition SignStatement :: "lib \<Rightarrow> string \<Rightarrow> statement \<Rightarrow> envelope" where
  "SignStatement L key s = Sign L key PayloadType (lib_marshal L s)"

definition VerifyStatement ::
  "lib \<Rightarrow> envelope \<Rightarrow> (string \<rightharpoonup> string) \<Rightarrow> attest_error + (statement \<times> string)" where
  "VerifyStatement L env trusted =
     (if env_payload_type env \<noteq> PayloadType then Inl (Bad_Payload_Type (env_payload_type env))
      else case Verify L env trusted of
             Inl e \<Rightarrow> Inl e
           | Inr (payload, key_id) \<Rightarrow>
               (case lib_unmarshal L payload of
                  None \<Rightarrow> Inl Bad_Statement_JSON
                | Some s \<Rightarrow>
                    (if st_type s \<noteq> StatementType \<or> st_predicate_type s \<noteq> ChecksPredicateType
                     then Inl (Unexpected_Statement (st_type s) (st_predicate_type s))
                     else Inr (s, key_id))))"

subsection \<open>Command events\<close>

definition NewCommandEventStatement ::
  "string \<Rightarrow> command_event_predicate \<Rightarrow> command_event_statement" where
  "NewCommandEventStatement input_tree predicate =
     \<lparr>es_type = StatementType,
      es_subject = [\<lparr>sub_name = TreeSubjectName, sub_digest = [TreeDigestAlgorithm \<mapsto> input_tree]\<rparr>],
      es_predicate_type = EventPredicateType,
      es_predicate = predicate\<rparr>"

definition InputTree :: "command_event_statement \<Rightarrow> attest_error + string" where
  "InputTree s = subject_of (es_subject s) TreeSubjectName TreeDigestAlgorithm"

definition UnsignedEventEnvelope :: "lib \<Rightarrow> command_event_statement \<Rightarrow> envelope" where
  "UnsignedEventEnvelope L s =
     \<lparr>env_payload_type = PayloadType, env_payload = b64_encode (lib_marshal_event L s),
      env_signatures = []\<rparr>"

definition ReadUnsignedEventEnvelope ::
  "lib \<Rightarrow> envelope \<Rightarrow> attest_error + command_event_statement" where
  "ReadUnsignedEventEnvelope L env =
     (if env_payload_type env \<noteq> PayloadType then Inl (Bad_Payload_Type (env_payload_type env))
      else case b64_decode (env_payload env) of
             None \<Rightarrow> Inl Bad_Payload_Encoding
           | Some payload \<Rightarrow>
               (case lib_unmarshal_event L payload of
                  None \<Rightarrow> Inl Bad_Statement_JSON
                | Some s \<Rightarrow>
                    (if es_type s \<noteq> StatementType \<or> es_predicate_type s \<noteq> EventPredicateType
                     then Inl (Unexpected_Statement (es_type s) (es_predicate_type s))
                     else (case InputTree s of Inl e \<Rightarrow> Inl e | Inr t \<Rightarrow> Inr s))))"

subsection \<open>The pre-authentication encoding is injective\<close>

lemma show_nat_no_space: "CHR '' '' \<notin> set (show_nat n)"
  by (rule show_nat_no_char) (simp add: is_digit_def in_range_def)

lemma length_tagged_eq:
  assumes "show_nat (length xs) @ '' '' @ xs @ us = show_nat (length ys) @ '' '' @ ys @ vs"
  shows "xs = ys \<and> us = vs"
proof -
  have "show_nat (length xs) = show_nat (length ys) \<and> xs @ us = ys @ vs"
    using append_sep_eq [OF show_nat_no_space show_nat_no_space, of "length xs" "xs @ us" "length ys" "ys @ vs"]
      assms by simp
  then show ?thesis by auto
qed

lemma PAE_inj: "PAE t p = PAE t' p' \<longleftrightarrow> t = t' \<and> p = p'"
proof
  assume "PAE t p = PAE t' p'"
  then have eq: "show_nat (length t) @ '' '' @ t @ '' '' @ show_nat (length p) @ '' '' @ p
    = show_nat (length t') @ '' '' @ t' @ '' '' @ show_nat (length p') @ '' '' @ p'"
    by (simp add: PAE_def)
  then have t: "t = t'"
    and "'' '' @ show_nat (length p) @ '' '' @ p = '' '' @ show_nat (length p') @ '' '' @ p'"
    using length_tagged_eq by blast+
  then have "show_nat (length p) @ '' '' @ p @ [] = show_nat (length p') @ '' '' @ p' @ []" by simp
  then have "p = p'" using length_tagged_eq by blast
  with t show "t = t' \<and> p = p'" by blast
qed simp

subsection \<open>Verification\<close>

lemma good_signature_iff:
  "good_signature L trusted m s \<longleftrightarrow>
     (\<exists>pub sg. trusted (sig_keyid s) = Some pub \<and> b64_decode (sig_sig s) = Some sg \<and> lib_verify L pub m sg)"
  by (auto simp: good_signature_def split: option.splits)

lemma Verify_Inr_iff:
  "Verify L env trusted = Inr (payload, k) \<longleftrightarrow>
     b64_decode (env_payload env) = Some payload \<and>
     (\<exists>s. find_first (good_signature L trusted (PAE (env_payload_type env) payload))
            (env_signatures env) = Some s \<and> sig_keyid s = k)"
  by (auto simp: Verify_def split: option.splits)

text \<open>A payload is only ever returned together with a signature of a trusted key over its
  pre-authentication encoding.\<close>

lemma Verify_sound:
  assumes "Verify L env trusted = Inr (payload, k)"
  shows "\<exists>s\<in>set (env_signatures env). \<exists>pub sg. sig_keyid s = k \<and> trusted k = Some pub
    \<and> b64_decode (sig_sig s) = Some sg \<and> lib_verify L pub (PAE (env_payload_type env) payload) sg"
  using assms by (fastforce simp: Verify_Inr_iff good_signature_iff dest: find_first_SomeD)

lemma VerifyStatement_Inr_iff:
  "VerifyStatement L env trusted = Inr (s, k) \<longleftrightarrow>
     env_payload_type env = PayloadType \<and>
     (\<exists>payload. Verify L env trusted = Inr (payload, k) \<and> lib_unmarshal L payload = Some s) \<and>
     st_type s = StatementType \<and> st_predicate_type s = ChecksPredicateType"
  by (auto simp: VerifyStatement_def split: sum.splits option.splits if_splits prod.splits)

lemma NewStatement_simps [simp]:
  "st_type (NewStatement c t p) = StatementType"
  "st_predicate_type (NewStatement c t p) = ChecksPredicateType"
  "st_predicate (NewStatement c t p) = p"
  by (simp_all add: NewStatement_def)

lemma NewStatement_commit: "c \<noteq> [] \<Longrightarrow> st_commit (NewStatement c t p) = Inr c"
  by (simp add: st_commit_def subject_of_def NewStatement_def digest_get_def)

lemma NewStatement_tree: "t \<noteq> [] \<Longrightarrow> st_tree (NewStatement c t p) = Inr t"
  by (simp add: st_tree_def subject_of_def NewStatement_def digest_get_def attest_consts)

text \<open>Documented behaviour of the primitives: a signature verifies under the key's public half,
  and decoding a marshalled statement gives it back.\<close>

definition signs_verify :: "lib \<Rightarrow> string \<Rightarrow> bool" where
  "signs_verify L key \<longleftrightarrow> (\<forall>m. lib_verify L (lib_public L key) m (lib_sign L key m))"

lemma Verify_Sign:
  assumes "signs_verify L key" "trusted (KeyID L (lib_public L key)) = Some (lib_public L key)"
  shows "Verify L (Sign L key ty payload) trusted = Inr (payload, KeyID L (lib_public L key))"
  using assms by (simp add: Verify_def Sign_def good_signature_iff signs_verify_def)

lemma VerifyStatement_SignStatement:
  assumes "signs_verify L key" "trusted (KeyID L (lib_public L key)) = Some (lib_public L key)"
    and "lib_unmarshal L (lib_marshal L s) = Some s"
    and "st_type s = StatementType" "st_predicate_type s = ChecksPredicateType"
  shows "VerifyStatement L (SignStatement L key s) trusted = Inr (s, KeyID L (lib_public L key))"
proof -
  have "Verify L (SignStatement L key s) trusted = Inr (lib_marshal L s, KeyID L (lib_public L key))"
    unfolding SignStatement_def using assms(1,2) by (rule Verify_Sign)
  moreover have "env_payload_type (SignStatement L key s) = PayloadType"
    by (simp add: SignStatement_def Sign_def)
  ultimately show ?thesis using assms(3-5) by (simp add: VerifyStatement_Inr_iff)
qed

lemma ReadUnsignedEventEnvelope_roundtrip:
  assumes "lib_unmarshal_event L (lib_marshal_event L (NewCommandEventStatement t p))
      = Some (NewCommandEventStatement t p)" and "t \<noteq> []"
  shows "ReadUnsignedEventEnvelope L (UnsignedEventEnvelope L (NewCommandEventStatement t p))
      = Inr (NewCommandEventStatement t p) \<and> InputTree (NewCommandEventStatement t p) = Inr t"
proof -
  have "InputTree (NewCommandEventStatement t p) = Inr t"
    using assms(2) by (simp add: InputTree_def subject_of_def NewCommandEventStatement_def digest_get_def)
  moreover have "es_type (NewCommandEventStatement t p) = StatementType"
    "es_predicate_type (NewCommandEventStatement t p) = EventPredicateType"
    by (simp_all add: NewCommandEventStatement_def)
  ultimately show ?thesis
    using assms(1) by (simp add: ReadUnsignedEventEnvelope_def UnsignedEventEnvelope_def)
qed

text \<open>An unsigned event envelope is never authority: no set of trusted keys verifies it.\<close>

lemma unsigned_event_not_trusted:
  "VerifyStatement L (UnsignedEventEnvelope L s) trusted = Inl No_Trusted_Signature"
  by (simp add: VerifyStatement_def Verify_def UnsignedEventEnvelope_def)

lemma ParsePublicKey_length: "ParsePublicKey s = Inr raw \<Longrightarrow> length raw = 32"
  by (auto simp: ParsePublicKey_def split: option.splits if_splits)

lemma ParsePublicKey_EncodePublicKey:
  "length pub = 32 \<Longrightarrow> ParsePublicKey (EncodePublicKey pub) = Inr pub"
  by (simp add: ParsePublicKey_def EncodePublicKey_def trim_space_id b64_encode_no_space)

end
