(* ===== verification/Constitution.thy ===== *)
theory Constitution
  imports Go_Lib Attest
begin

text \<open>
  Package \<open>line/constitution\<close>: the line's rules. The record types mirror the structs of
  \<open>constitution.go\<close>, \<open>budget.go\<close>, \<open>remotes.go\<close> and \<open>workloads.go\<close>; the operations
  are the lookups the witness, the guard and the stations make, and \<open>validate\<close> with every rule it
  enforces, in the order the code checks them. Decoding TOML is a parameter of \<open>Parse\<close>
  (\<open>go-toml\<close>), as is the test whether a URL embeds a password (\<open>net/url\<close>).
\<close>

subsection \<open>Data\<close>

record delegation =
  dg_offer :: string
  dg_close :: bool
  dg_types :: "string list"
  dg_parent :: string
  dg_inherit :: bool
  dg_ids :: "string list"
  dg_labels :: "string list"
  dg_all :: bool
  dg_except_labels :: "string list"
  dg_expires :: time

record viceroy =
  vc_succession :: bool
  vc_delegations :: "delegation list"
  vc_labels :: "string list"
  vc_presign_max_ttl :: string

record cards =
  cd_comment_cap :: int
  cd_needs_timeout :: string

record sovereign =
  sv_name :: string
  sv_discord :: string

record channel =
  ch_kind :: string
  ch_channel :: string
  ch_transport :: string

record trusted_key =
  tk_name :: string
  tk_public_key :: string
  tk_roles :: "string list"

record trust =
  tr_level :: string
  tr_keys :: "trusted_key list"

record check =
  ck_name :: string
  ck_command :: string
  ck_skip_for_docs_only :: bool

record checks =
  cs_required :: "check list"
  cs_timeout :: string
  cs_cold_timeout :: string
  cs_docs_paths :: "string list"

record runner =
  rn_kind :: string
  rn_engine :: string
  rn_image :: string
  rn_memory :: string
  rn_pids :: int
  rn_cpus :: string

record limits =
  lm_memory :: string
  lm_pids :: int
  lm_cpus :: string

record path_guard =
  pg_pattern :: string
  pg_roles :: "string list"

record blob_guard =
  bg_max_bytes :: int
  bg_allow :: "string list"

record guards =
  gd_paths :: "path_guard list"
  gd_blobs :: blob_guard

record budget =
  bu_scope :: string
  bu_tokens :: int
  bu_period :: string
  bu_warn_percent :: int

record workload_rule =
  wr_roles :: "string list"
  wr_kinds :: "string list"
  wr_approval :: string
  wr_max_per_station :: int
  wr_memory :: string
  wr_cpus :: string
  wr_pids :: int
  wr_ttl :: string
  wr_expose :: bool

record workloads =
  wl_rules :: "workload_rule list"
  wl_images :: "string list"

record remote =
  rm_name :: string
  rm_kind :: string
  rm_url :: string
  rm_publish :: "string list"

record constitution =
  cn_trust :: trust
  cn_checks :: checks
  cn_runner :: runner
  cn_guards :: guards
  cn_sovereign :: sovereign
  cn_channel :: channel
  cn_viceroy :: viceroy
  cn_cards :: cards
  cn_budgets :: "budget list"
  cn_workloads :: workloads
  cn_remotes :: "remote list"

text \<open>One constructor per error message; the arguments are the values it prints.\<close>

datatype remote_error =
    E_Remote_Name nat | E_Remote_Duplicate nat string | E_Remote_Authoritative nat string
  | E_Remote_URL nat string | E_Remote_Credentials nat string | E_Remote_Publish nat string
  | E_Remote_Kind nat string string | E_Remote_Count nat

datatype budget_error =
    E_Budget_Scope nat string | E_Budget_Duplicate nat string | E_Budget_Tokens nat int
  | E_Budget_Period nat string | E_Budget_Warn nat int

datatype workload_error =
    E_Workload_No_Roles nat | E_Workload_Role nat string | E_Workload_No_Kinds nat
  | E_Workload_Kind nat string | E_Workload_Approval nat string | E_Workload_Max nat int
  | E_Workload_Memory nat string | E_Workload_CPUs nat string | E_Workload_Pids nat int
  | E_Workload_TTL nat string | E_Workload_Covered nat string string | E_Workload_Image nat string

datatype delegation_error =
    E_Close_Takes nat | E_Close_Needs nat | E_Close_Id nat string
  | E_Offer_Takes nat | E_Offer nat string | E_Offer_Ids nat | E_Offer_Labels nat | E_Offer_Needs nat
  | E_Delegation_Label nat | E_Delegation_Except nat | E_Delegation_Type nat
  | E_Delegation_Parent nat string

datatype governance_error =
    E_Comment_Cap int | E_Needs_Timeout string | E_Sovereign string
  | E_Channel_Kind string | E_Channel_Id string | E_Channel_Transport string
  | E_Viceroy_Label | E_Presign_TTL string | E_Delegation delegation_error

datatype runner_error =
    E_Image_Missing | E_Runner_Kind string | E_Memory string | E_Pids int | E_CPUs string
  | E_Cold_Timeout string | E_Timeout string | E_Trust_Needs_Container | E_Trust_Level string

datatype guard_rule_error =
    E_Guard_Incomplete | E_Guard_Pattern string | E_Guard_Role string string
  | E_Blob_Negative | E_Blob_Pattern string

datatype constitution_error =
    E_Decode | E_Runner runner_error
  | E_No_Checks | E_Check_Incomplete | E_Check_Duplicate string | E_Check_No_Docs string
  | E_Docs_Pattern string | E_Trust_Key string attest_error | E_Trust_Role string string
  | E_Guard guard_rule_error | E_Remote remote_error | E_Budget budget_error
  | E_Workload workload_error | E_Governance governance_error

definition Roles :: "string list" where
  "Roles = [''maker'', ''andon'', ''kaizen'', ''gemba'', ''viceroy'', ''heijunka'']"

definition EpicType :: string where "EpicType = ''epic''"

subsection \<open>Defaults\<close>

definition NeedsTimeoutOrDefault :: "cards \<Rightarrow> duration" where
  "NeedsTimeoutOrDefault c = duration_or (cd_needs_timeout c) (24 * hour)"

definition CommentCapOrDefault :: "cards \<Rightarrow> int" where
  "CommentCapOrDefault c = (if cd_comment_cap c = 0 then 5 else cd_comment_cap c)"

definition PresignMaxTTLOrDefault :: "viceroy \<Rightarrow> duration" where
  "PresignMaxTTLOrDefault v = duration_or (vc_presign_max_ttl v) hour"

definition ColdTimeoutDuration :: "checks \<Rightarrow> duration" where
  "ColdTimeoutDuration c = duration_or (cs_cold_timeout c) (2 * hour)"

definition TimeoutDuration :: "checks \<Rightarrow> duration" where
  "TimeoutDuration c = duration_or (cs_timeout c) (30 * minute)"

definition MaxBytesOrDefault :: "blob_guard \<Rightarrow> int" where
  "MaxBytesOrDefault b = (if bg_max_bytes b > 0 then bg_max_bytes b else 1048576)"

definition WarnPercentOrDefault :: "budget \<Rightarrow> int" where
  "WarnPercentOrDefault b = (if bu_warn_percent b = 0 then 80 else bu_warn_percent b)"

definition Limits :: "runner \<Rightarrow> limits" where
  "Limits r =
     \<lparr>lm_memory = (if rn_memory r = [] then ''4g'' else rn_memory r),
      lm_pids = (if rn_pids r \<le> 0 then 1024 else rn_pids r),
      lm_cpus = (if rn_cpus r = [] then ''2'' else rn_cpus r)\<rparr>"

definition runner_ID :: "runner \<Rightarrow> string" where
  "runner_ID r =
     (if rn_kind r = ''container'' then ''container:'' @ rn_engine r @ '':'' @ rn_image r
      else ''local'')"

subsection \<open>Paths\<close>

definition MatchPath :: "string \<Rightarrow> string \<Rightarrow> bool" where
  "MatchPath pattern p =
     (case cut_suffix pattern ''/**'' of
        Some pre \<Rightarrow> p = pre \<or> has_prefix p (pre @ ''/'')
      | None \<Rightarrow> path_match pattern p = Some True)"

definition DocsOnly :: "checks \<Rightarrow> string list \<Rightarrow> bool" where
  "DocsOnly c changed \<longleftrightarrow>
     changed \<noteq> [] \<and> \<not> list_ex (\<lambda>p. \<not> list_ex (\<lambda>pat. MatchPath pat p) (cs_docs_paths c)) changed"

definition blob_Allows :: "blob_guard \<Rightarrow> string \<Rightarrow> bool" where
  "blob_Allows b p = list_ex (\<lambda>pat. MatchPath pat p) (bg_allow b)"

definition AllowedRoles :: "constitution \<Rightarrow> string \<Rightarrow> string list option" where
  "AllowedRoles c p =
     map_option pg_roles (find_first (\<lambda>g. MatchPath (pg_pattern g) p) (gd_paths (cn_guards c)))"

subsection \<open>Keys\<close>

fun key_map :: "lib \<Rightarrow> (trusted_key \<Rightarrow> string \<Rightarrow> 'v) \<Rightarrow> (string \<rightharpoonup> 'v) \<Rightarrow> trusted_key list
    \<Rightarrow> constitution_error + (string \<rightharpoonup> 'v)" where
  "key_map L f m [] = Inr m"
| "key_map L f m (k # ks) =
     (case ParsePublicKey (tk_public_key k) of
        Inl e \<Rightarrow> Inl (E_Trust_Key (tk_name k) e)
      | Inr pub \<Rightarrow> key_map L f (m(KeyID L pub \<mapsto> f k pub)) ks)"

definition TrustedKeys :: "lib \<Rightarrow> constitution \<Rightarrow> constitution_error + (string \<rightharpoonup> string)" where
  "TrustedKeys L c = key_map L (\<lambda>k pub. pub) Map.empty (tr_keys (cn_trust c))"

definition KeyRoles :: "lib \<Rightarrow> constitution \<Rightarrow> constitution_error + (string \<rightharpoonup> string list)" where
  "KeyRoles L c = key_map L (\<lambda>k pub. tk_roles k) Map.empty (tr_keys (cn_trust c))"

subsection \<open>Delegations\<close>

definition MayLabel :: "viceroy \<Rightarrow> string \<Rightarrow> bool" where
  "MayLabel v label =
     list_ex (\<lambda>l. case cut_suffix l ''*'' of Some pre \<Rightarrow> has_prefix label pre | None \<Rightarrow> l = label)
       (vc_labels v)"

definition delegation_offers :: "string \<Rightarrow> string list \<Rightarrow> bool \<Rightarrow> delegation \<Rightarrow> bool" where
  "delegation_offers card_type ancestors under_approved_epic d \<longleftrightarrow>
     dg_offer d = ''line'' \<and>
     ((card_type \<noteq> [] \<and> card_type \<in> set (dg_types d))
      \<or> (dg_parent d \<noteq> [] \<and> dg_parent d \<in> set ancestors)
      \<or> (dg_inherit d \<and> under_approved_epic \<and> card_type \<noteq> EpicType))"

definition Delegates :: "constitution \<Rightarrow> string \<Rightarrow> string list \<Rightarrow> bool \<Rightarrow> bool" where
  "Delegates c card_type ancestors under_approved_epic =
     list_ex (delegation_offers card_type ancestors under_approved_epic)
       (vc_delegations (cn_viceroy c))"

text \<open>The four categories of a close delegation as pairs (listed, hit).\<close>

definition close_matches ::
  "string \<Rightarrow> string \<Rightarrow> string list \<Rightarrow> string list \<Rightarrow> delegation \<Rightarrow> (bool \<times> bool) list" where
  "close_matches cid card_type labels ancestors d =
     [(dg_ids d \<noteq> [], cid \<in> set (dg_ids d)),
      (dg_parent d \<noteq> [], dg_parent d \<in> set ancestors),
      (dg_types d \<noteq> [], card_type \<noteq> [] \<and> card_type \<in> set (dg_types d)),
      (dg_labels d \<noteq> [], list_ex (\<lambda>l. l \<in> set (dg_labels d)) labels)]"

definition delegation_closes ::
  "string \<Rightarrow> string \<Rightarrow> string list \<Rightarrow> string list \<Rightarrow> time \<Rightarrow> delegation \<Rightarrow> bool" where
  "delegation_closes cid card_type labels ancestors now d =
     (if \<not> dg_close d \<or> (dg_expires d \<noteq> 0 \<and> \<not> now < dg_expires d) then False
      else if list_ex (\<lambda>l. l \<in> set (dg_except_labels d)) labels then False
      else foldl (\<lambda>covered (listed, hit).
                    let covered = (if dg_all d \<and> listed \<and> \<not> hit then False else covered)
                    in if \<not> dg_all d \<and> hit then True else covered)
             (dg_all d) (close_matches cid card_type labels ancestors d))"

definition DelegatesClose ::
  "constitution \<Rightarrow> string \<Rightarrow> string \<Rightarrow> string list \<Rightarrow> string list \<Rightarrow> time \<Rightarrow> bool" where
  "DelegatesClose c cid card_type labels ancestors now =
     list_ex (delegation_closes cid card_type labels ancestors now) (vc_delegations (cn_viceroy c))"

subsection \<open>Workload rules\<close>

definition rule_covers :: "string \<Rightarrow> string \<Rightarrow> workload_rule \<Rightarrow> bool" where
  "rule_covers role kind r \<longleftrightarrow> role \<in> set (wr_roles r) \<and> kind \<in> set (wr_kinds r)"

definition RuleFor :: "workloads \<Rightarrow> string \<Rightarrow> string \<Rightarrow> workload_rule option" where
  "RuleFor w role kind = find_first (rule_covers role kind) (wl_rules w)"

definition ImageAllowed :: "workloads \<Rightarrow> string \<Rightarrow> bool" where
  "ImageAllowed w img = list_ex (\<lambda>pat. path_match pat img = Some True) (wl_images w)"

definition memory_size :: "string \<Rightarrow> bool" where
  "memory_size s =
     (let ds = takeWhile is_digit s; u = dropWhile is_digit s
      in ds \<noteq> [] \<and> hd ds \<noteq> CHR ''0'' \<and> (u = [] \<or> (length u = 1 \<and> hd u \<in> set ''bkmgBKMG'')))"

definition ParseMemoryBytes :: "string \<Rightarrow> int option" where
  "ParseMemoryBytes sz =
     (if \<not> memory_size sz then None
      else let l = last sz;
               mult = (if l \<in> set ''kK'' then 2 ^ 10 else if l \<in> set ''mM'' then 2 ^ 20
                       else if l \<in> set ''gG'' then 2 ^ 30 else (1 :: int));
               ds = (if l \<in> set ''bBkKmMgG'' then butlast sz else sz);
               n = int (read_nat ds)
           in if n > int64_max \<or> n > 2 ^ 62 div mult then None else Some (n * mult))"

subsection \<open>Remotes\<close>

definition PublishRefs :: "remote \<Rightarrow> string list" where
  "PublishRefs r =
     (if rm_publish r = [] then [''refs/heads/master'', ''refs/tags/*'', ''refs/sweatshop/*'']
      else rm_publish r)"

definition AuthoritativeRemote :: "constitution \<Rightarrow> remote option" where
  "AuthoritativeRemote c = find_first (\<lambda>r. rm_kind r = ''authoritative'') (cn_remotes c)"

definition StorageMirrors :: "constitution \<Rightarrow> remote list" where
  "StorageMirrors c = filter (\<lambda>r. rm_kind r = ''storage'') (cn_remotes c)"

subsection \<open>Validation\<close>

definition card_id_ok :: "string \<Rightarrow> bool" where
  "card_id_ok s =
     (case split_char (CHR ''.'') s of
        [] \<Rightarrow> False
      | w # ws \<Rightarrow> w \<noteq> [] \<and> list_all (\<lambda>c. is_lower c \<or> is_digit c \<or> c = CHR ''-'') w
                   \<and> list_all all_digits ws)"

definition pattern_bad :: "string \<Rightarrow> bool" where
  "pattern_bad pat \<longleftrightarrow> path_match pat [] = None"

fun budgets_loop :: "string set \<Rightarrow> (nat \<times> budget) list \<Rightarrow> constitution_error option" where
  "budgets_loop seen [] = None"
| "budgets_loop seen ((i, b) # bs) =
     first_err
       [fail_if (bu_scope b \<noteq> ''line'' \<and> bu_scope b \<noteq> ''card'' \<and> bu_scope b \<notin> set Roles)
          (E_Budget (E_Budget_Scope i (bu_scope b))),
        fail_if (bu_scope b \<in> seen) (E_Budget (E_Budget_Duplicate i (bu_scope b))),
        fail_if (bu_tokens b < 1) (E_Budget (E_Budget_Tokens i (bu_tokens b))),
        fail_if (\<not> positive_duration (bu_period b)) (E_Budget (E_Budget_Period i (bu_period b))),
        fail_if (bu_warn_percent b < 0 \<or> bu_warn_percent b > 99) (E_Budget (E_Budget_Warn i (bu_warn_percent b))),
        budgets_loop (insert (bu_scope b) seen) bs]"

definition validateBudgets :: "budget list \<Rightarrow> constitution_error option" where
  "validateBudgets bs = budgets_loop {} (indexed bs)"

definition workload_overlap :: "workload_rule list \<Rightarrow> workload_rule \<Rightarrow> (string \<times> string) option" where
  "workload_overlap earlier r =
     (case concat (map (\<lambda>other. concat (map (\<lambda>role. map (\<lambda>kind. (role, kind))
             (filter (\<lambda>kind. rule_covers role kind other) (wr_kinds r))) (wr_roles r))) earlier) of
        [] \<Rightarrow> None
      | hit # _ \<Rightarrow> Some hit)"

definition validate_rule :: "workload_rule list \<Rightarrow> nat \<Rightarrow> workload_rule \<Rightarrow> constitution_error option" where
  "validate_rule earlier i r =
     first_err
       ([fail_if (wr_roles r = []) (E_Workload (E_Workload_No_Roles i))]
        @ map (\<lambda>role. fail_if (role \<notin> set Roles) (E_Workload (E_Workload_Role i role))) (wr_roles r)
        @ [fail_if (wr_kinds r = []) (E_Workload (E_Workload_No_Kinds i))]
        @ map (\<lambda>kind. fail_if (kind \<notin> {''test'', ''staging'', ''demo'', ''build''})
                 (E_Workload (E_Workload_Kind i kind))) (wr_kinds r)
        @ [fail_if (wr_approval r \<noteq> ''auto'' \<and> wr_approval r \<noteq> ''king'')
             (E_Workload (E_Workload_Approval i (wr_approval r))),
           fail_if (wr_max_per_station r < 0) (E_Workload (E_Workload_Max i (wr_max_per_station r))),
           fail_if (wr_memory r \<noteq> [] \<and> \<not> memory_size (wr_memory r)) (E_Workload (E_Workload_Memory i (wr_memory r))),
           fail_if (wr_cpus r \<noteq> [] \<and> \<not> positive_cpus (wr_cpus r)) (E_Workload (E_Workload_CPUs i (wr_cpus r))),
           fail_if (wr_pids r < 0) (E_Workload (E_Workload_Pids i (wr_pids r))),
           fail_if (\<not> positive_duration (wr_ttl r)) (E_Workload (E_Workload_TTL i (wr_ttl r))),
           (case workload_overlap earlier r of
              None \<Rightarrow> None
            | Some (role, kind) \<Rightarrow> Some (E_Workload (E_Workload_Covered i role kind)))])"

definition validateWorkloads :: "workloads \<Rightarrow> constitution_error option" where
  "validateWorkloads w =
     first_err
       (map (\<lambda>(i, r). validate_rule (take i (wl_rules w)) i r) (indexed (wl_rules w))
        @ map (\<lambda>(i, pat). fail_if (pattern_bad pat) (E_Workload (E_Workload_Image i pat))) (indexed (wl_images w)))"

definition validate_delegation :: "nat \<Rightarrow> delegation \<Rightarrow> constitution_error option" where
  "validate_delegation i d =
     first_err
       ((if dg_close d then
           [fail_if (dg_offer d \<noteq> [] \<or> dg_inherit d) (E_Governance (E_Delegation (E_Close_Takes i))),
            fail_if (dg_ids d = [] \<and> dg_parent d = [] \<and> dg_types d = [] \<and> dg_labels d = [])
              (E_Governance (E_Delegation (E_Close_Needs i)))]
           @ map (\<lambda>cid. fail_if (\<not> card_id_ok cid) (E_Governance (E_Delegation (E_Close_Id i cid)))) (dg_ids d)
         else
           [fail_if (dg_all d \<or> dg_except_labels d \<noteq> [] \<or> dg_expires d \<noteq> 0) (E_Governance (E_Delegation (E_Offer_Takes i))),
            fail_if (dg_offer d \<noteq> ''line'') (E_Governance (E_Delegation (E_Offer i (dg_offer d)))),
            fail_if (dg_ids d \<noteq> []) (E_Governance (E_Delegation (E_Offer_Ids i))),
            fail_if (dg_labels d \<noteq> []) (E_Governance (E_Delegation (E_Offer_Labels i))),
            fail_if (dg_types d = [] \<and> dg_parent d = [] \<and> \<not> dg_inherit d) (E_Governance (E_Delegation (E_Offer_Needs i)))])
        @ [fail_if ([] \<in> set (dg_labels d)) (E_Governance (E_Delegation (E_Delegation_Label i))),
           fail_if ([] \<in> set (dg_except_labels d)) (E_Governance (E_Delegation (E_Delegation_Except i))),
           fail_if ([] \<in> set (dg_types d)) (E_Governance (E_Delegation (E_Delegation_Type i))),
           fail_if (dg_parent d \<noteq> [] \<and> \<not> card_id_ok (dg_parent d))
             (E_Governance (E_Delegation (E_Delegation_Parent i (dg_parent d))))])"

definition validateGovernance :: "constitution \<Rightarrow> constitution_error option" where
  "validateGovernance c =
     (let cc = cn_cards c; s = cn_sovereign c; ch = cn_channel c; v = cn_viceroy c in
      first_err
        ([validateBudgets (cn_budgets c),
          validateWorkloads (cn_workloads c),
          fail_if (cd_comment_cap cc < 0) (E_Governance (E_Comment_Cap (cd_comment_cap cc))),
          fail_if (cd_needs_timeout cc \<noteq> [] \<and> \<not> positive_duration (cd_needs_timeout cc))
            (E_Governance (E_Needs_Timeout (cd_needs_timeout cc))),
          fail_if ((sv_name s \<noteq> [] \<or> sv_discord s \<noteq> []) \<and> \<not> all_digits (sv_discord s))
            (E_Governance (E_Sovereign (sv_discord s)))]
         @ (if ch_kind ch = [] \<and> ch_channel ch = [] \<and> ch_transport ch = [] then []
            else [fail_if (ch_kind ch \<noteq> ''discord'') (E_Governance (E_Channel_Kind (ch_kind ch))),
                  fail_if (\<not> all_digits (ch_channel ch)) (E_Governance (E_Channel_Id (ch_channel ch))),
                  fail_if (ch_transport ch \<notin> {[], ''poll'', ''gateway''})
                    (E_Governance (E_Channel_Transport (ch_transport ch)))])
         @ [fail_if ([] \<in> set (vc_labels v)) (E_Governance E_Viceroy_Label),
            fail_if (vc_presign_max_ttl v \<noteq> [] \<and> \<not> positive_duration (vc_presign_max_ttl v))
              (E_Governance (E_Presign_TTL (vc_presign_max_ttl v)))]
         @ map (\<lambda>(i, d). validate_delegation i d) (indexed (vc_delegations v))))"

fun remotes_loop :: "(string \<Rightarrow> bool) \<Rightarrow> string set \<Rightarrow> nat \<Rightarrow> (nat \<times> remote) list
    \<Rightarrow> constitution_error + nat" where
  "remotes_loop url_password names n [] = Inr n"
| "remotes_loop url_password names n ((i, r) # rs) =
     (if rm_name r = [] then Inl (E_Remote (E_Remote_Name i))
      else if rm_name r \<in> names then Inl (E_Remote (E_Remote_Duplicate i (rm_name r)))
      else if rm_kind r = ''authoritative'' then
        (if rm_url r \<noteq> [] \<or> rm_publish r \<noteq> [] then Inl (E_Remote (E_Remote_Authoritative i (rm_name r)))
         else remotes_loop url_password (insert (rm_name r) names) (Suc n) rs)
      else if rm_kind r = ''storage'' then
        (if rm_url r = [] then Inl (E_Remote (E_Remote_URL i (rm_name r)))
         else if url_password (rm_url r) then Inl (E_Remote (E_Remote_Credentials i (rm_name r)))
         else if [] \<in> set (rm_publish r) \<or> list_ex (\<lambda>p. \<not> has_prefix p ''refs/'') (rm_publish r)
         then Inl (E_Remote (E_Remote_Publish i (rm_name r)))
         else remotes_loop url_password (insert (rm_name r) names) n rs)
      else Inl (E_Remote (E_Remote_Kind i (rm_name r) (rm_kind r))))"

definition validateRemotes :: "(string \<Rightarrow> bool) \<Rightarrow> remote list \<Rightarrow> constitution_error option" where
  "validateRemotes url_password rs =
     (if rs = [] then None
      else case remotes_loop url_password {} 0 (indexed rs) of
             Inl e \<Rightarrow> Some e
           | Inr n \<Rightarrow> fail_if (n \<noteq> 1) (E_Remote (E_Remote_Count n)))"

fun checks_loop :: "string list \<Rightarrow> string set \<Rightarrow> check list \<Rightarrow> constitution_error option" where
  "checks_loop docs seen [] = None"
| "checks_loop docs seen (c # cs) =
     first_err
       [fail_if (ck_name c = [] \<or> ck_command c = []) E_Check_Incomplete,
        fail_if (ck_name c \<in> seen) (E_Check_Duplicate (ck_name c)),
        fail_if (ck_skip_for_docs_only c \<and> docs = []) (E_Check_No_Docs (ck_name c)),
        checks_loop docs (insert (ck_name c) seen) cs]"

definition validate_runner :: "constitution \<Rightarrow> constitution_error option" where
  "validate_runner c =
     (let r = cn_runner c; k = cn_checks c; t = cn_trust c in
      first_err
        [(if rn_kind r = ''local'' then None
          else if rn_kind r = ''container'' then fail_if (rn_image r = []) (E_Runner E_Image_Missing)
          else Some (E_Runner (E_Runner_Kind (rn_kind r)))),
         fail_if (rn_memory r \<noteq> [] \<and> \<not> memory_size (rn_memory r)) (E_Runner (E_Memory (rn_memory r))),
         fail_if (rn_pids r < 0) (E_Runner (E_Pids (rn_pids r))),
         fail_if (rn_cpus r \<noteq> [] \<and> \<not> positive_cpus (rn_cpus r)) (E_Runner (E_CPUs (rn_cpus r))),
         fail_if (cs_cold_timeout k \<noteq> [] \<and> \<not> positive_duration (cs_cold_timeout k))
           (E_Runner (E_Cold_Timeout (cs_cold_timeout k))),
         fail_if (cs_timeout k \<noteq> [] \<and> \<not> positive_duration (cs_timeout k)) (E_Runner (E_Timeout (cs_timeout k))),
         (if tr_level t = ''none'' then None
          else if tr_level t = ''attest'' then
            fail_if (rn_kind r \<noteq> ''container'') (E_Runner E_Trust_Needs_Container)
          else Some (E_Runner (E_Trust_Level (tr_level t))))])"

definition validate_path_guard :: "path_guard \<Rightarrow> constitution_error option" where
  "validate_path_guard g =
     first_err
       ([fail_if (pg_pattern g = [] \<or> pg_roles g = []) (E_Guard E_Guard_Incomplete),
         fail_if (\<not> has_suffix (pg_pattern g) ''/**'' \<and> pattern_bad (pg_pattern g))
           (E_Guard (E_Guard_Pattern (pg_pattern g)))]
        @ map (\<lambda>role. fail_if (role \<notin> set Roles) (E_Guard (E_Guard_Role (pg_pattern g) role))) (pg_roles g))"

definition validate :: "lib \<Rightarrow> (string \<Rightarrow> bool) \<Rightarrow> constitution \<Rightarrow> constitution_error option" where
  "validate L url_password c =
     (let k = cn_checks c in
      first_err
        ([validate_runner c,
          fail_if (cs_required k = []) E_No_Checks,
          checks_loop (cs_docs_paths k) {} (cs_required k)]
         @ map (\<lambda>pat. fail_if (pattern_bad pat) (E_Docs_Pattern pat)) (cs_docs_paths k)
         @ [(case TrustedKeys L c of Inl e \<Rightarrow> Some e | Inr m \<Rightarrow> None)]
         @ concat (map (\<lambda>t. map (\<lambda>role. fail_if (role \<notin> set Roles) (E_Trust_Role (tk_name t) role))
                               (tk_roles t)) (tr_keys (cn_trust c)))
         @ map validate_path_guard (gd_paths (cn_guards c))
         @ [fail_if (bg_max_bytes (gd_blobs (cn_guards c)) < 0) (E_Guard E_Blob_Negative)]
         @ map (\<lambda>pat. fail_if (\<not> has_suffix pat ''/**'' \<and> pattern_bad pat) (E_Guard (E_Blob_Pattern pat)))
             (bg_allow (gd_blobs (cn_guards c)))
         @ [validateRemotes url_password (cn_remotes c),
            validateGovernance c]))"

text \<open>\<open>Parse\<close> fills in the container engine before it validates, and the resource ceilings after.\<close>

definition with_default_engine :: "constitution \<Rightarrow> constitution" where
  "with_default_engine c =
     (if rn_kind (cn_runner c) = ''container'' \<and> rn_engine (cn_runner c) = []
      then c\<lparr>cn_runner := (cn_runner c)\<lparr>rn_engine := ''docker''\<rparr>\<rparr> else c)"

definition with_limits :: "constitution \<Rightarrow> constitution" where
  "with_limits c =
     (let l = Limits (cn_runner c) in
      if rn_kind (cn_runner c) = ''container''
      then c\<lparr>cn_runner := (cn_runner c)\<lparr>rn_memory := lm_memory l, rn_pids := lm_pids l,
                                        rn_cpus := lm_cpus l\<rparr>\<rparr>
      else c)"

definition Parse :: "lib \<Rightarrow> (string \<Rightarrow> bool) \<Rightarrow> (string \<Rightarrow> constitution option) \<Rightarrow> string
    \<Rightarrow> constitution_error + constitution" where
  "Parse L url_password decode bytes =
     (case decode bytes of
        None \<Rightarrow> Inl E_Decode
      | Some c0 \<Rightarrow>
          (let c1 = with_default_engine c0 in
           case validate L url_password c1 of
             Some e \<Rightarrow> Inl e
           | None \<Rightarrow> Inr (with_limits c1)))"

definition Load :: "lib \<Rightarrow> (string \<Rightarrow> bool) \<Rightarrow> (string \<Rightarrow> constitution option) \<Rightarrow> string
    \<Rightarrow> constitution_error + (constitution \<times> string)" where
  "Load L url_password decode bytes =
     (case Parse L url_password decode bytes of
        Inl e \<Rightarrow> Inl e
      | Inr c \<Rightarrow> Inr (c, ''sha256:'' @ hex_encode (lib_sha256 L bytes)))"

text \<open>Accessors that panic on a malformed duration; \<open>None\<close> is the panic.\<close>

definition PeriodDuration :: "budget \<Rightarrow> duration option" where
  "PeriodDuration b = parse_duration (bu_period b)"

definition TTLDuration :: "workload_rule \<Rightarrow> duration option" where
  "TTLDuration r = parse_duration (wr_ttl r)"

end
