(* ===== verification/Repo.thy ===== *)
theory Repo
  imports Go_Encoding "HOL-Library.AList"
begin

text \<open>
  Package \<open>line/gitx\<close> (\<open>git.go\<close>): the git repository the guard and the witness read and
  write. The repository is its object store, the modification times of its loose objects, and its
  refs; opening it is assumed to succeed. What \<open>go-git\<close> computes from content alone (tree
  differences, object ids, revision syntax, ref name rules) is the parameter record \<open>gogit\<close>.
\<close>

type_synonym oid = string

datatype entry_mode = Mode_Regular | Mode_Executable | Mode_Symlink | Mode_Submodule | Mode_Dir

datatype git_object =
    Commit_Obj oid "oid list" string          \<comment> \<open>tree, parents, message\<close>
  | Tree_Obj "(string \<times> entry_mode \<times> oid) list"
  | Blob_Obj string
  | Tag_Obj oid

text \<open>One difference between two trees; an absent side has the empty name.\<close>

record tree_change =
  tc_from_name :: string
  tc_to_name :: string
  tc_to_mode :: entry_mode
  tc_to_hash :: oid

record gogit =
  gg_diff :: "oid \<Rightarrow> oid \<Rightarrow> tree_change list"
  gg_hash :: "git_object \<Rightarrow> oid"
  gg_revision :: "(string \<rightharpoonup> oid) \<Rightarrow> string \<Rightarrow> oid option"
  gg_valid_ref :: "string \<Rightarrow> bool"

record repo =
  rp_objects :: "(oid \<times> git_object) list"
  rp_loose :: "oid \<rightharpoonup> time"
  rp_refs :: "(string \<times> oid) list"

datatype git_error =
    Ref_Moved
  | Ref_Not_Found string
  | Object_Not_Found string
  | Not_A_Commit string
  | Not_A_Blob string
  | Bad_Object_Id string
  | Bad_Ref_Name string
  | Bad_Trailer_Key string

abbreviation ref_of :: "repo \<Rightarrow> string \<rightharpoonup> oid" where
  "ref_of r \<equiv> map_of (rp_refs r)"

abbreviation obj :: "repo \<Rightarrow> oid \<rightharpoonup> git_object" where
  "obj r \<equiv> map_of (rp_objects r)"

subsection \<open>Names and objects\<close>

definition to_lower :: "char \<Rightarrow> char" where
  "to_lower c = (if is_upper c then char_of (of_char c + 32 :: nat) else c)"

definition is_hash :: "string \<Rightarrow> bool" where
  "is_hash s \<longleftrightarrow> length s = 40 \<and> list_all (\<lambda>c. is_hex (to_lower c)) s"

definition new_hash :: "string \<Rightarrow> oid" where
  "new_hash s = map to_lower s"

definition parseHash :: "string \<Rightarrow> git_error + oid" where
  "parseHash s = (if is_hash s then Inr (new_hash s) else Inl (Bad_Object_Id s))"

definition resolve :: "gogit \<Rightarrow> repo \<Rightarrow> string \<Rightarrow> git_error + oid" where
  "resolve G r rv =
     (let found = (if is_hash rv then Some (new_hash rv)
                   else (case ref_of r rv of
                           Some h \<Rightarrow> Some h
                         | None \<Rightarrow> gg_revision G (ref_of r) rv))
      in case found of
           None \<Rightarrow> Inl (Ref_Not_Found rv)
         | Some h \<Rightarrow> (if obj r h = None then Inl (Object_Not_Found h) else Inr h))"

text \<open>The commit a revision names, peeling one annotated tag: its id, tree, parents and message.\<close>

definition commit_object :: "repo \<Rightarrow> oid \<Rightarrow> git_error + (oid \<times> oid \<times> oid list \<times> string)" where
  "commit_object r h =
     (case obj r h of
        None \<Rightarrow> Inl (Object_Not_Found h)
      | Some (Commit_Obj t ps m) \<Rightarrow> Inr (h, t, ps, m)
      | Some _ \<Rightarrow> Inl (Not_A_Commit h))"

definition resolveCommit :: "gogit \<Rightarrow> repo \<Rightarrow> string \<Rightarrow> git_error + (oid \<times> oid \<times> oid list \<times> string)" where
  "resolveCommit G r rv =
     (case resolve G r rv of
        Inl e \<Rightarrow> Inl e
      | Inr h \<Rightarrow> (case obj r h of
                    Some (Tag_Obj target) \<Rightarrow> commit_object r target
                  | _ \<Rightarrow> commit_object r h))"

definition repo_Commit :: "gogit \<Rightarrow> repo \<Rightarrow> string \<Rightarrow> git_error + oid" where
  "repo_Commit G r rv = map_sum id fst (resolveCommit G r rv)"

definition repo_Tree :: "gogit \<Rightarrow> repo \<Rightarrow> string \<Rightarrow> git_error + oid" where
  "repo_Tree G r rv = map_sum id (\<lambda>(h, t, ps, m). t) (resolveCommit G r rv)"

definition repo_Parents :: "gogit \<Rightarrow> repo \<Rightarrow> string \<Rightarrow> git_error + oid list" where
  "repo_Parents G r rv = map_sum id (\<lambda>(h, t, ps, m). ps) (resolveCommit G r rv)"

definition repo_Message :: "gogit \<Rightarrow> repo \<Rightarrow> string \<Rightarrow> git_error + string" where
  "repo_Message G r rv = map_sum id (\<lambda>(h, t, ps, m). trim_space m) (resolveCommit G r rv)"

subsection \<open>Differences\<close>

definition tree_of :: "gogit \<Rightarrow> repo \<Rightarrow> string \<Rightarrow> git_error + oid" where
  "tree_of G r rv =
     (case repo_Tree G r rv of
        Inl e \<Rightarrow> Inl e
      | Inr t \<Rightarrow> (case obj r t of Some (Tree_Obj es) \<Rightarrow> Inr t | _ \<Rightarrow> Inl (Object_Not_Found t)))"

definition diffTrees :: "gogit \<Rightarrow> repo \<Rightarrow> string \<Rightarrow> string \<Rightarrow> git_error + tree_change list" where
  "diffTrees G r from_rev to_rev =
     (case tree_of G r from_rev of
        Inl e \<Rightarrow> Inl e
      | Inr a \<Rightarrow> (case tree_of G r to_rev of Inl e \<Rightarrow> Inl e | Inr b \<Rightarrow> Inr (gg_diff G a b)))"

definition change_names :: "tree_change list \<Rightarrow> string list" where
  "change_names cs = filter (\<lambda>n. n \<noteq> []) (concat (map (\<lambda>c. [tc_from_name c, tc_to_name c]) cs))"

definition ChangedPaths :: "gogit \<Rightarrow> repo \<Rightarrow> string \<Rightarrow> string \<Rightarrow> git_error + string list" where
  "ChangedPaths G r from_rev to_rev =
     map_sum id (\<lambda>cs. sort (remdups (change_names cs))) (diffTrees G r from_rev to_rev)"

definition FirstParentChange :: "gogit \<Rightarrow> repo \<Rightarrow> string \<Rightarrow> git_error + (string list \<times> bool)" where
  "FirstParentChange G r commit =
     (case repo_Parents G r commit of
        Inl e \<Rightarrow> Inl e
      | Inr [] \<Rightarrow> Inr ([], False)
      | Inr (p # ps) \<Rightarrow> map_sum id (\<lambda>paths. (paths, True)) (ChangedPaths G r p commit))"

record changed_blob =
  cb_path :: string
  cb_size :: int
  cb_head :: string

fun read_blobs :: "repo \<Rightarrow> tree_change list \<Rightarrow> git_error + changed_blob list" where
  "read_blobs r [] = Inr []"
| "read_blobs r (c # cs) =
     (if tc_to_name c = [] \<or> (tc_to_mode c \<noteq> Mode_Regular \<and> tc_to_mode c \<noteq> Mode_Executable)
      then read_blobs r cs
      else case obj r (tc_to_hash c) of
             Some (Blob_Obj b) \<Rightarrow>
               map_sum id (\<lambda>bs. \<lparr>cb_path = tc_to_name c, cb_size = int (length b), cb_head = take 1024 b\<rparr> # bs)
                 (read_blobs r cs)
           | _ \<Rightarrow> Inl (Not_A_Blob (tc_to_name c)))"

definition ChangedBlobs :: "gogit \<Rightarrow> repo \<Rightarrow> string \<Rightarrow> string \<Rightarrow> git_error + changed_blob list" where
  "ChangedBlobs G r from_rev to_rev =
     (case diffTrees G r from_rev to_rev of
        Inl e \<Rightarrow> Inl e
      | Inr cs \<Rightarrow> map_sum id (sort_key cb_path) (read_blobs r cs))"

subsection \<open>Refs\<close>

definition repo_Ref :: "gogit \<Rightarrow> repo \<Rightarrow> string \<Rightarrow> git_error + oid" where
  "repo_Ref G r ref = resolve G r ref"

definition RefExists :: "repo \<Rightarrow> string \<Rightarrow> bool" where
  "RefExists r ref \<longleftrightarrow> ref_of r ref \<noteq> None"

definition setRef :: "gogit \<Rightarrow> repo \<Rightarrow> string \<Rightarrow> string \<Rightarrow> git_error + repo" where
  "setRef G r ref new_value =
     (if \<not> gg_valid_ref G ref then Inl (Bad_Ref_Name ref)
      else case parseHash new_value of
             Inl e \<Rightarrow> Inl e
           | Inr h \<Rightarrow> (if obj r h = None then Inl (Object_Not_Found h)
                       else Inr (r\<lparr>rp_refs := AList.update ref h (rp_refs r)\<rparr>)))"

definition UpdateRef :: "gogit \<Rightarrow> repo \<Rightarrow> string \<Rightarrow> string \<Rightarrow> string \<Rightarrow> git_error + repo" where
  "UpdateRef G r ref new_value old_value =
     (case ref_of r ref of
        None \<Rightarrow> (if old_value \<noteq> [] then Inl Ref_Moved else setRef G r ref new_value)
      | Some current \<Rightarrow>
          (if old_value = [] \<or> current \<noteq> old_value then Inl Ref_Moved else setRef G r ref new_value))"

definition DeleteRef :: "repo \<Rightarrow> string \<Rightarrow> repo" where
  "DeleteRef r ref = r\<lparr>rp_refs := AList.delete ref (rp_refs r)\<rparr>"

definition DeleteRefIf :: "repo \<Rightarrow> string \<Rightarrow> string \<Rightarrow> git_error + repo" where
  "DeleteRefIf r ref old_value =
     (if ref_of r ref = Some old_value then Inr (DeleteRef r ref) else Inl Ref_Moved)"

subsection \<open>Blobs\<close>

definition WriteBlob :: "gogit \<Rightarrow> time \<Rightarrow> repo \<Rightarrow> string \<Rightarrow> oid \<times> repo" where
  "WriteBlob G now r bytes =
     (let h = gg_hash G (Blob_Obj bytes)
      in (h, if obj r h = None
             then r\<lparr>rp_objects := (h, Blob_Obj bytes) # rp_objects r, rp_loose := (rp_loose r)(h \<mapsto> now)\<rparr>
             else r))"

definition ReadBlob :: "repo \<Rightarrow> string \<Rightarrow> git_error + string" where
  "ReadBlob r bid =
     (case parseHash bid of
        Inl e \<Rightarrow> Inl e
      | Inr h \<Rightarrow> (case obj r h of Some (Blob_Obj b) \<Rightarrow> Inr b | _ \<Rightarrow> Inl (Not_A_Blob bid)))"

definition ObjectType :: "repo \<Rightarrow> string \<Rightarrow> git_error + string" where
  "ObjectType r bid =
     (case parseHash bid of
        Inl e \<Rightarrow> Inl e
      | Inr h \<Rightarrow> (case obj r h of
                    None \<Rightarrow> Inl (Object_Not_Found bid)
                  | Some (Commit_Obj _ _ _) \<Rightarrow> Inr ''commit''
                  | Some (Tree_Obj _) \<Rightarrow> Inr ''tree''
                  | Some (Blob_Obj _) \<Rightarrow> Inr ''blob''
                  | Some (Tag_Obj _) \<Rightarrow> Inr ''tag''))"

subsection \<open>Trailers\<close>

definition trailer_key_ok :: "string \<Rightarrow> bool" where
  "trailer_key_ok k =
     (case k of
        [] \<Rightarrow> False
      | c # cs \<Rightarrow> (is_lower c \<or> is_upper c)
                   \<and> list_all (\<lambda>c. is_lower c \<or> is_upper c \<or> is_digit c \<or> c = CHR ''-'') cs)"

text \<open>A \<open>Key: value\<close> line: the key, blanks, a colon, blanks, the rest.\<close>

definition trailer_line :: "string \<Rightarrow> (string \<times> string) option" where
  "trailer_line line =
     (let k = takeWhile (\<lambda>c. is_lower c \<or> is_upper c \<or> is_digit c \<or> c = CHR ''-'') line;
          rest = dropWhile (\<lambda>c. c = CHR '' '' \<or> c = tab) (drop (length k) line)
      in if k \<noteq> [] \<and> has_prefix rest '':''
         then Some (k, dropWhile (\<lambda>c. c = CHR '' '' \<or> c = tab) (tl rest)) else None)"

text \<open>The loop over the last paragraph's lines; \<open>None\<close> is a line that is no trailer, which makes
  the whole paragraph none. The values collected so far are kept newest first.\<close>

fun trailer_lines :: "string \<Rightarrow> bool \<Rightarrow> string list \<Rightarrow> string list \<Rightarrow> string list option" where
  "trailer_lines key matching values [] = Some (rev values)"
| "trailer_lines key matching values (l # ls) =
     (if l \<noteq> [] \<and> (hd l = CHR '' '' \<or> hd l = tab) then
        trailer_lines key matching
          (if matching then (case values of [] \<Rightarrow> [] | v # vs \<Rightarrow> (v @ newline # trim_space l) # vs)
           else values) ls
      else case trailer_line l of
             None \<Rightarrow> None
           | Some (k, v) \<Rightarrow>
               (let m = (map to_lower k = map to_lower key)
                in trailer_lines key m (if m then v # values else values) ls))"

definition message_trailers :: "string \<Rightarrow> string \<Rightarrow> string list" where
  "message_trailers message key =
     (let paragraphs = split_paragraphs message in
      if length paragraphs < 2 then []
      else case trailer_lines key False [] (split_char newline (last paragraphs)) of
             None \<Rightarrow> []
           | Some vs \<Rightarrow> map trim_space vs)"

definition Trailer :: "gogit \<Rightarrow> repo \<Rightarrow> string \<Rightarrow> string \<Rightarrow> git_error + string list" where
  "Trailer G r commit key =
     (if \<not> trailer_key_ok key then Inl (Bad_Trailer_Key key)
      else map_sum id (\<lambda>m. message_trailers m key) (repo_Message G r commit))"

subsection \<open>Pruning\<close>

definition children :: "git_object \<Rightarrow> oid list" where
  "children x =
     (case x of
        Commit_Obj t ps m \<Rightarrow> t # ps
      | Tree_Obj es \<Rightarrow> map (\<lambda>(n, m, h). h) (filter (\<lambda>(n, m, h). m = Mode_Dir) es)
      | Blob_Obj b \<Rightarrow> []
      | Tag_Obj t \<Rightarrow> [t])"

text \<open>Tree entries that are not directories are marked without being read.\<close>

definition leaves :: "git_object \<Rightarrow> oid list" where
  "leaves x =
     (case x of Tree_Obj es \<Rightarrow> map (\<lambda>(n, m, h). h) (filter (\<lambda>(n, m, h). m \<noteq> Mode_Dir) es) | _ \<Rightarrow> [])"

text \<open>\<open>markReachable\<close>: depth first with the marks as the visited set; the call stack is the work
  list.\<close>

function markReachable :: "(oid \<times> git_object) list \<Rightarrow> oid list \<Rightarrow> oid list \<Rightarrow> git_error + oid list" where
  "markReachable objs [] marks = Inr marks"
| "markReachable objs (h # stack) marks =
     (if h \<in> set marks then markReachable objs stack marks
      else case map_of objs h of
             None \<Rightarrow> Inl (Object_Not_Found h)
           | Some x \<Rightarrow> markReachable objs (children x @ stack) (leaves x @ h # marks))"
  by pat_completeness auto
termination
proof (relation "(\<lambda>(objs, stack, marks). card (set (map fst objs) - set marks)) <*mlex*> measure (\<lambda>(objs, stack, marks). length stack)",
    goal_cases)
  case 1
  show ?case by (rule wf_mlex) simp
next
  case (2 objs h stack marks)
  show ?case by (rule mlex_leq) auto
next
  case (3 objs h stack marks x)
  then have "h \<in> set (map fst objs)" by (metis domI dom_map_of_conv_image_fst set_map)
  then have "card (set (map fst objs) - set (leaves x @ h # marks)) < card (set (map fst objs) - set marks)"
    using 3(1) by (intro psubset_card_mono) auto
  then show ?case by (intro mlex_less) simp
qed

text \<open>Loose objects that no ref reaches and that are older than the grace period are deleted.\<close>

definition PruneUnreachable :: "time \<Rightarrow> duration \<Rightarrow> repo \<Rightarrow> git_error + repo" where
  "PruneUnreachable now grace r =
     (case markReachable (rp_objects r) (map snd (rp_refs r)) [] of
        Inl e \<Rightarrow> Inl e
      | Inr marks \<Rightarrow>
          (let dead = (\<lambda>h. h \<notin> set marks \<and> (case rp_loose r h of None \<Rightarrow> False | Some t \<Rightarrow> t < now - grace))
           in Inr (r\<lparr>rp_objects := filter (\<lambda>(h, x). \<not> dead h) (rp_objects r)\<rparr>)))"

definition RefNames :: "repo \<Rightarrow> string \<Rightarrow> string list" where
  "RefNames r pre = sort (filter (\<lambda>n. has_prefix n pre) (map fst (rp_refs r)))"

subsection \<open>Refs as a compare-and-swap store\<close>

text \<open>
  The interface the guard relies on: a set of named cells with read, compare-and-swap and
  compare-and-delete. \<open>ok v\<close> is when a value may be stored (it names an existing object).
\<close>

locale cas_store =
  fixes get :: "'s \<Rightarrow> string \<rightharpoonup> oid"
    and cas :: "'s \<Rightarrow> string \<Rightarrow> string \<Rightarrow> string \<Rightarrow> git_error + 's"
    and cad :: "'s \<Rightarrow> string \<Rightarrow> string \<Rightarrow> git_error + 's"
  assumes cas_set: "cas s k v old = Inr s' \<Longrightarrow> is_hash v \<and> get s' = (get s)(k \<mapsto> new_hash v)"
    and cas_old: "cas s k v old = Inr s' \<Longrightarrow> get s k = (if old = [] then None else Some old)"
    and cas_moved: "get s k \<noteq> (if old = [] then None else Some old) \<Longrightarrow> cas s k v old = Inl Ref_Moved"
    and cad_del: "cad s k old = Inr s' \<Longrightarrow> get s k = Some old \<and> get s' = (get s)(k := None)"
    and cad_moved: "get s k \<noteq> Some old \<Longrightarrow> cad s k old = Inl Ref_Moved"
begin

lemma cas_other: "cas s k v old = Inr s' \<Longrightarrow> k' \<noteq> k \<Longrightarrow> get s' k' = get s k'"
  by (simp add: cas_set)

lemma cad_other: "cad s k old = Inr s' \<Longrightarrow> k' \<noteq> k \<Longrightarrow> get s' k' = get s k'"
  by (simp add: cad_del)

text \<open>Of two swaps expecting the same value only the first wins, whatever they write, unless the
  first wrote that value back.\<close>

lemma cas_race:
  assumes "cas s k v old = Inr s'" "new_hash v \<noteq> old"
  shows "cas s' k w old = Inl Ref_Moved"
  using cas_set [OF assms(1)] assms(2) by (intro cas_moved) auto

end

lemma setRef_Inr:
  "setRef G r k v = Inr r' \<longleftrightarrow>
     gg_valid_ref G k \<and> is_hash v \<and> obj r (new_hash v) \<noteq> None
     \<and> r' = r\<lparr>rp_refs := AList.update k (new_hash v) (rp_refs r)\<rparr>"
  by (auto simp: setRef_def parseHash_def split: sum.splits if_splits)

lemma UpdateRef_Inr:
  "UpdateRef G r k v old = Inr r' \<longleftrightarrow>
     ref_of r k = (if old = [] then None else Some old) \<and> setRef G r k v = Inr r'"
  by (auto simp: UpdateRef_def split: option.splits)

lemma UpdateRef_moved_iff:
  "UpdateRef G r k v old = Inl Ref_Moved \<longleftrightarrow> ref_of r k \<noteq> (if old = [] then None else Some old)"
  by (auto simp: UpdateRef_def setRef_def parseHash_def split: option.splits sum.splits)

lemma DeleteRef_simps [simp]:
  "ref_of (DeleteRef r k) = (ref_of r)(k := None)" "rp_objects (DeleteRef r k) = rp_objects r"
  "rp_loose (DeleteRef r k) = rp_loose r"
  by (simp_all add: DeleteRef_def delete_conv')

interpretation git_refs: cas_store ref_of "UpdateRef G" DeleteRefIf for G
proof (unfold_locales, goal_cases)
  case (1 s k v old s')
  then show ?case by (auto simp: UpdateRef_Inr setRef_Inr update_conv)
next
  case (2 s k v old s')
  then show ?case by (simp add: UpdateRef_Inr)
next
  case (3 s k old v)
  then show ?case by (simp add: UpdateRef_moved_iff)
next
  case (4 s k old s')
  then show ?case by (auto simp: DeleteRefIf_def split: if_splits)
next
  case (5 s k old)
  then show ?case by (simp add: DeleteRefIf_def)
qed

subsection \<open>Reachability and pruning\<close>

text \<open>What the refs keep alive: the objects reached along tree, parent and tag edges, and the
  entries of the trees among them.\<close>

inductive reached :: "(oid \<times> git_object) list \<Rightarrow> oid set \<Rightarrow> oid \<Rightarrow> bool" for objs roots where
  reached_root: "h \<in> roots \<Longrightarrow> reached objs roots h"
| reached_child: "reached objs roots h \<Longrightarrow> map_of objs h = Some x \<Longrightarrow>
     h' \<in> set (children x) \<union> set (leaves x) \<Longrightarrow> reached objs roots h'"

text \<open>No entry of a tree that is not a directory names an object with further edges. A submodule
  entry that names a commit of the same repository breaks this.\<close>

definition leaves_final :: "(oid \<times> git_object) list \<Rightarrow> bool" where
  "leaves_final objs \<longleftrightarrow>
     (\<forall>(h, x)\<in>set objs. \<forall>l\<in>set (leaves x). \<forall>y. map_of objs l = Some y \<longrightarrow> children y = [] \<and> leaves y = [])"

definition marks_ok :: "(oid \<times> git_object) list \<Rightarrow> oid set \<Rightarrow> oid set \<Rightarrow> bool" where
  "marks_ok objs stack marks \<longleftrightarrow>
     (\<forall>h\<in>marks. \<forall>x. map_of objs h = Some x \<longrightarrow>
        set (children x) \<subseteq> marks \<union> stack \<and> set (leaves x) \<subseteq> marks)"

lemma marks_ok_visit:
  assumes "marks_ok objs (set (h # stack)) (set marks)" "map_of objs h = Some x" "leaves_final objs"
  shows "marks_ok objs (set (children x @ stack)) (set (leaves x @ h # marks))"
proof -
  have "children y = [] \<and> leaves y = []" if "l \<in> set (leaves x)" "map_of objs l = Some y" for l y
    using map_of_SomeD [OF assms(2)] assms(3) that unfolding leaves_final_def by fastforce
  then show ?thesis using assms(1,2) unfolding marks_ok_def by (auto; fastforce)
qed

lemma markReachable_marks:
  "markReachable objs stack marks = Inr m \<Longrightarrow> leaves_final objs \<Longrightarrow> marks_ok objs (set stack) (set marks) \<Longrightarrow>
     set stack \<union> set marks \<subseteq> set m \<and> marks_ok objs {} (set m)"
proof (induction objs stack marks rule: markReachable.induct)
  case (2 objs h stack marks)
  show ?case
  proof (cases "h \<in> set marks")
    case True
    then have "marks_ok objs (set stack) (set marks)"
      using 2(5) unfolding marks_ok_def by auto
    then show ?thesis using 2(1) [OF True] 2(3,4) True by auto
  next
    case False
    then obtain x where x: "map_of objs h = Some x" using 2(3) by (auto split: option.splits)
    then show ?thesis
      using 2(2) [OF False x _ 2(4) marks_ok_visit [OF 2(5) x 2(4)]] 2(3) False by auto
  qed
qed simp

lemma markReachable_reached:
  assumes "markReachable objs roots [] = Inr m" "leaves_final objs" "reached objs (set roots) h"
  shows "h \<in> set m"
proof -
  have m: "set roots \<subseteq> set m" "marks_ok objs {} (set m)"
    using markReachable_marks [OF assms(1,2)] by (auto simp: marks_ok_def)
  show ?thesis using assms(3)
  proof induction
    case (reached_child h x h')
    then show ?case using m(2) unfolding marks_ok_def by auto
  qed (use m in auto)
qed

lemma map_of_filter_key: "P h \<Longrightarrow> map_of (filter (\<lambda>(h, x). P h) xs) h = map_of xs h"
  by (induction xs) auto

lemma PruneUnreachable_keeps:
  assumes "PruneUnreachable now grace r = Inr r'" "leaves_final (rp_objects r)"
    and "reached (rp_objects r) (set (map snd (rp_refs r))) h"
  shows "obj r' h = obj r h" "rp_refs r' = rp_refs r"
proof -
  obtain m where m: "markReachable (rp_objects r) (map snd (rp_refs r)) [] = Inr m"
    and r': "r' = r\<lparr>rp_objects := filter (\<lambda>(h, x). \<not> (h \<notin> set m \<and>
        (case rp_loose r h of None \<Rightarrow> False | Some t \<Rightarrow> t < now - grace))) (rp_objects r)\<rparr>"
    using assms(1) by (auto simp: PruneUnreachable_def Let_def split: sum.splits)
  have "h \<in> set m" using markReachable_reached [OF m assms(2,3)] .
  then show "obj r' h = obj r h" "rp_refs r' = rp_refs r"
    unfolding r' by (simp_all add: map_of_filter_key)
qed

lemma PruneUnreachable_refs: "PruneUnreachable now grace r = Inr r' \<Longrightarrow> rp_refs r' = rp_refs r"
  by (auto simp: PruneUnreachable_def Let_def split: sum.splits)

lemma PruneUnreachable_subset:
  "PruneUnreachable now grace r = Inr r' \<Longrightarrow> set (rp_objects r') \<subseteq> set (rp_objects r)"
  by (auto simp: PruneUnreachable_def Let_def split: sum.splits)

lemma to_lower_hex: "is_hex c \<Longrightarrow> to_lower c = c"
  by (auto simp: to_lower_def is_upper_def is_hex_def is_digit_def in_range_def)

lemma full_hex_new_hash: "list_all is_hex s \<Longrightarrow> new_hash s = s"
  by (auto simp: new_hash_def list_all_iff to_lower_hex intro: map_idI)

lemma is_hash_lower: "length s = 40 \<Longrightarrow> list_all is_hex s \<Longrightarrow> is_hash s"
  by (auto simp: is_hash_def list_all_iff to_lower_hex)

end
