(* ===== verification/Guard.thy ===== *)
theory Guard
  imports Constitution Repo
begin

text \<open>
  Package \<open>line/guard\<close>: the merge guard, the only writer of the guarded branch, and the andon cord.
  \<open>guard.go\<close> (Merge, checkResults), \<open>verify.go\<close>, \<open>andon.go\<close> (Stopped, Pull, Clear) and
  \<open>blobs.go\<close>. A call reads the repository, decides, and performs at most one compare-and-swap;
  the decision (\<open>merge_decide\<close>) and the swap (\<open>merge_land\<close>) are separate definitions, so that
  they can also run on different repository states. Details of a rejection are constructors
  carrying the values the text prints.
\<close>

subsection \<open>Data\<close>

record andon_event =
  ae_commit :: string
  ae_check :: string
  ae_exit_code :: int
  ae_evidence_id :: string
  ae_agent_id :: string
  ae_role :: string
  ae_key_id :: string
  ae_constitution :: string
  ae_pulled_at :: time
  ae_attestation :: string

text \<open>Everything outside the source: the cryptographic library, go-git, and the JSON codec of the
  event.\<close>

record ext =
  x_lib :: lib
  x_git :: gogit
  x_marshal_event :: "andon_event \<Rightarrow> string"
  x_unmarshal_event :: "string \<Rightarrow> andon_event option"

datatype status = No_Status | Merged | Rejected | Stopped_Status | Cleared

datatype reason =
    No_Reason | ReasonUntrusted | ReasonCommitMismatch | ReasonConstitution | ReasonRunner
  | ReasonChecksMissing | ReasonChecksFailed | ReasonLineStopped | ReasonBaseMoved
  | ReasonRoleForbidden | ReasonBadCandidate | ReasonBlobForbidden | ReasonRoleNotPermitted
  | ReasonNoBase | ReasonAlreadyStopped | ReasonNotStopped | ReasonStaleEvidence | ReasonNoFailure

datatype detail =
    No_Detail | Not_Full_Hex string | Candidate_Not_Found git_error | Resolved_Differently string string
  | Attestation_Bad attest_error | Key_Role "string list" string | Attested_Other string string
  | Other_Constitution string string | Other_Runner string string
  | Check_Not_Attested string string | Check_Skipped string string | Check_Exited string int
  | Cord_Pulled string | Missing_Ref string | First_Parent_Not_Base string | Ref_Moved_During_Merge string
  | Path_Forbidden string "string list" string | Blob_Executable string int string
  | Blob_Too_Large string int int | Evidence_Stale string string | Already_Pulled string
  | No_Failing_Check | Needs_Newer_Master | Cord_Not_Pulled | Witness_Checks_Failed

record result =
  res_status :: status
  res_reason :: reason
  res_detail :: detail
  res_commit :: string
  res_base :: string
  res_event :: string

definition zero_result :: result where
  "zero_result = \<lparr>res_status = No_Status, res_reason = No_Reason, res_detail = No_Detail,
                  res_commit = [], res_base = [], res_event = []\<rparr>"

definition rejection :: "reason \<Rightarrow> detail \<Rightarrow> string \<Rightarrow> result" where
  "rejection why det commit =
     \<lparr>res_status = Rejected, res_reason = why, res_detail = det, res_commit = commit,
      res_base = [], res_event = []\<rparr>"

lemma rejection_simps [simp]:
  "res_status (rejection w d c) = Rejected" "res_reason (rejection w d c) = w"
  "res_commit (rejection w d c) = c"
  by (simp_all add: rejection_def)

lemma zero_result_status [simp]: "res_status zero_result = No_Status"
  by (simp add: zero_result_def)

record guard =
  g_ref :: string
  g_constitution :: constitution
  g_digest :: string
  g_grace :: duration

datatype guard_error =
    GE_Constitution constitution_error
  | GE_Git git_error
  | GE_Prune string git_error
  | GE_Payload

definition StopRef :: string where "StopRef = ''refs/line/andon''"
definition CandidatePrefix :: string where "CandidatePrefix = ''refs/line/candidates/''"
definition FixTrailer :: string where "FixTrailer = ''Andon-Event''"

subsection \<open>Early returns\<close>

text \<open>A stage of a guard operation: an internal error, a final answer, or a value to go on with.\<close>

datatype 'a stage = Fail guard_error | Answer result | Go 'a

fun and_then :: "'a stage \<Rightarrow> ('a \<Rightarrow> 'b stage) \<Rightarrow> 'b stage" where
  "and_then (Fail e) f = Fail e"
| "and_then (Answer a) f = Answer a"
| "and_then (Go x) f = f x"

definition git_stage :: "git_error + 'a \<Rightarrow> 'a stage" where
  "git_stage v = (case v of Inl e \<Rightarrow> Fail (GE_Git e) | Inr x \<Rightarrow> Go x)"

definition answer_if :: "bool \<Rightarrow> result \<Rightarrow> unit stage" where
  "answer_if b a = (if b then Answer a else Go ())"

lemma and_then_Go: "and_then d f = Go y \<longleftrightarrow> (\<exists>x. d = Go x \<and> f x = Go y)"
  by (cases d) auto

lemma git_stage_Go [simp]: "git_stage v = Go x \<longleftrightarrow> v = Inr x"
  by (auto simp: git_stage_def split: sum.splits)

lemma git_stage_not_Answer [simp]: "git_stage v \<noteq> Answer a"
  by (auto simp: git_stage_def split: sum.splits)

lemma answer_if_Go [simp]: "answer_if b a = Go u \<longleftrightarrow> \<not> b"
  by (auto simp: answer_if_def)

lemma answer_if_Answer [simp]: "answer_if b a = Answer a' \<longleftrightarrow> b \<and> a' = a"
  by (auto simp: answer_if_def)

lemma and_then_Answer:
  "and_then d f = Answer a \<longleftrightarrow> d = Answer a \<or> (\<exists>x. d = Go x \<and> f x = Answer a)"
  by (cases d) auto

subsection \<open>Check results\<close>

definition check_verdict :: "(string \<rightharpoonup> check_result) \<Rightarrow> bool \<Rightarrow> check \<Rightarrow> (reason \<times> detail) option" where
  "check_verdict by_name docs_only k =
     (case by_name (ck_name k) of
        None \<Rightarrow> Some (ReasonChecksMissing, Check_Not_Attested (ck_name k) (ck_command k))
      | Some r \<Rightarrow>
          (if cr_command r \<noteq> ck_command k
           then Some (ReasonChecksMissing, Check_Not_Attested (ck_name k) (ck_command k))
           else if cr_skipped r \<noteq> [] then
             (if \<not> ck_skip_for_docs_only k \<or> \<not> docs_only
              then Some (ReasonChecksMissing, Check_Skipped (ck_name k) (cr_skipped r)) else None)
           else if cr_exit_code r \<noteq> 0
           then Some (ReasonChecksFailed, Check_Exited (ck_name k) (cr_exit_code r))
           else None))"

definition checkResults :: "check list \<Rightarrow> check_result list \<Rightarrow> bool \<Rightarrow> (reason \<times> detail) option" where
  "checkResults required results docs_only =
     first_err (map (check_verdict (map_by cr_name results) docs_only) required)"

subsection \<open>Blobs\<close>

definition executable_magics :: "(string \<times> string) list" where
  "executable_magics =
     [(''ELF'', [CHR 0x7F, CHR ''E'', CHR ''L'', CHR ''F'']),
      (''Mach-O'', [CHR 0xFE, CHR 0xED, CHR 0xFA, CHR 0xCE]),
      (''Mach-O'', [CHR 0xFE, CHR 0xED, CHR 0xFA, CHR 0xCF]),
      (''Mach-O'', [CHR 0xCE, CHR 0xFA, CHR 0xED, CHR 0xFE]),
      (''Mach-O'', [CHR 0xCF, CHR 0xFA, CHR 0xED, CHR 0xFE])]"

definition le32 :: "string \<Rightarrow> nat" where
  "le32 s = byte (s ! 0) + 256 * byte (s ! 1) + 65536 * byte (s ! 2) + 16777216 * byte (s ! 3)"

definition executableKind :: "string \<Rightarrow> string" where
  "executableKind head =
     (case find_first (\<lambda>(kind, magic). has_prefix head magic) executable_magics of
        Some (kind, magic) \<Rightarrow> kind
      | None \<Rightarrow>
          (if has_prefix head ''MZ'' \<and> length head \<ge> 60 + 4 then
             (let at = le32 (drop 60 head)
              in if at \<le> length head - 4 \<and> take 4 (drop at head) = [CHR ''P'', CHR ''E'', CHR 0x00, CHR 0x00]
                 then ''PE'' else [])
           else []))"

definition blob_problem :: "blob_guard \<Rightarrow> changed_blob \<Rightarrow> detail option" where
  "blob_problem rules b =
     (if blob_Allows rules (cb_path b) then None
      else if executableKind (cb_head b) \<noteq> []
      then Some (Blob_Executable (cb_path b) (cb_size b) (executableKind (cb_head b)))
      else if cb_size b > MaxBytesOrDefault rules
      then Some (Blob_Too_Large (cb_path b) (cb_size b) (MaxBytesOrDefault rules))
      else None)"

definition blobViolation :: "blob_guard \<Rightarrow> changed_blob list \<Rightarrow> detail option" where
  "blobViolation rules blobs = first_err (map (blob_problem rules) blobs)"

subsection \<open>Verification shared by Merge, Pull and Clear\<close>

record verified =
  v_statement :: statement
  v_key_id :: string
  v_commit :: string

definition constitution_stage :: "constitution_error + 'a \<Rightarrow> 'a stage" where
  "constitution_stage v = (case v of Inl e \<Rightarrow> Fail (GE_Constitution e) | Inr x \<Rightarrow> Go x)"

definition attest_stage :: "string \<Rightarrow> attest_error + 'a \<Rightarrow> 'a stage" where
  "attest_stage commit v =
     (case v of Inl e \<Rightarrow> Answer (rejection ReasonUntrusted (Attestation_Bad e) commit) | Inr x \<Rightarrow> Go x)"

definition key_permits :: "string list option \<Rightarrow> string \<Rightarrow> bool" where
  "key_permits roles role = (case roles of None \<Rightarrow> True | Some rs \<Rightarrow> rs = [] \<or> role \<in> set rs)"

definition verify :: "ext \<Rightarrow> guard \<Rightarrow> envelope \<Rightarrow> string \<Rightarrow> string \<Rightarrow> verified stage" where
  "verify X g env want_commit reject_commit =
     and_then (constitution_stage (TrustedKeys (x_lib X) (g_constitution g))) (\<lambda>trusted.
     and_then (constitution_stage (KeyRoles (x_lib X) (g_constitution g))) (\<lambda>key_roles.
     and_then (attest_stage reject_commit (VerifyStatement (x_lib X) env trusted)) (\<lambda>(s, key_id).
     and_then (answer_if (\<not> key_permits (key_roles key_id) (pr_role (st_predicate s)))
       (rejection ReasonRoleNotPermitted
          (Key_Role (the (key_roles key_id)) (pr_role (st_predicate s))) reject_commit)) (\<lambda>_.
     and_then (attest_stage reject_commit (st_commit s)) (\<lambda>attested.
     and_then (answer_if (want_commit \<noteq> [] \<and> attested \<noteq> want_commit)
       (rejection ReasonCommitMismatch (Attested_Other want_commit attested) reject_commit)) (\<lambda>_.
     and_then (answer_if (pr_constitution (st_predicate s) \<noteq> g_digest g)
       (rejection ReasonConstitution
          (Other_Constitution (pr_constitution (st_predicate s)) (g_digest g)) reject_commit)) (\<lambda>_.
     and_then (answer_if (pr_runner (st_predicate s) \<noteq> runner_ID (cn_runner (g_constitution g)))
       (rejection ReasonRunner
          (Other_Runner (pr_runner (st_predicate s)) (runner_ID (cn_runner (g_constitution g))))
          reject_commit)) (\<lambda>_.
     Go \<lparr>v_statement = s, v_key_id = key_id, v_commit = attested\<rparr>))))))))"

subsection \<open>The cord\<close>

text \<open>The id the stop ref points at; empty when the line is running.\<close>

definition stopID :: "ext \<Rightarrow> repo \<Rightarrow> string stage" where
  "stopID X r = (if RefExists r StopRef then git_stage (repo_Ref (x_git X) r StopRef) else Go [])"

definition Stopped :: "ext \<Rightarrow> repo \<Rightarrow> (string \<times> andon_event option) stage" where
  "Stopped X r =
     and_then (stopID X r) (\<lambda>sid.
       if sid = [] then Go ([], None)
       else and_then (git_stage (ObjectType r sid)) (\<lambda>kind.
         if kind \<noteq> ''blob'' then Go (sid, None)
         else and_then (git_stage (ReadBlob r sid)) (\<lambda>bytes. Go (sid, x_unmarshal_event X bytes))))"

subsection \<open>Merge\<close>

definition docs_only_of :: "ext \<Rightarrow> guard \<Rightarrow> repo \<Rightarrow> string \<Rightarrow> check_result list \<Rightarrow> bool stage" where
  "docs_only_of X g r commit results =
     (if list_ex (\<lambda>c. cr_skipped c \<noteq> []) results
      then and_then (git_stage (FirstParentChange (x_git X) r commit)) (\<lambda>(paths, has_parent).
             Go (has_parent \<and> DocsOnly (cn_checks (g_constitution g)) paths))
      else Go False)"

definition checks_gate :: "guard \<Rightarrow> check_result list \<Rightarrow> bool \<Rightarrow> string \<Rightarrow> unit stage" where
  "checks_gate g results docs_only commit =
     (case checkResults (cs_required (cn_checks (g_constitution g))) results docs_only of
        None \<Rightarrow> Go ()
      | Some (why, det) \<Rightarrow> Answer (rejection why det commit))"

definition stop_gate :: "ext \<Rightarrow> repo \<Rightarrow> string \<Rightarrow> unit stage" where
  "stop_gate X r commit =
     and_then (stopID X r) (\<lambda>sid.
       if sid = [] then Go ()
       else and_then (git_stage (Trailer (x_git X) r commit FixTrailer)) (\<lambda>tagged.
         answer_if (sid \<notin> set tagged)
           ((rejection ReasonLineStopped (Cord_Pulled sid) commit)\<lparr>res_event := sid\<rparr>)))"

definition fast_forward :: "ext \<Rightarrow> guard \<Rightarrow> repo \<Rightarrow> string \<Rightarrow> oid stage" where
  "fast_forward X g r commit =
     and_then (answer_if (\<not> RefExists r (g_ref g))
       (rejection ReasonNoBase (Missing_Ref (g_ref g)) commit)) (\<lambda>_.
     and_then (git_stage (repo_Ref (x_git X) r (g_ref g))) (\<lambda>base.
     and_then (git_stage (repo_Parents (x_git X) r commit)) (\<lambda>parents.
     and_then (answer_if (parents = [] \<or> hd parents \<noteq> base)
       ((rejection ReasonBaseMoved (First_Parent_Not_Base (g_ref g)) commit)\<lparr>res_base := base\<rparr>)) (\<lambda>_.
     Go base))))"

definition path_forbidden :: "constitution \<Rightarrow> string \<Rightarrow> string \<Rightarrow> bool" where
  "path_forbidden c role p = (case AllowedRoles c p of None \<Rightarrow> False | Some rs \<Rightarrow> role \<notin> set rs)"

definition role_gate :: "ext \<Rightarrow> guard \<Rightarrow> repo \<Rightarrow> oid \<Rightarrow> string \<Rightarrow> string \<Rightarrow> unit stage" where
  "role_gate X g r base commit role =
     and_then (git_stage (ChangedPaths (x_git X) r base commit)) (\<lambda>paths.
       case find_first (path_forbidden (g_constitution g) role) paths of
         None \<Rightarrow> Go ()
       | Some p \<Rightarrow> Answer (rejection ReasonRoleForbidden
                    (Path_Forbidden p (the (AllowedRoles (g_constitution g) p)) role) commit))"

definition blob_gate :: "ext \<Rightarrow> guard \<Rightarrow> repo \<Rightarrow> oid \<Rightarrow> string \<Rightarrow> unit stage" where
  "blob_gate X g r base commit =
     and_then (git_stage (ChangedBlobs (x_git X) r base commit)) (\<lambda>blobs.
       case blobViolation (gd_blobs (cn_guards (g_constitution g))) blobs of
         None \<Rightarrow> Go ()
       | Some det \<Rightarrow> Answer (rejection ReasonBlobForbidden det commit))"

definition merge_decide :: "ext \<Rightarrow> guard \<Rightarrow> repo \<Rightarrow> string \<Rightarrow> envelope \<Rightarrow> oid stage" where
  "merge_decide X g r commit env =
     and_then (verify X g env commit commit) (\<lambda>v.
     let p = st_predicate (v_statement v) in
     and_then (docs_only_of X g r commit (pr_checks p)) (\<lambda>docs_only.
     and_then (checks_gate g (pr_checks p) docs_only commit) (\<lambda>_.
     and_then (stop_gate X r commit) (\<lambda>_.
     and_then (fast_forward X g r commit) (\<lambda>base.
     and_then (role_gate X g r base commit (pr_role p)) (\<lambda>_.
     and_then (blob_gate X g r base commit) (\<lambda>_.
     Go base)))))))"

definition merge_land :: "ext \<Rightarrow> guard \<Rightarrow> repo \<Rightarrow> string \<Rightarrow> oid \<Rightarrow> (result \<times> guard_error option) \<times> repo" where
  "merge_land X g r commit base =
     (case UpdateRef (x_git X) r (g_ref g) commit base of
        Inr r' \<Rightarrow>
          ((\<lparr>res_status = Merged, res_reason = No_Reason, res_detail = No_Detail, res_commit = commit,
             res_base = base, res_event = []\<rparr>, None), r')
      | Inl Ref_Moved \<Rightarrow>
          (((rejection ReasonBaseMoved (Ref_Moved_During_Merge (g_ref g)) commit)\<lparr>res_base := base\<rparr>, None), r)
      | Inl e \<Rightarrow> ((zero_result, Some (GE_Git e)), r))"

text \<open>The deferred cleanup: the candidate ref goes, and unless the candidate merged its objects are
  pruned; a pruning error is reported only when there was no other.\<close>

definition merge_cleanup :: "guard \<Rightarrow> time \<Rightarrow> string \<Rightarrow> (result \<times> guard_error option) \<times> repo
    \<Rightarrow> (result \<times> guard_error option) \<times> repo" where
  "merge_cleanup g now commit outcome =
     (let ((res, err), r1) = outcome;
          r2 = DeleteRef r1 (CandidatePrefix @ commit)
      in if res_status res = Merged then ((res, err), r2)
         else case PruneUnreachable now (g_grace g) r2 of
                Inr r3 \<Rightarrow> ((res, err), r3)
              | Inl e \<Rightarrow> ((res, if err = None then Some (GE_Prune commit e) else err), r2))"

definition Merge :: "ext \<Rightarrow> guard \<Rightarrow> time \<Rightarrow> repo \<Rightarrow> string \<Rightarrow> envelope
    \<Rightarrow> (result \<times> guard_error option) \<times> repo" where
  "Merge X g now r commit env =
     (if \<not> full_hex commit then ((rejection ReasonBadCandidate (Not_Full_Hex commit) commit, None), r)
      else case repo_Commit (x_git X) r commit of
             Inl e \<Rightarrow> ((rejection ReasonBadCandidate (Candidate_Not_Found e) commit, None), r)
           | Inr resolved \<Rightarrow>
               (if resolved \<noteq> commit
                then ((rejection ReasonBadCandidate (Resolved_Differently commit resolved) commit, None), r)
                else merge_cleanup g now commit
                       (case merge_decide X g r commit env of
                          Fail e \<Rightarrow> ((zero_result, Some e), r)
                        | Answer a \<Rightarrow> ((a, None), r)
                        | Go base \<Rightarrow> merge_land X g r commit base)))"

subsection \<open>Pull and Clear\<close>

definition currentMaster :: "ext \<Rightarrow> guard \<Rightarrow> repo \<Rightarrow> string \<Rightarrow> oid stage" where
  "currentMaster X g r commit =
     and_then (answer_if (\<not> RefExists r (g_ref g))
       (rejection ReasonNoBase (Missing_Ref (g_ref g)) commit)) (\<lambda>_.
     git_stage (repo_Ref (x_git X) r (g_ref g)))"

definition staleEvidence :: "string \<Rightarrow> string \<Rightarrow> result" where
  "staleEvidence attested base =
     (rejection ReasonStaleEvidence (Evidence_Stale attested base) attested)\<lparr>res_base := base\<rparr>"

text \<open>The first required check, in the constitution's order, that some attested result shows
  failing; of its results, the first failing one.\<close>

definition failing_result :: "check_result list \<Rightarrow> check \<Rightarrow> check_result option" where
  "failing_result results k =
     find_first (\<lambda>c. cr_name c = ck_name k \<and> cr_command c = ck_command k \<and> cr_exit_code c \<noteq> 0) results"

fun first_failure :: "check_result list \<Rightarrow> check list \<Rightarrow> check_result option" where
  "first_failure results [] = None"
| "first_failure results (k # ks) =
     (case failing_result results k of Some c \<Rightarrow> Some c | None \<Rightarrow> first_failure results ks)"

definition already_stopped :: "string \<Rightarrow> string \<Rightarrow> result" where
  "already_stopped commit sid =
     (rejection ReasonAlreadyStopped (Already_Pulled sid) commit)\<lparr>res_event := sid\<rparr>"

definition pull_event :: "ext \<Rightarrow> time \<Rightarrow> envelope \<Rightarrow> verified \<Rightarrow> check_result \<Rightarrow> andon_event" where
  "pull_event X now env v c =
     (let p = st_predicate (v_statement v) in
      \<lparr>ae_commit = v_commit v, ae_check = cr_name c, ae_exit_code = cr_exit_code c,
       ae_evidence_id = cr_evidence_id c, ae_agent_id = pr_agent_id p, ae_role = pr_role p,
       ae_key_id = v_key_id v, ae_constitution = pr_constitution p, ae_pulled_at = now,
       ae_attestation =
         ''sha256:'' @ hex_encode (lib_sha256 (x_lib X) (the (b64_decode (env_payload env))))\<rparr>)"

definition pull_decide :: "ext \<Rightarrow> guard \<Rightarrow> time \<Rightarrow> repo \<Rightarrow> envelope \<Rightarrow> (string \<times> andon_event) stage" where
  "pull_decide X g now r env =
     and_then (verify X g env [] []) (\<lambda>v.
     and_then (currentMaster X g r (v_commit v)) (\<lambda>base.
     and_then (answer_if (v_commit v \<noteq> base) (staleEvidence (v_commit v) base)) (\<lambda>_.
     and_then (stopID X r) (\<lambda>sid.
     and_then (answer_if (sid \<noteq> []) (already_stopped (v_commit v) sid)) (\<lambda>_.
     and_then (if b64_decode (env_payload env) = None then Fail GE_Payload else Go ()) (\<lambda>_.
     case first_failure (pr_checks (st_predicate (v_statement v)))
            (cs_required (cn_checks (g_constitution g))) of
       None \<Rightarrow> Answer (rejection ReasonNoFailure No_Failing_Check (v_commit v))
     | Some c \<Rightarrow> Go (v_commit v, pull_event X now env v c)))))))"

definition pull_land :: "ext \<Rightarrow> time \<Rightarrow> repo \<Rightarrow> string \<Rightarrow> andon_event \<Rightarrow> (result \<times> guard_error option) \<times> repo" where
  "pull_land X now r commit ev =
     (let (blob, r1) = WriteBlob (x_git X) now r (x_marshal_event X ev) in
      case UpdateRef (x_git X) r1 StopRef blob [] of
        Inr r2 \<Rightarrow>
          ((\<lparr>res_status = Stopped_Status, res_reason = No_Reason, res_detail = No_Detail,
             res_commit = commit, res_base = [], res_event = blob\<rparr>, None), r2)
      | Inl Ref_Moved \<Rightarrow>
          (case stopID X r1 of
             Go sid \<Rightarrow> ((already_stopped commit sid, None), r1)
           | Fail e \<Rightarrow> ((zero_result, Some e), r1)
           | Answer a \<Rightarrow> ((a, None), r1))
      | Inl e \<Rightarrow> ((zero_result, Some (GE_Git e)), r1))"

definition Pull :: "ext \<Rightarrow> guard \<Rightarrow> time \<Rightarrow> repo \<Rightarrow> envelope \<Rightarrow> (result \<times> guard_error option) \<times> repo" where
  "Pull X g now r env =
     (case pull_decide X g now r env of
        Fail e \<Rightarrow> ((zero_result, Some e), r)
      | Answer a \<Rightarrow> ((a, None), r)
      | Go (commit, ev) \<Rightarrow> pull_land X now r commit ev)"

definition not_stopped :: "string \<Rightarrow> result" where
  "not_stopped commit = rejection ReasonNotStopped Cord_Not_Pulled commit"

text \<open>What Clear deletes on success: the id it read, with the master it was proved on.\<close>

definition clear_decide :: "ext \<Rightarrow> guard \<Rightarrow> repo \<Rightarrow> envelope \<Rightarrow> (string \<times> string \<times> oid) stage" where
  "clear_decide X g r env =
     and_then (stopID X r) (\<lambda>sid.
     and_then (answer_if (sid = []) (not_stopped [])) (\<lambda>_.
     and_then (verify X g env [] []) (\<lambda>v.
     and_then (currentMaster X g r (v_commit v)) (\<lambda>base.
     and_then (answer_if (v_commit v \<noteq> base) (staleEvidence (v_commit v) base)) (\<lambda>_.
     and_then (Stopped X r) (\<lambda>(_, ev).
     and_then (answer_if (ev \<noteq> None \<and> v_commit v = ae_commit (the ev))
       ((staleEvidence (v_commit v) base)\<lparr>res_detail := Needs_Newer_Master\<rparr>)) (\<lambda>_.
     case checkResults (cs_required (cn_checks (g_constitution g)))
            (pr_checks (st_predicate (v_statement v))) False of
       Some (why, det) \<Rightarrow> Answer ((rejection why det (v_commit v))\<lparr>res_base := base\<rparr>)
     | None \<Rightarrow> Go (sid, v_commit v, base))))))))"

definition clear_land :: "repo \<Rightarrow> string \<Rightarrow> string \<Rightarrow> oid \<Rightarrow> (result \<times> guard_error option) \<times> repo" where
  "clear_land r sid commit base =
     (case DeleteRefIf r StopRef sid of
        Inr r' \<Rightarrow>
          ((\<lparr>res_status = Cleared, res_reason = No_Reason, res_detail = No_Detail,
             res_commit = commit, res_base = base, res_event = sid\<rparr>, None), r')
      | Inl Ref_Moved \<Rightarrow> ((not_stopped commit, None), r)
      | Inl e \<Rightarrow> ((zero_result, Some (GE_Git e)), r))"

definition Clear :: "ext \<Rightarrow> guard \<Rightarrow> repo \<Rightarrow> envelope \<Rightarrow> (result \<times> guard_error option) \<times> repo" where
  "Clear X g r env =
     (case clear_decide X g r env of
        Fail e \<Rightarrow> ((zero_result, Some e), r)
      | Answer a \<Rightarrow> ((a, None), r)
      | Go (sid, commit, base) \<Rightarrow> clear_land r sid commit base)"

subsection \<open>The repository hook\<close>

text \<open>The pre-receive hook: a push is refused at the first ref outside the candidates.\<close>

definition pre_receive_accepts :: "string list \<Rightarrow> bool" where
  "pre_receive_accepts refs = list_all (\<lambda>ref. has_prefix ref CandidatePrefix) refs"

end
