(* ===== verification/Constitution_Rules.thy ===== *)
theory Constitution_Rules
  imports Constitution
begin

text \<open>
  What the constitution's operations guarantee: validation establishes the well-formedness the
  witness and the guard rely on, a parsed constitution validates again, workload rules never
  overlap, delegations grant exactly what they list, and sizes never overflow.
\<close>

subsection \<open>What validation guarantees\<close>

lemma checks_loop_None:
  "checks_loop docs seen cs = None \<longleftrightarrow>
     (\<forall>c\<in>set cs. ck_name c \<noteq> [] \<and> ck_command c \<noteq> [] \<and> (ck_skip_for_docs_only c \<longrightarrow> docs \<noteq> []))
     \<and> distinct (map ck_name cs) \<and> ck_name ` set cs \<inter> seen = {}"
  by (induction cs arbitrary: seen) auto

lemma budgets_loop_None:
  "budgets_loop seen ibs = None \<longleftrightarrow>
     (\<forall>(i, b)\<in>set ibs. (bu_scope b \<in> {''line'', ''card''} \<union> set Roles) \<and> 1 \<le> bu_tokens b
        \<and> positive_duration (bu_period b) \<and> 0 \<le> bu_warn_percent b \<and> bu_warn_percent b \<le> 99)
     \<and> distinct (map (bu_scope \<circ> snd) ibs) \<and> (bu_scope \<circ> snd) ` set ibs \<inter> seen = {}"
proof (induction seen ibs rule: budgets_loop.induct)
  case (2 seen i b bs)
  then show ?case by auto
qed simp

lemma indexed_snd: "map (f \<circ> snd) (indexed xs) = map f xs"
  by (simp add: indexed_def flip: map_map)

lemma validateBudgets_None:
  "validateBudgets bs = None \<longleftrightarrow>
     (\<forall>b\<in>set bs. (bu_scope b \<in> {''line'', ''card''} \<union> set Roles) \<and> 1 \<le> bu_tokens b
        \<and> positive_duration (bu_period b) \<and> 0 \<le> bu_warn_percent b \<and> bu_warn_percent b \<le> 99)
     \<and> distinct (map bu_scope bs)"
  unfolding validateBudgets_def budgets_loop_None ball_indexed by (simp add: indexed_snd)

lemma remotes_loop_Inr:
  "remotes_loop u names n irs = Inr m \<Longrightarrow>
     m = n + length (filter (\<lambda>r. rm_kind r = ''authoritative'') (map snd irs))
     \<and> (\<forall>r\<in>snd ` set irs. rm_kind r = ''authoritative'' \<or> (rm_kind r = ''storage'' \<and> \<not> u (rm_url r)))
     \<and> distinct (map (rm_name \<circ> snd) irs) \<and> (rm_name \<circ> snd) ` set irs \<inter> names = {}"
proof (induction u names n irs rule: remotes_loop.induct)
  case (2 u names n i r rs)
  then show ?case by (auto split: if_splits)
qed simp

lemma validateRemotes_None:
  assumes "validateRemotes u rs = None"
  shows "distinct (map rm_name rs)"
    and "\<forall>r\<in>set rs. rm_kind r = ''authoritative'' \<or> (rm_kind r = ''storage'' \<and> \<not> u (rm_url r))"
    and "rs \<noteq> [] \<Longrightarrow> length (filter (\<lambda>r. rm_kind r = ''authoritative'') rs) = 1"
proof -
  have snd: "map snd (indexed rs) = rs" "snd ` set (indexed rs) = set rs"
    by (simp_all add: indexed_def flip: set_map)
  have loop: "remotes_loop u {} 0 (indexed rs) = Inr 1" if "rs \<noteq> []"
    using assms that by (auto simp: validateRemotes_def split: sum.splits)
  have "rs \<noteq> [] \<Longrightarrow> distinct (map rm_name rs)
      \<and> (\<forall>r\<in>set rs. rm_kind r = ''authoritative'' \<or> (rm_kind r = ''storage'' \<and> \<not> u (rm_url r)))
      \<and> length (filter (\<lambda>r. rm_kind r = ''authoritative'') rs) = 1"
    using remotes_loop_Inr [OF loop] by (simp add: snd indexed_snd)
  then show "distinct (map rm_name rs)"
    and "\<forall>r\<in>set rs. rm_kind r = ''authoritative'' \<or> (rm_kind r = ''storage'' \<and> \<not> u (rm_url r))"
    and "rs \<noteq> [] \<Longrightarrow> length (filter (\<lambda>r. rm_kind r = ''authoritative'') rs) = 1"
    by (cases "rs = []"; simp)+
qed

text \<open>The well-formedness the other components rely on.\<close>

definition constitution_wf :: "constitution \<Rightarrow> bool" where
  "constitution_wf c \<longleftrightarrow>
     cs_required (cn_checks c) \<noteq> []
     \<and> distinct (map ck_name (cs_required (cn_checks c)))
     \<and> (\<forall>k\<in>set (cs_required (cn_checks c)). ck_name k \<noteq> [] \<and> ck_command k \<noteq> []
          \<and> (ck_skip_for_docs_only k \<longrightarrow> cs_docs_paths (cn_checks c) \<noteq> []))
     \<and> (rn_kind (cn_runner c) = ''local'' \<or> (rn_kind (cn_runner c) = ''container'' \<and> rn_image (cn_runner c) \<noteq> []))
     \<and> (tr_level (cn_trust c) = ''none''
          \<or> (tr_level (cn_trust c) = ''attest'' \<and> rn_kind (cn_runner c) = ''container''))
     \<and> (\<forall>k\<in>set (tr_keys (cn_trust c)). set (tk_roles k) \<subseteq> set Roles)
     \<and> (\<forall>g\<in>set (gd_paths (cn_guards c)). pg_roles g \<noteq> [] \<and> set (pg_roles g) \<subseteq> set Roles)
     \<and> 0 \<le> bg_max_bytes (gd_blobs (cn_guards c))
     \<and> distinct (map bu_scope (cn_budgets c))
     \<and> (cn_remotes c = [] \<or> length (filter (\<lambda>r. rm_kind r = ''authoritative'') (cn_remotes c)) = 1)"

lemma validate_governanceD:
  assumes "validateGovernance c = None"
  shows "validateBudgets (cn_budgets c) = None" "validateWorkloads (cn_workloads c) = None"
    "\<forall>(i, d)\<in>set (indexed (vc_delegations (cn_viceroy c))). validate_delegation i d = None"
  using assms by (auto simp: validateGovernance_def Let_def ball_Un)

lemma validateD:
  assumes "validate L u c = None"
  shows "validate_runner c = None" "cs_required (cn_checks c) \<noteq> []"
    "checks_loop (cs_docs_paths (cn_checks c)) {} (cs_required (cn_checks c)) = None"
    "\<exists>m. TrustedKeys L c = Inr m"
    "\<forall>k\<in>set (tr_keys (cn_trust c)). set (tk_roles k) \<subseteq> set Roles"
    "\<forall>g\<in>set (gd_paths (cn_guards c)). validate_path_guard g = None"
    "0 \<le> bg_max_bytes (gd_blobs (cn_guards c))"
    "validateRemotes u (cn_remotes c) = None" "validateGovernance c = None"
  using assms by (auto simp: validate_def Let_def ball_Un split: sum.splits)

lemma validate_wf:
  assumes "validate L u c = None"
  shows "constitution_wf c"
proof -
  note D = validateD [OF assms]
  have "rn_kind (cn_runner c) = ''local'' \<or> (rn_kind (cn_runner c) = ''container'' \<and> rn_image (cn_runner c) \<noteq> [])"
    "tr_level (cn_trust c) = ''none''
      \<or> (tr_level (cn_trust c) = ''attest'' \<and> rn_kind (cn_runner c) = ''container'')"
    using D(1) by (auto simp: validate_runner_def Let_def split: if_splits)
  moreover have "\<forall>g\<in>set (gd_paths (cn_guards c)). pg_roles g \<noteq> [] \<and> set (pg_roles g) \<subseteq> set Roles"
    using D(6) by (auto simp: validate_path_guard_def)
  moreover have "distinct (map bu_scope (cn_budgets c))"
    using validate_governanceD(1) [OF D(9)] by (simp add: validateBudgets_None)
  moreover have "cn_remotes c = [] \<or> length (filter (\<lambda>r. rm_kind r = ''authoritative'') (cn_remotes c)) = 1"
    using validateRemotes_None(3) [OF D(8)] by blast
  moreover note D(2,3,5,7)
  ultimately show ?thesis unfolding constitution_wf_def checks_loop_None by blast
qed

subsection \<open>Parsing\<close>

lemma default_limits_valid: "memory_size ''4g''" "positive_cpus ''2''"
proof -
  show "memory_size ''4g''" by (simp add: memory_size_def is_digit_def in_range_def)
  have "decimal_parts ''2'' = Some (2, 0)"
    by (simp add: decimal_parts_def all_digits_def is_digit_def in_range_def read_nat_def digit_val_def)
  then show "positive_cpus ''2''" by (simp add: positive_cpus_def)
qed

lemma validate_runner_limits:
  assumes "validate_runner c = None"
  shows "validate_runner (with_limits c) = None"
proof (cases "rn_kind (cn_runner c) = ''container''")
  case True
  let ?r = "cn_runner c"
  have "rn_memory ?r = [] \<or> memory_size (rn_memory ?r)" "rn_cpus ?r = [] \<or> positive_cpus (rn_cpus ?r)"
    using assms True by (simp_all add: validate_runner_def Let_def)
  then have "memory_size (lm_memory (Limits ?r))" "positive_cpus (lm_cpus (Limits ?r))"
    "\<not> lm_pids (Limits ?r) < 0"
    using default_limits_valid by (auto simp: Limits_def)
  then show ?thesis using assms True by (clarsimp simp: validate_runner_def with_limits_def Let_def split: if_splits)
next
  case False
  then show ?thesis using assms by (simp add: with_limits_def Let_def)
qed

lemma with_limits_other [simp]:
  "cn_checks (with_limits c) = cn_checks c" "cn_trust (with_limits c) = cn_trust c"
  "cn_guards (with_limits c) = cn_guards c" "cn_remotes (with_limits c) = cn_remotes c"
  "TrustedKeys L (with_limits c) = TrustedKeys L c" "validateGovernance (with_limits c) = validateGovernance c"
  by (simp_all add: with_limits_def TrustedKeys_def validateGovernance_def Let_def)

lemma validate_limits: "validate L u c = None \<Longrightarrow> validate L u (with_limits c) = None"
  using validate_runner_limits [of c] by (simp add: validate_def Let_def ball_Un)

lemma Parse_Inr:
  "Parse L u decode bytes = Inr c \<longleftrightarrow>
     (\<exists>c0. decode bytes = Some c0 \<and> validate L u (with_default_engine c0) = None
        \<and> c = with_limits (with_default_engine c0))"
  by (auto simp: Parse_def Let_def split: option.splits)

lemma Parse_valid: "Parse L u decode bytes = Inr c \<Longrightarrow> validate L u c = None"
  by (auto simp: Parse_Inr validate_limits)

subsection \<open>Workload rules\<close>

lemma case_list_None: "(case xs of [] \<Rightarrow> None | x # _ \<Rightarrow> Some x) = None \<longleftrightarrow> set xs = {}"
  by (cases xs) simp_all

lemma workload_overlap_None:
  "workload_overlap earlier r = None \<longleftrightarrow>
     (\<forall>role kind. rule_covers role kind r \<longrightarrow> \<not> list_ex (rule_covers role kind) earlier)"
proof -
  let ?hits = "concat (map (\<lambda>other. concat (map (\<lambda>role. map (\<lambda>kind. (role, kind))
             (filter (\<lambda>kind. rule_covers role kind other) (wr_kinds r))) (wr_roles r))) earlier)"
  have "workload_overlap earlier r = None \<longleftrightarrow> set ?hits = {}"
    unfolding workload_overlap_def by (rule case_list_None)
  also have "set ?hits = {(role, kind). rule_covers role kind r \<and> list_ex (rule_covers role kind) earlier}"
    by (auto simp: rule_covers_def list_ex_iff)
  finally show ?thesis by auto
qed

lemma validateWorkloads_rule:
  assumes "validateWorkloads w = None" "j < length (wl_rules w)"
  shows "validate_rule (take j (wl_rules w)) j (wl_rules w ! j) = None"
proof -
  have "(j, wl_rules w ! j) \<in> set (indexed (wl_rules w))" using assms(2) by (simp add: set_indexed)
  then show ?thesis using assms(1) unfolding validateWorkloads_def first_err_None by fastforce
qed

lemma rules_disjoint:
  assumes "validateWorkloads w = None" "i < j" "j < length (wl_rules w)"
    "rule_covers role kind (wl_rules w ! i)"
  shows "\<not> rule_covers role kind (wl_rules w ! j)"
proof
  assume "rule_covers role kind (wl_rules w ! j)"
  moreover have "workload_overlap (take j (wl_rules w)) (wl_rules w ! j) = None"
    using validateWorkloads_rule [OF assms(1,3)]
    by (auto simp: validate_rule_def ball_Un split: option.splits)
  moreover have "wl_rules w ! i \<in> set (take j (wl_rules w))"
    using assms(2,3) by (auto simp: in_set_conv_nth intro!: exI [of _ i])
  ultimately show False using assms(4) by (auto simp: workload_overlap_None list_ex_iff)
qed

lemma RuleFor_unique:
  assumes "validateWorkloads w = None" "r \<in> set (wl_rules w)" "rule_covers role kind r"
  shows "RuleFor w role kind = Some r"
proof -
  obtain r' where f: "RuleFor w role kind = Some r'"
    using assms(2,3) find_first_None [of "rule_covers role kind" "wl_rules w"]
    by (auto simp: RuleFor_def)
  then have r': "r' \<in> set (wl_rules w)" "rule_covers role kind r'"
    by (auto simp: RuleFor_def dest: find_first_SomeD)
  obtain i j where "i < length (wl_rules w)" "wl_rules w ! i = r" "j < length (wl_rules w)" "wl_rules w ! j = r'"
    using assms(2) r'(1) by (auto simp: in_set_conv_nth)
  then have "i = j"
    using rules_disjoint [OF assms(1), of i j role kind] rules_disjoint [OF assms(1), of j i role kind]
      assms(3) r'(2) by (metis linorder_neqE_nat)
  with f \<open>wl_rules w ! i = r\<close> \<open>wl_rules w ! j = r'\<close> show ?thesis by simp
qed

lemma TTLDuration_valid:
  assumes "validateWorkloads w = None" "r \<in> set (wl_rules w)"
  shows "\<exists>d. TTLDuration r = Some d \<and> 0 < d"
proof -
  obtain j where "j < length (wl_rules w)" "wl_rules w ! j = r" using assms(2) by (auto simp: in_set_conv_nth)
  with validateWorkloads_rule [OF assms(1), of j] show ?thesis
    by (auto simp: validate_rule_def TTLDuration_def positive_duration_def ball_Un split: option.splits)
qed

lemma PeriodDuration_valid:
  "validateBudgets bs = None \<Longrightarrow> b \<in> set bs \<Longrightarrow> \<exists>d. PeriodDuration b = Some d \<and> 0 < d"
  by (auto simp: validateBudgets_None PeriodDuration_def positive_duration_def split: option.splits)

subsection \<open>Delegations\<close>

lemma category_fold:
  "foldl (\<lambda>covered (listed, hit).
      let covered = (if a \<and> listed \<and> \<not> hit then False else covered)
      in if \<not> a \<and> hit then True else covered) acc ms =
    (if a then acc \<and> (\<forall>(listed, hit)\<in>set ms. listed \<longrightarrow> hit)
     else acc \<or> (\<exists>(listed, hit)\<in>set ms. hit))"
  by (induction ms arbitrary: acc) (auto simp: Let_def)

lemma delegation_closes_iff:
  "delegation_closes cid ty labels anc now d \<longleftrightarrow>
     dg_close d \<and> (dg_expires d = 0 \<or> now < dg_expires d)
     \<and> set labels \<inter> set (dg_except_labels d) = {}
     \<and> (if dg_all d then \<forall>(listed, hit)\<in>set (close_matches cid ty labels anc d). listed \<longrightarrow> hit
        else \<exists>(listed, hit)\<in>set (close_matches cid ty labels anc d). hit)"
proof -
  have "list_ex (\<lambda>l. l \<in> set (dg_except_labels d)) labels \<longleftrightarrow> set labels \<inter> set (dg_except_labels d) \<noteq> {}"
    by (auto simp: list_ex_iff)
  then show ?thesis unfolding delegation_closes_def category_fold by simp
qed

lemma close_listed:
  assumes "validate_delegation i d = None" "dg_close d"
  shows "\<exists>(listed, hit)\<in>set (close_matches cid ty labels anc d). listed"
  using assms by (auto simp: validate_delegation_def close_matches_def)

subsection \<open>Sizes\<close>

lemma read_nat_positive_aux: "0 < n \<Longrightarrow> 0 < foldl (\<lambda>n c. 10 * n + digit_val c) n s"
  by (induction s arbitrary: n) auto

lemma read_nat_positive:
  assumes "is_digit (hd s)" "hd s \<noteq> CHR ''0''" "s \<noteq> []"
  shows "0 < read_nat s"
proof -
  obtain c cs where s: "s = c # cs" using assms(3) by (cases s) auto
  have "(of_char c :: nat) \<noteq> 48"
  proof
    assume "(of_char c :: nat) = 48"
    then have "c = char_of (48 :: nat)" by (metis char_of_char)
    also have "\<dots> = CHR ''0''" by code_simp
    finally show False using assms(2) s by simp
  qed
  then have "0 < digit_val c" using assms(1) s by (simp add: is_digit_def in_range_def digit_val_def)
  then show ?thesis using read_nat_positive_aux s by (simp add: read_nat_def)
qed

lemma memory_digits:
  assumes "memory_size sz" "ds = (if last sz \<in> set ''bBkKmMgG'' then butlast sz else sz)"
  shows "ds \<noteq> []" "is_digit (hd ds)" "hd ds \<noteq> CHR ''0''"
proof -
  obtain a u where a: "a = takeWhile is_digit sz" and u: "u = dropWhile is_digit sz"
    and sz: "sz = a @ u" and ane: "a \<noteq> []" "hd a \<noteq> CHR ''0''"
    and uu: "u = [] \<or> (\<exists>c. u = [c] \<and> c \<in> set ''bkmgBKMG'')"
    using assms(1) unfolding memory_size_def Let_def
    by (metis One_nat_def length_0_conv length_Suc_conv list.sel(1) takeWhile_dropWhile_id)
  have dig: "list_all is_digit a" using a by (simp add: list_all_iff) (meson set_takeWhileD)
  have nd: "\<not> is_digit c" if "c \<in> set ''bkmgBKMG''" for c
    using that by (auto simp: is_digit_def in_range_def)
  have "ds = a"
  proof (cases "u = []")
    case True
    then have "is_digit (last sz)" using sz ane dig by (simp add: list_all_iff)
    then have "last sz \<notin> set ''bBkKmMgG''" using nd [of "last sz"] by auto
    then show ?thesis using True sz assms(2) by auto
  next
    case False
    then obtain c where "u = [c]" "c \<in> set ''bkmgBKMG''" using uu by blast
    then show ?thesis using sz assms(2) by auto
  qed
  then show "ds \<noteq> []" "is_digit (hd ds)" "hd ds \<noteq> CHR ''0''"
    using ane dig by (auto simp: list_all_iff)
qed

lemma ParseMemoryBytes_bounds:
  assumes "ParseMemoryBytes sz = Some n"
  shows "0 < n" "n \<le> 2 ^ 62"
proof -
  have ms: "memory_size sz" using assms by (auto simp: ParseMemoryBytes_def split: if_splits)
  define mult where "mult = (if last sz \<in> set ''kK'' then 2 ^ 10 else if last sz \<in> set ''mM'' then 2 ^ 20
      else if last sz \<in> set ''gG'' then 2 ^ 30 else (1 :: int))"
  define ds where "ds = (if last sz \<in> set ''bBkKmMgG'' then butlast sz else sz)"
  have n: "n = int (read_nat ds) * mult" "int (read_nat ds) \<le> 2 ^ 62 div mult"
    using assms ms unfolding ParseMemoryBytes_def Let_def mult_def [symmetric] ds_def [symmetric]
    by (auto split: if_splits)
  have m: "0 < mult" "mult dvd 2 ^ 62" by (auto simp: mult_def)
  have "n \<le> 2 ^ 62 div mult * mult" unfolding n(1) by (rule mult_right_mono [OF n(2)]) (use m in simp)
  also have "\<dots> = 2 ^ 62" by (rule dvd_div_mult_self [OF m(2)])
  finally show "n \<le> 2 ^ 62" .
  have "0 < read_nat ds" using memory_digits [OF ms ds_def] by (simp add: read_nat_positive)
  then show "0 < n" using n m by simp
qed

end
