(* ===== verification/Guard_Spec.thy ===== *)
theory Guard_Spec
  imports Guard Constitution_Rules
begin

text \<open>
  What the guard promises, stated without its control flow, and the proof that the operations of
  \<open>Guard\<close> implement it: \<open>may_merge\<close> is the merge policy, \<open>may_pull\<close> and \<open>may_clear\<close> the
  two ends of a line stop.
\<close>

subsection \<open>Policy\<close>

text \<open>The envelope carries statement \<open>s\<close> signed by a trusted key that may attest as the statement's
  role, made under this constitution on the runner it demands.\<close>

definition trusted_statement :: "ext \<Rightarrow> guard \<Rightarrow> envelope \<Rightarrow> statement \<Rightarrow> string \<Rightarrow> bool" where
  "trusted_statement X g env s k \<longleftrightarrow>
     (\<exists>trusted key_roles. TrustedKeys (x_lib X) (g_constitution g) = Inr trusted
        \<and> KeyRoles (x_lib X) (g_constitution g) = Inr key_roles
        \<and> VerifyStatement (x_lib X) env trusted = Inr (s, k)
        \<and> key_permits (key_roles k) (pr_role (st_predicate s)))
     \<and> pr_constitution (st_predicate s) = g_digest g
     \<and> pr_runner (st_predicate s) = runner_ID (cn_runner (g_constitution g))"

definition check_passes :: "check_result list \<Rightarrow> bool \<Rightarrow> check \<Rightarrow> bool" where
  "check_passes results docs k \<longleftrightarrow>
     (\<exists>c. map_by cr_name results (ck_name k) = Some c \<and> cr_command c = ck_command k
        \<and> (if cr_skipped c = [] then cr_exit_code c = 0 else ck_skip_for_docs_only k \<and> docs))"

definition docs_change :: "ext \<Rightarrow> guard \<Rightarrow> repo \<Rightarrow> string \<Rightarrow> bool" where
  "docs_change X g r commit \<longleftrightarrow>
     (\<exists>paths. FirstParentChange (x_git X) r commit = Inr (paths, True)
        \<and> DocsOnly (cn_checks (g_constitution g)) paths)"

definition line_open_for :: "ext \<Rightarrow> repo \<Rightarrow> string \<Rightarrow> bool" where
  "line_open_for X r commit \<longleftrightarrow>
     (case ref_of r StopRef of
        None \<Rightarrow> True
      | Some sid \<Rightarrow> (\<exists>tags. Trailer (x_git X) r commit FixTrailer = Inr tags \<and> sid \<in> set tags))"

definition may_merge :: "ext \<Rightarrow> guard \<Rightarrow> repo \<Rightarrow> string \<Rightarrow> envelope \<Rightarrow> oid \<Rightarrow> bool" where
  "may_merge X g r commit env base \<longleftrightarrow>
     length commit = 40 \<and> list_all is_hex commit \<and> repo_Commit (x_git X) r commit = Inr commit
     \<and> (\<exists>s k. trusted_statement X g env s k \<and> st_commit s = Inr commit
          \<and> (list_ex (\<lambda>c. cr_skipped c \<noteq> []) (pr_checks (st_predicate s))
               \<longrightarrow> (\<exists>d. FirstParentChange (x_git X) r commit = Inr d))
          \<and> (\<forall>q\<in>set (cs_required (cn_checks (g_constitution g))).
               check_passes (pr_checks (st_predicate s)) (docs_change X g r commit) q)
          \<and> (\<exists>paths. ChangedPaths (x_git X) r base commit = Inr paths
               \<and> (\<forall>p\<in>set paths. \<not> path_forbidden (g_constitution g) (pr_role (st_predicate s)) p)))
     \<and> line_open_for X r commit
     \<and> ref_of r (g_ref g) = Some base
     \<and> (\<exists>rest. repo_Parents (x_git X) r commit = Inr (base # rest))
     \<and> (\<exists>blobs. ChangedBlobs (x_git X) r base commit = Inr blobs
          \<and> (\<forall>b\<in>set blobs. blob_problem (gd_blobs (cn_guards (g_constitution g))) b = None))"

text \<open>A guard configured as \<open>line serve\<close> does (its ref is \<open>refs/heads/master\<close>), and a repository
  whose refs hold object ids that exist.\<close>

definition guard_ok :: "ext \<Rightarrow> guard \<Rightarrow> bool" where
  "guard_ok X g \<longleftrightarrow> gg_valid_ref (x_git X) (g_ref g) \<and> \<not> is_hash (g_ref g) \<and> g_ref g \<noteq> StopRef
     \<and> \<not> has_prefix (g_ref g) CandidatePrefix"

definition repo_wf :: "repo \<Rightarrow> bool" where
  "repo_wf r \<longleftrightarrow> (\<forall>n h. ref_of r n = Some h \<longrightarrow> length h = 40 \<and> list_all is_hex h \<and> obj r h \<noteq> None)"

lemma repo_wfD:
  "repo_wf r \<Longrightarrow> ref_of r n = Some h \<Longrightarrow> length h = 40 \<and> list_all is_hex h \<and> obj r h \<noteq> None \<and> h \<noteq> []"
  unfolding repo_wf_def by (metis list.size(3) zero_neq_numeral)

subsection \<open>Stages\<close>

lemma StopRef_not_hash [simp]: "\<not> is_hash StopRef"
  by (simp add: is_hash_def StopRef_def)

lemma StopRef_not_candidate [simp]: "\<not> has_prefix StopRef CandidatePrefix"
  by (simp add: StopRef_def CandidatePrefix_def has_prefix_def)

lemma constitution_stage_Go [simp]: "constitution_stage v = Go x \<longleftrightarrow> v = Inr x"
  by (auto simp: constitution_stage_def split: sum.splits)

lemma attest_stage_Go [simp]: "attest_stage c v = Go x \<longleftrightarrow> v = Inr x"
  by (auto simp: attest_stage_def split: sum.splits)

lemma verify_Go:
  "verify X g env want rej = Go v \<longleftrightarrow>
     trusted_statement X g env (v_statement v) (v_key_id v)
     \<and> st_commit (v_statement v) = Inr (v_commit v) \<and> (want = [] \<or> v_commit v = want)"
  unfolding verify_def trusted_statement_def and_then_Go
  by (cases v) (auto simp: and_then_Go split: prod.splits)

lemma ex_verified: "(\<exists>v. P v) \<longleftrightarrow> (\<exists>s k c. P \<lparr>v_statement = s, v_key_id = k, v_commit = c\<rparr>)"
  by (metis verified.cases)

lemma check_verdict_None:
  "check_verdict (map_by cr_name results) docs k = None \<longleftrightarrow> check_passes results docs k"
  by (auto simp: check_verdict_def check_passes_def split: option.splits)

lemma checkResults_None:
  "checkResults required results docs = None \<longleftrightarrow> (\<forall>k\<in>set required. check_passes results docs k)"
  by (auto simp: checkResults_def check_verdict_None)

lemma check_passes_docs:
  "\<not> list_ex (\<lambda>c. cr_skipped c \<noteq> []) results \<Longrightarrow> check_passes results d k = check_passes results d' k"
  unfolding check_passes_def list_ex_iff by (metis map_by_SomeD)

lemma checks_gate_Go:
  "checks_gate g results d commit = Go () \<longleftrightarrow>
     (\<forall>q\<in>set (cs_required (cn_checks (g_constitution g))). check_passes results d q)"
  unfolding checks_gate_def checkResults_None [symmetric] by (auto split: option.splits)

lemma checks_stage_Go:
  "and_then (docs_only_of X g r commit results) (\<lambda>d. checks_gate g results d commit) = Go () \<longleftrightarrow>
     (list_ex (\<lambda>c. cr_skipped c \<noteq> []) results \<longrightarrow> (\<exists>d. FirstParentChange (x_git X) r commit = Inr d))
     \<and> (\<forall>q\<in>set (cs_required (cn_checks (g_constitution g))).
          check_passes results (docs_change X g r commit) q)"
proof (cases "list_ex (\<lambda>c. cr_skipped c \<noteq> []) results")
  case True
  have "docs_only_of X g r commit results = Go d \<longleftrightarrow>
     (\<exists>v. FirstParentChange (x_git X) r commit = Inr v) \<and> d = docs_change X g r commit" for d
    using True by (auto simp: docs_only_of_def and_then_Go docs_change_def)
  then show ?thesis using True by (auto simp: and_then_Go checks_gate_Go)
next
  case False
  then have "docs_only_of X g r commit results = Go False" by (simp add: docs_only_of_def)
  moreover have "check_passes results False = check_passes results (docs_change X g r commit)"
    using check_passes_docs [OF False] by blast
  ultimately show ?thesis
    using False by (simp add: checks_gate_Go)
qed

lemma stopID_Go:
  assumes "repo_wf r"
  shows "stopID X r = Go (case ref_of r StopRef of None \<Rightarrow> [] | Some sid \<Rightarrow> sid)"
proof (cases "ref_of r StopRef")
  case (Some sid)
  then show ?thesis using repo_wfD [OF assms Some]
    by (auto simp: stopID_def RefExists_def repo_Ref_def resolve_def git_stage_def)
qed (simp add: stopID_def RefExists_def)

lemma stop_gate_Go:
  assumes "repo_wf r"
  shows "stop_gate X r commit = Go () \<longleftrightarrow> line_open_for X r commit"
proof (cases "ref_of r StopRef")
  case None
  then show ?thesis by (simp add: stop_gate_def stopID_Go [OF assms] line_open_for_def)
next
  case (Some sid)
  then have "sid \<noteq> []" using repo_wfD [OF assms] by blast
  with Some show ?thesis
    by (auto simp: stop_gate_def stopID_Go [OF assms] line_open_for_def and_then_Go)
qed

lemma master_ref:
  assumes "guard_ok X g"
  shows "RefExists r (g_ref g) \<and> repo_Ref (x_git X) r (g_ref g) = Inr base \<longleftrightarrow>
     ref_of r (g_ref g) = Some base \<and> obj r base \<noteq> None"
  using assms by (auto simp: RefExists_def repo_Ref_def resolve_def Let_def guard_ok_def split: option.splits if_splits)

lemma fast_forward_Go:
  assumes "guard_ok X g" "repo_wf r"
  shows "fast_forward X g r commit = Go base \<longleftrightarrow>
     ref_of r (g_ref g) = Some base \<and> (\<exists>rest. repo_Parents (x_git X) r commit = Inr (base # rest))"
proof -
  have "fast_forward X g r commit = Go base \<longleftrightarrow>
     (RefExists r (g_ref g) \<and> repo_Ref (x_git X) r (g_ref g) = Inr base)
     \<and> (\<exists>ps. repo_Parents (x_git X) r commit = Inr ps \<and> ps \<noteq> [] \<and> hd ps = base)"
    by (auto simp: fast_forward_def and_then_Go)
  also have "(\<exists>ps. repo_Parents (x_git X) r commit = Inr ps \<and> ps \<noteq> [] \<and> hd ps = base) \<longleftrightarrow>
      (\<exists>rest. repo_Parents (x_git X) r commit = Inr (base # rest))"
    by (metis list.distinct(1) list.exhaust_sel list.sel(1))
  finally show ?thesis
    using repo_wfD [OF assms(2)] unfolding master_ref [OF assms(1)] by blast
qed

lemma role_gate_Go:
  "role_gate X g r base commit role = Go () \<longleftrightarrow>
     (\<exists>paths. ChangedPaths (x_git X) r base commit = Inr paths
        \<and> (\<forall>p\<in>set paths. \<not> path_forbidden (g_constitution g) role p))"
  by (auto simp: role_gate_def and_then_Go find_first_None split: option.splits)

lemma blob_gate_Go:
  "blob_gate X g r base commit = Go () \<longleftrightarrow>
     (\<exists>blobs. ChangedBlobs (x_git X) r base commit = Inr blobs
        \<and> (\<forall>b\<in>set blobs. blob_problem (gd_blobs (cn_guards (g_constitution g))) b = None))"
  by (auto simp: blob_gate_def and_then_Go blobViolation_def split: option.splits)

subsection \<open>Merge\<close>

text \<open>The decision, without the shape of the commit id.\<close>

lemma merge_decide_Go:
  assumes "guard_ok X g" "repo_wf r" "commit \<noteq> []"
  shows "merge_decide X g r commit env = Go base \<longleftrightarrow>
     (\<exists>s k. trusted_statement X g env s k \<and> st_commit s = Inr commit
          \<and> (list_ex (\<lambda>c. cr_skipped c \<noteq> []) (pr_checks (st_predicate s))
               \<longrightarrow> (\<exists>d. FirstParentChange (x_git X) r commit = Inr d))
          \<and> (\<forall>q\<in>set (cs_required (cn_checks (g_constitution g))).
               check_passes (pr_checks (st_predicate s)) (docs_change X g r commit) q)
          \<and> (\<exists>paths. ChangedPaths (x_git X) r base commit = Inr paths
               \<and> (\<forall>p\<in>set paths. \<not> path_forbidden (g_constitution g) (pr_role (st_predicate s)) p)))
     \<and> line_open_for X r commit
     \<and> ref_of r (g_ref g) = Some base
     \<and> (\<exists>rest. repo_Parents (x_git X) r commit = Inr (base # rest))
     \<and> (\<exists>blobs. ChangedBlobs (x_git X) r base commit = Inr blobs
          \<and> (\<forall>b\<in>set blobs. blob_problem (gd_blobs (cn_guards (g_constitution g))) b = None))"
  (is "?l \<longleftrightarrow> ?r")
proof -
  let ?ck = "\<lambda>s. and_then (docs_only_of X g r commit (pr_checks (st_predicate s)))
    (\<lambda>d. checks_gate g (pr_checks (st_predicate s)) d commit)"
  have "?l \<longleftrightarrow> (\<exists>v. verify X g env commit commit = Go v \<and> ?ck (v_statement v) = Go ()
      \<and> stop_gate X r commit = Go () \<and> fast_forward X g r commit = Go base
      \<and> role_gate X g r base commit (pr_role (st_predicate (v_statement v))) = Go ()
      \<and> blob_gate X g r base commit = Go ())"
    unfolding merge_decide_def Let_def and_then_Go by (auto simp: and_then_Go)
  also have "\<dots> \<longleftrightarrow> (\<exists>s k. verify X g env commit commit = Go \<lparr>v_statement = s, v_key_id = k, v_commit = commit\<rparr>
      \<and> ?ck s = Go () \<and> stop_gate X r commit = Go () \<and> fast_forward X g r commit = Go base
      \<and> role_gate X g r base commit (pr_role (st_predicate s)) = Go () \<and> blob_gate X g r base commit = Go ())"
    using assms(3) by (subst ex_verified) (auto simp: verify_Go)
  also have "\<dots> \<longleftrightarrow> ?r"
    unfolding checks_stage_Go stop_gate_Go [OF assms(2)] fast_forward_Go [OF assms(1,2)] role_gate_Go
      blob_gate_Go verify_Go by auto
  finally show ?thesis .
qed

text \<open>With the id checked as well, the decision is the policy. The policy asks for a forty digit id;
  a longer one never names a commit that the ref update accepts.\<close>

lemma merge_policy:
  assumes "guard_ok X g" "repo_wf r"
  shows "may_merge X g r commit env base \<longleftrightarrow>
     full_hex commit \<and> length commit = 40 \<and> repo_Commit (x_git X) r commit = Inr commit
     \<and> merge_decide X g r commit env = Go base"
proof (cases "commit = []")
  case False
  then show ?thesis unfolding may_merge_def merge_decide_Go [OF assms False] full_hex_def by auto
qed (simp add: may_merge_def)

lemma repo_Commit_exists:
  assumes "repo_Commit G r h = Inr h"
  shows "obj r h \<noteq> None"
proof -
  have "commit_object r h' = Inr (h, d) \<Longrightarrow> obj r h \<noteq> None" for h' d
    by (cases d) (auto simp: commit_object_def split: option.splits git_object.splits)
  then show ?thesis using assms
    by (cases "resolveCommit G r h")
      (auto simp: repo_Commit_def resolveCommit_def split: sum.splits option.splits git_object.splits)
qed

lemma merge_land_Merged:
  assumes "guard_ok X g" "ref_of r (g_ref g) = Some base" "base \<noteq> []" "is_hash commit" "new_hash commit = commit"
    and "obj r commit \<noteq> None"
  shows "merge_land X g r commit base =
     ((\<lparr>res_status = Merged, res_reason = No_Reason, res_detail = No_Detail, res_commit = commit,
        res_base = base, res_event = []\<rparr>, None),
      r\<lparr>rp_refs := AList.update (g_ref g) commit (rp_refs r)\<rparr>)"
proof -
  have "UpdateRef (x_git X) r (g_ref g) commit base = Inr (r\<lparr>rp_refs := AList.update (g_ref g) commit (rp_refs r)\<rparr>)"
    using assms by (simp add: UpdateRef_Inr setRef_Inr guard_ok_def)
  then show ?thesis by (simp add: merge_land_def)
qed

lemma merge_land_Merged_hash:
  "res_status (fst (fst (merge_land X g r commit base))) = Merged \<Longrightarrow> is_hash commit"
  by (auto simp: merge_land_def UpdateRef_Inr setRef_Inr split: sum.splits git_error.splits)

lemma cleanup_status [simp]:
  "res_status (fst (fst (merge_cleanup g now commit out))) = res_status (fst (fst out))"
  by (auto simp: merge_cleanup_def Let_def split: prod.splits sum.splits)

text \<open>An early answer of any stage is a rejection.\<close>

definition rejects :: "'a stage \<Rightarrow> bool" where
  "rejects d \<longleftrightarrow> (\<forall>a. d = Answer a \<longrightarrow> res_status a = Rejected)"

lemma rejects_simps [simp]:
  "rejects (Go x)" "rejects (Fail e)" "rejects (git_stage v)" "rejects (constitution_stage w)"
  "rejects (attest_stage c y)" "rejects (Answer a) \<longleftrightarrow> res_status a = Rejected"
  "rejects (answer_if b a) \<longleftrightarrow> b \<longrightarrow> res_status a = Rejected"
  by (auto simp: rejects_def constitution_stage_def attest_stage_def answer_if_def split: sum.splits)

lemma rejects_then [intro!]: "rejects d \<Longrightarrow> (\<And>x. rejects (f x)) \<Longrightarrow> rejects (and_then d f)"
  by (auto simp: rejects_def and_then_Answer)

lemma verify_rejects [simp]: "rejects (verify X g env w c)"
  unfolding verify_def by (auto split: prod.splits)

lemma stopID_rejects [simp]: "rejects (stopID X r)"
  by (simp add: stopID_def)

lemma gates_reject [simp]:
  "rejects (docs_only_of X g r commit results)" "rejects (checks_gate g results d commit)"
  "rejects (stop_gate X r commit)" "rejects (fast_forward X g r commit)"
  "rejects (role_gate X g r base commit role)" "rejects (blob_gate X g r base commit)"
  unfolding docs_only_of_def checks_gate_def stop_gate_def fast_forward_def role_gate_def blob_gate_def
  by (auto split: prod.splits option.splits)

lemma merge_decide_rejects: "rejects (merge_decide X g r commit env)"
  unfolding merge_decide_def Let_def by auto

lemma Merge_Merged_iff:
  assumes "guard_ok X g" "repo_wf r"
  shows "res_status (fst (fst (Merge X g now r commit env))) = Merged \<longleftrightarrow>
     (\<exists>base. may_merge X g r commit env base)"
proof (cases "full_hex commit \<and> repo_Commit (x_git X) r commit = Inr commit")
  case False
  then show ?thesis unfolding merge_policy [OF assms]
    by (auto simp: Merge_def split: sum.splits)
next
  case True
  have no: "res_status (fst (fst (Merge X g now r commit env))) \<noteq> Merged"
    if "\<nexists>base. merge_decide X g r commit env = Go base"
    using that True merge_decide_rejects [of X g r commit env]
    by (cases "merge_decide X g r commit env") (auto simp: Merge_def)
  have "(res_status (fst (fst (Merge X g now r commit env))) = Merged) = (length commit = 40)"
    if go: "merge_decide X g r commit env = Go base" for base
  proof -
    have M: "Merge X g now r commit env = merge_cleanup g now commit (merge_land X g r commit base)"
      using True go by (simp add: Merge_def)
    have commit: "commit \<noteq> []" using True by (auto simp: full_hex_def)
    have base: "ref_of r (g_ref g) = Some base"
      using go unfolding merge_decide_Go [OF assms commit] by blast
    show ?thesis
    proof
      assume "length commit = 40"
      then have "is_hash commit" "new_hash commit = commit"
        using True by (auto simp: full_hex_def is_hash_lower full_hex_new_hash)
      then have "merge_land X g r commit base = ((\<lparr>res_status = Merged, res_reason = No_Reason,
          res_detail = No_Detail, res_commit = commit, res_base = base, res_event = []\<rparr>, None),
          r\<lparr>rp_refs := AList.update (g_ref g) commit (rp_refs r)\<rparr>)"
        using repo_wfD [OF assms(2) base] repo_Commit_exists True
        by (intro merge_land_Merged [OF assms(1) base]) auto
      then show "res_status (fst (fst (Merge X g now r commit env))) = Merged"
        by (simp add: M)
    next
      assume "res_status (fst (fst (Merge X g now r commit env))) = Merged"
      then show "length commit = 40" unfolding M
        using merge_land_Merged_hash by (force simp: is_hash_def)
    qed
  qed
  then show ?thesis using True no unfolding merge_policy [OF assms] by blast
qed

text \<open>What a merge does to the repository: the branch moves from \<open>base\<close> to the candidate and the
  candidate's own ref goes; nothing else changes.\<close>

lemma Merge_effect:
  assumes "guard_ok X g" "repo_wf r" "may_merge X g r commit env base"
    and "Merge X g now r commit env = ((res, err), r')"
  shows "res_commit res = commit \<and> res_base res = base \<and> err = None"
    and "ref_of r' = (ref_of r)(g_ref g \<mapsto> commit, CandidatePrefix @ commit := None)"
    and "rp_objects r' = rp_objects r"
proof -
  have P: "full_hex commit" "length commit = 40" "repo_Commit (x_git X) r commit = Inr commit"
      "merge_decide X g r commit env = Go base" "ref_of r (g_ref g) = Some base"
    using assms(3) merge_policy [OF assms(1,2), of commit env base] may_merge_def by blast+
  have "is_hash commit" "new_hash commit = commit"
    using P(1,2) by (auto simp: full_hex_def is_hash_lower full_hex_new_hash)
  then have land: "merge_land X g r commit base = ((\<lparr>res_status = Merged, res_reason = No_Reason,
      res_detail = No_Detail, res_commit = commit, res_base = base, res_event = []\<rparr>, None),
      r\<lparr>rp_refs := AList.update (g_ref g) commit (rp_refs r)\<rparr>)"
    using repo_wfD [OF assms(2) P(5)] repo_Commit_exists [OF P(3)] by (intro merge_land_Merged [OF assms(1) P(5)]) auto
  have "Merge X g now r commit env = merge_cleanup g now commit (merge_land X g r commit base)"
    using P by (simp add: Merge_def)
  then have eq: "((res, err), r') = ((\<lparr>res_status = Merged, res_reason = No_Reason,
      res_detail = No_Detail, res_commit = commit, res_base = base, res_event = []\<rparr>, None),
      DeleteRef (r\<lparr>rp_refs := AList.update (g_ref g) commit (rp_refs r)\<rparr>) (CandidatePrefix @ commit))"
    using assms(4) unfolding land merge_cleanup_def by simp
  then show "res_commit res = commit \<and> res_base res = base \<and> err = None" by simp
  show "ref_of r' = (ref_of r)(g_ref g \<mapsto> commit, CandidatePrefix @ commit := None)"
    "rp_objects r' = rp_objects r" using eq by (simp_all add: update_conv')
qed

text \<open>What a rejection does: no ref but the candidate's changes, and no object still reachable is
  lost.\<close>

lemma cleanup_rejected:
  assumes "merge_cleanup g now commit ((res, err), r) = (out, r')" "res_status res \<noteq> Merged"
  shows "ref_of r' = ref_of (DeleteRef r (CandidatePrefix @ commit))"
    and "leaves_final (rp_objects r) \<Longrightarrow>
      reached (rp_objects r) (set (map snd (rp_refs (DeleteRef r (CandidatePrefix @ commit))))) h \<Longrightarrow> obj r' h = obj r h"
proof -
  let ?d = "DeleteRef r (CandidatePrefix @ commit)"
  have r': "r' = ?d \<or> PruneUnreachable now (g_grace g) ?d = Inr r'"
    using assms by (auto simp: merge_cleanup_def Let_def split: sum.splits)
  then show "ref_of r' = ref_of ?d" using PruneUnreachable_refs by force
  show "obj r' h = obj r h" if "leaves_final (rp_objects r)" "reached (rp_objects r) (set (map snd (rp_refs ?d))) h"
    using r' PruneUnreachable_keeps(1) [of now "g_grace g" ?d r' h] that by auto
qed

lemma Merge_rejected:
  assumes "Merge X g now r commit env = ((res, err), r')" "res_status res \<noteq> Merged"
  shows "ref_of r' = ref_of r \<or> ref_of r' = (ref_of r)(CandidatePrefix @ commit := None)"
    and "leaves_final (rp_objects r) \<Longrightarrow>
      reached (rp_objects r) (set (map snd (rp_refs (DeleteRef r (CandidatePrefix @ commit))))) h \<Longrightarrow>
      obj r' h = obj r h"
proof -
  let ?out = "case merge_decide X g r commit env of
      Fail e \<Rightarrow> ((zero_result, Some e), r) | Answer a \<Rightarrow> ((a, None), r)
    | Go base \<Rightarrow> merge_land X g r commit base"
  have cases: "r' = r \<or> merge_cleanup g now commit ?out = ((res, err), r')"
    using assms(1) by (auto simp: Merge_def split: if_splits sum.splits)
  have "snd ?out = r" if "res_status (fst (fst ?out)) \<noteq> Merged"
    using that by (auto simp: merge_land_def split: stage.splits sum.splits git_error.splits)
  moreover have "res_status (fst (fst ?out)) \<noteq> Merged" if "merge_cleanup g now commit ?out = ((res, err), r')"
    using cleanup_status [of g now commit ?out] assms(2) unfolding that by simp
  ultimately have "r' = r \<or> (\<exists>res0 err0. merge_cleanup g now commit ((res0, err0), r) = ((res, err), r')
      \<and> res_status res0 \<noteq> Merged)"
    using cases by (metis prod.exhaust_sel)
  then show "ref_of r' = ref_of r \<or> ref_of r' = (ref_of r)(CandidatePrefix @ commit := None)"
    "leaves_final (rp_objects r) \<Longrightarrow>
      reached (rp_objects r) (set (map snd (rp_refs (DeleteRef r (CandidatePrefix @ commit))))) h \<Longrightarrow>
      obj r' h = obj r h"
    using cleanup_rejected by (auto; force)+
qed

subsection \<open>Pull and Clear\<close>

definition may_pull :: "ext \<Rightarrow> guard \<Rightarrow> repo \<Rightarrow> envelope \<Rightarrow> string \<Rightarrow> check_result \<Rightarrow> bool" where
  "may_pull X g r env commit c \<longleftrightarrow>
     (\<exists>s k. trusted_statement X g env s k \<and> st_commit s = Inr commit
        \<and> first_failure (pr_checks (st_predicate s)) (cs_required (cn_checks (g_constitution g))) = Some c)
     \<and> ref_of r (g_ref g) = Some commit \<and> ref_of r StopRef = None"

text \<open>Proof that the stop may be lifted: trusted, fresh, of the commit now at the head of the branch,
  not of the commit the cord was pulled on, with every check run and passed.\<close>

definition may_clear :: "ext \<Rightarrow> guard \<Rightarrow> repo \<Rightarrow> envelope \<Rightarrow> string \<Rightarrow> string \<Rightarrow> bool" where
  "may_clear X g r env commit sid \<longleftrightarrow>
     (\<exists>s k. trusted_statement X g env s k \<and> st_commit s = Inr commit
        \<and> (\<forall>q\<in>set (cs_required (cn_checks (g_constitution g))).
             \<exists>c. map_by cr_name (pr_checks (st_predicate s)) (ck_name q) = Some c
               \<and> cr_command c = ck_command q \<and> cr_skipped c = [] \<and> cr_exit_code c = 0))
     \<and> ref_of r StopRef = Some sid \<and> ref_of r (g_ref g) = Some commit
     \<and> (\<forall>bytes ev. obj r sid = Some (Blob_Obj bytes) \<longrightarrow> x_unmarshal_event X bytes = Some ev \<longrightarrow>
          commit \<noteq> ae_commit ev)"

lemma first_failure_Some:
  "first_failure results ks = Some c \<Longrightarrow>
     \<exists>k\<in>set ks. c \<in> set results \<and> cr_name c = ck_name k \<and> cr_command c = ck_command k \<and> cr_exit_code c \<noteq> 0"
  by (induction ks) (auto simp: failing_result_def dest: find_first_SomeD split: option.splits)

lemma first_failure_None:
  "first_failure results ks = None \<longleftrightarrow>
     (\<forall>k\<in>set ks. \<forall>c\<in>set results. cr_name c = ck_name k \<longrightarrow> cr_command c = ck_command k \<longrightarrow> cr_exit_code c = 0)"
  by (induction ks) (auto simp: failing_result_def find_first_None dest: find_first_SomeD split: option.splits)

lemma currentMaster_Go:
  assumes "guard_ok X g" "repo_wf r"
  shows "currentMaster X g r c = Go base \<longleftrightarrow> ref_of r (g_ref g) = Some base"
proof -
  have "currentMaster X g r c = Go base \<longleftrightarrow> RefExists r (g_ref g) \<and> repo_Ref (x_git X) r (g_ref g) = Inr base"
    by (auto simp: currentMaster_def and_then_Go)
  then show ?thesis unfolding master_ref [OF assms(1)] using repo_wfD [OF assms(2)] by blast
qed

lemma stopID_empty:
  assumes "repo_wf r"
  shows "stopID X r = Go [] \<longleftrightarrow> ref_of r StopRef = None"
  using repo_wfD [OF assms] unfolding stopID_Go [OF assms] by (auto split: option.splits)

lemma trusted_payload: "trusted_statement X g env s k \<Longrightarrow> b64_decode (env_payload env) \<noteq> None"
  by (auto simp: trusted_statement_def VerifyStatement_Inr_iff Verify_Inr_iff)

lemma pull_decide_Go:
  assumes "guard_ok X g" "repo_wf r"
  shows "pull_decide X g now r env = Go (commit, ev) \<longleftrightarrow>
     (\<exists>v c. verify X g env [] [] = Go v \<and> ref_of r (g_ref g) = Some (v_commit v) \<and> v_commit v = commit
        \<and> ref_of r StopRef = None
        \<and> first_failure (pr_checks (st_predicate (v_statement v))) (cs_required (cn_checks (g_constitution g))) = Some c
        \<and> ev = pull_event X now env v c)"
proof -
  have "pull_decide X g now r env = Go (commit, ev) \<longleftrightarrow>
     (\<exists>v c. verify X g env [] [] = Go v \<and> currentMaster X g r (v_commit v) = Go (v_commit v) \<and> v_commit v = commit
        \<and> stopID X r = Go [] \<and> b64_decode (env_payload env) \<noteq> None
        \<and> first_failure (pr_checks (st_predicate (v_statement v))) (cs_required (cn_checks (g_constitution g))) = Some c
        \<and> ev = pull_event X now env v c)"
    unfolding pull_decide_def and_then_Go by (auto simp: and_then_Go split: option.splits if_splits)
  moreover have "verify X g env [] [] = Go v \<Longrightarrow> b64_decode (env_payload env) \<noteq> None" for v
    unfolding verify_Go using trusted_payload by blast
  ultimately show ?thesis unfolding stopID_empty [OF assms(2)] currentMaster_Go [OF assms] by blast
qed

lemma pull_decide_policy:
  assumes "guard_ok X g" "repo_wf r"
  shows "(\<exists>ev. pull_decide X g now r env = Go (commit, ev)) \<longleftrightarrow> (\<exists>c. may_pull X g r env commit c)"
  unfolding pull_decide_Go [OF assms] may_pull_def
  by (subst ex_verified) (auto simp: verify_Go)

lemma pull_decide_rejects: "rejects (pull_decide X g now r env)"
  unfolding pull_decide_def currentMaster_def
  by (auto simp: staleEvidence_def already_stopped_def split: option.splits)

lemma WriteBlob_refs [simp]: "rp_refs (snd (WriteBlob G now r b)) = rp_refs r"
  by (simp add: WriteBlob_def Let_def)

lemma WriteBlob_id [simp]: "fst (WriteBlob G now r b) = gg_hash G (Blob_Obj b)"
  by (simp add: WriteBlob_def Let_def)

lemma WriteBlob_obj:
  "obj (snd (WriteBlob G now r b)) h =
     (if obj r h = None \<and> h = gg_hash G (Blob_Obj b) then Some (Blob_Obj b) else obj r h)"
  by (auto simp: WriteBlob_def Let_def)

text \<open>Object ids as git makes them: forty lower case hexadecimal digits. And the names of the
  guard's own refs are valid.\<close>

definition git_ok :: "ext \<Rightarrow> bool" where
  "git_ok X \<longleftrightarrow> (\<forall>x. length (gg_hash (x_git X) x) = 40 \<and> list_all is_hex (gg_hash (x_git X) x))
     \<and> gg_valid_ref (x_git X) StopRef"

lemma pull_land_effect:
  fixes ev :: andon_event
  defines "h \<equiv> \<lambda>X ev. gg_hash (x_git X) (Blob_Obj (x_marshal_event X ev))"
  assumes "git_ok X" "ref_of r StopRef = None"
  shows "\<exists>r'. pull_land X now r commit ev =
      ((\<lparr>res_status = Stopped_Status, res_reason = No_Reason, res_detail = No_Detail, res_commit = commit,
         res_base = [], res_event = h X ev\<rparr>, None), r')
    \<and> ref_of r' = (ref_of r)(StopRef \<mapsto> h X ev)
    \<and> (\<forall>x. obj r' x = (if obj r x = None \<and> x = h X ev then Some (Blob_Obj (x_marshal_event X ev)) else obj r x))"
proof -
  obtain b r1 where w: "WriteBlob (x_git X) now r (x_marshal_event X ev) = (b, r1)" by fastforce
  have b: "b = h X ev" using WriteBlob_id [of "x_git X" now r "x_marshal_event X ev"] by (simp add: w h_def)
  have r1: "rp_refs r1 = rp_refs r" using WriteBlob_refs [of "x_git X" now r "x_marshal_event X ev"] by (simp add: w)
  have o: "obj r1 x = (if obj r x = None \<and> x = h X ev then Some (Blob_Obj (x_marshal_event X ev)) else obj r x)" for x
    using WriteBlob_obj [of "x_git X" now r "x_marshal_event X ev" x] by (simp add: w h_def)
  have "is_hash b" "new_hash b = b" "obj r1 b \<noteq> None" "gg_valid_ref (x_git X) StopRef"
    using assms(2) o [of b] by (auto simp: git_ok_def is_hash_lower full_hex_new_hash b h_def split: if_splits)
  then have "UpdateRef (x_git X) r1 StopRef b [] = Inr (r1\<lparr>rp_refs := AList.update StopRef b (rp_refs r1)\<rparr>)"
    using assms(3) r1 by (simp add: UpdateRef_Inr setRef_Inr)
  then show ?thesis using o by (simp add: pull_land_def w b r1 update_conv')
qed

lemma Pull_Stopped_iff:
  assumes "guard_ok X g" "git_ok X" "repo_wf r"
  shows "res_status (fst (fst (Pull X g now r env))) = Stopped_Status \<longleftrightarrow>
     (\<exists>commit c. may_pull X g r env commit c)"
proof (cases "\<exists>commit ev. pull_decide X g now r env = Go (commit, ev)")
  case False
  then have "res_status (fst (fst (Pull X g now r env))) \<noteq> Stopped_Status"
    using pull_decide_rejects [of X g now r env]
    by (cases "pull_decide X g now r env") (auto simp: Pull_def)
  then show ?thesis using False pull_decide_policy [OF assms(1,3)] by blast
next
  case True
  then obtain commit ev where d: "pull_decide X g now r env = Go (commit, ev)" by blast
  then have "ref_of r StopRef = None" unfolding pull_decide_Go [OF assms(1,3)] by blast
  from pull_land_effect [OF assms(2) this, of now commit ev]
  have "res_status (fst (fst (Pull X g now r env))) = Stopped_Status"
    using d by (auto simp: Pull_def)
  then show ?thesis using True pull_decide_policy [OF assms(1,3)] by blast
qed

text \<open>A pull records the failing check and the commit it was seen on behind the stop ref.\<close>

lemma Pull_effect:
  assumes "guard_ok X g" "git_ok X" "repo_wf r" "Pull X g now r env = ((res, err), r')"
    and "res_status res = Stopped_Status"
  obtains v c where "verify X g env [] [] = Go v" "ref_of r (g_ref g) = Some (v_commit v)"
    and "res_event res = gg_hash (x_git X) (Blob_Obj (x_marshal_event X (pull_event X now env v c)))"
    and "ref_of r' = (ref_of r)(StopRef \<mapsto> res_event res)" "err = None"
    and "\<forall>x. obj r' x = (if obj r x = None \<and> x = res_event res
           then Some (Blob_Obj (x_marshal_event X (pull_event X now env v c))) else obj r x)"
proof -
  obtain commit ev where d: "pull_decide X g now r env = Go (commit, ev)"
    using assms(4,5) pull_decide_rejects [of X g now r env]
    by (cases "pull_decide X g now r env") (auto simp: Pull_def)
  then obtain v c where v: "verify X g env [] [] = Go v" "ref_of r (g_ref g) = Some (v_commit v)"
      "ref_of r StopRef = None" "ev = pull_event X now env v c"
    unfolding pull_decide_Go [OF assms(1,3)] by blast
  from pull_land_effect [OF assms(2) v(3), of now commit ev] d assms(4)
  show thesis using v by (intro that [of v c]) (auto simp: Pull_def)
qed

lemma Stopped_event:
  assumes "repo_wf r"
  shows "Stopped X r = Go (sid, ev) \<longleftrightarrow>
    (case ref_of r StopRef of
       None \<Rightarrow> sid = [] \<and> ev = None
     | Some h \<Rightarrow> sid = h \<and> ev = (case obj r h of Some (Blob_Obj b) \<Rightarrow> x_unmarshal_event X b | _ \<Rightarrow> None))"
proof (cases "ref_of r StopRef")
  case None
  then show ?thesis by (auto simp: Stopped_def stopID_Go [OF assms])
next
  case (Some h)
  note wf = repo_wfD [OF assms Some]
  then have "parseHash h = Inr h" by (simp add: parseHash_def is_hash_lower full_hex_new_hash)
  then show ?thesis using Some wf
    by (auto simp: Stopped_def stopID_Go [OF assms] ObjectType_def ReadBlob_def git_stage_def
        split: option.splits git_object.splits)
qed

lemma check_passes_run:
  "check_passes results False q \<longleftrightarrow>
     (\<exists>c. map_by cr_name results (ck_name q) = Some c \<and> cr_command c = ck_command q
        \<and> cr_skipped c = [] \<and> cr_exit_code c = 0)"
  unfolding check_passes_def by auto

lemma Stopped_total: "repo_wf r \<Longrightarrow> \<exists>sid ev. Stopped X r = Go (sid, ev)"
  using Stopped_event [of r X] by (cases "ref_of r StopRef") auto

lemma stop_on_other:
  assumes "repo_wf r" "ref_of r StopRef = Some sid"
  shows "(\<exists>sid' ev. Stopped X r = Go (sid', ev) \<and> \<not> (ev \<noteq> None \<and> commit = ae_commit (the ev))) \<longleftrightarrow>
    (\<forall>bytes ev. obj r sid = Some (Blob_Obj bytes) \<longrightarrow> x_unmarshal_event X bytes = Some ev \<longrightarrow>
       commit \<noteq> ae_commit ev)"
  unfolding Stopped_event [OF assms(1)] assms(2)
  by (cases "obj r sid") (auto split: git_object.splits)

lemma verdict_Go:
  "(case c of Some (why, det) \<Rightarrow> Answer (f why det) | None \<Rightarrow> Go x) = Go y \<longleftrightarrow> c = None \<and> x = y"
  by (auto split: option.splits)

lemma clear_decide_Go:
  assumes "guard_ok X g" "repo_wf r"
  shows "clear_decide X g r env = Go (sid, commit, base) \<longleftrightarrow> base = commit \<and> may_clear X g r env commit sid"
proof -
  let ?req = "cs_required (cn_checks (g_constitution g))"
  have "clear_decide X g r env = Go (sid, commit, base) \<longleftrightarrow>
     (\<exists>v sid' ev. stopID X r = Go sid \<and> sid \<noteq> [] \<and> verify X g env [] [] = Go v \<and> v_commit v = commit
        \<and> currentMaster X g r commit = Go base \<and> commit = base \<and> Stopped X r = Go (sid', ev)
        \<and> \<not> (ev \<noteq> None \<and> commit = ae_commit (the ev))
        \<and> checkResults ?req (pr_checks (st_predicate (v_statement v))) False = None)"
    unfolding clear_decide_def and_then_Go
    by (auto simp: and_then_Go verdict_Go split: prod.splits)
  also have "\<dots> \<longleftrightarrow> (\<exists>v. verify X g env [] [] = Go v \<and> v_commit v = commit
        \<and> (\<forall>q\<in>set ?req. check_passes (pr_checks (st_predicate (v_statement v))) False q))
      \<and> ref_of r StopRef = Some sid \<and> ref_of r (g_ref g) = Some base \<and> commit = base
      \<and> (\<exists>sid' ev. Stopped X r = Go (sid', ev) \<and> \<not> (ev \<noteq> None \<and> commit = ae_commit (the ev)))"
    using repo_wfD [OF assms(2)]
    unfolding stopID_Go [OF assms(2)] currentMaster_Go [OF assms] checkResults_None
    by (auto split: option.splits)
  also have "\<dots> \<longleftrightarrow> base = commit \<and> may_clear X g r env commit sid"
    unfolding may_clear_def check_passes_run [symmetric] using stop_on_other [OF assms(2), of sid X commit]
    by (subst ex_verified) (auto simp: verify_Go)
  finally show ?thesis .
qed

lemma clear_decide_rejects: "rejects (clear_decide X g r env)"
  unfolding clear_decide_def currentMaster_def Stopped_def
  by (auto simp: staleEvidence_def not_stopped_def split: option.splits prod.splits)

lemma Clear_Cleared_iff:
  assumes "guard_ok X g" "repo_wf r"
  shows "res_status (fst (fst (Clear X g r env))) = Cleared \<longleftrightarrow>
     (\<exists>commit sid. may_clear X g r env commit sid)"
proof (cases "\<exists>d. clear_decide X g r env = Go d")
  case False
  then have "res_status (fst (fst (Clear X g r env))) \<noteq> Cleared"
    using clear_decide_rejects [of X g r env] by (cases "clear_decide X g r env") (auto simp: Clear_def)
  then show ?thesis using False clear_decide_Go [OF assms] by blast
next
  case True
  then obtain sid commit base where d: "clear_decide X g r env = Go (sid, commit, base)"
    by (metis prod.exhaust)
  then have m: "may_clear X g r env commit sid" unfolding clear_decide_Go [OF assms] by blast
  then have "res_status (fst (fst (Clear X g r env))) = Cleared"
    using d by (simp add: Clear_def clear_land_def DeleteRefIf_def may_clear_def)
  then show ?thesis using m by blast
qed

lemma Clear_effect:
  assumes "guard_ok X g" "repo_wf r" "Clear X g r env = ((res, err), r')"
  shows "if res_status res = Cleared then ref_of r' = (ref_of r)(StopRef := None) \<and> err = None
         else r' = r"
  using assms(3) clear_decide_rejects [of X g r env]
  by (cases "clear_decide X g r env")
    (auto simp: Clear_def clear_land_def DeleteRefIf_def not_stopped_def split: if_splits)

text \<open>A running line with a well-formed repository stays well-formed.\<close>

lemma repo_wf_update:
  assumes "repo_wf r" "ref_of r' = (ref_of r)(n \<mapsto> h)" "length h = 40" "list_all is_hex h"
    and "obj r' h \<noteq> None" "\<And>x. obj r x \<noteq> None \<Longrightarrow> obj r' x \<noteq> None"
  shows "repo_wf r'"
  using assms unfolding repo_wf_def by (metis fun_upd_apply option.inject)

text \<open>The event codec reads back the commit it wrote, and no stored object shares an event's id.\<close>

definition events_readable :: "ext \<Rightarrow> repo \<Rightarrow> bool" where
  "events_readable X r \<longleftrightarrow>
     (\<forall>ev. \<exists>ev'. x_unmarshal_event X (x_marshal_event X ev) = Some ev' \<and> ae_commit ev' = ae_commit ev)
     \<and> (\<forall>b. obj r (gg_hash (x_git X) (Blob_Obj b)) = None \<or> obj r (gg_hash (x_git X) (Blob_Obj b)) = Some (Blob_Obj b))"

lemma Pull_then_Clear:
  assumes "guard_ok X g" "git_ok X" "repo_wf r" "events_readable X r"
    and "Pull X g now r env = ((res, err), r')" "res_status res = Stopped_Status"
  shows "res_status (fst (fst (Clear X g r' env'))) \<noteq> Cleared"
proof
  assume cl: "res_status (fst (fst (Clear X g r' env'))) = Cleared"
  from Pull_effect [OF assms(1,2,3,5,6)] obtain v c where v:
      "ref_of r (g_ref g) = Some (v_commit v)"
      "res_event res = gg_hash (x_git X) (Blob_Obj (x_marshal_event X (pull_event X now env v c)))"
      "ref_of r' = (ref_of r)(StopRef \<mapsto> res_event res)"
      "\<forall>x. obj r' x = (if obj r x = None \<and> x = res_event res
           then Some (Blob_Obj (x_marshal_event X (pull_event X now env v c))) else obj r x)"
    by metis
  let ?ev = "pull_event X now env v c"
  have h: "length (res_event res) = 40" "list_all is_hex (res_event res)" using v(2) assms(2) by (auto simp: git_ok_def)
  have "obj r' (res_event res) = Some (Blob_Obj (x_marshal_event X ?ev))"
    using v(2,4) assms(4) unfolding events_readable_def by (metis option.distinct(1))
  moreover from this have wf: "repo_wf r'" 
    by (intro repo_wf_update [OF assms(3) v(3) h]) (use v(4) in auto)
  moreover obtain commit sid where m: "may_clear X g r' env' commit sid"
    using cl Clear_Cleared_iff [OF assms(1) wf] by blast
  moreover have "\<exists>ev'. x_unmarshal_event X (x_marshal_event X ?ev) = Some ev' \<and> ae_commit ev' = ae_commit ?ev"
    using assms(4) by (auto simp: events_readable_def)
  ultimately have "commit \<noteq> ae_commit ?ev" using v(3) unfolding may_clear_def by force
  moreover have "ae_commit ?ev = v_commit v" by (simp add: pull_event_def Let_def)
  moreover have "ref_of r' (g_ref g) = ref_of r (g_ref g)" using v(3) assms(1) by (simp add: guard_ok_def)
  ultimately show False using m v(1) unfolding may_clear_def by simp
qed

text \<open>While the cord is pulled only the tagged fix merges.\<close>

lemma Merge_stopped:
  assumes "guard_ok X g" "repo_wf r" "ref_of r StopRef = Some sid"
    and "res_status (fst (fst (Merge X g now r commit env))) = Merged"
  shows "\<exists>tags. Trailer (x_git X) r commit FixTrailer = Inr tags \<and> sid \<in> set tags"
proof -
  obtain base where "may_merge X g r commit env base"
    using Merge_Merged_iff [OF assms(1,2)] assms(4) by blast
  then have "line_open_for X r commit" unfolding may_merge_def by blast
  then show ?thesis using assms(3) by (simp add: line_open_for_def)
qed

end
