(* ===== verification/Line_Protocol.thy ===== *)
theory Line_Protocol
  imports Guard_Spec
begin

text \<open>
  The guard at work: pushes of candidates, merges, pulls and clears interleave on one repository.
  \<open>line serve\<close> admits one merge at a time (\<open>Server.busy\<close>), but pulls and clears run beside it,
  and every operation decides on one repository state and writes on a later one. The step relation
  keeps the decisions taken and not yet written; the branch nevertheless only ever moves from a
  commit to one of its first-parent children.
\<close>

record line_state =
  ls_repo :: repo
  ls_merges :: "(string \<times> oid) list"
  ls_pulls :: "(string \<times> andon_event) list"
  ls_clears :: "(string \<times> string \<times> oid) list"

text \<open>\<open>PushCommit\<close> as the repository sees it: new objects under their ids, and the candidate's ref. The
  pre-receive hook lets nothing else through.\<close>

definition push_candidate :: "repo \<Rightarrow> (oid \<times> git_object) list \<Rightarrow> string \<Rightarrow> oid \<Rightarrow> repo" where
  "push_candidate r xs name h =
     (if pre_receive_accepts [name]
      then r\<lparr>rp_objects := rp_objects r @ xs, rp_refs := AList.update name h (rp_refs r)\<rparr> else r)"

text \<open>\<open>U\<close> is the set of git objects that are ever written.\<close>

inductive line_step :: "ext \<Rightarrow> guard \<Rightarrow> git_object set \<Rightarrow> line_state \<Rightarrow> line_state \<Rightarrow> bool"
  for X g U where
  push: "\<forall>(k, x)\<in>set xs. x \<in> U \<and> gg_hash (x_git X) x = k \<Longrightarrow>
     length h = 40 \<Longrightarrow> list_all is_hex h \<Longrightarrow> map_of (rp_objects (ls_repo s) @ xs) h \<noteq> None \<Longrightarrow>
     line_step X g U s (s\<lparr>ls_repo := push_candidate (ls_repo s) xs name h\<rparr>)"
| merge_rejected: "Merge X g now (ls_repo s) commit env = ((res, err), r') \<Longrightarrow> res_status res \<noteq> Merged \<Longrightarrow>
     line_step X g U s (s\<lparr>ls_repo := r'\<rparr>)"
| merge_decided: "full_hex commit \<Longrightarrow> repo_Commit (x_git X) (ls_repo s) commit = Inr commit \<Longrightarrow>
     merge_decide X g (ls_repo s) commit env = Go base \<Longrightarrow>
     line_step X g U s (s\<lparr>ls_merges := (commit, base) # ls_merges s\<rparr>)"
| merge_landed: "(commit, base) \<in> set (ls_merges s) \<Longrightarrow>
     merge_cleanup g now commit (merge_land X g (ls_repo s) commit base) = (out, r') \<Longrightarrow>
     line_step X g U s (s\<lparr>ls_repo := r', ls_merges := remove1 (commit, base) (ls_merges s)\<rparr>)"
| pull_decided: "pull_decide X g now (ls_repo s) env = Go d \<Longrightarrow>
     line_step X g U s (s\<lparr>ls_pulls := d # ls_pulls s\<rparr>)"
| pull_landed: "(commit, ev) \<in> set (ls_pulls s) \<Longrightarrow> Blob_Obj (x_marshal_event X ev) \<in> U \<Longrightarrow>
     pull_land X now (ls_repo s) commit ev = (out, r') \<Longrightarrow>
     line_step X g U s (s\<lparr>ls_repo := r', ls_pulls := remove1 (commit, ev) (ls_pulls s)\<rparr>)"
| clear_decided: "clear_decide X g (ls_repo s) env = Go d \<Longrightarrow>
     line_step X g U s (s\<lparr>ls_clears := d # ls_clears s\<rparr>)"
| clear_landed: "(sid, commit, base) \<in> set (ls_clears s) \<Longrightarrow> clear_land (ls_repo s) sid commit base = (out, r') \<Longrightarrow>
     line_step X g U s (s\<lparr>ls_repo := r', ls_clears := remove1 (sid, commit, base) (ls_clears s)\<rparr>)"

text \<open>First-parent descent among the objects of \<open>U\<close>.\<close>

inductive descends :: "ext \<Rightarrow> git_object set \<Rightarrow> oid \<Rightarrow> oid \<Rightarrow> bool" for X U where
  descends_refl: "descends X U a a"
| descends_step: "descends X U a b \<Longrightarrow> Commit_Obj t (b # ps) m \<in> U \<Longrightarrow>
     gg_hash (x_git X) (Commit_Obj t (b # ps) m) = c \<Longrightarrow> descends X U a c"

definition line_ok :: "ext \<Rightarrow> guard \<Rightarrow> bool" where
  "line_ok X g \<longleftrightarrow> guard_ok X g \<and> git_ok X"

definition addressed :: "ext \<Rightarrow> git_object set \<Rightarrow> repo \<Rightarrow> bool" where
  "addressed X U r \<longleftrightarrow> (\<forall>(h, x)\<in>set (rp_objects r). x \<in> U \<and> gg_hash (x_git X) x = h)"

text \<open>A merge that has been decided: its commit has the base it expects as first parent.\<close>

definition merge_pending_ok :: "ext \<Rightarrow> git_object set \<Rightarrow> string \<times> oid \<Rightarrow> bool" where
  "merge_pending_ok X U p \<longleftrightarrow> full_hex (fst p) \<and> snd p \<noteq> []
     \<and> (is_hash (fst p) \<longrightarrow> (\<exists>t ps m. Commit_Obj t (snd p # ps) m \<in> U
           \<and> gg_hash (x_git X) (Commit_Obj t (snd p # ps) m) = fst p))"

definition line_inv :: "ext \<Rightarrow> guard \<Rightarrow> git_object set \<Rightarrow> oid \<Rightarrow> line_state \<Rightarrow> bool" where
  "line_inv X g U m0 s \<longleftrightarrow> line_ok X g \<and> addressed X U (ls_repo s) \<and> repo_wf (ls_repo s)
     \<and> list_all (merge_pending_ok X U) (ls_merges s)
     \<and> (\<exists>c. ref_of (ls_repo s) (g_ref g) = Some c \<and> descends X U m0 c)"

definition line_init :: "ext \<Rightarrow> guard \<Rightarrow> git_object set \<Rightarrow> oid \<Rightarrow> line_state \<Rightarrow> bool" where
  "line_init X g U m0 s \<longleftrightarrow> line_ok X g \<and> addressed X U (ls_repo s) \<and> repo_wf (ls_repo s)
     \<and> ls_merges s = [] \<and> ls_pulls s = [] \<and> ls_clears s = [] \<and> ref_of (ls_repo s) (g_ref g) = Some m0"

subsection \<open>Preservation\<close>

text \<open>What a change of the repository must keep.\<close>

definition repo_change_ok :: "ext \<Rightarrow> guard \<Rightarrow> git_object set \<Rightarrow> repo \<Rightarrow> repo \<Rightarrow> bool" where
  "repo_change_ok X g U r r' \<longleftrightarrow>
     (addressed X U r \<and> repo_wf r \<longrightarrow> addressed X U r' \<and> repo_wf r') \<and> ref_of r' (g_ref g) = ref_of r (g_ref g)"

lemma markReachable_super:
  "markReachable objs stack marks = Inr m \<Longrightarrow> set stack \<union> set marks \<subseteq> set m"
  by (induction objs stack marks rule: markReachable.induct) (auto split: if_splits option.splits)

lemma Prune_wf:
  assumes "PruneUnreachable now grace r = Inr r'" "addressed X U r" "repo_wf r"
  shows "addressed X U r' \<and> repo_wf r'"
proof
  show "addressed X U r'"
    using PruneUnreachable_subset [OF assms(1)] assms(2) unfolding addressed_def by fastforce
  obtain m where m: "markReachable (rp_objects r) (map snd (rp_refs r)) [] = Inr m"
    and r': "r' = r\<lparr>rp_objects := filter (\<lambda>(h, x). \<not> (h \<notin> set m \<and>
        (case rp_loose r h of None \<Rightarrow> False | Some t \<Rightarrow> t < now - grace))) (rp_objects r)\<rparr>"
    using assms(1) by (auto simp: PruneUnreachable_def Let_def split: sum.splits)
  have "obj r' h = obj r h" if "ref_of r n = Some h" for n h
  proof -
    have "h \<in> set m" using markReachable_super [OF m] map_of_SomeD [OF that] by force
    then show ?thesis unfolding r' by (simp add: map_of_filter_key)
  qed
  then show "repo_wf r'" using assms(3) PruneUnreachable_refs [OF assms(1)] unfolding repo_wf_def by auto
qed

lemma DeleteRef_wf: "addressed X U r \<Longrightarrow> repo_wf r \<Longrightarrow> addressed X U (DeleteRef r k) \<and> repo_wf (DeleteRef r k)"
  unfolding addressed_def repo_wf_def by (auto split: if_splits)

lemma cleanup_wf:
  assumes "merge_cleanup g now commit ((res, err), r) = (out, r')" "guard_ok X g"
  shows "repo_change_ok X g U r r'"
proof -
  let ?d = "DeleteRef r (CandidatePrefix @ commit)"
  have r': "r' = ?d \<or> PruneUnreachable now (g_grace g) ?d = Inr r'"
    using assms(1) by (auto simp: merge_cleanup_def Let_def split: sum.splits if_splits)
  have "addressed X U r \<Longrightarrow> repo_wf r \<Longrightarrow> addressed X U r' \<and> repo_wf r'"
    using r' DeleteRef_wf [of X U r] Prune_wf [of now "g_grace g" ?d r' X U] by blast
  moreover have "ref_of r' (g_ref g) = ref_of r (g_ref g)"
    using r' PruneUnreachable_refs [of now "g_grace g" ?d r'] assms(2) by (auto simp: guard_ok_def)
  ultimately show ?thesis by (simp add: repo_change_ok_def)
qed

lemma Merge_rejected_wf:
  assumes "Merge X g now r commit env = ((res, err), r')" "res_status res \<noteq> Merged" "guard_ok X g"
  shows "repo_change_ok X g U r r'"
proof -
  let ?out = "case merge_decide X g r commit env of
      Fail e \<Rightarrow> ((zero_result, Some e), r) | Answer a \<Rightarrow> ((a, None), r)
    | Go base \<Rightarrow> merge_land X g r commit base"
  have "r' = r \<or> merge_cleanup g now commit ?out = ((res, err), r')"
    using assms(1) by (auto simp: Merge_def split: if_splits sum.splits)
  moreover have "snd ?out = r" if "res_status (fst (fst ?out)) \<noteq> Merged"
    using that by (auto simp: merge_land_def split: stage.splits sum.splits git_error.splits)
  moreover have "res_status (fst (fst ?out)) \<noteq> Merged" if "merge_cleanup g now commit ?out = ((res, err), r')"
    using cleanup_status [of g now commit ?out] assms(2) unfolding that by simp
  ultimately have "r' = r \<or> (\<exists>res0 err0. merge_cleanup g now commit ((res0, err0), r) = ((res, err), r'))"
    by (metis prod.exhaust_sel)
  then show ?thesis using cleanup_wf [OF _ assms(3)] by (auto simp: repo_change_ok_def)
qed

lemma push_wf:
  assumes "\<forall>(k, x)\<in>set xs. x \<in> U \<and> gg_hash (x_git X) x = k" "length h = 40" "list_all is_hex h"
    and "map_of (rp_objects r @ xs) h \<noteq> None" "guard_ok X g"
  shows "repo_change_ok X g U r (push_candidate r xs name h)"
proof (cases "pre_receive_accepts [name]")
  case True
  then have p: "has_prefix name CandidatePrefix" by (simp add: pre_receive_accepts_def)
  let ?r = "r\<lparr>rp_objects := rp_objects r @ xs, rp_refs := AList.update name h (rp_refs r)\<rparr>"
  have "addressed X U r \<Longrightarrow> addressed X U ?r" using assms(1) by (auto simp: addressed_def)
  moreover have "repo_wf r \<Longrightarrow> repo_wf ?r"
    by (rule repo_wf_update [of r _ name h]) (use assms in \<open>auto simp: update_conv' map_add_def split: option.splits\<close>)
  ultimately show ?thesis using True p assms(5)
    by (auto simp: push_candidate_def repo_change_ok_def update_conv' guard_ok_def)
qed (simp add: push_candidate_def repo_change_ok_def)

lemma pull_land_wf:
  assumes "pull_land X now r commit ev = (out, r')" "Blob_Obj (x_marshal_event X ev) \<in> U" "guard_ok X g" "git_ok X"
  shows "repo_change_ok X g U r r'"
proof -
  obtain b r1 where w: "WriteBlob (x_git X) now r (x_marshal_event X ev) = (b, r1)" by fastforce
  have b: "b = gg_hash (x_git X) (Blob_Obj (x_marshal_event X ev))" "rp_refs r1 = rp_refs r"
    using WriteBlob_id [of "x_git X" now r "x_marshal_event X ev"]
      WriteBlob_refs [of "x_git X" now r "x_marshal_event X ev"] by (simp_all add: w)
  have o: "obj r1 x = (if obj r x = None \<and> x = b then Some (Blob_Obj (x_marshal_event X ev)) else obj r x)" for x
    using WriteBlob_obj [of "x_git X" now r "x_marshal_event X ev" x] by (simp add: w b)
  have a1: "addressed X U r \<Longrightarrow> addressed X U r1"
    using w assms(2) by (auto simp: WriteBlob_def Let_def addressed_def split: if_splits)
  have wf1: "repo_wf r \<Longrightarrow> repo_wf r1" using b(2) o unfolding repo_wf_def by auto
  have "r' = r1 \<or> r' = r1\<lparr>rp_refs := AList.update StopRef b (rp_refs r1)\<rparr>"
    using assms(1) by (auto simp: pull_land_def w UpdateRef_Inr setRef_Inr b full_hex_new_hash assms(4) [unfolded git_ok_def]
        split: sum.splits git_error.splits stage.splits)
  moreover have "repo_wf r \<Longrightarrow> repo_wf (r1\<lparr>rp_refs := AList.update StopRef b (rp_refs r1)\<rparr>)"
    by (rule repo_wf_update [of r _ StopRef b]) (use assms(4) b o in \<open>auto simp: git_ok_def update_conv'\<close>)
  ultimately show ?thesis using a1 wf1 assms(3) b(2)
    by (auto simp: repo_change_ok_def addressed_def update_conv' guard_ok_def)
qed

lemma clear_land_wf:
  assumes "clear_land r sid commit base = (out, r')" "guard_ok X g"
  shows "repo_change_ok X g U r r'"
proof -
  have "r' = r \<or> r' = DeleteRef r StopRef"
    using assms(1) by (auto simp: clear_land_def DeleteRefIf_def split: if_splits)
  then show ?thesis using DeleteRef_wf [of X U r StopRef] assms(2) by (auto simp: repo_change_ok_def guard_ok_def)
qed

lemma repo_Parents_object:
  assumes "is_hash c" "new_hash c = c" "repo_Commit G r c = Inr c" "repo_Parents G r c = Inr ps"
  shows "\<exists>t m. obj r c = Some (Commit_Obj t ps m)"
proof -
  obtain h t ps' m where rc: "resolveCommit G r c = Inr (h, t, ps', m)"
    using assms(3) by (cases "resolveCommit G r c") (auto simp: repo_Commit_def)
  then have "h = c" "ps' = ps" using assms(3,4) by (simp_all add: repo_Commit_def repo_Parents_def)
  moreover have "commit_object r x = Inr (c, t, ps, m) \<Longrightarrow> obj r c = Some (Commit_Obj t ps m)" for x
    by (auto simp: commit_object_def split: option.splits git_object.splits)
  ultimately show ?thesis using rc
    by (auto simp: resolveCommit_def split: sum.splits option.splits git_object.splits)
qed

lemma decided_pending_ok:
  assumes "guard_ok X g" "repo_wf r" "addressed X U r" "full_hex commit"
    and "repo_Commit (x_git X) r commit = Inr commit" "merge_decide X g r commit env = Go base"
  shows "merge_pending_ok X U (commit, base)"
proof -
  have "commit \<noteq> []" using assms(4) by (auto simp: full_hex_def)
  then have base: "ref_of r (g_ref g) = Some base" "\<exists>ps. repo_Parents (x_git X) r commit = Inr (base # ps)"
    using assms(6) unfolding merge_decide_Go [OF assms(1,2) \<open>commit \<noteq> []\<close>] by blast+
  have "\<exists>t ps m. Commit_Obj t (base # ps) m \<in> U \<and> gg_hash (x_git X) (Commit_Obj t (base # ps) m) = commit"
    if hash: "is_hash commit"
  proof -
    have "new_hash commit = commit" using assms(4) by (simp add: full_hex_def full_hex_new_hash)
    then obtain t ps m where "obj r commit = Some (Commit_Obj t (base # ps) m)"
      using repo_Parents_object [OF hash _ assms(5)] base(2) by blast
    then show ?thesis using assms(3) map_of_SomeD unfolding addressed_def by fastforce
  qed
  then show ?thesis using assms(4) repo_wfD [OF assms(2) base(1)] by (simp add: merge_pending_ok_def)
qed

text \<open>The swap lands only on the base that was decided on, so the branch moves to a first-parent child
  of the commit it held.\<close>

lemma landed_child:
  assumes "merge_pending_ok X U (commit, base)" "addressed X U r" "repo_wf r"
    and "merge_land X g r commit base = ((res, err), r')"
  shows "r' = r \<or> (res_status res = Merged \<and> ref_of r (g_ref g) = Some base \<and> ref_of r' = (ref_of r)(g_ref g \<mapsto> commit)
     \<and> addressed X U r' \<and> repo_wf r'
     \<and> (\<exists>t ps m. Commit_Obj t (base # ps) m \<in> U \<and> gg_hash (x_git X) (Commit_Obj t (base # ps) m) = commit))"
proof (cases "r' = r")
  case False
  then have u: "UpdateRef (x_git X) r (g_ref g) commit base = Inr r'" and st: "res_status res = Merged"
    using assms(4) by (auto simp: merge_land_def split: sum.splits git_error.splits)
  have hex: "full_hex commit" and nb: "base \<noteq> []" using assms(1) by (auto simp: merge_pending_ok_def)
  have s: "ref_of r (g_ref g) = Some base" "is_hash commit" "obj r (new_hash commit) \<noteq> None"
      "r' = r\<lparr>rp_refs := AList.update (g_ref g) (new_hash commit) (rp_refs r)\<rparr>"
    using u nb by (simp_all add: UpdateRef_Inr setRef_Inr)
  have c: "new_hash commit = commit" "length commit = 40" "list_all is_hex commit"
    using hex s(2) by (auto simp: full_hex_def full_hex_new_hash is_hash_def)
  have r': "ref_of r' = (ref_of r)(g_ref g \<mapsto> commit)" using s(4) c(1) by (simp add: update_conv')
  moreover have "repo_wf r'"
    by (rule repo_wf_update [of r r' "g_ref g" commit]) (use assms(3) r' s c in auto)
  moreover have "addressed X U r'" using assms(2) s(4) by (simp add: addressed_def)
  ultimately show ?thesis using s(1,2) st assms(1) by (auto simp: merge_pending_ok_def)
qed simp

lemma line_step_inv:
  assumes "line_inv X g U m0 s" "line_step X g U s t"
  shows "line_inv X g U m0 t"
proof -
  have I: "guard_ok X g" "git_ok X" "line_ok X g" "addressed X U (ls_repo s)"
      "repo_wf (ls_repo s)" "list_all (merge_pending_ok X U) (ls_merges s)"
    using assms(1) by (auto simp: line_inv_def line_ok_def)
  have keep: "line_inv X g U m0 s'" if "repo_change_ok X g U (ls_repo s) (ls_repo s')"
      "set (ls_merges s') \<subseteq> set (ls_merges s)" for s' :: line_state
    using that assms(1) unfolding line_inv_def repo_change_ok_def list_all_iff by auto
  show ?thesis using assms(2)
  proof cases
    case (push xs h name)
    then show ?thesis using push_wf [OF push(2-5) I(1)] by (intro keep) auto
  next
    case (merge_rejected now commit env res err r')
    then show ?thesis using Merge_rejected_wf [OF merge_rejected(2,3) I(1)] by (intro keep) auto
  next
    case (merge_decided commit env base)
    then show ?thesis using decided_pending_ok [OF I(1,5,4) merge_decided(2-4)] assms(1)
      by (simp add: line_inv_def)
  next
    case (merge_landed commit base now out r')
    obtain res err r1 where l: "merge_land X g (ls_repo s) commit base = ((res, err), r1)"
      by (metis prod.exhaust)
    have p: "merge_pending_ok X U (commit, base)" using I(6) merge_landed(2) by (auto simp: list_all_iff)
    have ch: "repo_change_ok X g U r1 r'" using merge_landed(3) cleanup_wf [OF _ I(1)] unfolding l by blast
    have "addressed X U r1 \<and> repo_wf r1 \<and> (\<exists>c. ref_of r1 (g_ref g) = Some c \<and> descends X U m0 c)"
      using landed_child [OF p I(4,5) l] assms(1) unfolding line_inv_def by (fastforce intro: descends_step)
    then show ?thesis using ch I(3,6) merge_landed(1) set_remove1_subset [of "(commit, base)" "ls_merges s"]
      unfolding line_inv_def repo_change_ok_def list_all_iff by auto
  next
    case (pull_decided now env d)
    then show ?thesis by (intro keep) (auto simp: repo_change_ok_def)
  next
    case (pull_landed commit ev now out r')
    then show ?thesis using pull_land_wf [OF pull_landed(4,3) I(1,2)] by (intro keep) auto
  next
    case (clear_decided env d)
    then show ?thesis by (intro keep) (auto simp: repo_change_ok_def)
  next
    case (clear_landed sid commit base out r')
    then show ?thesis using clear_land_wf [OF clear_landed(3) I(1)] by (intro keep) auto
  qed
qed

interpretation line_run: invariant_system "line_init X g U m0" "line_step X g U" "line_inv X g U m0" for X g U m0
proof (unfold_locales, goal_cases)
  case (1 s)
  then show ?case by (auto simp: line_init_def line_inv_def intro: descends_refl)
next
  case (2 s t)
  then show ?case by (rule line_step_inv)
qed

end
