(* ===== verification/Line_Example.thy ===== *)
theory Line_Example
  imports Line_Protocol
begin

text \<open>
  A small line on which the operations are run: one check, one trusted key, a repository with a
  master commit and a pushed candidate, and evidence of both outcomes. The parameters (cryptography,
  JSON, git ids and differences) are instantiated by finite tables.
\<close>

definition ex_id :: "char \<Rightarrow> oid" where "ex_id c = replicate 40 c"

abbreviation ex_master :: oid where "ex_master \<equiv> ex_id (CHR ''a'')"
abbreviation ex_candidate :: oid where "ex_candidate \<equiv> ex_id (CHR ''b'')"
abbreviation ex_stop :: oid where "ex_stop \<equiv> ex_id (CHR ''e'')"

definition ex_pub :: string where "ex_pub = replicate 32 (CHR ''k'')"

definition ex_check :: check where
  "ex_check = \<lparr>ck_name = ''ci'', ck_command = ''just ci'', ck_skip_for_docs_only = True\<rparr>"

definition ex_result :: "int \<Rightarrow> string \<Rightarrow> check_result" where
  "ex_result code skipped = \<lparr>cr_name = ''ci'', cr_command = ''just ci'', cr_exit_code = code,
     cr_evidence_id = ''ev'', cr_skipped = skipped\<rparr>"

definition ex_statement :: "oid \<Rightarrow> int \<Rightarrow> statement" where
  "ex_statement commit code = NewStatement commit (ex_id (CHR ''1''))
     \<lparr>pr_role = ''maker'', pr_agent_id = ''m1'', pr_constitution = ''sha256:c'', pr_runner = ''local'',
      pr_checks = [ex_result code []], pr_finished_at = 0\<rparr>"

definition ex_lib :: lib where
  "ex_lib = \<lparr>lib_sign = (\<lambda>k m. ''sig''), lib_public = (\<lambda>k. ex_pub),
     lib_verify = (\<lambda>pub m sg. pub = ex_pub \<and> sg = ''sig''), lib_sha256 = (\<lambda>s. ''h''),
     lib_marshal = (\<lambda>s. if pr_checks (st_predicate s) = [ex_result 0 []] then ''P'' else ''F''),
     lib_unmarshal = (\<lambda>p. if p = ''P'' then Some (ex_statement ex_candidate 0)
        else if p = ''F'' then Some (ex_statement ex_master 1)
        else if p = ''M'' then Some (ex_statement ex_candidate 1) else None),
     lib_marshal_event = (\<lambda>s. []), lib_unmarshal_event = (\<lambda>s. None)\<rparr>"

definition ex_git :: gogit where
  "ex_git = \<lparr>gg_diff = (\<lambda>a b. [\<lparr>tc_from_name = ''a.go'', tc_to_name = ''a.go'', tc_to_mode = Mode_Regular,
        tc_to_hash = ex_id (CHR ''c'')\<rparr>]),
     gg_hash = (\<lambda>x. case x of Commit_Obj t ps m \<Rightarrow> (if ps = [] then ex_master else ex_candidate)
        | Tree_Obj es \<Rightarrow> (if es = [] then ex_id (CHR ''1'') else ex_id (CHR ''2''))
        | Blob_Obj b \<Rightarrow> (if b = ''package a'' then ex_id (CHR ''c'') else ex_stop) | Tag_Obj t \<Rightarrow> ex_id (CHR ''d'')),
     gg_revision = (\<lambda>_ _. None), gg_valid_ref = (\<lambda>_. True)\<rparr>"

definition ex_event :: andon_event where
  "ex_event = \<lparr>ae_commit = ex_master, ae_check = ''ci'', ae_exit_code = 1, ae_evidence_id = ''ev'',
     ae_agent_id = ''m1'', ae_role = ''maker'', ae_key_id = ''68'', ae_constitution = ''sha256:c'',
     ae_pulled_at = 5, ae_attestation = ''sha256:68''\<rparr>"

definition ex_ext :: ext where
  "ex_ext = \<lparr>x_lib = ex_lib, x_git = ex_git, x_marshal_event = ae_commit,
     x_unmarshal_event = (\<lambda>s. Some (ex_event\<lparr>ae_commit := s\<rparr>))\<rparr>"

definition ex_constitution :: constitution where
  "ex_constitution =
     \<lparr>cn_trust = \<lparr>tr_level = ''none'', tr_keys = [\<lparr>tk_name = ''station'',
        tk_public_key = EncodePublicKey ex_pub, tk_roles = [''maker'']\<rparr>]\<rparr>,
      cn_checks = \<lparr>cs_required = [ex_check], cs_timeout = [], cs_cold_timeout = [], cs_docs_paths = [''*.md'']\<rparr>,
      cn_runner = \<lparr>rn_kind = ''local'', rn_engine = [], rn_image = [], rn_memory = [], rn_pids = 0, rn_cpus = []\<rparr>,
      cn_guards = \<lparr>gd_paths = [\<lparr>pg_pattern = ''line/**'', pg_roles = [''kaizen'']\<rparr>],
        gd_blobs = \<lparr>bg_max_bytes = 0, bg_allow = []\<rparr>\<rparr>,
      cn_sovereign = \<lparr>sv_name = [], sv_discord = []\<rparr>,
      cn_channel = \<lparr>ch_kind = [], ch_channel = [], ch_transport = []\<rparr>,
      cn_viceroy = \<lparr>vc_succession = False, vc_delegations = [], vc_labels = [], vc_presign_max_ttl = []\<rparr>,
      cn_cards = \<lparr>cd_comment_cap = 0, cd_needs_timeout = []\<rparr>,
      cn_budgets = [], cn_workloads = \<lparr>wl_rules = [], wl_images = []\<rparr>, cn_remotes = []\<rparr>"

definition ex_guard :: guard where
  "ex_guard = \<lparr>g_ref = ''refs/heads/master'', g_constitution = ex_constitution, g_digest = ''sha256:c'',
     g_grace = 14 * 24 * hour\<rparr>"

definition ex_objects_with :: "string \<Rightarrow> (oid \<times> git_object) list" where
  "ex_objects_with message =
     [(ex_master, Commit_Obj (ex_id (CHR ''1'')) [] ''start''),
      (ex_candidate, Commit_Obj (ex_id (CHR ''2'')) [ex_master] message),
      (ex_id (CHR ''1''), Tree_Obj []),
      (ex_id (CHR ''2''), Tree_Obj [(''a.go'', Mode_Regular, ex_id (CHR ''c''))]),
      (ex_id (CHR ''c''), Blob_Obj ''package a'')]"

abbreviation ex_objects :: "(oid \<times> git_object) list" where "ex_objects \<equiv> ex_objects_with ''change''"

definition ex_repo :: repo where
  "ex_repo = \<lparr>rp_objects = ex_objects, rp_loose = Map.empty,
     rp_refs = [(''refs/heads/master'', ex_master), (CandidatePrefix @ ex_candidate, ex_candidate)]\<rparr>"

text \<open>A stopped line whose master has been repaired: the stop names the commit before.\<close>

definition ex_stopped :: repo where
  "ex_stopped = \<lparr>rp_objects = (ex_stop, Blob_Obj ex_master) # ex_objects, rp_loose = Map.empty,
     rp_refs = [(''refs/heads/master'', ex_candidate), (StopRef, ex_stop)]\<rparr>"

text \<open>A stopped line with the fix pushed: its message names the stop.\<close>

definition ex_fix_message :: string where
  "ex_fix_message = ''fix'' @ [newline, newline] @ ''Andon-Event: '' @ ex_stop"

definition ex_fix_repo :: repo where
  "ex_fix_repo = \<lparr>rp_objects = (ex_stop, Blob_Obj ex_master) # ex_objects_with ex_fix_message, rp_loose = Map.empty,
     rp_refs = [(''refs/heads/master'', ex_master), (StopRef, ex_stop)]\<rparr>"

definition ex_envelope :: "string \<Rightarrow> envelope" where
  "ex_envelope payload = Sign ex_lib ''key'' PayloadType payload"

lemma ex_id_text: "ex_id c \<noteq> ''package a''"
proof
  assume "ex_id c = ''package a''"
  then have "length (ex_id c) = length ''package a''" by (rule arg_cong)
  then show False by (simp add: ex_id_def)
qed

lemma ex_id_inject [simp]: "ex_id c = ex_id d \<longleftrightarrow> c = d"
  by (simp add: ex_id_def)

lemma ex_id_facts [simp]: "length (ex_id c) = 40" "ex_id c \<noteq> []" "list_all is_hex (ex_id c) \<longleftrightarrow> is_hex c"
  by (simp_all add: ex_id_def list_all_iff)

lemma ex_hex [simp]: "is_hex (CHR ''a'')" "is_hex (CHR ''b'')" "is_hex (CHR ''c'')" "is_hex (CHR ''d'')" "is_hex (CHR ''e'')"
  "is_hex (CHR ''1'')" "is_hex (CHR ''2'')"
  by (simp_all add: is_hex_def is_digit_def in_range_def)

lemma ex_id_hash [simp]: "is_hex c \<Longrightarrow> is_hash (ex_id c)" "is_hex c \<Longrightarrow> new_hash (ex_id c) = ex_id c"
   "is_hex c \<Longrightarrow> full_hex (ex_id c)"
  by (simp_all add: is_hash_lower full_hex_new_hash full_hex_def)

lemma ex_keys: "TrustedKeys ex_lib ex_constitution = Inr [''68'' \<mapsto> ex_pub]"
  "KeyRoles ex_lib ex_constitution = Inr [''68'' \<mapsto> [''maker'']]"
proof -
  have k: "ParsePublicKey (EncodePublicKey ex_pub) = Inr ex_pub"
    by (rule ParsePublicKey_EncodePublicKey) (simp add: ex_pub_def)
  have h: "KeyID ex_lib ex_pub = ''68''"
    by (simp add: KeyID_def ex_lib_def) code_simp
  show "TrustedKeys ex_lib ex_constitution = Inr [''68'' \<mapsto> ex_pub]"
  "KeyRoles ex_lib ex_constitution = Inr [''68'' \<mapsto> [''maker'']]"
   by (simp_all add: TrustedKeys_def KeyRoles_def ex_constitution_def k h)
qed

lemma ex_verify: "lib_unmarshal ex_lib p = Some s \<Longrightarrow> st_type s = StatementType \<Longrightarrow> st_predicate_type s = ChecksPredicateType
  \<Longrightarrow> VerifyStatement ex_lib (ex_envelope p) [''68'' \<mapsto> ex_pub] = Inr (s, ''68'')"
proof -
  assume a: "lib_unmarshal ex_lib p = Some s" "st_type s = StatementType" "st_predicate_type s = ChecksPredicateType"
  have h: "KeyID ex_lib (lib_public ex_lib ''key'') = ''68''"
    by (simp add: KeyID_def ex_lib_def) code_simp
  have "Verify ex_lib (ex_envelope p) [''68'' \<mapsto> ex_pub] = Inr (p, KeyID ex_lib (lib_public ex_lib ''key''))"
    unfolding ex_envelope_def by (rule Verify_Sign) (simp_all only: signs_verify_def h, simp_all add: ex_lib_def)
  then show ?thesis using a h by (simp add: VerifyStatement_Inr_iff) (simp add: ex_envelope_def Sign_def)
qed

lemma ex_trusted: "lib_unmarshal ex_lib p = Some (ex_statement c n) \<Longrightarrow> trusted_statement ex_ext ex_guard (ex_envelope p) (ex_statement c n) ''68''"
  by (simp add: trusted_statement_def ex_ext_def ex_guard_def ex_keys ex_verify ex_statement_def key_permits_def)
   (simp add: ex_constitution_def runner_ID_def)

lemma ex_guard_ok: "guard_ok ex_ext ex_guard"
  by (simp add: guard_ok_def ex_ext_def ex_git_def ex_guard_def is_hash_def StopRef_def CandidatePrefix_def has_prefix_def)

lemma ex_repo_wf: "repo_wf ex_repo" "repo_wf ex_stopped" "repo_wf ex_fix_repo"
  by (auto simp: repo_wf_def ex_repo_def ex_objects_with_def ex_stopped_def ex_fix_repo_def split: if_splits)

lemma ex_git_simps: "x_git ex_ext = ex_git" "x_lib ex_ext = ex_lib" by (simp_all add: ex_ext_def)

lemma ex_guard_simps: "g_ref ex_guard = ''refs/heads/master''" "g_constitution ex_guard = ex_constitution"
    "cs_required (cn_checks ex_constitution) = [ex_check]"
  by (simp_all add: ex_guard_def ex_constitution_def)

lemma ex_obj: "obj ex_repo h = (if h = ex_master then Some (Commit_Obj (ex_id (CHR ''1'')) [] ''start'')
   else if h = ex_candidate then Some (Commit_Obj (ex_id (CHR ''2'')) [ex_master] ''change'')
   else if h = ex_id (CHR ''1'') then Some (Tree_Obj []) else if h = ex_id (CHR ''2'') then Some (Tree_Obj [(''a.go'', Mode_Regular, ex_id (CHR ''c''))])
   else if h = ex_id (CHR ''c'') then Some (Blob_Obj ''package a'') else None)"
  by (auto simp: ex_repo_def ex_objects_with_def)

definition ex_like :: "repo \<Rightarrow> string \<Rightarrow> bool" where
  "ex_like r message \<longleftrightarrow> (\<forall>(h, x)\<in>set (ex_objects_with message). obj r h = Some x)"

lemma ex_repo_like: "ex_like ex_repo ''change''" "ex_like ex_fix_repo ex_fix_message"
  by (simp_all add: ex_like_def ex_repo_def ex_fix_repo_def ex_objects_with_def)

lemma ex_rc:
  assumes "ex_like r message"
  shows "resolveCommit ex_git r ex_candidate = Inr (ex_candidate, ex_id (CHR ''2''), [ex_master], message)"
    and "resolveCommit ex_git r ex_master = Inr (ex_master, ex_id (CHR ''1''), [], ''start'')"
  using assms by (simp_all add: ex_like_def ex_objects_with_def resolveCommit_def resolve_def commit_object_def)

lemma ex_diff:
  assumes "ex_like r message"
  shows "diffTrees ex_git r ex_master ex_candidate = Inr (gg_diff ex_git [] [])"
proof -
  have "obj r (ex_id (CHR ''1'')) = Some (Tree_Obj [])"
    "obj r (ex_id (CHR ''2'')) = Some (Tree_Obj [(''a.go'', Mode_Regular, ex_id (CHR ''c''))])"
    using assms by (simp_all add: ex_like_def ex_objects_with_def)
  then have "diffTrees ex_git r ex_master ex_candidate = Inr (gg_diff ex_git (ex_id (CHR ''1'')) (ex_id (CHR ''2'')))"
    by (simp add: diffTrees_def tree_of_def repo_Tree_def ex_rc [OF assms])
  then show ?thesis by (simp add: ex_git_def)
qed

lemma ex_paths: "ex_like r message \<Longrightarrow> ChangedPaths ex_git r ex_master ex_candidate = Inr [''a.go'']"
  by (simp add: ChangedPaths_def ex_diff) (simp add: ex_git_def change_names_def)

lemma ex_blobs: "ex_like r message \<Longrightarrow>
    ChangedBlobs ex_git r ex_master ex_candidate = Inr [\<lparr>cb_path = ''a.go'', cb_size = 9, cb_head = ''package a''\<rparr>]"
  by (simp add: ChangedBlobs_def ex_diff) (simp add: ex_git_def ex_like_def ex_objects_with_def)

lemma ex_unmarshal: "lib_unmarshal ex_lib ''P'' = Some (ex_statement ex_candidate 0)" "lib_unmarshal ex_lib ''F'' = Some (ex_statement ex_master 1)"
  by (simp_all add: ex_lib_def)

lemma ex_st: "st_commit (ex_statement (ex_id c) n) = Inr (ex_id c)" "pr_checks (st_predicate (ex_statement d n)) = [ex_result n []]"
    "pr_role (st_predicate (ex_statement d n)) = ''maker''"
  by (simp_all add: ex_statement_def NewStatement_commit)

lemma ex_may_merge_in:
  assumes "ex_like r message" "line_open_for ex_ext r ex_candidate" "ref_of r ''refs/heads/master'' = Some ex_master"
  shows "may_merge ex_ext ex_guard r ex_candidate (ex_envelope ''P'') ex_master"
proof -
  have "check_passes [ex_result 0 []] d ex_check" for d
    by (simp add: check_passes_def ex_result_def ex_check_def map_by_def)
  moreover have "\<not> path_forbidden ex_constitution ''maker'' ''a.go''"
    by (simp add: path_forbidden_def) code_simp
  moreover have "blob_problem (gd_blobs (cn_guards ex_constitution))
      \<lparr>cb_path = ''a.go'', cb_size = 9, cb_head = ''package a''\<rparr> = None"
    by code_simp
  ultimately show ?thesis
    using ex_trusted [OF ex_unmarshal(1)] assms(2,3)
    unfolding may_merge_def ex_git_simps ex_blobs [OF assms(1)] ex_paths [OF assms(1)]
    by (auto simp: ex_st ex_result_def ex_guard_simps repo_Commit_def repo_Parents_def ex_rc [OF assms(1)]
        intro!: exI [of _ "ex_statement ex_candidate 0"] exI [of _ "''68''"])
qed

lemma ex_trailer: "ex_like r message \<Longrightarrow>
    Trailer ex_git r ex_candidate FixTrailer = Inr (message_trailers (trim_space message) FixTrailer)"
proof -
  assume l: "ex_like r message"
  have "trailer_key_ok FixTrailer" by code_simp
  then show ?thesis by (simp add: Trailer_def repo_Message_def ex_rc [OF l])
qed

lemma ex_may_merge: "may_merge ex_ext ex_guard ex_repo ex_candidate (ex_envelope ''P'') ex_master"
  by (rule ex_may_merge_in [OF ex_repo_like(1)])
    (simp_all add: line_open_for_def ex_repo_def StopRef_def CandidatePrefix_def)

lemma ex_fix_tags: "message_trailers (trim_space ex_fix_message) FixTrailer = [ex_stop]"
  by code_simp

lemma ex_may_merge_fix: "may_merge ex_ext ex_guard ex_fix_repo ex_candidate (ex_envelope ''P'') ex_master"
proof (rule ex_may_merge_in [OF ex_repo_like(2)])
  show "line_open_for ex_ext ex_fix_repo ex_candidate"
  proof -
    have "ref_of ex_fix_repo StopRef = Some ex_stop" by (simp add: ex_fix_repo_def StopRef_def)
    then show ?thesis using ex_trailer [OF ex_repo_like(2)]
      by (simp add: line_open_for_def ex_git_simps ex_fix_tags)
  qed
  show "ref_of ex_fix_repo ''refs/heads/master'' = Some ex_master" by (simp add: ex_fix_repo_def)
qed

lemma ex_may_pull: "may_pull ex_ext ex_guard ex_repo (ex_envelope ''F'') ex_master (ex_result 1 [])"
proof -
  have "first_failure [ex_result 1 []] [ex_check] = Some (ex_result 1 [])"
    by (simp add: failing_result_def ex_result_def ex_check_def)
  moreover have "ref_of ex_repo ''refs/heads/master'' = Some ex_master" "ref_of ex_repo StopRef = None"
    by (simp_all add: ex_repo_def StopRef_def CandidatePrefix_def)
  ultimately show ?thesis using ex_trusted [OF ex_unmarshal(2)]
    by (auto simp: may_pull_def ex_st ex_guard_simps simp del: first_failure.simps intro!: exI [of _ "ex_statement ex_master 1"])
qed

lemma ex_may_clear: "may_clear ex_ext ex_guard ex_stopped (ex_envelope ''P'') ex_candidate ex_stop"
proof -
  have "ref_of ex_stopped ''refs/heads/master'' = Some ex_candidate" "ref_of ex_stopped StopRef = Some ex_stop"
     "obj ex_stopped ex_stop = Some (Blob_Obj ex_master)"
    by (simp_all add: ex_stopped_def StopRef_def)
  moreover have "\<exists>c. map_by cr_name [ex_result 0 []] (ck_name ex_check) = Some c
               \<and> cr_command c = ck_command ex_check \<and> cr_skipped c = [] \<and> cr_exit_code c = 0"
    by (simp add: ex_result_def ex_check_def map_by_def)
  moreover have "x_unmarshal_event ex_ext ex_master = Some ev \<Longrightarrow> ae_commit ev \<noteq> ex_candidate" for ev
    by (auto simp: ex_ext_def ex_event_def)
  ultimately show ?thesis using ex_trusted [OF ex_unmarshal(1)]
    by (auto simp: may_clear_def ex_st ex_guard_simps intro!: exI [of _ "ex_statement ex_candidate 0"])
qed

definition ex_objs :: "git_object set" where
  "ex_objs = insert (Blob_Obj ex_master) (snd ` set ex_objects)"

definition ex_start :: line_state where
  "ex_start = \<lparr>ls_repo = ex_repo, ls_merges = [], ls_pulls = [], ls_clears = []\<rparr>"

lemma ex_git_ok: "git_ok ex_ext"
  by (auto simp: git_ok_def ex_ext_def ex_git_def split: git_object.splits)

lemma ex_line_init: "line_init ex_ext ex_guard ex_objs ex_master ex_start"
proof -
  have "addressed ex_ext ex_objs ex_repo"
    by (auto simp: addressed_def ex_objs_def ex_repo_def ex_objects_with_def ex_ext_def ex_git_def)
  then show ?thesis using ex_guard_ok ex_git_ok ex_repo_wf(1)
    by (simp add: line_init_def line_ok_def ex_start_def ex_guard_simps) (simp add: ex_repo_def)
qed

lemma ex_untagged:
  assumes "ex_like r ''change''" "ref_of r StopRef = Some h"
  shows "\<not> line_open_for ex_ext r ex_candidate"
proof -
  have "message_trailers (trim_space ''change'') FixTrailer = []" by code_simp
  then show ?thesis using assms(2) ex_trailer [OF assms(1)] by (simp add: line_open_for_def ex_git_simps)
qed

text \<open>The race: the merge is decided while the line runs, the cord is pulled, and the merge lands on
  the stopped line although the candidate carries no fix trailer.\<close>

lemma ex_race:
  "\<exists>s t. reach (line_init ex_ext ex_guard ex_objs ex_master) (line_step ex_ext ex_guard ex_objs) s
     \<and> line_step ex_ext ex_guard ex_objs s t
     \<and> ref_of (ls_repo s) StopRef = Some ex_stop \<and> \<not> line_open_for ex_ext (ls_repo s) ex_candidate
     \<and> ref_of (ls_repo s) (g_ref ex_guard) = Some ex_master
     \<and> ref_of (ls_repo t) (g_ref ex_guard) = Some ex_candidate"
proof -
  let ?reach = "reach (line_init ex_ext ex_guard ex_objs ex_master) (line_step ex_ext ex_guard ex_objs)"
  have 0: "?reach ex_start" using ex_line_init by (rule reach_init)
  have md: "merge_decide ex_ext ex_guard ex_repo ex_candidate (ex_envelope ''P'') = Go ex_master"
      "repo_Commit (x_git ex_ext) ex_repo ex_candidate = Inr ex_candidate"
    using merge_policy [OF ex_guard_ok ex_repo_wf(1)] ex_may_merge by blast+
  define s1 where "s1 = ex_start\<lparr>ls_merges := (ex_candidate, ex_master) # ls_merges ex_start\<rparr>"
  have s1: "?reach s1" unfolding s1_def
    by (rule reach_step [OF 0 line_step.merge_decided]) (use md in \<open>simp_all add: ex_start_def\<close>)
  obtain ev where pd: "pull_decide ex_ext ex_guard 5 ex_repo (ex_envelope ''F'') = Go (ex_master, ev)"
    using pull_decide_policy [OF ex_guard_ok ex_repo_wf(1)] ex_may_pull by blast
  define s2 where "s2 = s1\<lparr>ls_pulls := (ex_master, ev) # ls_pulls s1\<rparr>"
  have s2: "?reach s2" unfolding s2_def
    by (rule reach_step [OF s1 line_step.pull_decided]) (use pd in \<open>simp_all add: s1_def ex_start_def\<close>)
  have evc: "ae_commit ev = ex_master"
    using pd unfolding pull_decide_Go [OF ex_guard_ok ex_repo_wf(1)] by (auto simp: pull_event_def Let_def)
  have h: "gg_hash (x_git ex_ext) (Blob_Obj (x_marshal_event ex_ext ev)) = ex_stop"
    by (simp add: ex_ext_def ex_git_def evc ex_id_text)
  have "ref_of ex_repo StopRef = None" by (simp add: ex_repo_def StopRef_def CandidatePrefix_def)
  from pull_land_effect [OF ex_git_ok this, of 5 ex_master ev] obtain out r' where
    pl: "pull_land ex_ext 5 ex_repo ex_master ev = (out, r')" and
    r': "ref_of r' = (ref_of ex_repo)(StopRef \<mapsto> ex_stop)" "ex_like r' ''change''"
    unfolding h using ex_repo_like(1) by (fastforce simp: ex_like_def)
  define s3 where "s3 = s2\<lparr>ls_repo := r', ls_pulls := remove1 (ex_master, ev) (ls_pulls s2)\<rparr>"
  have s3: "?reach s3" unfolding s3_def
    by (rule reach_step [OF s2 line_step.pull_landed])
      (use pl in \<open>simp_all add: s2_def s1_def ex_start_def ex_objs_def ex_ext_def evc\<close>)
  have oc: "obj r' ex_candidate \<noteq> None" using r'(2) by (simp add: ex_like_def ex_objects_with_def)
  have master: "ref_of r' (g_ref ex_guard) = Some ex_master"
    using r'(1) by (simp add: ex_guard_simps StopRef_def) (simp add: ex_repo_def)
  have "merge_land ex_ext ex_guard r' ex_candidate ex_master =
      ((\<lparr>res_status = Merged, res_reason = No_Reason, res_detail = No_Detail, res_commit = ex_candidate,
        res_base = ex_master, res_event = []\<rparr>, None),
      r'\<lparr>rp_refs := AList.update (g_ref ex_guard) ex_candidate (rp_refs r')\<rparr>)"
    by (rule merge_land_Merged [OF ex_guard_ok master _ _ _ oc]) simp_all
  then obtain out2 r2 where c: "merge_cleanup ex_guard 6 ex_candidate (merge_land ex_ext ex_guard r' ex_candidate ex_master) = (out2, r2)"
      and r2: "ref_of r2 (g_ref ex_guard) = Some ex_candidate"
    by (simp add: merge_cleanup_def update_conv' ex_guard_simps CandidatePrefix_def)
  have "line_step ex_ext ex_guard ex_objs s3 (s3\<lparr>ls_repo := r2, ls_merges := remove1 (ex_candidate, ex_master) (ls_merges s3)\<rparr>)"
    by (rule line_step.merge_landed) (use c in \<open>simp_all add: s3_def s2_def s1_def\<close>)
  moreover have "ls_repo s3 = r'" by (simp add: s3_def)
  moreover have "\<not> line_open_for ex_ext r' ex_candidate" by (rule ex_untagged) (use r' in auto)
  ultimately show ?thesis using s3 r' r2 master by fastforce
qed

lemma ex_events_readable: "events_readable ex_ext ex_repo"
proof -
  have "obj ex_repo (gg_hash ex_git (Blob_Obj b)) \<in> {None, Some (Blob_Obj b)}" for b
    unfolding ex_obj by (simp add: ex_git_def)
  then show ?thesis by (auto simp: events_readable_def ex_git_simps) (simp add: ex_ext_def)
qed

subsection \<open>Signing and parsing on the example\<close>

lemma ex_public: "lib_public ex_lib k = ex_pub"
  by (simp add: ex_lib_def)

lemma ex_key_id: "KeyID ex_lib ex_pub = ''68''"
  by (simp add: KeyID_def ex_lib_def) code_simp

lemma ex_signs: "signs_verify ex_lib ''key''"
  by (simp add: signs_verify_def ex_lib_def)

lemma ex_marshal: "lib_unmarshal ex_lib (lib_marshal ex_lib (ex_statement ex_candidate 0)) = Some (ex_statement ex_candidate 0)"
  by (simp add: ex_lib_def ex_st)

lemma ex_envelope_payload: "b64_decode (env_payload (ex_envelope p)) = Some p"
  by (simp add: ex_envelope_def Sign_def)

lemma ex_valid: "validate ex_lib (\<lambda>_. False) ex_constitution = None"
proof -
  have r: "validate_runner ex_constitution = None" "validateGovernance ex_constitution = None"
    "map validate_path_guard (gd_paths (cn_guards ex_constitution)) = [None]"
    "pattern_bad ''*.md'' = False" "set Roles = {''maker'', ''andon'', ''kaizen'', ''gemba'', ''viceroy'', ''heijunka''}"
    by code_simp+
  show ?thesis unfolding validate_def Let_def first_err_None r ex_keys
    by (simp add: ex_guard_simps ex_check_def) (simp add: ex_constitution_def validateRemotes_def r)
qed

lemma ex_parses: "Parse ex_lib (\<lambda>_. False) (\<lambda>_. Some ex_constitution) [] = Inr ex_constitution"
proof -
  have "with_default_engine ex_constitution = ex_constitution" "with_limits ex_constitution = ex_constitution"
    by (simp_all add: with_default_engine_def with_limits_def ex_constitution_def)
  then show ?thesis by (simp add: Parse_def ex_valid)
qed

end
