(* ===== verification/Line_Properties.thy ===== *)
theory Line_Properties
  imports Line_Example
begin

text \<open>
  What the merge line guarantees: the guard's decisions as a policy, the branch and the cord under every
  interleaving, signed evidence, and the constitution the guard is configured by.
\<close>

section \<open>The merge guard\<close>

text \<open>C1. A merge succeeds exactly when the policy \<open>may_merge\<close> allows it: the commit id is a full
  object id that names itself, a trusted key permitted to attest as the stated role signed passing
  results for it under this constitution and runner, skipped checks are allowed and the change is
  documentation only, the line is running or the commit is tagged as the fix of the current stop, the
  commit's first parent is the head of the guarded branch, and no changed path or blob is forbidden.\<close>

theorem merge_iff_policy:
  assumes "guard_ok X g" "repo_wf r"
  shows "res_status (fst (fst (Merge X g now r commit env))) = Merged \<longleftrightarrow>
     (\<exists>base. may_merge X g r commit env base)"
  using assms by (rule Merge_Merged_iff)

theorem merge_iff_policy_witness:
  "guard_ok ex_ext ex_guard \<and> repo_wf ex_repo
   \<and> res_status (fst (fst (Merge ex_ext ex_guard 0 ex_repo ex_candidate (ex_envelope ''P'')))) = Merged"
  using merge_iff_policy [OF ex_guard_ok ex_repo_wf(1), of 0 ex_candidate "ex_envelope ''P''"]
    ex_may_merge ex_guard_ok ex_repo_wf(1) by blast

text \<open>A merge moves the guarded branch from \<open>base\<close> to the candidate, drops the candidate's own
  ref and changes nothing else.\<close>

theorem merge_effect:
  assumes "guard_ok X g" "repo_wf r" "may_merge X g r commit env base"
    and "Merge X g now r commit env = ((res, err), r')"
  shows "res_commit res = commit \<and> res_base res = base \<and> err = None
     \<and> ref_of r' = (ref_of r)(g_ref g \<mapsto> commit, CandidatePrefix @ commit := None) \<and> rp_objects r' = rp_objects r"
  using Merge_effect [OF assms] by blast

theorem merge_effect_witness:
  "\<exists>res err r'. Merge ex_ext ex_guard 0 ex_repo ex_candidate (ex_envelope ''P'') = ((res, err), r')
     \<and> may_merge ex_ext ex_guard ex_repo ex_candidate (ex_envelope ''P'') ex_master
     \<and> res_base res = ex_master \<and> rp_objects r' = rp_objects ex_repo"
proof -
  obtain res err r' where m: "Merge ex_ext ex_guard 0 ex_repo ex_candidate (ex_envelope ''P'') = ((res, err), r')"
    by (metis prod.exhaust)
  from merge_effect [OF ex_guard_ok ex_repo_wf(1) ex_may_merge m] m ex_may_merge show ?thesis by blast
qed

text \<open>C3. A refused or failed merge changes no ref but the candidate's, and its pruning loses no object
  that a remaining ref reaches, as long as no submodule entry names an object of the repository
  with edges of its own.\<close>

theorem merge_rejection_keeps:
  assumes "Merge X g now r commit env = ((res, err), r')" "res_status res \<noteq> Merged" "leaves_final (rp_objects r)"
  shows "(ref_of r' = ref_of r \<or> ref_of r' = (ref_of r)(CandidatePrefix @ commit := None))
     \<and> (\<forall>h. reached (rp_objects r) (set (map snd (rp_refs (DeleteRef r (CandidatePrefix @ commit))))) h
            \<longrightarrow> obj r' h = obj r h)"
  using Merge_rejected [OF assms(1,2)] assms(3) by blast

theorem merge_rejection_keeps_witness:
  "\<exists>res err r'. Merge ex_ext ex_guard 0 ex_repo ''zz'' (ex_envelope ''P'') = ((res, err), r')
     \<and> res_status res \<noteq> Merged \<and> leaves_final (rp_objects ex_repo) \<and> obj r' ex_master = obj ex_repo ex_master"
proof -
  have m: "Merge ex_ext ex_guard 0 ex_repo ''zz'' (ex_envelope ''P'')
      = ((rejection ReasonBadCandidate (Not_Full_Hex ''zz'') ''zz'', None), ex_repo)"
    by (simp add: Merge_def full_hex_def)
  have l: "leaves_final (rp_objects ex_repo)"
    by (auto simp: leaves_final_def ex_repo_def ex_objects_with_def leaves_def children_def)
  have "reached (rp_objects ex_repo) (set (map snd (rp_refs (DeleteRef ex_repo (CandidatePrefix @ ''zz''))))) ex_master"
    by (rule reached_root) (simp add: DeleteRef_def ex_repo_def CandidatePrefix_def)
  then show ?thesis using merge_rejection_keeps [OF m _ l] m l by auto
qed

text \<open>While the cord is pulled the guard merges only a commit whose message names the current stop
  in an \<open>Andon-Event\<close> trailer.\<close>

theorem stopped_line_merges_only_fixes:
  assumes "guard_ok X g" "repo_wf r" "ref_of r StopRef = Some sid"
    and "res_status (fst (fst (Merge X g now r commit env))) = Merged"
  shows "\<exists>tags. Trailer (x_git X) r commit FixTrailer = Inr tags \<and> sid \<in> set tags"
  using assms by (rule Merge_stopped)

theorem stopped_line_merges_only_fixes_witness:
  "ref_of ex_fix_repo StopRef = Some ex_stop
   \<and> res_status (fst (fst (Merge ex_ext ex_guard 0 ex_fix_repo ex_candidate (ex_envelope ''P'')))) = Merged
   \<and> (\<exists>tags. Trailer (x_git ex_ext) ex_fix_repo ex_candidate FixTrailer = Inr tags \<and> ex_stop \<in> set tags)"
proof -
  have "ref_of ex_fix_repo StopRef = Some ex_stop" by (simp add: ex_fix_repo_def StopRef_def)
  moreover have "res_status (fst (fst (Merge ex_ext ex_guard 0 ex_fix_repo ex_candidate (ex_envelope ''P'')))) = Merged"
    using Merge_Merged_iff [OF ex_guard_ok ex_repo_wf(3)] ex_may_merge_fix by blast
  ultimately show ?thesis using stopped_line_merges_only_fixes [OF ex_guard_ok ex_repo_wf(3)] by blast
qed

text \<open>C4. Pulling the cord stops the line exactly when the evidence is trusted, shows a required check
  failing on the current head of the guarded branch, and no stop is in force.\<close>

theorem pull_iff_policy:
  assumes "guard_ok X g" "git_ok X" "repo_wf r"
  shows "res_status (fst (fst (Pull X g now r env))) = Stopped_Status \<longleftrightarrow>
     (\<exists>commit c. may_pull X g r env commit c)"
  using assms by (rule Pull_Stopped_iff)

theorem pull_iff_policy_witness:
  "guard_ok ex_ext ex_guard \<and> git_ok ex_ext \<and> repo_wf ex_repo
   \<and> res_status (fst (fst (Pull ex_ext ex_guard 5 ex_repo (ex_envelope ''F'')))) = Stopped_Status"
  using pull_iff_policy [OF ex_guard_ok ex_git_ok ex_repo_wf(1), of 5 "ex_envelope ''F''"]
    ex_may_pull ex_guard_ok ex_git_ok ex_repo_wf(1) by blast

text \<open>C5. The stop is lifted exactly on trusted evidence that every required check ran and passed on the
  current head, which is not the commit the cord was pulled on.\<close>

theorem clear_iff_policy:
  assumes "guard_ok X g" "repo_wf r"
  shows "res_status (fst (fst (Clear X g r env))) = Cleared \<longleftrightarrow>
     (\<exists>commit sid. may_clear X g r env commit sid)"
  using assms by (rule Clear_Cleared_iff)

theorem clear_iff_policy_witness:
  "guard_ok ex_ext ex_guard \<and> repo_wf ex_stopped
   \<and> res_status (fst (fst (Clear ex_ext ex_guard ex_stopped (ex_envelope ''P'')))) = Cleared"
  using clear_iff_policy [OF ex_guard_ok ex_repo_wf(2), of "ex_envelope ''P''"]
    ex_may_clear ex_guard_ok ex_repo_wf(2) by blast

text \<open>A stop cannot be lifted on the commit that caused it: right after a successful pull, no
  evidence whatsoever clears the cord; the branch has to move first.\<close>

theorem pulled_cord_needs_new_master:
  assumes "guard_ok X g" "git_ok X" "repo_wf r" "events_readable X r"
    and "Pull X g now r env = ((res, err), r')" "res_status res = Stopped_Status"
  shows "res_status (fst (fst (Clear X g r' env'))) \<noteq> Cleared"
  using assms by (rule Pull_then_Clear)

theorem pulled_cord_needs_new_master_witness:
  "\<exists>res err r'. Pull ex_ext ex_guard 5 ex_repo (ex_envelope ''F'') = ((res, err), r')
     \<and> res_status res = Stopped_Status \<and> events_readable ex_ext ex_repo
     \<and> res_status (fst (fst (Clear ex_ext ex_guard r' (ex_envelope ''P'')))) \<noteq> Cleared"
proof -
  obtain res err r' where p: "Pull ex_ext ex_guard 5 ex_repo (ex_envelope ''F'') = ((res, err), r')"
    by (metis prod.exhaust)
  then have "res_status res = Stopped_Status"
    using Pull_Stopped_iff [OF ex_guard_ok ex_git_ok ex_repo_wf(1), of 5 "ex_envelope ''F''"] ex_may_pull by auto
  with pulled_cord_needs_new_master [OF ex_guard_ok ex_git_ok ex_repo_wf(1) ex_events_readable p] p ex_events_readable
  show ?thesis by blast
qed

section \<open>The line as a system\<close>

text \<open>C2. However pushes, merges, pulls and clears interleave, with every operation deciding on one
  state and writing on a later one, the guarded branch always exists and descends from its initial
  head by first-parent steps: history is never rewritten or skipped.\<close>

theorem branch_only_fast_forwards:
  assumes "reach (line_init X g U m0) (line_step X g U) s"
  shows "\<exists>c. ref_of (ls_repo s) (g_ref g) = Some c \<and> descends X U m0 c"
  using line_run.reach_inv [OF assms] unfolding line_inv_def by blast

theorem branch_only_fast_forwards_witness:
  "reach (line_init ex_ext ex_guard ex_objs ex_master) (line_step ex_ext ex_guard ex_objs) ex_start
   \<and> (\<exists>c. ref_of (ls_repo ex_start) (g_ref ex_guard) = Some c \<and> descends ex_ext ex_objs ex_master c)"
proof -
  have "reach (line_init ex_ext ex_guard ex_objs ex_master) (line_step ex_ext ex_guard ex_objs) ex_start"
    using ex_line_init by (rule reach_init)
  from this branch_only_fast_forwards [OF this] show ?thesis by blast
qed

text \<open>C17. The check of the cord and the move of the branch are not one step: on a reachable
  interleaving the cord is pulled between them and an untagged commit lands on the stopped line.\<close>

theorem stop_check_races_with_merge:
  "\<exists>s t. reach (line_init ex_ext ex_guard ex_objs ex_master) (line_step ex_ext ex_guard ex_objs) s
     \<and> line_step ex_ext ex_guard ex_objs s t
     \<and> ref_of (ls_repo s) StopRef = Some ex_stop \<and> \<not> line_open_for ex_ext (ls_repo s) ex_candidate
     \<and> ref_of (ls_repo s) (g_ref ex_guard) = Some ex_master
     \<and> ref_of (ls_repo t) (g_ref ex_guard) = Some ex_candidate"
  by (rule ex_race)

section \<open>Attestations\<close>

text \<open>A payload is accepted only together with a signature, by the trusted key whose id is returned,
  over the encoding of exactly that payload type and payload; an encoding belongs to one payload type
  and payload only.\<close>

theorem verified_payload_is_signed:
  assumes "Verify L env trusted = Inr (payload, k)"
  shows "b64_decode (env_payload env) = Some payload
     \<and> (\<exists>s\<in>set (env_signatures env). \<exists>pub sg. sig_keyid s = k \<and> trusted k = Some pub
          \<and> b64_decode (sig_sig s) = Some sg \<and> lib_verify L pub (PAE (env_payload_type env) payload) sg)
     \<and> (\<forall>t p. PAE t p = PAE (env_payload_type env) payload \<longrightarrow> t = env_payload_type env \<and> p = payload)"
  using Verify_sound [OF assms] assms unfolding Verify_Inr_iff PAE_inj by blast

theorem verified_payload_is_signed_witness:
  "Verify ex_lib (ex_envelope ''P'') [''68'' \<mapsto> ex_pub] = Inr (''P'', ''68'')
   \<and> b64_decode (env_payload (ex_envelope ''P'')) = Some ''P''"
proof -
  have "Verify ex_lib (ex_envelope ''P'') [''68'' \<mapsto> ex_pub] = Inr (''P'', ''68'')"
    using ex_verify [OF ex_unmarshal(1)] ex_envelope_payload
    by (auto simp: ex_statement_def VerifyStatement_Inr_iff Verify_Inr_iff)
  from this verified_payload_is_signed [OF this] show ?thesis by blast
qed

text \<open>A statement signed with a trusted key verifies to itself and to the signing key's id, and
  still names the commit and tree it was made for.\<close>

theorem signed_statement_roundtrip:
  assumes "signs_verify L key" "trusted (KeyID L (lib_public L key)) = Some (lib_public L key)"
    and "lib_unmarshal L (lib_marshal L (NewStatement c t p)) = Some (NewStatement c t p)" "c \<noteq> []" "t \<noteq> []"
  shows "VerifyStatement L (SignStatement L key (NewStatement c t p)) trusted
      = Inr (NewStatement c t p, KeyID L (lib_public L key))
     \<and> st_commit (NewStatement c t p) = Inr c \<and> st_tree (NewStatement c t p) = Inr t"
  using VerifyStatement_SignStatement [of L key trusted "NewStatement c t p"] assms by (simp add: NewStatement_commit NewStatement_tree)

theorem signed_statement_roundtrip_witness:
  "VerifyStatement ex_lib (SignStatement ex_lib ''key'' (ex_statement ex_candidate 0)) [''68'' \<mapsto> ex_pub]
     = Inr (ex_statement ex_candidate 0, ''68'')"
  using signed_statement_roundtrip [of ex_lib "''key''" "[''68'' \<mapsto> ex_pub]" ex_candidate "ex_id (CHR ''1'')"
      "st_predicate (ex_statement ex_candidate 0)"] ex_signs ex_marshal ex_key_id
  by (simp add: ex_statement_def ex_public)

text \<open>An unsigned command event reads back as written, and never passes for a signed statement
  whatever keys are trusted.\<close>

theorem unsigned_event_roundtrip:
  assumes "lib_unmarshal_event L (lib_marshal_event L (NewCommandEventStatement t p))
      = Some (NewCommandEventStatement t p)" "t \<noteq> []"
  shows "ReadUnsignedEventEnvelope L (UnsignedEventEnvelope L (NewCommandEventStatement t p))
      = Inr (NewCommandEventStatement t p)
     \<and> (\<forall>trusted. VerifyStatement L (UnsignedEventEnvelope L (NewCommandEventStatement t p)) trusted = Inl No_Trusted_Signature)"
  using ReadUnsignedEventEnvelope_roundtrip [OF assms] unsigned_event_not_trusted by blast

theorem unsigned_event_roundtrip_witness:
  "\<exists>L p. lib_unmarshal_event L (lib_marshal_event L (NewCommandEventStatement ''t'' p)) = Some (NewCommandEventStatement ''t'' p)
     \<and> ReadUnsignedEventEnvelope L (UnsignedEventEnvelope L (NewCommandEventStatement ''t'' p)) = Inr (NewCommandEventStatement ''t'' p)"
proof -
  fix p :: command_event_predicate
  let ?L = "ex_lib\<lparr>lib_unmarshal_event := \<lambda>_. Some (NewCommandEventStatement ''t'' p)\<rparr>"
  have "lib_unmarshal_event ?L (lib_marshal_event ?L (NewCommandEventStatement ''t'' p)) = Some (NewCommandEventStatement ''t'' p)"
    by simp
  from this unsigned_event_roundtrip [OF this] show ?thesis by blast
qed

section \<open>The constitution\<close>

text \<open>C18. A constitution that parses is well formed: it has named, distinct, runnable checks, a skip rule
  only with documentation paths, a runner the trust level allows, known roles, one authoritative
  remote; and what parsing fills in validates again.\<close>

theorem parsed_constitution_wf:
  assumes "Parse L url_password decode bytes = Inr c"
  shows "constitution_wf c \<and> validate L url_password c = None"
  using Parse_valid [OF assms] validate_wf by blast

theorem parsed_constitution_wf_witness:
  "Parse ex_lib (\<lambda>_. False) (\<lambda>_. Some ex_constitution) [] = Inr ex_constitution \<and> constitution_wf ex_constitution"
proof -
  have "Parse ex_lib (\<lambda>_. False) (\<lambda>_. Some ex_constitution) [] = Inr ex_constitution" by (rule ex_parses)
  from this parsed_constitution_wf [OF this] show ?thesis by blast
qed

text \<open>In a validated constitution at most one workload rule covers a role and kind, so the first
  match that \<open>RuleFor\<close> returns is the only one, and its time to live parses to a positive
  duration, so the accessor that panics on a malformed one never does.\<close>

theorem workload_rule_unique:
  assumes "validateWorkloads w = None" "r \<in> set (wl_rules w)" "rule_covers role kind r"
  shows "RuleFor w role kind = Some r \<and> (\<exists>d. TTLDuration r = Some d \<and> 0 < d)"
  using RuleFor_unique [OF assms] TTLDuration_valid [OF assms(1,2)] by blast

definition ex_rule :: workload_rule where
  "ex_rule = \<lparr>wr_roles = [''maker''], wr_kinds = [''test''], wr_approval = ''auto'', wr_max_per_station = 1,
     wr_memory = ''1g'', wr_cpus = [], wr_pids = 0, wr_ttl = ''1h'', wr_expose = False\<rparr>"

theorem workload_rule_unique_witness:
  "validateWorkloads \<lparr>wl_rules = [ex_rule], wl_images = []\<rparr> = None
   \<and> RuleFor \<lparr>wl_rules = [ex_rule], wl_images = []\<rparr> ''maker'' ''test'' = Some ex_rule"
proof -
  have v: "validateWorkloads \<lparr>wl_rules = [ex_rule], wl_images = []\<rparr> = None" by code_simp
  have c: "rule_covers ''maker'' ''test'' ex_rule" by (simp add: rule_covers_def ex_rule_def)
  show ?thesis using workload_rule_unique [OF v _ c] v by simp
qed

text \<open>A card may be closed exactly when some delegation covers it: one that is a close delegation,
  not expired, with no excepted label, all of whose listed categories match (\<open>all\<close>) or at least
  one of whose categories matches.\<close>

theorem close_delegation_iff:
  "DelegatesClose c cid ty labels anc now \<longleftrightarrow>
     (\<exists>d\<in>set (vc_delegations (cn_viceroy c)).
        dg_close d \<and> (dg_expires d = 0 \<or> now < dg_expires d)
        \<and> set labels \<inter> set (dg_except_labels d) = {}
        \<and> (if dg_all d then \<forall>(listed, hit)\<in>set (close_matches cid ty labels anc d). listed \<longrightarrow> hit
           else \<exists>(listed, hit)\<in>set (close_matches cid ty labels anc d). hit))"
  unfolding DelegatesClose_def list_ex_iff delegation_closes_iff ..

theorem close_delegation_iff_witness:
  "\<exists>c. DelegatesClose c ''sw-1'' ''bug'' [''x''] [] 5"
proof -
  let ?d = "\<lparr>dg_offer = [], dg_close = True, dg_types = [''bug''], dg_parent = [], dg_inherit = False, dg_ids = [],
     dg_labels = [], dg_all = True, dg_except_labels = [''keep''], dg_expires = 9\<rparr>"
  let ?c = "ex_constitution\<lparr>cn_viceroy := (cn_viceroy ex_constitution)\<lparr>vc_delegations := [?d]\<rparr>\<rparr>"
  have "DelegatesClose ?c ''sw-1'' ''bug'' [''x''] [] 5"
    unfolding close_delegation_iff by (simp add: close_matches_def)
  then show ?thesis by blast
qed

text \<open>A memory size that parses is positive and at most \<open>2\<^sup>6\<^sup>2\<close> bytes: the multiplication never
  overflows a 64 bit integer.\<close>

theorem memory_bytes_bounds:
  assumes "ParseMemoryBytes sz = Some n"
  shows "0 < n \<and> n \<le> 2 ^ 62 \<and> n \<le> int64_max"
  using ParseMemoryBytes_bounds [OF assms] by (simp add: int64_max_def)

theorem memory_bytes_bounds_witness: "ParseMemoryBytes ''4g'' = Some 4294967296 \<and> 4294967296 \<le> int64_max"
proof -
  have "ParseMemoryBytes ''4g'' = Some 4294967296" by code_simp
  from this memory_bytes_bounds [OF this] show ?thesis by blast
qed

end
