(* ===== verification/Semver.thy ===== *)
theory Semver
  imports Go_Prelude "HOL-Library.Product_Lexorder"
begin

text \<open>
  \<open>depmaint/internal/planner/semver.go\<close>: versions, upgrade tiers and the requirement language.
  Versions hold Go integers; the subtractions of \<open>Compare\<close> wrap at 64 bits and are shown not to
  for any parsed version. A requirement is given its meaning as a set of intervals in the
  lexicographic order of versions.
\<close>

subsection \<open>Data\<close>

datatype Tier = TierPatch | TierMinor | TierMajor

definition tier_rank :: "Tier \<Rightarrow> nat" where
  "tier_rank t = (case t of TierPatch \<Rightarrow> 0 | TierMinor \<Rightarrow> 1 | TierMajor \<Rightarrow> 2)"

instantiation Tier :: linorder
begin

definition less_eq_Tier :: "Tier \<Rightarrow> Tier \<Rightarrow> bool" where "less_eq_Tier a b \<longleftrightarrow> tier_rank a \<le> tier_rank b"
definition less_Tier :: "Tier \<Rightarrow> Tier \<Rightarrow> bool" where "less_Tier a b \<longleftrightarrow> tier_rank a < tier_rank b"

instance
  by standard (auto simp: less_eq_Tier_def less_Tier_def tier_rank_def split: Tier.splits)

end

lemma Tier_le_simps [simp]:
  "TierPatch \<le> t" "t \<le> TierMajor" "TierMinor \<le> TierPatch \<longleftrightarrow> False" "TierMajor \<le> t \<longleftrightarrow> t = TierMajor"
  by (cases t; simp add: less_eq_Tier_def tier_rank_def)+

definition tier_string :: "Tier \<Rightarrow> string" where
  "tier_string t = (case t of TierPatch \<Rightarrow> ''patch'' | TierMinor \<Rightarrow> ''minor'' | TierMajor \<Rightarrow> ''major'')"

record version =
  v_major :: int
  v_minor :: int
  v_patch :: int

datatype semver_error =
    Too_Many_Components string
  | Bad_Component string string
  | Empty_Requirement
  | Bad_Clause string semver_error

subsection \<open>Operations\<close>

fun parse_parts :: "string \<Rightarrow> string list \<Rightarrow> semver_error + int list" where
  "parse_parts s [] = Inr []"
| "parse_parts s (p # ps) =
     (case atoi p of
        None \<Rightarrow> Inl (Bad_Component s p)
      | Some n \<Rightarrow> (if n < 0 then Inl (Bad_Component s p) else map_sum id ((#) n) (parse_parts s ps)))"

definition ParseVersion :: "string \<Rightarrow> semver_error + version" where
  "ParseVersion s =
     (let parts = split_char (CHR ''.'') (trim_prefix s ''v'') in
      if length parts > 3 then Inl (Too_Many_Components s)
      else map_sum id (\<lambda>ns. let nums = ns @ [0, 0, 0] in
             \<lparr>v_major = nums ! 0, v_minor = nums ! 1, v_patch = nums ! 2\<rparr>) (parse_parts s parts))"

definition Compare :: "version \<Rightarrow> version \<Rightarrow> int" where
  "Compare v w =
     (case find_first (\<lambda>d. d \<noteq> 0) [wrap64 (v_major v - v_major w), wrap64 (v_minor v - v_minor w),
                                    wrap64 (v_patch v - v_patch w)] of
        None \<Rightarrow> 0
      | Some d \<Rightarrow> (if d < 0 then -1 else 1))"

definition TierOf :: "version \<Rightarrow> version \<Rightarrow> Tier" where
  "TierOf from to =
     (if v_major from \<noteq> v_major to then TierMajor
      else if v_minor from \<noteq> v_minor to then TierMinor else TierPatch)"

definition operators :: "string list" where
  "operators = [''>='', ''<='', ''>'', ''<'', ''='', ''^'', ''~'']"

definition clause_op :: "string \<Rightarrow> string" where
  "clause_op clause = (case find_first (has_prefix clause) operators of None \<Rightarrow> [] | Some candidate \<Rightarrow> candidate)"

definition op_accepts :: "string \<Rightarrow> version \<Rightarrow> version \<Rightarrow> bool" where
  "op_accepts operator v bound =
     (let c = Compare v bound in
      if operator = ''>='' then c \<ge> 0
      else if operator = ''<='' then c \<le> 0
      else if operator = ''>'' then c > 0
      else if operator = ''<'' then c < 0
      else if operator = [] \<or> operator = ''='' then c = 0
      else if operator = ''~'' then c \<ge> 0 \<and> v_major v = v_major bound \<and> v_minor v = v_minor bound
      else if v_major bound > 0 then c \<ge> 0 \<and> v_major v = v_major bound
      else if v_minor bound > 0 then c \<ge> 0 \<and> v_major v = 0 \<and> v_minor v = v_minor bound
      else c = 0)"

definition clauseAccepts :: "string \<Rightarrow> version \<Rightarrow> semver_error + bool" where
  "clauseAccepts clause v =
     (if clause = ''*'' then Inr True
      else case ParseVersion (trim_prefix clause (clause_op clause)) of
             Inl e \<Rightarrow> Inl (Bad_Clause clause e)
           | Inr bound \<Rightarrow> Inr (op_accepts (clause_op clause) v bound))"

fun clauses_accept :: "version \<Rightarrow> string list \<Rightarrow> semver_error + bool" where
  "clauses_accept v [] = Inr True"
| "clauses_accept v (c # cs) =
     (case clauseAccepts c v of Inl e \<Rightarrow> Inl e | Inr False \<Rightarrow> Inr False | Inr True \<Rightarrow> clauses_accept v cs)"

definition SemverAccepts :: "string \<Rightarrow> string \<Rightarrow> semver_error + bool" where
  "SemverAccepts requirement s =
     (case ParseVersion s of
        Inl e \<Rightarrow> Inl e
      | Inr v \<Rightarrow>
          (let clauses = fields_func (\<lambda>c. c = CHR '' '' \<or> c = CHR '','') requirement in
           if clauses = [] then Inl Empty_Requirement else clauses_accept v clauses))"

subsection \<open>The order of versions\<close>

definition version_ok :: "version \<Rightarrow> bool" where
  "version_ok v \<longleftrightarrow> 0 \<le> v_major v \<and> v_major v \<le> int64_max \<and> 0 \<le> v_minor v \<and> v_minor v \<le> int64_max
     \<and> 0 \<le> v_patch v \<and> v_patch v \<le> int64_max"

definition key :: "version \<Rightarrow> int \<times> int \<times> int" where
  "key v = (v_major v, v_minor v, v_patch v)"

lemma key_inject [simp]: "key v = key w \<longleftrightarrow> v = w"
  by (cases v; cases w) (simp add: key_def)

lemma atoi_bounds: "atoi s = Some n \<Longrightarrow> int64_min \<le> n \<and> n \<le> int64_max"
  by (auto simp: atoi_def Let_def split: if_splits prod.splits)

lemma parse_parts_ok:
  "parse_parts s ps = Inr ns \<Longrightarrow> length ns = length ps \<and> (\<forall>n\<in>set ns. 0 \<le> n \<and> n \<le> int64_max)"
proof (induction ps arbitrary: ns)
  case (Cons p ps)
  then show ?case
    by (cases "parse_parts s ps") (auto split: option.splits if_splits dest: atoi_bounds)
qed simp

lemma nth_padded: "\<forall>n\<in>set ns. P n \<Longrightarrow> P 0 \<Longrightarrow> i < 3 \<Longrightarrow> P ((ns @ [0, 0, 0::int]) ! i)"
  by (cases "i < length ns") (auto simp: nth_append nth_Cons')

lemma ParseVersion_ok: "ParseVersion s = Inr v \<Longrightarrow> version_ok v"
proof -
  assume "ParseVersion s = Inr v"
  then obtain ns where ns: "parse_parts s (split_char (CHR ''.'') (trim_prefix s ''v'')) = Inr ns"
    and v: "v = \<lparr>v_major = (ns @ [0, 0, 0]) ! 0, v_minor = (ns @ [0, 0, 0]) ! 1, v_patch = (ns @ [0, 0, 0]) ! 2\<rparr>"
    by (auto simp: ParseVersion_def Let_def split: if_splits)
  have "0 \<le> (ns @ [0, 0, 0]) ! i \<and> (ns @ [0, 0, 0]) ! i \<le> int64_max" if "i < 3" for i
    using parse_parts_ok [OF ns] nth_padded [of ns "\<lambda>n. 0 \<le> n \<and> n \<le> int64_max" i] that
    by (simp add: int64_max_def)
  from this [of 0] this [of 1] this [of 2] show ?thesis by (simp add: version_ok_def v)
qed

text \<open>On versions as they are parsed the differences stay in range, so \<open>Compare\<close> is the sign of the
  lexicographic comparison.\<close>

lemma wrap64_diff: "0 \<le> a \<Longrightarrow> a \<le> int64_max \<Longrightarrow> 0 \<le> b \<Longrightarrow> b \<le> int64_max \<Longrightarrow> wrap64 (a - b) = a - b"
  by (rule wrap64_id) (auto simp: int64_max_def int64_min_def)

lemma Compare_key:
  assumes "version_ok v" "version_ok w"
  shows "Compare v w = (if key v < key w then -1 else if key v = key w then 0 else 1)"
proof -
  have "wrap64 (v_major v - v_major w) = v_major v - v_major w"
    "wrap64 (v_minor v - v_minor w) = v_minor v - v_minor w"
    "wrap64 (v_patch v - v_patch w) = v_patch v - v_patch w"
    using assms by (auto simp: version_ok_def intro: wrap64_diff)
  then show ?thesis by (auto simp: Compare_def key_def less_prod_def)
qed

subsection \<open>Requirements as intervals\<close>

text \<open>The first version a caret or tilde clause excludes.\<close>

definition next_major :: "version \<Rightarrow> int \<times> int \<times> int" where "next_major b = (v_major b + 1, 0, 0)"
definition next_minor :: "version \<Rightarrow> int \<times> int \<times> int" where "next_minor b = (v_major b, v_minor b + 1, 0)"
definition next_patch :: "version \<Rightarrow> int \<times> int \<times> int" where "next_patch b = (v_major b, v_minor b, v_patch b + 1)"

definition caret_end :: "version \<Rightarrow> int \<times> int \<times> int" where
  "caret_end b = (if v_major b > 0 then next_major b else if v_minor b > 0 then next_minor b else next_patch b)"

definition in_clause :: "string \<Rightarrow> version \<Rightarrow> version \<Rightarrow> bool" where
  "in_clause operator b v \<longleftrightarrow>
     (if operator = ''>='' then key b \<le> key v
      else if operator = ''<='' then key v \<le> key b
      else if operator = ''>'' then key b < key v
      else if operator = ''<'' then key v < key b
      else if operator = ''~'' then key b \<le> key v \<and> key v < next_minor b
      else if operator = ''^'' then key b \<le> key v \<and> key v < caret_end b
      else v = b)"

lemma next_minor_iff: "version_ok v \<Longrightarrow> version_ok b \<Longrightarrow> key b \<le> key v \<Longrightarrow>
    key v < next_minor b \<longleftrightarrow> v_major v = v_major b \<and> v_minor v = v_minor b"
  by (auto simp: key_def next_minor_def version_ok_def less_prod_def less_eq_prod_def)

lemma next_major_iff: "version_ok v \<Longrightarrow> version_ok b \<Longrightarrow> key b \<le> key v \<Longrightarrow>
    key v < next_major b \<longleftrightarrow> v_major v = v_major b"
  by (auto simp: key_def next_major_def version_ok_def less_prod_def less_eq_prod_def)

lemma next_patch_iff: "key b \<le> key v \<Longrightarrow> key v < next_patch b \<longleftrightarrow> v = b"
  by (cases v; cases b) (auto simp: key_def next_patch_def less_prod_def less_eq_prod_def)

lemma Compare_sign:
  assumes "version_ok v" "version_ok w"
  shows "0 \<le> Compare v w \<longleftrightarrow> key w \<le> key v" "Compare v w \<le> 0 \<longleftrightarrow> key v \<le> key w"
    "0 < Compare v w \<longleftrightarrow> key w < key v" "Compare v w < 0 \<longleftrightarrow> key v < key w" "Compare v w = 0 \<longleftrightarrow> v = w"
  using Compare_key [OF assms] key_inject [of v w] by (auto simp del: key_inject)

lemma op_accepts_interval:
  assumes "version_ok v" "version_ok b" "operator \<in> insert [] (set operators)"
  shows "op_accepts operator v b \<longleftrightarrow> in_clause operator b v"
proof -
  have m: "0 \<le> v_major b" "0 \<le> v_minor b" using assms(2) by (auto simp: version_ok_def)
  have "op_accepts ''^'' v b \<longleftrightarrow> in_clause ''^'' b v"
    using m next_major_iff [OF assms(1,2)] next_minor_iff [OF assms(1,2)] next_patch_iff [of b v]
    by (auto simp: op_accepts_def Let_def Compare_sign [OF assms(1,2)] in_clause_def caret_end_def)
  moreover have "op_accepts ''~'' v b \<longleftrightarrow> in_clause ''~'' b v"
    using next_minor_iff [OF assms(1,2)]
    by (auto simp: op_accepts_def Let_def Compare_sign [OF assms(1,2)] in_clause_def)
  ultimately show ?thesis using assms(3)
    by (auto simp: operators_def op_accepts_def Let_def Compare_sign [OF assms(1,2)] in_clause_def)
qed

lemma clause_op_known: "clause_op c \<in> insert [] (set operators)"
  by (auto simp: clause_op_def split: option.splits dest: find_first_SomeD)

definition clause_holds :: "string \<Rightarrow> version \<Rightarrow> bool" where
  "clause_holds c v \<longleftrightarrow> c = ''*'' \<or> (\<exists>b. ParseVersion (trim_prefix c (clause_op c)) = Inr b \<and> in_clause (clause_op c) b v)"

lemma clauseAccepts_True:
  assumes "version_ok v"
  shows "clauseAccepts c v = Inr True \<longleftrightarrow> clause_holds c v"
  using op_accepts_interval [OF assms _ clause_op_known, of _ c]
  by (auto simp: clauseAccepts_def clause_holds_def split: sum.splits dest: ParseVersion_ok)

lemma clauses_accept_True:
  "version_ok v \<Longrightarrow> clauses_accept v cs = Inr True \<longleftrightarrow> (\<forall>c\<in>set cs. clause_holds c v)"
  by (induction cs) (auto simp: clauseAccepts_True [symmetric] split: sum.splits bool.splits)

lemma SemverAccepts_True:
  "SemverAccepts requirement s = Inr True \<longleftrightarrow>
     (\<exists>v. ParseVersion s = Inr v \<and> fields_func (\<lambda>c. c = CHR '' '' \<or> c = CHR '','') requirement \<noteq> []
        \<and> (\<forall>c\<in>set (fields_func (\<lambda>c. c = CHR '' '' \<or> c = CHR '','') requirement). clause_holds c v))"
  by (auto simp: SemverAccepts_def Let_def clauses_accept_True ParseVersion_ok split: sum.splits)

subsection \<open>Printing and reading versions\<close>

definition show_version :: "version \<Rightarrow> string" where
  "show_version v = show_nat (nat (v_major v)) @ CHR ''.'' # show_nat (nat (v_minor v)) @ CHR ''.'' # show_nat (nat (v_patch v))"

lemma dot_not_digit: "CHR ''.'' \<notin> set (show_nat n)"
  by (rule show_nat_no_char) (simp add: is_digit_def in_range_def)

lemma ParseVersion_parts:
  assumes "version_ok v" "trim_prefix s ''v'' = show_version v"
  shows "ParseVersion s = Inr v"
proof -
  have sp: "split_char (CHR ''.'') (show_version v) =
      [show_nat (nat (v_major v)), show_nat (nat (v_minor v)), show_nat (nat (v_patch v))]"
    unfolding show_version_def by (simp add: split_char_append_sep split_char_none dot_not_digit)
  have "parse_parts s (split_char (CHR ''.'') (show_version v)) = Inr [v_major v, v_minor v, v_patch v]"
    using assms(1) by (simp add: sp version_ok_def atoi_show_nat)
  then show ?thesis
    unfolding ParseVersion_def Let_def assms(2) by (simp add: sp numeral_2_eq_2 del: parse_parts.simps)
qed

lemma ParseVersion_show:
  assumes "version_ok v"
  shows "ParseVersion (show_version v) = Inr v" "ParseVersion (''v'' @ show_version v) = Inr v"
proof -
  obtain c cs where c: "show_nat (nat (v_major v)) = c # cs" by (cases "show_nat (nat (v_major v))") auto
  then have "is_digit c" using show_nat_digits [of "nat (v_major v)"] by simp
  then have "c \<noteq> CHR ''v''" by (auto simp: is_digit_def in_range_def)
  then have "trim_prefix (show_version v) ''v'' = show_version v"
    by (simp add: trim_prefix_def show_version_def c cut_prefix_def has_prefix_def)
  then show "ParseVersion (show_version v) = Inr v" by (rule ParseVersion_parts [OF assms])
  show "ParseVersion (''v'' @ show_version v) = Inr v"
    by (rule ParseVersion_parts [OF assms]) (rule trim_prefix_append)
qed

end
