(* ===== verification/Planner.thy ===== *)
theory Planner
  imports Semver "HOL-Library.AList"
begin

text \<open>
  \<open>depmaint/internal/planner/planner.go\<close>: the upgrade planner. A search moves packages to newer
  published versions, one violated requirement at a time, until every requirement of the project
  holds with the target applied. The registry and the acceptance test are parameters (interfaces of
  the source). Go maps are association lists without duplicate keys; the source only iterates over
  their sorted keys.
\<close>

subsection \<open>Data\<close>

record node =
  n_key :: string
  n_kind :: string
  n_direct :: bool

record edge =
  e_from :: string
  e_to :: string
  e_requirement :: string
  e_resolved :: string
  e_internal :: bool

record graph =
  gr_nodes :: "node list"
  gr_edges :: "edge list"

record requirement =
  rq_package :: string
  rq_constraint :: string

record upgrade =
  up_package :: string
  up_target :: string

datatype blocker_kind = BlockerConstraint | BlockerToolchain | BlockerEngine

record blocker =
  bl_node :: string
  bl_kind :: blocker_kind
  bl_detail :: string

record step =
  sp_package :: string
  sp_from :: string
  sp_to :: string
  sp_tier :: Tier
  sp_rationale :: string
  sp_verification :: string
  sp_rollback :: string

record plan =
  pl_upgrade :: upgrade
  pl_blockers :: "blocker list"
  pl_feasible :: bool
  pl_tier :: Tier
  pl_steps :: "step list"

datatype plan_error =
    Two_Versions string string string
  | Not_In_Graph string
  | Already_At_Target string string
  | Edge_Error string string string
  | Requirement_Error string string string string
  | Accepts_Failed string
  | Registry_Error string
  | Version_Error semver_error
  | Version_Panic semver_error

record registry =
  rg_versions :: "string \<Rightarrow> string + string list"
  rg_requirements :: "string \<Rightarrow> string \<Rightarrow> string + requirement list"

type_synonym accepts = "string \<Rightarrow> string \<Rightarrow> string + bool"

record search =
  s_graph :: graph
  s_up :: upgrade
  s_reg :: registry
  s_accepts :: accepts
  s_current :: "(string \<times> string) list"
  s_is_root :: "string list"
  s_node_of :: "(string \<times> node) list"

type_synonym assignment = "(string \<times> string) list"
type_synonym steps = "(string \<times> step) list"

record violation =
  vi_requirer :: string
  vi_req :: requirement

definition newline_text :: string where "newline_text = [newline]"

subsection \<open>Merging the graphs of a project's roots\<close>

fun add_nodes :: "string set \<Rightarrow> node list \<Rightarrow> string set \<times> node list" where
  "add_nodes seen [] = (seen, [])"
| "add_nodes seen (n # ns) =
     (if n_key n \<in> seen then add_nodes seen ns
      else let (seen', rest) = add_nodes (insert (n_key n) seen) ns in (seen', n # rest))"

fun add_edges :: "edge set \<Rightarrow> edge list \<Rightarrow> edge set \<times> edge list" where
  "add_edges seen [] = (seen, [])"
| "add_edges seen (e # es) =
     (if e \<in> seen then add_edges seen es
      else let (seen', rest) = add_edges (insert e seen) es in (seen', e # rest))"

fun merge_roots_loop :: "string set \<Rightarrow> edge set \<Rightarrow> (node list \<times> edge list) list \<Rightarrow> graph" where
  "merge_roots_loop sn se [] = \<lparr>gr_nodes = [], gr_edges = []\<rparr>"
| "merge_roots_loop sn se ((ns, es) # roots) =
     (let (sn', nodes) = add_nodes sn ns; (se', edges) = add_edges se es;
          g = merge_roots_loop sn' se' roots
      in \<lparr>gr_nodes = nodes @ gr_nodes g, gr_edges = edges @ gr_edges g\<rparr>)"

definition MergeRoots :: "(node list \<times> edge list) list \<Rightarrow> graph" where
  "MergeRoots roots = merge_roots_loop {} {} roots"

subsection \<open>Setting up the search\<close>

definition bare :: "string \<Rightarrow> string" where
  "bare k = (case cut_last (CHR ''@'') k of Some (a, b) \<Rightarrow> a | None \<Rightarrow> k)"

definition node_version :: "node \<Rightarrow> string" where
  "node_version n = trim_prefix (n_key n) (bare (n_key n) @ ''@'')"

fun load_nodes :: "assignment \<Rightarrow> (string \<times> node) list \<Rightarrow> node list
    \<Rightarrow> plan_error + (assignment \<times> (string \<times> node) list)" where
  "load_nodes current node_of [] = Inr (current, node_of)"
| "load_nodes current node_of (n # ns) =
     (let name = bare (n_key n) in
      case map_of current name of
        Some prev \<Rightarrow> Inl (Two_Versions name prev (node_version n))
      | None \<Rightarrow> load_nodes ((name, node_version n) # current) ((name, n) # node_of) ns)"

definition newSearch :: "graph \<Rightarrow> upgrade \<Rightarrow> registry \<Rightarrow> accepts \<Rightarrow> plan_error + search" where
  "newSearch g up reg acc =
     (case load_nodes [] [] (gr_nodes g) of
        Inl e \<Rightarrow> Inl e
      | Inr (current, node_of) \<Rightarrow>
          (case map_of current (up_package up) of
             None \<Rightarrow> Inl (Not_In_Graph (up_package up))
           | Some cur \<Rightarrow>
               (if cur = up_target up then Inl (Already_At_Target (up_package up) (up_target up))
                else Inr \<lparr>s_graph = g, s_up = up, s_reg = reg, s_accepts = acc, s_current = current,
                          s_is_root = filter (\<lambda>p. \<forall>e\<in>set (gr_edges g). bare (e_to e) \<noteq> p) (map fst current),
                          s_node_of = node_of\<rparr>)))"

subsection \<open>Blockers\<close>

definition blocker_kind_of :: "search \<Rightarrow> blocker_kind" where
  "blocker_kind_of s =
     (case map_of (s_node_of s) (up_package (s_up s)) of
        None \<Rightarrow> BlockerConstraint
      | Some n \<Rightarrow> (if n_kind n = ''runtime'' then
                     (if has_prefix (up_package (s_up s)) ''node:'' then BlockerEngine else BlockerToolchain)
                   else BlockerConstraint))"

definition blocker_edge :: "search \<Rightarrow> edge \<Rightarrow> bool" where
  "blocker_edge s e \<longleftrightarrow> bare (e_to e) = up_package (s_up s) \<and> bare (e_from e) \<notin> set (s_is_root s)"

fun blockers_loop :: "search \<Rightarrow> edge list \<Rightarrow> plan_error + blocker list" where
  "blockers_loop s [] = Inr []"
| "blockers_loop s (e # es) =
     (if \<not> blocker_edge s e then blockers_loop s es
      else case s_accepts s (e_requirement e) (up_target (s_up s)) of
             Inl err \<Rightarrow> Inl (Edge_Error (e_from e) (e_to e) err)
           | Inr True \<Rightarrow> blockers_loop s es
           | Inr False \<Rightarrow>
               map_sum id ((#) \<lparr>bl_node = e_from e, bl_kind = blocker_kind_of s,
                   bl_detail = ''requires '' @ up_package (s_up s) @ '' '' @ e_requirement e
                     @ '', rejects '' @ up_target (s_up s)\<rparr>) (blockers_loop s es))"

text \<open>\<open>sort.Slice\<close> leaves the order of blockers of one node open; the stable order is taken.\<close>

definition blockers :: "search \<Rightarrow> plan_error + blocker list" where
  "blockers s = map_sum id (sort_key bl_node) (blockers_loop s (gr_edges (s_graph s)))"

subsection \<open>Violations\<close>

definition rewrittenByTargetStep :: "search \<Rightarrow> string \<Rightarrow> string \<Rightarrow> bool" where
  "rewrittenByTargetStep s requirer dep \<longleftrightarrow> requirer \<in> set (s_is_root s) \<and> dep = up_package (s_up s)"

definition requirementsOf :: "search \<Rightarrow> string \<Rightarrow> string \<Rightarrow> steps \<Rightarrow> plan_error + requirement list" where
  "requirementsOf s pkg v st =
     (if map_of st pkg \<noteq> None \<or> pkg = up_package (s_up s)
      then (case rg_requirements (s_reg s) pkg v of Inl e \<Rightarrow> Inl (Registry_Error e) | Inr rs \<Rightarrow> Inr rs)
      else Inr (map (\<lambda>e. \<lparr>rq_package = bare (e_to e), rq_constraint = e_requirement e\<rparr>)
                  (filter (\<lambda>e. bare (e_from e) = pkg) (gr_edges (s_graph s)))))"

definition sortedPackages :: "assignment \<Rightarrow> string list" where
  "sortedPackages assigned = sort (map fst assigned)"

definition assigned_of :: "assignment \<Rightarrow> string \<Rightarrow> string" where
  "assigned_of assigned p = (case map_of assigned p of None \<Rightarrow> [] | Some v \<Rightarrow> v)"

fun violated_req :: "search \<Rightarrow> assignment \<Rightarrow> string \<Rightarrow> requirement list \<Rightarrow> plan_error + requirement option" where
  "violated_req s assigned pkg [] = Inr None"
| "violated_req s assigned pkg (r # rs) =
     (case map_of assigned (rq_package r) of
        None \<Rightarrow> violated_req s assigned pkg rs
      | Some have_v \<Rightarrow>
          (if rewrittenByTargetStep s pkg (rq_package r) then violated_req s assigned pkg rs
           else case s_accepts s (rq_constraint r) have_v of
                  Inl e \<Rightarrow> Inl (Requirement_Error pkg (rq_package r) (rq_constraint r) e)
                | Inr True \<Rightarrow> violated_req s assigned pkg rs
                | Inr False \<Rightarrow> Inr (Some r)))"

fun violation_loop :: "search \<Rightarrow> assignment \<Rightarrow> steps \<Rightarrow> string list \<Rightarrow> plan_error + violation option" where
  "violation_loop s assigned st [] = Inr None"
| "violation_loop s assigned st (pkg # pkgs) =
     (case requirementsOf s pkg (assigned_of assigned pkg) st of
        Inl e \<Rightarrow> Inl e
      | Inr reqs \<Rightarrow>
          (case violated_req s assigned pkg reqs of
             Inl e \<Rightarrow> Inl e
           | Inr (Some r) \<Rightarrow> Inr (Some \<lparr>vi_requirer = pkg, vi_req = r\<rparr>)
           | Inr None \<Rightarrow> violation_loop s assigned st pkgs))"

definition firstViolation :: "search \<Rightarrow> assignment \<Rightarrow> steps \<Rightarrow> plan_error + violation option" where
  "firstViolation s assigned st = violation_loop s assigned st (sortedPackages assigned)"

subsection \<open>Repairs\<close>

fun all_accept :: "search \<Rightarrow> (requirement \<Rightarrow> bool) \<Rightarrow> string \<Rightarrow> requirement list \<Rightarrow> plan_error + bool" where
  "all_accept s relevant v [] = Inr True"
| "all_accept s relevant v (r # rs) =
     (if \<not> relevant r then all_accept s relevant v rs
      else case s_accepts s (rq_constraint r) v of
             Inl e \<Rightarrow> Inl (Accepts_Failed e)
           | Inr False \<Rightarrow> Inr False
           | Inr True \<Rightarrow> all_accept s relevant v rs)"

fun others_accept :: "search \<Rightarrow> string \<Rightarrow> string \<Rightarrow> assignment \<Rightarrow> steps \<Rightarrow> string list \<Rightarrow> plan_error + bool" where
  "others_accept s pkg v assigned st [] = Inr True"
| "others_accept s pkg v assigned st (p # ps) =
     (case requirementsOf s p (assigned_of assigned p) st of
        Inl e \<Rightarrow> Inl e
      | Inr reqs \<Rightarrow>
          (case all_accept s (\<lambda>r. rq_package r = pkg) v reqs of
             Inl e \<Rightarrow> Inl e
           | Inr False \<Rightarrow> Inr False
           | Inr True \<Rightarrow> others_accept s pkg v assigned st ps))"

definition compatible :: "search \<Rightarrow> string \<Rightarrow> string \<Rightarrow> assignment \<Rightarrow> steps \<Rightarrow> plan_error + bool" where
  "compatible s pkg v assigned st =
     (case rg_requirements (s_reg s) pkg v of
        Inl e \<Rightarrow> Inl (Registry_Error e)
      | Inr own \<Rightarrow>
          (case all_accept s (\<lambda>r. rq_package r = up_package (s_up s)) (up_target (s_up s)) own of
             Inl e \<Rightarrow> Inl e
           | Inr False \<Rightarrow> Inr False
           | Inr True \<Rightarrow> others_accept s pkg v assigned st (sortedPackages assigned)))"

fun candidates :: "version \<Rightarrow> Tier \<Rightarrow> string list \<Rightarrow> plan_error + (string \<times> version) list" where
  "candidates have_v max_tier [] = Inr []"
| "candidates have_v max_tier (raw # raws) =
     (case ParseVersion raw of
        Inl e \<Rightarrow> Inl (Version_Error e)
      | Inr v \<Rightarrow> map_sum id (\<lambda>cs. if Compare v have_v > 0 \<and> TierOf have_v v \<le> max_tier then (raw, v) # cs else cs)
                   (candidates have_v max_tier raws))"

fun first_compatible :: "search \<Rightarrow> string \<Rightarrow> assignment \<Rightarrow> steps \<Rightarrow> (string \<times> version) list
    \<Rightarrow> plan_error + string option" where
  "first_compatible s pkg assigned st [] = Inr None"
| "first_compatible s pkg assigned st ((raw, v) # cs) =
     (case compatible s pkg raw assigned st of
        Inl e \<Rightarrow> Inl e
      | Inr True \<Rightarrow> Inr (Some raw)
      | Inr False \<Rightarrow> first_compatible s pkg assigned st cs)"

text \<open>The candidates are sorted by version; on parsed versions \<open>Compare\<close> orders by \<open>key\<close>. Where one
  version is published under two spellings \<open>sort.Slice\<close> leaves their order open.\<close>

definition smallestFix :: "search \<Rightarrow> string \<Rightarrow> assignment \<Rightarrow> steps \<Rightarrow> Tier \<Rightarrow> plan_error + string option" where
  "smallestFix s pkg assigned st max_tier =
     (case rg_versions (s_reg s) pkg of
        Inl e \<Rightarrow> Inl (Registry_Error e)
      | Inr published \<Rightarrow>
          (case ParseVersion (assigned_of assigned pkg) of
             Inl e \<Rightarrow> Inl (Version_Error e)
           | Inr have_v \<Rightarrow>
               (case candidates have_v max_tier published of
                  Inl e \<Rightarrow> Inl e
                | Inr cands \<Rightarrow> first_compatible s pkg assigned st (sort_key (key \<circ> snd) cands))))"

definition repair_rationale :: "assignment \<Rightarrow> violation \<Rightarrow> string" where
  "repair_rationale assigned v =
     vi_requirer v @ ''@'' @ assigned_of assigned (vi_requirer v) @ '' requires '' @ rq_package (vi_req v) @ '' ''
     @ rq_constraint (vi_req v) @ '', which rejects '' @ assigned_of assigned (rq_package (vi_req v))"

text \<open>The zero version stands for one that does not parse: the source drops these two errors.\<close>

definition version_or_zero :: "string \<Rightarrow> version" where
  "version_or_zero t =
     (case ParseVersion t of Inr v \<Rightarrow> v | Inl e \<Rightarrow> \<lparr>v_major = 0, v_minor = 0, v_patch = 0\<rparr>)"

definition move_to :: "search \<Rightarrow> assignment \<Rightarrow> steps \<Rightarrow> violation \<Rightarrow> string \<Rightarrow> string \<Rightarrow> assignment \<times> steps" where
  "move_to s assigned st v pkg to =
     (let from = (case map_of st pkg of None \<Rightarrow> assigned_of (s_current s) pkg | Some prior \<Rightarrow> sp_from prior);
          why = (case map_of st pkg of None \<Rightarrow> repair_rationale assigned v | Some prior \<Rightarrow> sp_rationale prior)
      in (AList.update pkg to assigned,
          AList.update pkg \<lparr>sp_package = pkg, sp_from = from, sp_to = to,
            sp_tier = TierOf (version_or_zero from) (version_or_zero to), sp_rationale = why,
            sp_verification = [], sp_rollback = []\<rparr> st))"

fun repair_loop :: "search \<Rightarrow> Tier \<Rightarrow> assignment \<Rightarrow> steps \<Rightarrow> violation \<Rightarrow> string list
    \<Rightarrow> plan_error + (assignment \<times> steps) option" where
  "repair_loop s max_tier assigned st v [] = Inr None"
| "repair_loop s max_tier assigned st v (pkg # pkgs) =
     (if pkg = up_package (s_up s) \<or> pkg \<in> set (s_is_root s) then repair_loop s max_tier assigned st v pkgs
      else case smallestFix s pkg assigned st max_tier of
             Inl e \<Rightarrow> Inl e
           | Inr None \<Rightarrow> repair_loop s max_tier assigned st v pkgs
           | Inr (Some to) \<Rightarrow> Inr (Some (move_to s assigned st v pkg to)))"

definition repair :: "search \<Rightarrow> Tier \<Rightarrow> assignment \<Rightarrow> steps \<Rightarrow> violation \<Rightarrow> plan_error + (assignment \<times> steps) option" where
  "repair s max_tier assigned st v =
     repair_loop s max_tier assigned st v
       (if map_of st (vi_requirer v) = None then [vi_requirer v, rq_package (vi_req v)]
        else [rq_package (vi_req v), vi_requirer v])"

subsection \<open>Progress of a repair\<close>

text \<open>A repair moves one tracked package to a newer published version.\<close>

lemma candidates_in:
  "candidates h t raws = Inr cs \<Longrightarrow> (raw, v) \<in> set cs \<longleftrightarrow>
     raw \<in> set raws \<and> ParseVersion raw = Inr v \<and> Compare v h > 0 \<and> TierOf h v \<le> t"
  by (induction raws arbitrary: cs) (auto split: sum.splits if_splits)

lemma first_compatible_Some:
  "first_compatible s pkg assigned st cs = Inr (Some raw) \<Longrightarrow>
     \<exists>v. (raw, v) \<in> set cs \<and> compatible s pkg raw assigned st = Inr True"
  by (induction cs) (auto split: sum.splits bool.splits)

lemma smallestFix_Some:
  assumes "smallestFix s pkg assigned st t = Inr (Some to)"
  shows "\<exists>published h v. rg_versions (s_reg s) pkg = Inr published \<and> to \<in> set published
     \<and> ParseVersion (assigned_of assigned pkg) = Inr h \<and> ParseVersion to = Inr v
     \<and> key h < key v \<and> TierOf h v \<le> t \<and> compatible s pkg to assigned st = Inr True"
proof -
  obtain published h cs where p: "rg_versions (s_reg s) pkg = Inr published"
      "ParseVersion (assigned_of assigned pkg) = Inr h" "candidates h t published = Inr cs"
      "first_compatible s pkg assigned st (sort_key (key \<circ> snd) cs) = Inr (Some to)"
    using assms by (auto simp: smallestFix_def split: sum.splits)
  then obtain v where v: "(to, v) \<in> set cs" "compatible s pkg to assigned st = Inr True"
    using first_compatible_Some [OF p(4)] by auto
  then have "to \<in> set published" "ParseVersion to = Inr v" "Compare v h > 0" "TierOf h v \<le> t"
    using candidates_in [OF p(3)] by auto
  then show ?thesis using p v(2) Compare_sign(3) [of v h] ParseVersion_ok by blast
qed

definition newer_than :: "search \<Rightarrow> string \<Rightarrow> string \<Rightarrow> string list" where
  "newer_than s p v =
     (case rg_versions (s_reg s) p of
        Inl e \<Rightarrow> []
      | Inr published \<Rightarrow> filter (\<lambda>raw. case (ParseVersion raw, ParseVersion v) of
            (Inr a, Inr b) \<Rightarrow> key b < key a | _ \<Rightarrow> False) published)"

definition room :: "search \<Rightarrow> assignment \<Rightarrow> nat" where
  "room s assigned = sum_list (map (\<lambda>p. length (newer_than s p (assigned_of assigned p))) (map fst assigned))"

lemma length_filter_strict:
  "(\<And>x. P x \<Longrightarrow> Q x) \<Longrightarrow> x \<in> set xs \<Longrightarrow> Q x \<Longrightarrow> \<not> P x \<Longrightarrow> length (filter P xs) < length (filter Q xs)"
proof (induction xs)
  case (Cons y ys)
  have le: "length (filter P ys) \<le> length (filter Q ys)"
    using Cons.prems(1) by (induction ys) auto
  show ?case
  proof (cases "x = y")
    case True
    then show ?thesis using Cons.prems le by auto
  next
    case False
    then have "length (filter P ys) < length (filter Q ys)" using Cons by auto
    then show ?thesis using Cons.prems(1) [of y] by auto
  qed
qed simp

lemma sum_list_less:
  fixes f g :: "'a \<Rightarrow> nat"
  shows "(\<And>x. x \<in> set xs \<Longrightarrow> f x \<le> g x) \<Longrightarrow> y \<in> set xs \<Longrightarrow> f y < g y \<Longrightarrow>
    sum_list (map f xs) < sum_list (map g xs)"
proof (induction xs)
  case (Cons x xs)
  have "sum_list (map f xs) \<le> sum_list (map g xs)" using Cons.prems(1) by (intro sum_list_mono) auto
  then show ?case using Cons by (cases "y = x") (auto intro: add_less_le_mono add_le_less_mono)
qed simp

lemma newer_than_decreases:
  assumes "rg_versions (s_reg s) p = Inr published" "to \<in> set published" "ParseVersion v = Inr h"
    and "ParseVersion to = Inr w" "key h < key w"
  shows "length (newer_than s p to) < length (newer_than s p v)"
  unfolding newer_than_def assms(1) sum.case
  by (rule length_filter_strict [OF _ assms(2)]) (use assms in \<open>auto split: sum.splits\<close>)

lemma assigned_of_update: "assigned_of (AList.update p v a) q = (if q = p then v else assigned_of a q)"
  by (simp add: assigned_of_def update_conv')

lemma keys_update: "p \<in> fst ` set a \<Longrightarrow> map fst (AList.update p v a) = map fst a"
  by (induction a) auto

lemma room_decreases:
  assumes "smallestFix s p assigned st t = Inr (Some to)" "p \<in> fst ` set assigned"
  shows "room s (AList.update p to assigned) < room s assigned"
proof -
  from smallestFix_Some [OF assms(1)] have lt:
    "length (newer_than s p to) < length (newer_than s p (assigned_of assigned p))"
    using newer_than_decreases by blast
  have "room s (AList.update p to assigned) =
      sum_list (map (\<lambda>q. length (newer_than s q (if q = p then to else assigned_of assigned q))) (map fst assigned))"
    unfolding room_def keys_update [OF assms(2)] assigned_of_update ..
  also have "\<dots> < room s assigned" unfolding room_def
    by (rule sum_list_less [of _ _ _ p]) (use lt assms(2) in auto)
  finally show ?thesis .
qed

lemma violated_req_Some: "violated_req s a p rs = Inr (Some r) \<Longrightarrow>
    r \<in> set rs \<and> (\<exists>h. map_of a (rq_package r) = Some h \<and> s_accepts s (rq_constraint r) h = Inr False)"
  by (induction rs) (auto split: option.splits if_splits sum.splits bool.splits)

lemma violation_loop_Some: "violation_loop s a st ps = Inr (Some v) \<Longrightarrow>
    vi_requirer v \<in> set ps \<and> rq_package (vi_req v) \<in> fst ` set a"
proof (induction ps)
  case (Cons p ps)
  then show ?case
    by (auto split: sum.splits option.splits dest!: violated_req_Some dest: map_of_SomeD intro: rev_image_eqI)
qed simp

lemma firstViolation_tracked:
  "firstViolation s a st = Inr (Some v) \<Longrightarrow> vi_requirer v \<in> fst ` set a \<and> rq_package (vi_req v) \<in> fst ` set a"
  unfolding firstViolation_def sortedPackages_def by (drule violation_loop_Some) auto

lemma repair_loop_Some:
  "repair_loop s t a st v ps = Inr (Some (a', st')) \<Longrightarrow>
     \<exists>p\<in>set ps. \<exists>to. p \<noteq> up_package (s_up s) \<and> p \<notin> set (s_is_root s) \<and> smallestFix s p a st t = Inr (Some to)
       \<and> (a', st') = move_to s a st v p to"
  by (induction ps) (auto split: if_splits sum.splits option.splits)

lemma repair_Some:
  assumes "repair s t a st v = Inr (Some (a', st'))" "firstViolation s a st = Inr (Some v)"
  obtains p to where "p \<in> fst ` set a" "p \<noteq> up_package (s_up s)" "p \<notin> set (s_is_root s)"
    "smallestFix s p a st t = Inr (Some to)" "(a', st') = move_to s a st v p to"
  using repair_loop_Some [OF assms(1) [unfolded repair_def]] firstViolation_tracked [OF assms(2)]
  by (auto split: if_splits)

subsection \<open>The closure and the plan\<close>

text \<open>The loop of \<open>closure\<close>. It ends because every round uses up a published version.\<close>

function closure_loop :: "search \<Rightarrow> Tier \<Rightarrow> assignment \<Rightarrow> steps \<Rightarrow> plan_error + steps option" where
  "closure_loop s max_tier assigned st =
     (case firstViolation s assigned st of
        Inl e \<Rightarrow> Inl e
      | Inr None \<Rightarrow> Inr (Some st)
      | Inr (Some v) \<Rightarrow>
          (case repair s max_tier assigned st v of
             Inl e \<Rightarrow> Inl e
           | Inr None \<Rightarrow> Inr None
           | Inr (Some (assigned', st')) \<Rightarrow> closure_loop s max_tier assigned' st'))"
  by pat_completeness auto
termination
proof (relation "measure (\<lambda>(s, t, a, st). room s a)", goal_cases)
  case (2 s t a st x2 v x2a p a' st')
  then have "repair s t a st v = Inr (Some (a', st'))" "firstViolation s a st = Inr (Some v)" by simp_all
  from repair_Some [OF this] show ?case
    by (metis (no_types, lifting) case_prod_conv in_measure move_to_def fst_conv room_decreases Pair_inject)
qed simp

declare closure_loop.simps [simp del]

definition initial_assignment :: "search \<Rightarrow> assignment" where
  "initial_assignment s = AList.update (up_package (s_up s)) (up_target (s_up s)) (s_current s)"

definition finish :: "step \<Rightarrow> step" where
  "finish st = st\<lparr>
     sp_verification := ''build and tests pass; '' @ sp_package st @ '' resolves to '' @ sp_to st @ '' in the next snapshot'',
     sp_rollback := ''restore '' @ sp_package st @ '' to '' @ sp_from st @ '' and re-expand the graph''\<rparr>"

text \<open>\<open>mustVersion\<close> panics on a version that does not parse.\<close>

definition mustVersion :: "string \<Rightarrow> plan_error + version" where
  "mustVersion t = (case ParseVersion t of Inl e \<Rightarrow> Inl (Version_Panic e) | Inr v \<Rightarrow> Inr v)"

definition ordered :: "search \<Rightarrow> steps \<Rightarrow> plan_error + step list" where
  "ordered s st =
     (let cur = assigned_of (s_current s) (up_package (s_up s)); target = up_target (s_up s) in
      case mustVersion cur of
        Inl e \<Rightarrow> Inl e
      | Inr a \<Rightarrow>
          (case mustVersion target of
             Inl e \<Rightarrow> Inl e
           | Inr b \<Rightarrow>
               Inr (map (\<lambda>p. finish (the (map_of st p))) (sort (map fst st))
                    @ [finish \<lparr>sp_package = up_package (s_up s), sp_from = cur, sp_to = target,
                         sp_tier = TierOf a b, sp_rationale = ''requested upgrade'',
                         sp_verification = [], sp_rollback = []\<rparr>])))"

definition closure :: "search \<Rightarrow> Tier \<Rightarrow> plan_error + step list option" where
  "closure s max_tier =
     (case closure_loop s max_tier (initial_assignment s) [] of
        Inl e \<Rightarrow> Inl e
      | Inr None \<Rightarrow> Inr None
      | Inr (Some st) \<Rightarrow> map_sum id Some (ordered s st))"

fun try_tiers :: "search \<Rightarrow> plan \<Rightarrow> Tier list \<Rightarrow> plan_error + plan" where
  "try_tiers s pl [] = Inr pl"
| "try_tiers s pl (t # ts) =
     (case closure s t of
        Inl e \<Rightarrow> Inl e
      | Inr (Some steps) \<Rightarrow> Inr (pl\<lparr>pl_feasible := True, pl_tier := t, pl_steps := steps\<rparr>)
      | Inr None \<Rightarrow> try_tiers s pl ts)"

definition Make :: "graph \<Rightarrow> upgrade \<Rightarrow> registry \<Rightarrow> accepts \<Rightarrow> plan_error + plan" where
  "Make g up reg acc =
     (case newSearch g up reg acc of
        Inl e \<Rightarrow> Inl e
      | Inr s \<Rightarrow>
          (case blockers s of
             Inl e \<Rightarrow> Inl e
           | Inr bs \<Rightarrow> try_tiers s \<lparr>pl_upgrade = up, pl_blockers = bs, pl_feasible = False, pl_tier = TierPatch,
                                    pl_steps = []\<rparr> [TierPatch, TierMinor, TierMajor]))"

definition kind_string :: "blocker_kind \<Rightarrow> string" where
  "kind_string k = (case k of BlockerConstraint \<Rightarrow> ''constraint'' | BlockerToolchain \<Rightarrow> ''toolchain'' | BlockerEngine \<Rightarrow> ''engine'')"

definition render_blocker :: "blocker \<Rightarrow> string" where
  "render_blocker b = ''  ['' @ kind_string (bl_kind b) @ ''] '' @ bl_node b @ '': '' @ bl_detail b @ newline_text"

definition render_step :: "nat \<Rightarrow> step \<Rightarrow> string" where
  "render_step i st =
     ''step '' @ show_nat (i + 1) @ '': '' @ sp_package st @ '' '' @ sp_from st @ '' -> '' @ sp_to st
     @ '' ('' @ tier_string (sp_tier st) @ '')'' @ newline_text
     @ ''  why: '' @ sp_rationale st @ newline_text @ ''  verify: '' @ sp_verification st @ newline_text
     @ ''  rollback: '' @ sp_rollback st @ newline_text"

definition Render :: "plan \<Rightarrow> string" where
  "Render p =
     ''upgrade '' @ up_package (pl_upgrade p) @ '' to '' @ up_target (pl_upgrade p) @ newline_text
     @ ''blockers: '' @ show_nat (length (pl_blockers p)) @ newline_text
     @ concat (map render_blocker (pl_blockers p))
     @ (if \<not> pl_feasible p then ''feasible: no'' @ newline_text
        else ''feasible: yes ('' @ tier_string (pl_tier p) @ '' tier)'' @ newline_text
          @ concat (map (\<lambda>(i, st). render_step i st) (indexed (pl_steps p))))"

end
