(* ===== verification/Planner_Correct.thy ===== *)
theory Planner_Correct
  imports Planner "HOL-Library.Multiset"
begin

text \<open>
  Correctness of the planner: the closure ends in an assignment in which every requirement of the
  project holds, reached by upward moves within the tier; tiers are tried in order, blockers are
  exactly the rejecting requirers, and merging the graphs of several roots loses nothing.
\<close>

subsection \<open>Satisfied projects\<close>

definition satisfied :: "search \<Rightarrow> assignment \<Rightarrow> steps \<Rightarrow> bool" where
  "satisfied s a st \<longleftrightarrow>
     (\<forall>p\<in>fst ` set a. \<exists>reqs. requirementsOf s p (assigned_of a p) st = Inr reqs
        \<and> (\<forall>r\<in>set reqs. \<forall>h. map_of a (rq_package r) = Some h \<longrightarrow> \<not> rewrittenByTargetStep s p (rq_package r) \<longrightarrow>
             s_accepts s (rq_constraint r) h = Inr True))"

lemma violated_req_None: "violated_req s a p rs = Inr None \<longleftrightarrow>
    (\<forall>r\<in>set rs. \<forall>h. map_of a (rq_package r) = Some h \<longrightarrow> \<not> rewrittenByTargetStep s p (rq_package r) \<longrightarrow>
       s_accepts s (rq_constraint r) h = Inr True)"
  by (induction rs) (auto split: option.splits if_splits sum.splits bool.splits)

lemma violation_loop_None: "violation_loop s a st ps = Inr None \<longleftrightarrow>
    (\<forall>p\<in>set ps. \<exists>reqs. requirementsOf s p (assigned_of a p) st = Inr reqs \<and> violated_req s a p reqs = Inr None)"
  by (induction ps) (auto split: sum.splits option.splits)

lemma firstViolation_None: "firstViolation s a st = Inr None \<longleftrightarrow> satisfied s a st"
  unfolding firstViolation_def violation_loop_None satisfied_def violated_req_None sortedPackages_def by simp

subsection \<open>The search invariant\<close>

lemma TierOf_trans: "TierOf a b \<le> t \<Longrightarrow> TierOf b c \<le> t \<Longrightarrow> TierOf a c \<le> t"
  by (cases t) (auto simp: TierOf_def less_eq_Tier_def tier_rank_def split: if_splits)

text \<open>A planned step: up from the current version to a published one, within the tier.\<close>

definition step_ok :: "search \<Rightarrow> Tier \<Rightarrow> string \<Rightarrow> step \<Rightarrow> bool" where
  "step_ok s t p x \<longleftrightarrow>
     sp_package x = p \<and> p \<noteq> up_package (s_up s) \<and> p \<notin> set (s_is_root s)
     \<and> sp_from x = assigned_of (s_current s) p
     \<and> (\<exists>published. rg_versions (s_reg s) p = Inr published \<and> sp_to x \<in> set published)
     \<and> (\<exists>a b. ParseVersion (sp_from x) = Inr a \<and> ParseVersion (sp_to x) = Inr b \<and> key a < key b
          \<and> sp_tier x = TierOf a b \<and> TierOf a b \<le> t)"

definition search_inv :: "search \<Rightarrow> Tier \<Rightarrow> assignment \<Rightarrow> steps \<Rightarrow> bool" where
  "search_inv s t a st \<longleftrightarrow>
     distinct (map fst st) \<and> fst ` set a = fst ` set (initial_assignment s)
     \<and> (\<forall>p. map_of a p = (case map_of st p of Some x \<Rightarrow> Some (sp_to x) | None \<Rightarrow> map_of (initial_assignment s) p))
     \<and> (\<forall>(p, x)\<in>set st. step_ok s t p x)"

lemma search_inv_init: "search_inv s t (initial_assignment s) []"
  by (simp add: search_inv_def)

lemma initial_other: "p \<noteq> up_package (s_up s) \<Longrightarrow> assigned_of (initial_assignment s) p = assigned_of (s_current s) p"
  by (simp add: assigned_of_def initial_assignment_def update_conv')

lemma set_AList_update: "distinct (map fst st) \<Longrightarrow> (q, y) \<in> set (AList.update p x st) \<Longrightarrow>
    (q = p \<and> y = x) \<or> (q \<noteq> p \<and> (q, y) \<in> set st)"
  by (metis distinct_update fun_upd_apply map_of_SomeD map_of_eq_Some_iff option.inject update_conv')

lemma keys_AList_update: "fst ` set (AList.update p x a) = insert p (fst ` set a)"
  by (simp add: update_conv' flip: dom_map_of_conv_image_fst)

lemma move_inv:
  assumes "search_inv s t a st" "p \<in> fst ` set a" "p \<noteq> up_package (s_up s)" "p \<notin> set (s_is_root s)"
    and "smallestFix s p a st t = Inr (Some to)" "move_to s a st v p to = (a', st')"
  shows "search_inv s t a' st'"
proof -
  from smallestFix_Some [OF assms(5)] obtain published h w where f:
      "rg_versions (s_reg s) p = Inr published" "to \<in> set published" "ParseVersion (assigned_of a p) = Inr h"
      "ParseVersion to = Inr w" "key h < key w" "TierOf h w \<le> t" by blast
  have D: "distinct (map fst st)" and M: "\<forall>q. map_of a q =
      (case map_of st q of Some x \<Rightarrow> Some (sp_to x) | None \<Rightarrow> map_of (initial_assignment s) q)"
    and S: "\<forall>(q, x)\<in>set st. step_ok s t q x" and K: "fst ` set a = fst ` set (initial_assignment s)"
    using assms(1) by (auto simp: search_inv_def)
  define old where "old = (case map_of st p of None \<Rightarrow> assigned_of (s_current s) p | Some prior \<Rightarrow> sp_from prior)"
  have old: "old = assigned_of (s_current s) p
      \<and> (\<exists>f. ParseVersion old = Inr f \<and> key f < key w \<and> TierOf f w \<le> t)"
  proof (cases "map_of st p")
    case None
    then have "assigned_of a p = assigned_of (s_current s) p"
      using M initial_other [OF assms(3)] by (simp add: assigned_of_def)
    then show ?thesis using None f by (simp add: old_def)
  next
    case (Some x)
    then have "step_ok s t p x" using S map_of_SomeD by fastforce
    moreover have "assigned_of a p = sp_to x" using M Some by (simp add: assigned_of_def)
    ultimately show ?thesis using Some f TierOf_trans by (fastforce simp: old_def step_ok_def)
  qed
  let ?x = "\<lparr>sp_package = p, sp_from = old, sp_to = to, sp_tier = TierOf (version_or_zero old) (version_or_zero to),
      sp_rationale = (case map_of st p of None \<Rightarrow> repair_rationale a v | Some prior \<Rightarrow> sp_rationale prior),
      sp_verification = [], sp_rollback = []\<rparr>"
  have mv: "a' = AList.update p to a" "st' = AList.update p ?x st"
    using assms(6) by (auto simp: move_to_def Let_def old_def)
  have ok: "step_ok s t p ?x" using old f assms(3,4) by (auto simp: step_ok_def version_or_zero_def)
  have "distinct (map fst st')" using D mv by (simp add: distinct_update)
  moreover have "fst ` set a' = fst ` set (initial_assignment s)"
    using mv K assms(2) by (simp add: keys_AList_update insert_absorb)
  moreover have "\<forall>(q, y)\<in>set st'. step_ok s t q y"
    using S ok set_AList_update [OF D, of _ _ p ?x] unfolding mv(2) by blast
  moreover have "map_of a' q = (case map_of st' q of Some x \<Rightarrow> Some (sp_to x) | None \<Rightarrow> map_of (initial_assignment s) q)" for q
    using M by (simp add: mv update_conv')
  ultimately show ?thesis by (simp add: search_inv_def)
qed

lemma closure_loop_sound:
  "closure_loop s t a st = Inr (Some st') \<Longrightarrow> search_inv s t a st \<Longrightarrow>
     \<exists>a'. search_inv s t a' st' \<and> satisfied s a' st'"
proof (induction s t a st rule: closure_loop.induct)
  case (1 s t a st)
  obtain ov where ov: "firstViolation s a st = Inr ov"
    using 1(2) by (subst (asm) closure_loop.simps) (auto split: sum.splits)
  show ?case
  proof (cases ov)
    case None
    then have "st' = st" using 1(2) ov by (subst (asm) closure_loop.simps) simp
    then show ?thesis using 1(3) ov None firstViolation_None by auto
  next
    case (Some v)
    then obtain a1 st1 where r: "repair s t a st v = Inr (Some (a1, st1))"
      and c: "closure_loop s t a1 st1 = Inr (Some st')"
      using 1(2) ov by (subst (asm) closure_loop.simps) (auto split: sum.splits option.splits)
    have fv: "firstViolation s a st = Inr (Some v)" using ov Some by simp
    from repair_Some [OF r fv] have "search_inv s t a1 st1"
      using move_inv [OF 1(3)] by metis
    then show ?thesis using 1(1) [OF fv refl r refl refl c] by blast
  qed
qed

subsection \<open>Plans\<close>

lemma finish_simps [simp]:
  "sp_package (finish x) = sp_package x" "sp_from (finish x) = sp_from x" "sp_to (finish x) = sp_to x"
  "sp_tier (finish x) = sp_tier x"
  by (simp_all add: finish_def)

lemma step_ok_finish [simp]: "step_ok s t p (finish x) = step_ok s t p x"
  by (simp add: step_ok_def)

lemma ordered_Inr:
  assumes "ordered s st = Inr xs"
  shows "\<exists>a b. ParseVersion (assigned_of (s_current s) (up_package (s_up s))) = Inr a \<and> ParseVersion (up_target (s_up s)) = Inr b
     \<and> xs = map (\<lambda>p. finish (the (map_of st p))) (sort (map fst st))
         @ [finish \<lparr>sp_package = up_package (s_up s), sp_from = assigned_of (s_current s) (up_package (s_up s)),
              sp_to = up_target (s_up s), sp_tier = TierOf a b, sp_rationale = ''requested upgrade'',
              sp_verification = [], sp_rollback = []\<rparr>]"
  using assms by (auto simp: ordered_def Let_def mustVersion_def split: sum.splits)

text \<open>What a plan promises: a coordinated set of moves that satisfies the project.\<close>

definition plan_sound :: "search \<Rightarrow> Tier \<Rightarrow> step list \<Rightarrow> bool" where
  "plan_sound s t xs \<longleftrightarrow>
     (\<exists>a st. search_inv s t a st \<and> satisfied s a st
        \<and> map sp_package (butlast xs) = sort (map fst st)
        \<and> (\<forall>x\<in>set (butlast xs). step_ok s t (sp_package x) x \<and> map_of a (sp_package x) = Some (sp_to x))
        \<and> xs \<noteq> [] \<and> sp_package (last xs) = up_package (s_up s) \<and> sp_to (last xs) = up_target (s_up s))"

lemma closure_sound:
  assumes "closure s t = Inr (Some xs)"
  shows "plan_sound s t xs"
proof -
  obtain st where st: "closure_loop s t (initial_assignment s) [] = Inr (Some st)" and o: "ordered s st = Inr xs"
    using assms by (auto simp: closure_def split: sum.splits option.splits)
  from closure_loop_sound [OF st search_inv_init] obtain a where a: "search_inv s t a st" "satisfied s a st" by blast
  from ordered_Inr [OF o] have bl: "butlast xs = map (\<lambda>p. finish (the (map_of st p))) (sort (map fst st))"
    and l: "xs \<noteq> []" "sp_package (last xs) = up_package (s_up s)" "sp_to (last xs) = up_target (s_up s)"
    by auto
  have m: "\<exists>x. map_of st p = Some x \<and> step_ok s t p x \<and> map_of a p = Some (sp_to x)" if p: "p \<in> fst ` set st" for p
  proof -
    have "p \<in> dom (map_of st)" using p by (simp add: dom_map_of_conv_image_fst)
    then obtain x where x: "map_of st p = Some x" by blast
    then have "step_ok s t p x" using a(1) map_of_SomeD unfolding search_inv_def by fastforce
    then show ?thesis using a(1) x by (simp add: search_inv_def)
  qed
  have pk: "sp_package (finish (the (map_of st p))) = p" if "p \<in> fst ` set st" for p
    using m [OF that] by (auto simp: step_ok_def)
  have "map sp_package (butlast xs) = sort (map fst st)"
    unfolding bl using pk by (auto intro!: map_idI)
  moreover have "\<forall>x\<in>set (butlast xs). step_ok s t (sp_package x) x \<and> map_of a (sp_package x) = Some (sp_to x)"
    unfolding bl using m pk by fastforce
  ultimately show ?thesis unfolding plan_sound_def using a l by blast
qed

lemma try_tiers_Inr:
  "try_tiers s pl ts = Inr pl' \<Longrightarrow>
     (pl' = pl \<and> (\<forall>t\<in>set ts. closure s t = Inr None))
     \<or> (\<exists>us t vs xs. ts = us @ t # vs \<and> (\<forall>u\<in>set us. closure s u = Inr None) \<and> closure s t = Inr (Some xs)
          \<and> pl' = pl\<lparr>pl_feasible := True, pl_tier := t, pl_steps := xs\<rparr>)"
proof (induction ts)
  case (Cons t ts)
  then consider xs where "closure s t = Inr (Some xs)" | "closure s t = Inr None"
    by (auto split: sum.splits option.splits)
  then show ?case
  proof cases
    case 1
    then show ?thesis using Cons.prems by (intro disjI2 exI [of _ "[]"]) auto
  next
    case 2
    then have "try_tiers s pl ts = Inr pl'" using Cons.prems by simp
    from Cons.IH [OF this] show ?thesis
    proof
      assume "pl' = pl \<and> (\<forall>t\<in>set ts. closure s t = Inr None)"
      then show ?thesis using 2 by simp
    next
      assume "\<exists>us u vs xs. ts = us @ u # vs \<and> (\<forall>u\<in>set us. closure s u = Inr None) \<and> closure s u = Inr (Some xs)
          \<and> pl' = pl\<lparr>pl_feasible := True, pl_tier := u, pl_steps := xs\<rparr>"
      then obtain us u vs xs where "t # ts = (t # us) @ u # vs" "\<forall>u\<in>set us. closure s u = Inr None"
          "closure s u = Inr (Some xs)" "pl' = pl\<lparr>pl_feasible := True, pl_tier := u, pl_steps := xs\<rparr>" by auto
      moreover from this(2) 2 have "\<forall>u\<in>set (t # us). closure s u = Inr None" by simp
      ultimately show ?thesis by blast
    qed
  qed
qed simp

lemma Make_Inr:
  assumes "Make g up reg acc = Inr pl"
  shows "\<exists>s. newSearch g up reg acc = Inr s \<and> blockers s = Inr (pl_blockers pl)
     \<and> (if pl_feasible pl
        then closure s (pl_tier pl) = Inr (Some (pl_steps pl)) \<and> (\<forall>t<pl_tier pl. closure s t = Inr None)
        else pl_steps pl = [] \<and> (\<forall>t. closure s t = Inr None))"
proof -
  obtain s bs where s: "newSearch g up reg acc = Inr s" "blockers s = Inr bs" and
    t: "try_tiers s \<lparr>pl_upgrade = up, pl_blockers = bs, pl_feasible = False, pl_tier = TierPatch, pl_steps = []\<rparr>
          [TierPatch, TierMinor, TierMajor] = Inr pl"
    using assms by (auto simp: Make_def split: sum.splits)
  have all: "(\<forall>t. P t) \<longleftrightarrow> P TierPatch \<and> P TierMinor \<and> P TierMajor" for P :: "Tier \<Rightarrow> bool"
    by (metis Tier.exhaust)
  have lt: "\<not> t < TierPatch" "t < TierMinor \<longleftrightarrow> t = TierPatch" "t < TierMajor \<longleftrightarrow> t \<noteq> TierMajor" for t
    by (cases t; simp add: less_Tier_def tier_rank_def)+
  show ?thesis using try_tiers_Inr [OF t] s
    by (auto simp: all lt Cons_eq_append_conv)
qed

subsection \<open>Blockers\<close>

definition rejecting :: "search \<Rightarrow> edge \<Rightarrow> bool" where
  "rejecting s e \<longleftrightarrow> blocker_edge s e \<and> s_accepts s (e_requirement e) (up_target (s_up s)) = Inr False"

lemma blockers_loop_Inr: "blockers_loop s es = Inr bs \<Longrightarrow> map bl_node bs = map e_from (filter (rejecting s) es)"
  by (induction es arbitrary: bs) (auto simp: rejecting_def split: if_splits sum.splits bool.splits)

lemma blockers_Inr:
  assumes "blockers s = Inr bs"
  shows "map bl_node bs = sort (map e_from (filter (rejecting s) (gr_edges (s_graph s))))"
proof -
  obtain z where z: "blockers_loop s (gr_edges (s_graph s)) = Inr z" "bs = sort_key bl_node z"
    using assms by (auto simp: blockers_def)
  have "map bl_node (sort_key bl_node z) = sort (map bl_node z)"
    by (intro properties_for_sort [symmetric]) simp_all
  then show ?thesis using z blockers_loop_Inr [OF z(1)] by simp
qed

subsection \<open>Merging\<close>

lemma add_nodes_props:
  "add_nodes seen ns = (seen', xs) \<Longrightarrow>
     seen' = seen \<union> n_key ` set ns \<and> set xs \<subseteq> set ns \<and> n_key ` set xs = n_key ` set ns - seen \<and> distinct (map n_key xs)"
proof (induction ns arbitrary: seen xs)
  case (Cons n ns)
  show ?case
  proof (cases "n_key n \<in> seen")
    case True
    then show ?thesis using Cons.IH [of seen xs] Cons.prems by auto
  next
    case False
    then obtain ys where "add_nodes (insert (n_key n) seen) ns = (seen', ys)" "xs = n # ys"
      using Cons.prems by (auto split: prod.splits)
    then show ?thesis using Cons.IH [of "insert (n_key n) seen" ys] False by auto
  qed
qed simp

lemma add_edges_props:
  "add_edges seen es = (seen', xs) \<Longrightarrow> seen' = seen \<union> set es \<and> set xs = set es - seen \<and> distinct xs"
proof (induction es arbitrary: seen xs)
  case (Cons e es)
  show ?case
  proof (cases "e \<in> seen")
    case True
    then show ?thesis using Cons.IH [of seen xs] Cons.prems by auto
  next
    case False
    then obtain ys where "add_edges (insert e seen) es = (seen', ys)" "xs = e # ys"
      using Cons.prems by (auto split: prod.splits)
    then show ?thesis using Cons.IH [of "insert e seen" ys] False by auto
  qed
qed simp

definition root_nodes :: "(node list \<times> edge list) list \<Rightarrow> node set" where
  "root_nodes roots = (\<Union>r\<in>set roots. set (fst r))"

definition root_edges :: "(node list \<times> edge list) list \<Rightarrow> edge set" where
  "root_edges roots = (\<Union>r\<in>set roots. set (snd r))"

lemma merge_roots_loop_props:
  "g = merge_roots_loop sn se roots \<Longrightarrow>
     distinct (map n_key (gr_nodes g)) \<and> n_key ` set (gr_nodes g) = n_key ` root_nodes roots - sn
     \<and> set (gr_nodes g) \<subseteq> root_nodes roots
     \<and> distinct (gr_edges g) \<and> set (gr_edges g) = root_edges roots - se"
proof (induction sn se roots arbitrary: g rule: merge_roots_loop.induct)
  case (1 sn se)
  then show ?case by (simp add: root_nodes_def root_edges_def)
next
  case (2 sn se ns es roots)
  obtain sn' xs se' ys where a: "add_nodes sn ns = (sn', xs)" and e: "add_edges se es = (se', ys)"
    by (metis prod.exhaust)
  let ?h = "merge_roots_loop sn' se' roots"
  have g: "gr_nodes g = xs @ gr_nodes ?h" "gr_edges g = ys @ gr_edges ?h" using 2(2) by (simp_all add: a e Let_def)
  have r: "root_nodes ((ns, es) # roots) = set ns \<union> root_nodes roots" "root_edges ((ns, es) # roots) = set es \<union> root_edges roots"
    by (simp_all add: root_nodes_def root_edges_def)
  note A = add_nodes_props [OF a] and E = add_edges_props [OF e]
  note IH = 2(1) [OF a [symmetric] refl e [symmetric] refl refl]
  have "n_key ` set (gr_nodes g) = n_key ` set xs \<union> n_key ` set (gr_nodes ?h)" by (simp add: g image_Un)
  then have "n_key ` set (gr_nodes g) = n_key ` root_nodes ((ns, es) # roots) - sn"
    using A IH by (simp add: r image_Un) blast
  moreover have "distinct (map n_key (gr_nodes g))" using A IH by (simp add: g) blast
  moreover have "set (gr_nodes g) \<subseteq> root_nodes ((ns, es) # roots)" using A IH by (simp add: g r) blast
  moreover have "distinct (gr_edges g)" "set (gr_edges g) = root_edges ((ns, es) # roots) - se"
    using E IH by (auto simp: g r)
  ultimately show ?case by blast
qed

end
