(* ===== verification/Go_Text.thy ===== *)
theory Go_Text
  imports Go_Lib Go_Encoding
begin

text \<open>
  Library routines on text: \<open>strconv.Quote\<close> (the verb \<open>%q\<close>, on ASCII text), \<open>strings.Join\<close> and
  \<open>filepath.IsLocal\<close>.
\<close>

definition quote_char :: "char \<Rightarrow> string" where
  "quote_char c =
     (if c = CHR 0x22 \<or> c = CHR 0x5C then [CHR 0x5C, c]
      else if 32 \<le> byte c \<and> byte c \<noteq> 127 then [c]
      else if c = CHR 0x07 then [CHR 0x5C, CHR ''a''] else if c = CHR 0x08 then [CHR 0x5C, CHR ''b'']
      else if c = CHR 0x0C then [CHR 0x5C, CHR ''f''] else if c = newline then [CHR 0x5C, CHR ''n'']
      else if c = CHR 0x0D then [CHR 0x5C, CHR ''r''] else if c = tab then [CHR 0x5C, CHR ''t'']
      else if c = CHR 0x0B then [CHR 0x5C, CHR ''v'']
      else [CHR 0x5C, CHR ''x'', hex_digit (byte c div 16), hex_digit (byte c mod 16)])"

definition go_quote :: "string \<Rightarrow> string" where
  "go_quote s = [CHR 0x22] @ concat (map quote_char s) @ [CHR 0x22]"

fun join :: "string \<Rightarrow> string list \<Rightarrow> string" where
  "join sep [] = []"
| "join sep [x] = x"
| "join sep (x # y # ys) = x @ sep @ join sep (y # ys)"

text \<open>Whether a relative path stays inside its directory: no prefix of it climbs above the start.\<close>

fun stays_inside :: "nat \<Rightarrow> string list \<Rightarrow> bool" where
  "stays_inside d [] = True"
| "stays_inside d (p # ps) =
     (if p = [] \<or> p = ''.'' then stays_inside d ps
      else if p = ''..'' then 0 < d \<and> stays_inside (d - 1) ps
      else stays_inside (d + 1) ps)"

definition is_local :: "string \<Rightarrow> bool" where
  "is_local s \<longleftrightarrow> s \<noteq> [] \<and> hd s \<noteq> CHR ''/'' \<and> stays_inside 0 (split_char (CHR ''/'') s)"

end
