(* ===== verification/Go_Time.thy ===== *)
theory Go_Time
  imports Go_Lib
begin

text \<open>
  Text forms of times and durations: the calendar date of a day counted from the zero instant (the
  proleptic Gregorian calendar in UTC), Go's layout \<open>2006-01-02T15:04:05Z\<close>, and \<open>Duration.String\<close> with the proof that
  \<open>ParseDuration\<close> reads it back.
\<close>

definition civil :: "int \<Rightarrow> int \<times> int \<times> int" where
  "civil days =
     (let z = days + 306; era = z div 146097; doe = z mod 146097;
          yoe = (doe - doe div 1460 + doe div 36524 - doe div 146096) div 365;
          doy = doe - (365 * yoe + yoe div 4 - yoe div 100);
          mp = (5 * doy + 2) div 153;
          d = doy - (153 * mp + 2) div 5 + 1;
          m = (if mp < 10 then mp + 3 else mp - 9)
      in (yoe + era * 400 + (if m \<le> 2 then 1 else 0), m, d))"

definition pad :: "nat \<Rightarrow> nat \<Rightarrow> string" where
  "pad w n = replicate (w - length (show_nat n)) (CHR ''0'') @ show_nat n"

definition show_int :: "int \<Rightarrow> string" where
  "show_int i = (if i < 0 then CHR ''-'' # show_nat (nat (- i)) else show_nat (nat i))"

definition format_utc :: "time \<Rightarrow> string" where
  "format_utc t =
     (let secs = t div second; (y, m, d) = civil (secs div 86400); r = secs mod 86400
      in pad 4 (nat y) @ ''-'' @ pad 2 (nat m) @ ''-'' @ pad 2 (nat d) @ ''T'' @ pad 2 (nat (r div 3600)) @ '':''
         @ pad 2 (nat (r div 60 mod 60)) @ '':'' @ pad 2 (nat (r mod 60)) @ ''Z'')"

text \<open>\<open>time.Parse\<close> with the layout \<open>2006-01-02\<close>: midnight UTC of a date that exists.\<close>

definition days_in_month :: "int \<Rightarrow> int \<Rightarrow> int" where
  "days_in_month y m =
     (if m = 2 then (if y mod 4 = 0 \<and> (y mod 100 \<noteq> 0 \<or> y mod 400 = 0) then 29 else 28)
      else if m \<in> {4, 6, 9, 11} then 30 else 31)"

definition days_from_civil :: "int \<Rightarrow> int \<Rightarrow> int \<Rightarrow> int" where
  "days_from_civil y m d =
     (let y' = (if m \<le> 2 then y - 1 else y); era = y' div 400; yoe = y' mod 400;
          mp = (if m > 2 then m - 3 else m + 9);
          doy = (153 * mp + 2) div 5 + d - 1;
          doe = yoe * 365 + yoe div 4 - yoe div 100 + doy
      in era * 146097 + doe - 306)"

definition parse_date :: "string \<Rightarrow> time option" where
  "parse_date s =
     (if length s = 10 \<and> s ! 4 = CHR ''-'' \<and> s ! 7 = CHR ''-''
         \<and> list_all is_digit (take 4 s @ take 2 (drop 5 s) @ drop 8 s)
      then let y = int (read_nat (take 4 s)); m = int (read_nat (take 2 (drop 5 s))); d = int (read_nat (drop 8 s))
           in if 1 \<le> m \<and> m \<le> 12 \<and> 1 \<le> d \<and> d \<le> days_in_month y m
              then Some (days_from_civil y m d * 86400 * second) else None
      else None)"

text \<open>\<open>fmtFrac\<close>: the fraction \<open>v / 10 ^ prec\<close> without trailing zeros, and no point when it is 0.\<close>

definition fmt_frac :: "nat \<Rightarrow> nat \<Rightarrow> string" where
  "fmt_frac v prec =
     (let ds = rev (dropWhile (\<lambda>c. c = CHR ''0'') (rev (pad prec (v mod 10 ^ prec))))
      in if v mod 10 ^ prec = 0 then [] else CHR ''.'' # ds)"

definition fmt_unit :: "nat \<Rightarrow> nat \<Rightarrow> string \<Rightarrow> string" where
  "fmt_unit v prec u = show_nat (v div 10 ^ prec) @ fmt_frac v prec @ u"

definition duration_abs :: "nat \<Rightarrow> string" where
  "duration_abs v =
     (if v = 0 then ''0s''
      else if v < 1000 then fmt_unit v 0 ''ns''
      else if v < 1000000 then fmt_unit v 3 [CHR 0xC2, CHR 0xB5, CHR ''s'']
      else if v < 1000000000 then fmt_unit v 6 ''ms''
      else let secs = v div 10 ^ 9; m = secs div 60; h = m div 60
           in (if h > 0 then show_nat h @ ''h'' else []) @ (if m > 0 then show_nat (m mod 60) @ ''m'' else [])
              @ fmt_unit (secs mod 60 * 10 ^ 9 + v mod 10 ^ 9) 9 ''s'')"

definition duration_string :: "duration \<Rightarrow> string" where
  "duration_string d = (if d < 0 then CHR ''-'' # duration_abs (nat (- d)) else duration_abs (nat d))"

lemma read_nat_zeros: "read_nat (replicate k (CHR ''0'') @ s) = read_nat s"
  by (induction k) (simp_all add: read_nat_def digit_val_def)

lemma pad_inject [simp]: "pad w m = pad w n \<longleftrightarrow> m = n"
  by (metis pad_def read_nat_zeros read_show_nat)

subsection \<open>Reading a printed duration back\<close>

lemma length_pad: "n < 10 ^ w \<Longrightarrow> 0 < w \<Longrightarrow> length (pad w n) = w"
proof -
  have "n < 10 ^ k \<Longrightarrow> 0 < k \<Longrightarrow> length (show_nat n) \<le> k" for k
  proof (induction n arbitrary: k rule: show_nat.induct)
    case (1 n)
    show ?case
    proof (cases "n < 10")
      case False
      then obtain j where j: "k = Suc j" "0 < j" using 1(2,3) by (cases k; cases "k - 1") auto
      then have "length (show_nat (n div 10)) \<le> j" using 1 False by (intro 1(1)) auto
      then show ?thesis using False j by (subst show_nat.simps) simp
    qed (use 1 in \<open>subst show_nat.simps, simp\<close>)
  qed
  then show "n < 10 ^ w \<Longrightarrow> 0 < w \<Longrightarrow> length (pad w n) = w" by (simp add: pad_def)
qed

lemma read_nat_append_zeros: "read_nat (s @ replicate k (CHR ''0'')) = read_nat s * 10 ^ k"
proof (induction k)
  case (Suc k)
  have "read_nat (s @ replicate (Suc k) (CHR ''0'')) = 10 * read_nat (s @ replicate k (CHR ''0''))"
    by (simp add: read_nat_def digit_val_def replicate_append_same [symmetric])
  then show ?case using Suc by simp
qed simp

lemma strip_zeros:
  fixes s defines "t \<equiv> rev (dropWhile (\<lambda>c. c = CHR ''0'') (rev s))"
  shows "s = t @ replicate (length s - length t) (CHR ''0'')"
proof -
  let ?z = "rev (takeWhile (\<lambda>c. c = CHR ''0'') (rev s))"
  have s: "s = t @ ?z" unfolding t_def by (metis rev_append rev_rev_ident takeWhile_dropWhile_id)
  have "\<forall>c\<in>set ?z. c = CHR ''0''" by (auto dest: set_takeWhileD)
  then have z: "?z = replicate (length ?z) (CHR ''0'')" by (metis replicate_length_same)
  have "length ?z = length s - length t" using arg_cong [OF s, of length] by simp
  then show ?thesis using s z by metis
qed

lemma pad_digits: "list_all is_digit (pad w n)"
  using show_nat_digits [of n] by (auto simp: pad_def list_all_iff is_digit_def in_range_def)

lemma fmt_frac_digits:
  assumes "v mod 10 ^ p \<noteq> 0"
  obtains f where "fmt_frac v p = CHR ''.'' # f" "list_all is_digit f" "f \<noteq> []" "length f \<le> p"
    "read_nat f * 10 ^ (p - length f) = v mod 10 ^ p"
proof -
  have p: "0 < p" using assms by (cases p) auto
  let ?s = "pad p (v mod 10 ^ p)"
  define f where "f = rev (dropWhile (\<lambda>c. c = CHR ''0'') (rev ?s))"
  have len: "length ?s = p" by (rule length_pad) (use p in simp_all)
  have s: "?s = f @ replicate (p - length f) (CHR ''0'')" using strip_zeros [of ?s] by (simp add: f_def len)
  then have "read_nat ?s = read_nat f * 10 ^ (p - length f)" using read_nat_append_zeros by metis
  moreover have "read_nat ?s = v mod 10 ^ p" by (simp add: pad_def read_nat_zeros)
  ultimately have r: "read_nat f * 10 ^ (p - length f) = v mod 10 ^ p" by simp
  have "f \<noteq> []"
  proof
    assume "f = []"
    then show False using r assms by (simp add: read_nat_def)
  qed
  moreover have "list_all is_digit f" using pad_digits [of p "v mod 10 ^ p"] s by (metis list_all_append)
  moreover have "length f \<le> p" using arg_cong [OF s, of length] len by simp
  ultimately show thesis using that r assms by (simp add: fmt_frac_def f_def Let_def)
qed

abbreviation "unit_char c \<equiv> \<not> is_digit c \<and> c \<noteq> CHR ''.''"

lemma digits_then:
  assumes "list_all is_digit w" "x = [] \<or> \<not> is_digit (hd x)"
  shows "takeWhile is_digit (w @ x) = w" "dropWhile is_digit (w @ x) = x"
  using assms by (cases x; auto simp: list_all_iff takeWhile_append2)+

lemma unit_then:
  assumes "list_all unit_char u" "r = [] \<or> is_digit (hd r)"
  shows "takeWhile unit_char (u @ r) = u" "dropWhile unit_char (u @ r) = r"
  using assms by (cases r; auto simp: list_all_iff takeWhile_append2)+

lemma duration_term_whole:
  assumes "list_all unit_char u" "u \<noteq> []" "unit_of u = Some k" "r = [] \<or> is_digit (hd r)"
  shows "duration_term (show_nat n @ u @ r) = Some (int n * k, r)"
proof -
  have h: "\<not> is_digit (hd (u @ r))" "hd (u @ r) \<noteq> CHR ''.''" using assms(1,2) by (cases u; simp)+
  have d: "takeWhile is_digit (show_nat n @ u @ r) = show_nat n" "dropWhile is_digit (show_nat n @ u @ r) = u @ r"
    by (rule digits_then [OF show_nat_digits]; simp add: h)+
  have "\<not> has_prefix (u @ r) ''.''" using h(2) assms(2) by (cases u) (auto simp: has_prefix_def)
  then show ?thesis unfolding duration_term_def Let_def d using unit_then [OF assms(1,4)] assms(2,3)
    by (simp add: read_nat_def [of "[]"])
qed

lemma duration_term_frac:
  assumes "list_all unit_char u" "u \<noteq> []" "unit_of u = Some k" "r = [] \<or> is_digit (hd r)" "list_all is_digit f" "f \<noteq> []"
  shows "duration_term (show_nat n @ CHR ''.'' # f @ u @ r)
     = Some (int n * k + (int (read_nat f) * k) div 10 ^ length f, r)"
proof -
  have h: "\<not> is_digit (hd (u @ r))" using assms(1,2) by (cases u) simp_all
  have d: "takeWhile is_digit (show_nat n @ CHR ''.'' # f @ u @ r) = show_nat n"
      "dropWhile is_digit (show_nat n @ CHR ''.'' # f @ u @ r) = CHR ''.'' # f @ u @ r"
    by (rule digits_then [OF show_nat_digits]; simp add: is_digit_def in_range_def)+
  have e: "takeWhile is_digit (f @ u @ r) = f" "dropWhile is_digit (f @ u @ r) = u @ r"
    by (rule digits_then [OF assms(5)]; simp add: h)+
  have "has_prefix (CHR ''.'' # f @ u @ r) ''.''" by (simp add: has_prefix_def)
  then show ?thesis unfolding duration_term_def Let_def d using unit_then [OF assms(1,4)] assms(2,3,6) e by simp
qed

lemma duration_term_unit:
  assumes "list_all unit_char u" "u \<noteq> []" "unit_of u = Some (10 ^ p)" "r = [] \<or> is_digit (hd r)"
  shows "duration_term (fmt_unit v p u @ r) = Some (int v, r)"
proof (cases "v mod 10 ^ p = 0")
  case True
  then have "int (v div 10 ^ p) * 10 ^ p = int v" by (metis dvd_imp_mod_0 dvd_div_mult_self mod_0_imp_dvd of_nat_mult of_nat_numeral of_nat_power)
  then show ?thesis using duration_term_whole [OF assms] True by (simp add: fmt_unit_def fmt_frac_def)
next
  case False
  then obtain f where f: "fmt_frac v p = CHR ''.'' # f" "list_all is_digit f" "f \<noteq> []" "length f \<le> p"
      "read_nat f * 10 ^ (p - length f) = v mod 10 ^ p" using fmt_frac_digits by blast
  have "(10::nat) ^ p = 10 ^ (p - length f) * 10 ^ length f" using f(4) by (simp flip: power_add)
  then have "read_nat f * 10 ^ p div 10 ^ length f = read_nat f * 10 ^ (p - length f)" by simp
  then have "v div 10 ^ p * 10 ^ p + read_nat f * 10 ^ p div 10 ^ length f = v" using f(5) by (simp add: mult.commute)
  then have "int (v div 10 ^ p) * 10 ^ p + int (read_nat f) * 10 ^ p div 10 ^ length f = int v"
    by (metis of_nat_add of_nat_mult of_nat_numeral of_nat_power zdiv_int)
  then show ?thesis using duration_term_frac [OF assms f(2,3)] f(1) by (simp add: fmt_unit_def)
qed

lemma duration_terms_step:
  assumes "duration_term s = Some (v, r)" "s \<noteq> []" "acc + v \<le> int64_max + 1"
  shows "duration_terms s acc = duration_terms r (acc + v)"
  using assms by (subst duration_terms.simps) simp

lemma duration_terms_Nil [simp]: "duration_terms [] acc = Some acc"
  by (simp add: duration_terms.simps)

lemma show_nat_start: "is_digit (hd (show_nat n @ x))"
  using show_nat_digits [of n] by (cases "show_nat n") simp_all

lemma units:
  "list_all unit_char ''ns''" "list_all unit_char [CHR 0xC2, CHR 0xB5, CHR ''s'']" "list_all unit_char ''ms''"
  "list_all unit_char ''s''" "list_all unit_char ''m''" "list_all unit_char ''h''"
  "unit_of ''ns'' = Some (10 ^ 0)" "unit_of [CHR 0xC2, CHR 0xB5, CHR ''s''] = Some (10 ^ 3)" "unit_of ''ms'' = Some (10 ^ 6)"
  "unit_of ''s'' = Some (10 ^ 9)" "unit_of ''m'' = Some minute" "unit_of ''h'' = Some hour"
  by (simp_all add: is_digit_def in_range_def unit_of_def second_def)

lemma fmt_unit_start: "is_digit (hd (fmt_unit v p u @ x))"
  using show_nat_start [of "v div 10 ^ p" "fmt_frac v p @ u @ x"] by (simp add: fmt_unit_def)

lemma fmt_unit_not_Nil [simp]: "fmt_unit v p u \<noteq> []"
  by (simp add: fmt_unit_def)

lemma duration_terms_unit:
  assumes "list_all unit_char u" "u \<noteq> []" "unit_of u = Some (10 ^ p)" "acc + int v \<le> int64_max"
  shows "duration_terms (fmt_unit v p u) acc = Some (acc + int v)"
  using duration_terms_step [OF duration_term_unit [OF assms(1-3), of "[]" v, simplified]] assms(4) by simp

lemma duration_terms_whole:
  assumes "list_all unit_char u" "u \<noteq> []" "unit_of u = Some k" "is_digit (hd r)" "acc + int n * k \<le> int64_max"
  shows "duration_terms (show_nat n @ u @ r) acc = duration_terms r (acc + int n * k)"
  using duration_terms_step [OF duration_term_whole [OF assms(1-3)], of r n acc] assms(4,5) by simp

lemma duration_terms_abs:
  assumes "0 < v" "int v \<le> int64_max"
  shows "duration_terms (duration_abs v) 0 = Some (int v)"
proof (cases "v < 1000000000")
  case True
  then show ?thesis using assms units by (simp add: duration_abs_def duration_terms_unit)
next
  case False
  define secs m h where "secs = v div 10 ^ 9" "m = secs div 60" "h = m div 60"
  define w where "w = secs mod 60 * 10 ^ 9 + v mod 10 ^ 9"
  have v: "int v = int h * hour + int (m mod 60) * minute + int w"
    unfolding secs_m_h_def w_def by (simp add: time_units zdiv_int zmod_int) presburger
  have nonneg: "0 \<le> int h * hour" "0 \<le> int (m mod 60) * minute" by (simp_all add: time_units)
  have tail: "duration_terms (fmt_unit w 9 ''s'') acc = Some (acc + int w)" if "acc + int w \<le> int64_max" for acc
    by (rule duration_terms_unit) (use units that in simp_all)
  have mins: "duration_terms ((if m > 0 then show_nat (m mod 60) @ ''m'' else []) @ fmt_unit w 9 ''s'') (int h * hour) = Some (int v)"
  proof (cases "m > 0")
    case True
    have "duration_terms (show_nat (m mod 60) @ ''m'' @ fmt_unit w 9 ''s'') (int h * hour)
        = duration_terms (fmt_unit w 9 ''s'') (int h * hour + int (m mod 60) * minute)"
      by (rule duration_terms_whole) (use units fmt_unit_start [of w 9 "''s''" "[]"] v assms(2) in simp_all)
    also have "\<dots> = Some (int v)" using tail v assms(2) by simp
    finally show ?thesis using True by simp
  next
    case False
    then show ?thesis using tail v assms(2) by (simp add: secs_m_h_def(3))
  qed
  have "duration_abs v = (if h > 0 then show_nat h @ ''h'' else [])
      @ (if m > 0 then show_nat (m mod 60) @ ''m'' else []) @ fmt_unit w 9 ''s''"
    using False assms(1) by (simp add: duration_abs_def secs_m_h_def w_def Let_def)
  moreover have "duration_terms (show_nat h @ ''h'' @ (if m > 0 then show_nat (m mod 60) @ ''m'' else []) @ fmt_unit w 9 ''s'') 0 = Some (int v)"
    using mins fmt_unit_start [of w 9 "''s''" "[]"] show_nat_start v nonneg assms(2) units
    by (subst duration_terms_whole [of _ hour]) simp_all
  ultimately show ?thesis using mins by (cases "h > 0") simp_all
qed

lemma duration_roundtrip:
  assumes "0 < d" "d \<le> int64_max"
  shows "parse_duration (duration_string d) = Some d"
proof -
  have t: "duration_terms (duration_abs (nat d)) 0 = Some d" using duration_terms_abs [of "nat d"] assms by simp
  have st: "is_digit (hd (duration_abs (nat d)))" "duration_abs (nat d) \<noteq> []" "duration_abs (nat d) \<noteq> ''0''"
    using assms(1) show_nat_start fmt_unit_start [of _ _ _ "[]"] by (auto simp: duration_abs_def Let_def fmt_unit_def)
  then have "\<not> has_prefix (duration_abs (nat d)) ''-''" "\<not> has_prefix (duration_abs (nat d)) ''+''"
    by (cases "duration_abs (nat d)"; auto simp: has_prefix_def is_digit_def in_range_def)+
  then show ?thesis using t st assms by (simp add: parse_duration_def duration_string_def)
qed

lemma duration_term_nonneg: "duration_term s = Some (v, r) \<Longrightarrow> 0 \<le> v"
proof -
  have unit: "unit_of u = Some k \<Longrightarrow> 0 \<le> k" for u k by (auto simp: unit_of_def time_units split: if_splits)
  have "0 \<le> int a * k + (int b * k) div 10 ^ n" if "0 \<le> k" for a b n k using that by (simp add: pos_imp_zdiv_nonneg_iff)
  then show "duration_term s = Some (v, r) \<Longrightarrow> 0 \<le> v"
    using unit unfolding duration_term_def Let_def by (auto split: if_splits option.splits)
qed

lemma duration_terms_nonneg: "duration_terms s acc = Some d \<Longrightarrow> 0 \<le> acc \<Longrightarrow> 0 \<le> d"
proof (induction s acc rule: duration_terms.induct)
  case (1 s acc)
  show ?case
  proof (cases "s = []")
    case False
    then obtain v r where v: "duration_term s = Some (v, r)" "duration_terms r (acc + v) = Some d" "\<not> acc + v > int64_max + 1"
      using 1(2) by (subst (asm) duration_terms.simps) (auto split: option.splits if_splits)
    then show ?thesis using 1(1) [OF False v(1) refl v(3) v(2)] duration_term_nonneg [OF v(1)] 1(3) by simp
  qed (use 1 in simp)
qed

lemma parse_duration_bound: "parse_duration s = Some d \<Longrightarrow> d \<le> int64_max"
  using duration_terms_nonneg [of _ 0] by (fastforce simp: parse_duration_def Let_def int64_max_def split: if_splits option.splits)

end
