(* ===== verification/Campaign.thy ===== *)
theory Campaign
  imports Planner_Correct Go_Text Go_Time
begin

text \<open>
  \<open>depmaint/internal/campaign\<close>: bounded upgrade campaigns (\<open>campaign.go\<close>), their store
  (\<open>store.go\<close>) and the work orders they issue (\<open>workorder.go\<close>). The store is the two tables as
  lists; a row keeps times and durations at whole seconds as the columns do, and the plan column is
  the plan itself (its JSON reads back). Database failures other than a duplicate key are not
  modelled. One operation reads the clock once. The graph provider, the registry, the acceptance test
  and the hash are parameters.
\<close>

subsection \<open>Data\<close>

datatype campaign_type = TypeUpgrade | TypeRuntime | TypeOther string
datatype campaign_status = StatusPlanned | StatusRunning | StatusBlocked | StatusSucceeded | StatusExhausted
datatype verdict = VerdictSucceeded | VerdictRejected | VerdictFailed | VerdictSuperseded | VerdictOther string

record campaign =
  cp_id :: string
  cp_type :: campaign_type
  cp_package :: string
  cp_target :: string
  cp_roots :: "string list"
  cp_status :: campaign_status
  cp_max_attempts :: int
  cp_max_duration :: duration
  cp_spent :: nat
  cp_completed :: nat
  cp_plan :: "plan option"
  cp_plan_hash :: string
  cp_snapshot :: string
  cp_created :: time
  cp_updated :: time

record attempt =
  at_id :: string
  at_campaign :: string
  at_step :: int
  at_plan_hash :: string
  at_snapshot_before :: string
  at_snapshot_after :: string
  at_verdict :: verdict
  at_reason :: string
  at_executor :: string
  at_pr :: string
  at_commit :: string
  at_created :: time

record escalation =
  es_id :: string
  es_campaign :: string
  es_reason :: string
  es_bead :: string
  es_created :: time

record cstore =
  st_campaigns :: "campaign list"
  st_attempts :: "attempt list"
  st_escalations :: "escalation list"

record engine =
  en_registry :: registry
  en_accepts :: accepts
  en_sha256 :: "string \<Rightarrow> string"

text \<open>The graph provider at the time of a call: whether to refresh, to a graph and its snapshot id.\<close>

type_synonym world = "string list \<Rightarrow> bool \<Rightarrow> string + graph \<times> string"

datatype campaign_error =
    Bad_Type campaign_type | No_Package_Or_Target | No_Roots | Bad_Budget | Duplicate_Id string
  | No_Campaign string | World_Failed string | Plan_Failed plan_error | No_Plan string | Graph_Moved string string string
  | Reason_Needed | Bad_Verdict verdict | No_Such_Step string int nat | Filing_Failed string

record new_spec =
  ns_type :: campaign_type
  ns_package :: string
  ns_target :: string
  ns_roots :: "string list"
  ns_max_attempts :: int
  ns_max_duration :: duration

subsection \<open>The store\<close>

definition whole_seconds :: "time \<Rightarrow> time" where
  "whole_seconds t = t div second * second"

text \<open>A row as it is read back: durations and times at whole seconds.\<close>

definition insert_row :: "cstore \<Rightarrow> campaign \<Rightarrow> campaign_error + cstore" where
  "insert_row st c =
     (if cp_id c \<in> cp_id ` set (st_campaigns st) then Inl (Duplicate_Id (cp_id c))
      else Inr (st\<lparr>st_campaigns := st_campaigns st
             @ [c\<lparr>cp_max_duration := go_quot (cp_max_duration c) second * second, cp_plan := None,
                  cp_created := whole_seconds (cp_created c), cp_updated := whole_seconds (cp_updated c)\<rparr>]\<rparr>))"

definition Get :: "cstore \<Rightarrow> string \<Rightarrow> campaign_error + campaign" where
  "Get st cid = (case find_first (\<lambda>c. cp_id c = cid) (st_campaigns st) of None \<Rightarrow> Inl (No_Campaign cid) | Some c \<Rightarrow> Inr c)"

definition save :: "cstore \<Rightarrow> campaign \<Rightarrow> cstore" where
  "save st c = st\<lparr>st_campaigns := map (\<lambda>row. if cp_id row = cp_id c
       then row\<lparr>cp_status := cp_status c, cp_spent := cp_spent c, cp_completed := cp_completed c, cp_plan := cp_plan c,
                cp_plan_hash := cp_plan_hash c, cp_snapshot := cp_snapshot c,
                cp_updated := whole_seconds (cp_updated c)\<rparr>
       else row) (st_campaigns st)\<rparr>"

definition appendAttempt :: "cstore \<Rightarrow> attempt \<Rightarrow> campaign_error + cstore" where
  "appendAttempt st a =
     (if at_id a \<in> at_id ` set (st_attempts st) then Inl (Duplicate_Id (at_id a))
      else Inr (st\<lparr>st_attempts := st_attempts st @ [a\<lparr>at_created := whole_seconds (at_created a)\<rparr>]\<rparr>))"

definition Attempts :: "cstore \<Rightarrow> string \<Rightarrow> attempt list" where
  "Attempts st cid = sort_key (\<lambda>a. (at_created a, at_id a)) (filter (\<lambda>a. at_campaign a = cid) (st_attempts st))"

definition List_status :: "cstore \<Rightarrow> campaign_status option \<Rightarrow> campaign list" where
  "List_status st status = sort_key (\<lambda>c. (cp_created c, cp_id c))
     (filter (\<lambda>c. case status of None \<Rightarrow> True | Some x \<Rightarrow> cp_status c = x) (st_campaigns st))"

subsection \<open>Work orders\<close>

definition em_dash :: string where "em_dash = [CHR 0xE2, CHR 0x80, CHR 0x94]"

definition WorkOrderPath :: "string \<Rightarrow> nat \<Rightarrow> string" where
  "WorkOrderPath cid n = ''.depmaint/work/'' @ cid @ ''-'' @ pad 3 n @ ''.md''"

definition barePackage :: "string \<Rightarrow> string" where
  "barePackage k = (case cut_last (CHR ''@'') k of Some (a, b) \<Rightarrow> (if a = [] then k else a) | None \<Rightarrow> k)"

definition manifest_of :: "string \<Rightarrow> string" where
  "manifest_of ecosystem =
     (if ecosystem = ''go'' then ''go.mod''
      else if ecosystem = ''node'' then ''package.json''
      else if ecosystem = ''python'' then ''pyproject.toml or requirements*.txt''
      else if ecosystem = ''jvm'' then ''pom.xml or build.gradle''
      else ''the manifest that declares it'')"

definition verdict_string :: "verdict \<Rightarrow> string" where
  "verdict_string v = (case v of VerdictSucceeded \<Rightarrow> ''succeeded'' | VerdictRejected \<Rightarrow> ''rejected''
     | VerdictFailed \<Rightarrow> ''failed'' | VerdictSuperseded \<Rightarrow> ''superseded'' | VerdictOther s \<Rightarrow> s)"

definition line_of :: "string \<Rightarrow> string" where "line_of s = s @ newline_text"

definition subgraph_lines :: "graph \<Rightarrow> string \<Rightarrow> string list" where
  "subgraph_lines g pkg =
     sort (map (\<lambda>e. ''- '' @ e_from e @ '' -> '' @ e_to e @ '' (requires '' @ e_requirement e @ '')'')
             (filter (\<lambda>e. barePackage (e_from e) = pkg \<or> barePackage (e_to e) = pkg) (gr_edges g)))"

definition attempt_line :: "attempt \<Rightarrow> string" where
  "attempt_line a = ''- step '' @ show_int (at_step a) @ '' by '' @ at_executor a @ '': '' @ verdict_string (at_verdict a)
     @ (if at_reason a \<noteq> [] then '' '' @ em_dash @ '' '' @ at_reason a else [])"

definition renderWorkOrder :: "campaign \<Rightarrow> graph \<Rightarrow> attempt list \<Rightarrow> string" where
  "renderWorkOrder c g attempts =
     (let pl = the (cp_plan c); x = hd (pl_steps pl); n = cp_completed c + 1;
          ecosystem = takeWhile (\<lambda>ch. ch \<noteq> CHR '':'') (sp_package x); ls = subgraph_lines g (sp_package x)
      in concat (map line_of
        ([''# Work order '' @ cp_id c @ '' step '' @ show_nat n @ '' of '' @ show_nat (cp_completed c + length (pl_steps pl)), [],
          ''## Goal and step'', [],
          ''- campaign: '' @ cp_id c @ '' '' @ em_dash @ '' upgrade '' @ cp_package c @ '' to '' @ cp_target c,
          ''- this step: move '' @ sp_package x @ '' from '' @ sp_from x @ '' to '' @ sp_to x @ '' ('' @ tier_string (sp_tier x) @ '')'',
          ''- attempt budget: '' @ show_nat (cp_spent c) @ '' of '' @ show_int (cp_max_attempts c) @ '' spent'', [],
          ''## Why'', [], sp_rationale x, []]
         @ (if pl_blockers pl = [] then []
            else [''Blockers on the requested upgrade:'', []]
              @ map (\<lambda>b. ''- ['' @ kind_string (bl_kind b) @ ''] '' @ bl_node b @ '': '' @ bl_detail b) (pl_blockers pl) @ [[]])
         @ [''## The change'', [],
            ''Edit '' @ manifest_of ecosystem @ '' under each of: '' @ join '', '' (cp_roots c), [],
            ''Expected movement: '' @ sp_package x @ '' '' @ sp_from x @ '' -> '' @ sp_to x]
         @ (if sp_tier x = TierMajor
            then [''Break signal: major-version bump; read the release notes for removed or changed APIs before editing.''] else [])
         @ [[], ''## Relevant subgraph'', []]
         @ (if ls = [] then [''- no edges touch this package''] else ls)
         @ [[], ''## Prior attempts'', []]
         @ (if attempts = [] then [''- none''] else map attempt_line attempts)
         @ [[], ''## Verification'', [], ''- '' @ sp_verification x,
            ''- `bughunt scan` reports no new findings'',
            ''- expected snapshot delta: remove '' @ sp_package x @ ''@'' @ sp_from x @ '', add '' @ sp_package x @ ''@'' @ sp_to x,
            ''- rollback if it cannot be made green: '' @ sp_rollback x, [],
            ''## Report back'', [],
            ''depmaint campaign record '' @ cp_id c @ '' --step '' @ show_nat n @ '' --verdict <succeeded|rejected|failed> '' @ [CHR 0x5C],
            ''  --reason '' @ [CHR 0x22] @ ''...'' @ [CHR 0x22] @ '' [--pr <url>] [--executor <name>]''])))"

subsection \<open>The engine\<close>

definition New :: "cstore \<Rightarrow> time \<Rightarrow> new_spec \<Rightarrow> (campaign_error + campaign) \<times> cstore" where
  "New st now spec =
     (if ns_type spec \<noteq> TypeUpgrade \<and> ns_type spec \<noteq> TypeRuntime then (Inl (Bad_Type (ns_type spec)), st)
      else if ns_package spec = [] \<or> ns_target spec = [] then (Inl No_Package_Or_Target, st)
      else if ns_roots spec = [] then (Inl No_Roots, st)
      else if ns_max_attempts spec \<le> 0 \<or> ns_max_duration spec \<le> 0 then (Inl Bad_Budget, st)
      else let c = \<lparr>cp_id = ''dep_c'' @ show_nat (length (st_campaigns st) + 1), cp_type = ns_type spec,
                    cp_package = ns_package spec, cp_target = ns_target spec, cp_roots = ns_roots spec,
                    cp_status = StatusPlanned, cp_max_attempts = ns_max_attempts spec,
                    cp_max_duration = ns_max_duration spec, cp_spent = 0, cp_completed = 0, cp_plan = None,
                    cp_plan_hash = [], cp_snapshot = [], cp_created = now, cp_updated = now\<rparr>
           in case insert_row st c of Inl e \<Rightarrow> (Inl e, st) | Inr st' \<Rightarrow> (Inr c, st'))"

definition replan :: "engine \<Rightarrow> world \<Rightarrow> time \<Rightarrow> cstore \<Rightarrow> campaign \<Rightarrow> bool \<Rightarrow> (campaign_error + campaign) \<times> cstore" where
  "replan E w now st c refresh =
     (case w (cp_roots c) refresh of
        Inl e \<Rightarrow> (Inl (World_Failed e), st)
      | Inr (g, snapshot) \<Rightarrow>
          (case Make g \<lparr>up_package = cp_package c, up_target = cp_target c\<rparr> (en_registry E) (en_accepts E) of
             Inl (Already_At_Target p t) \<Rightarrow>
               (let c' = c\<lparr>cp_status := StatusSucceeded, cp_plan := None, cp_plan_hash := [], cp_snapshot := snapshot,
                           cp_updated := now\<rparr> in (Inr c', save st c'))
           | Inl e \<Rightarrow> (Inl (Plan_Failed e), st)
           | Inr pl \<Rightarrow>
               (let c' = c\<lparr>cp_status := (if pl_feasible pl then StatusRunning else StatusBlocked), cp_plan := Some pl,
                           cp_plan_hash := hex_encode (en_sha256 E (Render pl)), cp_snapshot := snapshot,
                           cp_updated := now\<rparr> in (Inr c', save st c'))))"

definition Plan :: "engine \<Rightarrow> world \<Rightarrow> time \<Rightarrow> cstore \<Rightarrow> string \<Rightarrow> bool \<Rightarrow> (campaign_error + campaign) \<times> cstore" where
  "Plan E w now st cid refresh =
     (case Get st cid of Inl e \<Rightarrow> (Inl e, st) | Inr c \<Rightarrow> replan E w now st c refresh)"

datatype next_answer =
    NextDispatch campaign nat nat string
  | NextSucceeded campaign
  | NextExhausted campaign
  | NextBlocked campaign "(nat \<times> string) option"

definition over_budget :: "time \<Rightarrow> campaign \<Rightarrow> bool" where
  "over_budget now c \<longleftrightarrow> int (cp_spent c) \<ge> cp_max_attempts c \<or> time_sub now (cp_created c) \<ge> cp_max_duration c"

definition gating_rejection :: "campaign \<Rightarrow> nat \<Rightarrow> attempt \<Rightarrow> bool" where
  "gating_rejection c n a \<longleftrightarrow> at_verdict a = VerdictRejected \<and> at_step a = int n
     \<and> at_plan_hash a = cp_plan_hash c \<and> at_snapshot_before a = cp_snapshot c"

definition next_live :: "world \<Rightarrow> cstore \<Rightarrow> string \<Rightarrow> campaign \<Rightarrow> plan \<Rightarrow> campaign_error + next_answer" where
  "next_live w st cid c pl =
     (let n = cp_completed c + 1; attempts = Attempts st cid in
      if \<not> pl_feasible pl then Inr (NextBlocked c None)
      else case find_first (gating_rejection c n) attempts of
             Some a \<Rightarrow> Inr (NextBlocked c (Some (n, at_reason a)))
           | None \<Rightarrow>
               (case w (cp_roots c) False of
                  Inl e \<Rightarrow> Inl (World_Failed e)
                | Inr (g, snapshot) \<Rightarrow>
                    (if snapshot \<noteq> cp_snapshot c then Inl (Graph_Moved cid (cp_snapshot c) snapshot)
                     else Inr (NextDispatch c n (cp_completed c + length (pl_steps pl)) (renderWorkOrder c g attempts)))))"

definition Next :: "world \<Rightarrow> time \<Rightarrow> cstore \<Rightarrow> string \<Rightarrow> (campaign_error + next_answer) \<times> cstore" where
  "Next w now st cid =
     (case Get st cid of
        Inl e \<Rightarrow> (Inl e, st)
      | Inr c \<Rightarrow>
          (if cp_status c = StatusSucceeded then (Inr (NextSucceeded c), st)
           else case cp_plan c of
                  None \<Rightarrow> (Inl (No_Plan cid), st)
                | Some pl \<Rightarrow>
                    (let expire = cp_status c \<noteq> StatusExhausted \<and> over_budget now c;
                         c' = (if expire then c\<lparr>cp_status := StatusExhausted, cp_updated := now\<rparr> else c);
                         st' = (if expire then save st c' else st)
                     in if cp_status c' = StatusExhausted then (Inr (NextExhausted c'), st')
                        else (next_live w st' cid c' pl, st'))))"

record record_input =
  ri_campaign :: string
  ri_step :: int
  ri_verdict :: verdict
  ri_reason :: string
  ri_executor :: string
  ri_pr :: string
  ri_commit :: string

definition new_attempt :: "campaign \<Rightarrow> time \<Rightarrow> record_input \<Rightarrow> bool \<Rightarrow> attempt" where
  "new_attempt c now inp superseded =
     \<lparr>at_id = cp_id c @ ''-a'' @ pad 3 (cp_spent c + 1), at_campaign = cp_id c, at_step = ri_step inp,
      at_plan_hash = cp_plan_hash c, at_snapshot_before = cp_snapshot c, at_snapshot_after = [],
      at_verdict = (if superseded then VerdictSuperseded else ri_verdict inp), at_reason = ri_reason inp,
      at_executor = (if ri_executor inp = [] then ''unlabeled'' else ri_executor inp),
      at_pr = ri_pr inp, at_commit = ri_commit inp, at_created = now\<rparr>"

definition append_recorded :: "cstore \<Rightarrow> attempt \<Rightarrow> campaign \<Rightarrow> (campaign_error + attempt \<times> campaign) \<times> cstore" where
  "append_recorded st a c =
     (case appendAttempt st a of Inl e \<Rightarrow> (Inl e, st) | Inr st' \<Rightarrow> (Inr (a, c), st'))"

text \<open>The part of \<open>Record\<close> after its checks: \<open>superseded\<close> is a report for a step already
  completed.\<close>

definition record_live :: "engine \<Rightarrow> world \<Rightarrow> time \<Rightarrow> cstore \<Rightarrow> campaign \<Rightarrow> record_input \<Rightarrow> bool
    \<Rightarrow> (campaign_error + attempt \<times> campaign) \<times> cstore" where
  "record_live E w now st c inp superseded =
     (let a = new_attempt c now inp superseded;
          c1 = c\<lparr>cp_spent := cp_spent c + 1\<rparr>
      in if \<not> superseded \<and> ri_verdict inp = VerdictSucceeded then
           (case replan E w now st (c1\<lparr>cp_completed := cp_completed c + 1\<rparr>) True of
              (Inl e, st') \<Rightarrow> (Inl e, st')
            | (Inr c2, st') \<Rightarrow> append_recorded st' (a\<lparr>at_snapshot_after := cp_snapshot c2\<rparr>) c2)
         else append_recorded (save st (c1\<lparr>cp_updated := now\<rparr>)) a (c1\<lparr>cp_updated := now\<rparr>))"

definition Record :: "engine \<Rightarrow> world \<Rightarrow> time \<Rightarrow> cstore \<Rightarrow> record_input \<Rightarrow> (campaign_error + attempt \<times> campaign) \<times> cstore" where
  "Record E w now st inp =
     (if ri_verdict inp = VerdictRejected \<and> ri_reason inp = [] then (Inl Reason_Needed, st)
      else if ri_verdict inp \<notin> {VerdictSucceeded, VerdictFailed, VerdictRejected} then (Inl (Bad_Verdict (ri_verdict inp)), st)
      else case Get st (ri_campaign inp) of
             Inl e \<Rightarrow> (Inl e, st)
           | Inr c \<Rightarrow>
               (if cp_plan c = None then (Inl (No_Plan (cp_id c)), st)
                else let live = cp_completed c + 1 in
                  if ri_step inp > int live \<or> ri_step inp < 1 then (Inl (No_Such_Step (cp_id c) (ri_step inp) live), st)
                  else record_live E w now st c inp (ri_step inp < int live \<or> cp_status c = StatusSucceeded)))"

end
