(* ===== verification/Campaign_Report.thy ===== *)
theory Campaign_Report
  imports Campaign
begin

text \<open>
  Reports and escalations of a campaign (\<open>report.go\<close> and the escalation log of \<open>store.go\<close>). The
  tracker is a parameter: what filing an item with a title and a body answers.
\<close>

definition AppendEscalation :: "cstore \<Rightarrow> escalation \<Rightarrow> campaign_error + cstore" where
  "AppendEscalation st e =
     (if es_id e \<in> es_id ` set (st_escalations st) then Inl (Duplicate_Id (es_id e))
      else Inr (st\<lparr>st_escalations := st_escalations st @ [e\<lparr>es_created := whole_seconds (es_created e)\<rparr>]\<rparr>))"

definition Escalations :: "cstore \<Rightarrow> string \<Rightarrow> escalation list" where
  "Escalations st cid = sort_key (\<lambda>e. (es_created e, es_id e)) (filter (\<lambda>e. es_campaign e = cid) (st_escalations st))"

definition ReportPath :: "string \<Rightarrow> string" where
  "ReportPath cid = ''.depmaint/reports/'' @ cid @ ''.md''"

definition budgetBar :: "int \<Rightarrow> int \<Rightarrow> string" where
  "budgetBar spent max_attempts =
     (let filled = nat (min (go_quot (spent * 20) max_attempts) 20)
      in ''['' @ replicate filled (CHR ''#'') @ replicate (20 - filled) (CHR ''-'') @ '']'')"

definition status_string :: "campaign_status \<Rightarrow> string" where
  "status_string s = (case s of StatusPlanned \<Rightarrow> ''planned'' | StatusRunning \<Rightarrow> ''running'' | StatusBlocked \<Rightarrow> ''blocked''
     | StatusSucceeded \<Rightarrow> ''succeeded'' | StatusExhausted \<Rightarrow> ''exhausted'')"

definition fence :: string where "fence = replicate 3 (CHR 0x60)"

definition rejection_line :: "attempt \<Rightarrow> string" where
  "rejection_line a = ''- step '' @ show_int (at_step a) @ '' by '' @ at_executor a @ '': '' @ at_reason a"

definition log_line :: "attempt \<Rightarrow> string" where
  "log_line a = ''- '' @ at_id a @ '' step '' @ show_int (at_step a) @ '' by '' @ at_executor a @ '': '' @ verdict_string (at_verdict a)
     @ (if at_reason a \<noteq> [] then '' '' @ em_dash @ '' '' @ at_reason a else [])
     @ (if at_pr a \<noteq> [] then '' ('' @ at_pr a @ '')'' else [])"

definition escalation_line :: "escalation \<Rightarrow> string" where
  "escalation_line e = ''- '' @ format_utc (es_created e) @ '': '' @ es_reason e
     @ '' ('' @ (if es_bead e = [] then ''no tracker available'' else es_bead e) @ '')''"

definition report_text :: "campaign \<Rightarrow> attempt list \<Rightarrow> escalation list \<Rightarrow> string" where
  "report_text c attempts escalations =
     concat (map line_of
       [''# Campaign '' @ cp_id c, [],
        ''- goal: upgrade '' @ cp_package c @ '' to '' @ cp_target c,
        ''- status: '' @ status_string (cp_status c),
        ''- budget: '' @ budgetBar (int (cp_spent c)) (cp_max_attempts c) @ '' '' @ show_nat (cp_spent c) @ '' of ''
          @ show_int (cp_max_attempts c) @ '' attempts; time limit '' @ duration_string (cp_max_duration c),
        ''- created: '' @ format_utc (cp_created c), [],
        ''## Blockers and plan'', []])
     @ (case cp_plan c of
          None \<Rightarrow> line_of ''No plan yet.'' @ line_of []
        | Some pl \<Rightarrow> line_of fence @ Render pl @ line_of fence @ line_of []
            @ line_of (show_nat (cp_completed c) @ '' of '' @ show_nat (cp_completed c + length (pl_steps pl)) @ '' steps landed.'') @ line_of [])
     @ concat (map line_of
       ([''## Open work order'', [],
         (if (case cp_plan c of None \<Rightarrow> False | Some pl \<Rightarrow> pl_feasible pl) \<and> cp_status c = StatusRunning
          then WorkOrderPath (cp_id c) (cp_completed c + 1) @ '' (step '' @ show_nat (cp_completed c + 1) @ '')'' else ''None.''), [],
         ''## Options considered and rejected'', []]
        @ (let rejected = filter (\<lambda>a. at_verdict a = VerdictRejected) attempts
           in if rejected = [] then [''- none''] else map rejection_line rejected)
        @ [[], ''## Attempt log'', []] @ (if attempts = [] then [''- none''] else map log_line attempts) @ [[]]
        @ (if escalations = [] then [] else [''## Escalations'', []] @ map escalation_line escalations)))"

definition Report :: "cstore \<Rightarrow> string \<Rightarrow> campaign_error + string" where
  "Report st cid =
     (case Get st cid of Inl e \<Rightarrow> Inl e | Inr c \<Rightarrow> Inr (report_text c (Attempts st cid) (Escalations st cid)))"

record escalated =
  ed_escalation :: escalation
  ed_report :: string
  ed_path :: string
  ed_filed :: bool

type_synonym bead_filer = "string \<Rightarrow> string \<Rightarrow> string + string"

definition escalation_title :: "string \<Rightarrow> campaign \<Rightarrow> string" where
  "escalation_title cid c = ''depmaint '' @ cid @ '': upgrade '' @ cp_package c @ '' to '' @ cp_target c @ '' needs a decision''"

definition escalation_body :: "string \<Rightarrow> string \<Rightarrow> string" where
  "escalation_body reason path = line_of reason @ line_of [] @ line_of (''Campaign report: '' @ path)"

definition Escalate :: "cstore \<Rightarrow> time \<Rightarrow> string \<Rightarrow> string \<Rightarrow> bead_filer option \<Rightarrow> (campaign_error + escalated) \<times> cstore" where
  "Escalate st now cid reason filer =
     (if reason = [] then (Inl Reason_Needed, st)
      else case Get st cid of
             Inl e \<Rightarrow> (Inl e, st)
           | Inr c \<Rightarrow>
               (case (case filer of None \<Rightarrow> Inr [] | Some file \<Rightarrow> file (escalation_title cid c) (escalation_body reason (ReportPath cid))) of
                  Inl e \<Rightarrow> (Inl (Filing_Failed e), st)
                | Inr bead \<Rightarrow>
                    (let esc = \<lparr>es_id = cid @ ''-e'' @ pad 2 (length (Escalations st cid) + 1), es_campaign = cid,
                                es_reason = reason, es_bead = bead, es_created = now\<rparr>
                     in case AppendEscalation st esc of
                          Inl e \<Rightarrow> (Inl e, st)
                        | Inr st' \<Rightarrow>
                            (case Report st' cid of
                               Inl e \<Rightarrow> (Inl e, st')
                             | Inr text \<Rightarrow> (Inr \<lparr>ed_escalation = esc, ed_report = text, ed_path = ReportPath cid, ed_filed = (filer \<noteq> None)\<rparr>, st')))))"

end
