(* ===== verification/Campaign_Inv.thy ===== *)
theory Campaign_Inv
  imports Campaign_Report
begin

text \<open>
  The invariant of the campaign store, kept by every sequence of engine calls: counters agree with the
  append-only log, attempt ids never collide, a completed campaign has no plan, a feasible plan has a
  step to issue. From it: what \<open>Next\<close> dispatches and that a spent budget is never exceeded again.
\<close>

subsection \<open>Engine calls as steps\<close>

inductive engine_step :: "engine \<Rightarrow> cstore \<Rightarrow> cstore \<Rightarrow> bool" for E where
  step_new: "New st now spec = (res, st') \<Longrightarrow> engine_step E st st'"
| step_plan: "Plan E w now st cid refresh = (res, st') \<Longrightarrow> engine_step E st st'"
| step_next: "Next w now st cid = (ans, st') \<Longrightarrow> engine_step E st st'"
| step_record: "Record E w now st inp = (out, st') \<Longrightarrow> engine_step E st st'"
| step_escalate: "Escalate st now cid reason filer = (ed, st') \<Longrightarrow> engine_step E st st'"

definition empty_store :: cstore where "empty_store = \<lparr>st_campaigns = [], st_attempts = [], st_escalations = []\<rparr>"

subsection \<open>Ids\<close>

definition campaign_id :: "nat \<Rightarrow> string" where "campaign_id i = ''dep_c'' @ show_nat (i + 1)"
definition attempt_id :: "string \<Rightarrow> nat \<Rightarrow> string" where "attempt_id cid n = cid @ ''-a'' @ pad 3 n"

lemma campaign_id_inject [simp]: "campaign_id i = campaign_id j \<longleftrightarrow> i = j"
  by (simp add: campaign_id_def)

lemma campaign_id_no_dash: "CHR ''-'' \<notin> set (campaign_id i)"
  using show_nat_no_char [of "CHR ''-''" "i + 1"] by (simp add: campaign_id_def is_digit_def in_range_def)

lemma attempt_id_inject:
  assumes "attempt_id (campaign_id i) m = attempt_id (campaign_id j) n"
  shows "i = j \<and> m = n"
proof -
  have "campaign_id i @ CHR ''-'' # (CHR ''a'' # pad 3 m) = campaign_id j @ CHR ''-'' # (CHR ''a'' # pad 3 n)"
    using assms by (simp add: attempt_id_def)
  from append_sep_eq [OF campaign_id_no_dash campaign_id_no_dash this] show ?thesis by simp
qed

subsection \<open>The invariant\<close>

definition row_ok :: "attempt list \<Rightarrow> campaign \<Rightarrow> bool" where
  "row_ok log c \<longleftrightarrow>
     cp_spent c = length log
     \<and> cp_completed c = length (filter (\<lambda>a. at_verdict a = VerdictSucceeded) log)
     \<and> map at_id log = map (\<lambda>i. attempt_id (cp_id c) (i + 1)) [0..<length log]
     \<and> (\<forall>a\<in>set log. 1 \<le> at_step a \<and> at_step a \<le> int (cp_completed c) + 1)
     \<and> (cp_status c = StatusSucceeded \<longrightarrow> cp_plan c = None)
     \<and> (\<forall>pl. cp_plan c = Some pl \<longrightarrow> pl_feasible pl \<longrightarrow> pl_steps pl \<noteq> [])
     \<and> 0 < cp_max_attempts c"

definition log_of :: "cstore \<Rightarrow> string \<Rightarrow> attempt list" where
  "log_of st cid = filter (\<lambda>a. at_campaign a = cid) (st_attempts st)"

definition store_inv :: "cstore \<Rightarrow> bool" where
  "store_inv st \<longleftrightarrow>
     map cp_id (st_campaigns st) = map campaign_id [0..<length (st_campaigns st)]
     \<and> (\<forall>c\<in>set (st_campaigns st). row_ok (log_of st (cp_id c)) c)
     \<and> at_campaign ` set (st_attempts st) \<subseteq> cp_id ` set (st_campaigns st)"

lemma Get_Inr: "Get st cid = Inr c \<Longrightarrow> c \<in> set (st_campaigns st) \<and> cp_id c = cid"
  by (auto simp: Get_def split: option.splits dest: find_first_SomeD)

lemma store_ids:
  assumes "store_inv st"
  shows "distinct (map cp_id (st_campaigns st))" "cp_id ` set (st_campaigns st) = campaign_id ` {..<length (st_campaigns st)}"
proof -
  have m: "map cp_id (st_campaigns st) = map campaign_id [0..<length (st_campaigns st)]"
    using assms by (simp add: store_inv_def)
  then show "distinct (map cp_id (st_campaigns st))" by (simp add: distinct_map inj_on_def)
  have "set (map cp_id (st_campaigns st)) = set (map campaign_id [0..<length (st_campaigns st)])" unfolding m ..
  then show "cp_id ` set (st_campaigns st) = campaign_id ` {..<length (st_campaigns st)}" by (simp add: atLeast0LessThan)
qed

lemma unique_row: "store_inv st \<Longrightarrow> c \<in> set (st_campaigns st) \<Longrightarrow> d \<in> set (st_campaigns st) \<Longrightarrow> cp_id c = cp_id d \<Longrightarrow> c = d"
  using store_ids(1) by (metis (no_types, lifting) distinct_map inj_onD)

text \<open>What \<open>save\<close> writes into the row of \<open>c\<close>.\<close>

definition saved_row :: "campaign \<Rightarrow> campaign \<Rightarrow> campaign" where
  "saved_row row c = row\<lparr>cp_status := cp_status c, cp_spent := cp_spent c, cp_completed := cp_completed c,
     cp_plan := cp_plan c, cp_plan_hash := cp_plan_hash c, cp_snapshot := cp_snapshot c,
     cp_updated := whole_seconds (cp_updated c)\<rparr>"

lemma saved_row_ok: "cp_id row = cp_id c \<Longrightarrow> cp_max_attempts row = cp_max_attempts c \<Longrightarrow>
    row_ok log (saved_row row c) = row_ok log c"
  by (simp add: row_ok_def saved_row_def)

lemma save_campaigns:
  "st_campaigns (save st c) = map (\<lambda>row. if cp_id row = cp_id c then saved_row row c else row) (st_campaigns st)"
  "st_attempts (save st c) = st_attempts st"
  by (simp_all add: save_def saved_row_def cong: map_cong)

text \<open>A write to one row together with appending \<open>new\<close> attempts of that campaign to the log.\<close>

lemma store_inv_write:
  assumes "store_inv st" "row \<in> set (st_campaigns st)" "cp_id c = cp_id row" "cp_max_attempts c = cp_max_attempts row"
    and "row_ok (log_of st (cp_id row) @ new) c" "\<forall>a\<in>set new. at_campaign a = cp_id row"
    and "st' = (save st c)\<lparr>st_attempts := st_attempts st @ new\<rparr>"
  shows "store_inv st'"
proof -
  have ids: "map cp_id (st_campaigns st') = map cp_id (st_campaigns st)"
    by (simp add: assms(7) save_campaigns saved_row_def)
  have log: "log_of st' cid = (if cid = cp_id row then log_of st cid @ new else log_of st cid)" for cid
    using assms(6) by (auto simp: log_of_def assms(7) filter_empty_conv filter_id_conv)
  have "row_ok (log_of st' (cp_id d)) d" if d: "d \<in> set (st_campaigns st')" for d
  proof -
    obtain d0 where d0: "d0 \<in> set (st_campaigns st)" "d = (if cp_id d0 = cp_id c then saved_row d0 c else d0)"
      using d by (auto simp: assms(7) save_campaigns)
    show ?thesis
    proof (cases "cp_id d0 = cp_id row")
      case True
      then have "d0 = row" using unique_row [OF assms(1) d0(1) assms(2)] by simp
      then show ?thesis using d0(2) assms(3-5) log saved_row_ok [of row c]
        by (simp add: saved_row_def)
    next
      case False
      then show ?thesis using d0 assms(1,3) log by (simp add: store_inv_def)
    qed
  qed
  moreover have "at_campaign ` set (st_attempts st') \<subseteq> cp_id ` set (st_campaigns st')"
  proof -
    have "cp_id ` set (st_campaigns st') = cp_id ` set (st_campaigns st)" using ids by (metis set_map)
    then show ?thesis using assms(1,2,6) by (auto simp: store_inv_def assms(7))
  qed
  moreover have "length (st_campaigns st') = length (st_campaigns st)" by (simp add: assms(7) save_campaigns)
  ultimately show ?thesis using assms(1) ids by (simp add: store_inv_def)
qed

lemma store_inv_save:
  assumes "store_inv st" "row \<in> set (st_campaigns st)" "cp_id c = cp_id row" "cp_max_attempts c = cp_max_attempts row"
    and "row_ok (log_of st (cp_id row)) c"
  shows "store_inv (save st c)"
proof (rule store_inv_write [OF assms(1-4), of "[]"])
  show "row_ok (log_of st (cp_id row) @ []) c" using assms(5) by simp
  show "save st c = (save st c)\<lparr>st_attempts := st_attempts st @ []\<rparr>" by (simp add: save_def)
qed simp

subsection \<open>Every call keeps it\<close>

lemma New_inv:
  assumes "store_inv st" "New st now spec = (res, st')"
  shows "store_inv st'"
proof (cases "st' = st")
  case False
  let ?n = "length (st_campaigns st)"
  obtain row where st': "st' = st\<lparr>st_campaigns := st_campaigns st @ [row]\<rparr>" and row: "cp_id row = campaign_id ?n"
      "cp_spent row = 0" "cp_completed row = 0" "cp_plan row = None" "0 < cp_max_attempts row"
    using assms(2) False
    by (auto simp: New_def insert_row_def Let_def campaign_id_def split: if_splits)
  have ids: "cp_id ` set (st_campaigns st) = campaign_id ` {..<?n}" using store_ids(2) [OF assms(1)] .
  have att: "at_campaign ` set (st_attempts st) \<subseteq> cp_id ` set (st_campaigns st)"
    using assms(1) by (simp add: store_inv_def)
  have "campaign_id ?n \<notin> cp_id ` set (st_campaigns st)" unfolding ids by auto
  then have "at_campaign a \<noteq> campaign_id ?n" if "a \<in> set (st_attempts st)" for a
    using att that by (metis image_eqI subsetD)
  then have "log_of st (campaign_id ?n) = []" by (simp add: log_of_def filter_empty_conv)
  then have new_ok: "row_ok (log_of st' (cp_id row)) row" using row by (simp add: row_ok_def log_of_def st')
  have log: "log_of st' = log_of st" by (simp add: log_of_def st' fun_eq_iff)
  have "row_ok (log_of st' (cp_id c)) c" if "c \<in> set (st_campaigns st')" for c
  proof (cases "c = row")
    case False
    then have "c \<in> set (st_campaigns st)" using that by (simp add: st')
    then show ?thesis using assms(1) unfolding log by (simp add: store_inv_def)
  qed (use new_ok in simp)
  moreover have "map cp_id (st_campaigns st') = map campaign_id [0..<length (st_campaigns st')]"
    using assms(1) row(1) by (simp add: store_inv_def st')
  moreover have "at_campaign ` set (st_attempts st') \<subseteq> cp_id ` set (st_campaigns st')"
    using att by (auto simp: st')
  ultimately show ?thesis unfolding store_inv_def by blast
qed (use assms in simp)

text \<open>A feasible plan has at least the target's own step.\<close>

lemma Make_steps: "Make g up reg acc = Inr pl \<Longrightarrow> pl_feasible pl \<Longrightarrow> pl_steps pl \<noteq> []"
  using Make_Inr [of g up reg acc pl] closure_sound [of _ "pl_tier pl" "pl_steps pl"] by (auto simp: plan_sound_def)

lemma replan_cases:
  assumes "replan E w now st c refresh = (res, st')"
  shows "(\<exists>e. res = Inl e \<and> st' = st)
     \<or> (\<exists>c'. res = Inr c' \<and> st' = save st c' \<and> cp_id c' = cp_id c \<and> cp_max_attempts c' = cp_max_attempts c
          \<and> cp_spent c' = cp_spent c \<and> cp_completed c' = cp_completed c
          \<and> (cp_status c' = StatusSucceeded \<longrightarrow> cp_plan c' = None)
          \<and> (\<forall>pl. cp_plan c' = Some pl \<longrightarrow> pl_feasible pl \<longrightarrow> pl_steps pl \<noteq> []))"
  using assms Make_steps
  by (auto simp: replan_def Let_def split: sum.splits plan_error.splits prod.splits if_splits)

lemma row_ok_replanned:
  assumes "row_ok log c" "cp_id c' = cp_id c" "cp_max_attempts c' = cp_max_attempts c" "cp_spent c' = cp_spent c"
    and "cp_completed c' = cp_completed c" "cp_status c' = StatusSucceeded \<longrightarrow> cp_plan c' = None"
    and "\<forall>pl. cp_plan c' = Some pl \<longrightarrow> pl_feasible pl \<longrightarrow> pl_steps pl \<noteq> []"
  shows "row_ok log c'"
  unfolding row_ok_def assms(2-5) using assms(1,6,7) unfolding row_ok_def by blast

lemma Plan_inv:
  assumes "store_inv st" "Plan E w now st cid refresh = (res, st')"
  shows "store_inv st'"
proof (cases "Get st cid")
  case (Inr c)
  then have r: "replan E w now st c refresh = (res, st')" using assms(2) by (simp add: Plan_def)
  have c: "c \<in> set (st_campaigns st)" using Get_Inr [OF Inr] by blast
  then have ok: "row_ok (log_of st (cp_id c)) c" using assms(1) by (simp add: store_inv_def)
  from replan_cases [OF r] show ?thesis
  proof
    assume "\<exists>c'. res = Inr c' \<and> st' = save st c' \<and> cp_id c' = cp_id c \<and> cp_max_attempts c' = cp_max_attempts c
          \<and> cp_spent c' = cp_spent c \<and> cp_completed c' = cp_completed c
          \<and> (cp_status c' = StatusSucceeded \<longrightarrow> cp_plan c' = None)
          \<and> (\<forall>pl. cp_plan c' = Some pl \<longrightarrow> pl_feasible pl \<longrightarrow> pl_steps pl \<noteq> [])"
    then show ?thesis using store_inv_save [OF assms(1) c] row_ok_replanned [OF ok] by metis
  qed (use assms(1) in auto)
qed (use assms in \<open>auto simp: Plan_def\<close>)

lemma Next_cases:
  assumes "Next w now st cid = (ans, st')"
  shows "st' = st \<or> (\<exists>c. Get st cid = Inr c \<and> over_budget now c
      \<and> st' = save st (c\<lparr>cp_status := StatusExhausted, cp_updated := now\<rparr>))"
  using assms by (auto simp: Next_def Let_def split: sum.splits option.splits if_splits)

lemma Next_inv:
  assumes "store_inv st" "Next w now st cid = (ans, st')"
  shows "store_inv st'"
  using Next_cases [OF assms(2)]
proof
  assume "\<exists>c. Get st cid = Inr c \<and> over_budget now c
      \<and> st' = save st (c\<lparr>cp_status := StatusExhausted, cp_updated := now\<rparr>)"
  then obtain c where g: "Get st cid = Inr c" and st': "st' = save st (c\<lparr>cp_status := StatusExhausted, cp_updated := now\<rparr>)"
    by blast
  have c: "c \<in> set (st_campaigns st)" using Get_Inr [OF g] by blast
  then have "row_ok (log_of st (cp_id c)) c" using assms(1) by (simp add: store_inv_def)
  then have "row_ok (log_of st (cp_id c)) (c\<lparr>cp_status := StatusExhausted, cp_updated := now\<rparr>)"
    by (rule row_ok_replanned) (use \<open>row_ok (log_of st (cp_id c)) c\<close> in \<open>simp_all add: row_ok_def\<close>)
  then show ?thesis unfolding st' by (intro store_inv_save [OF assms(1) c]) simp_all
qed (use assms(1) in simp)

text \<open>Every effective record is one row write and one log entry: a live success advances and re-plans,
  anything else only spends.\<close>

definition advances :: "campaign \<Rightarrow> campaign \<Rightarrow> attempt \<Rightarrow> bool" where
  "advances c c2 a \<longleftrightarrow> at_verdict a = VerdictSucceeded \<and> at_step a = int (cp_completed c) + 1
     \<and> cp_completed c2 = cp_completed c + 1 \<and> (cp_status c2 = StatusSucceeded \<longrightarrow> cp_plan c2 = None)
     \<and> (\<forall>pl. cp_plan c2 = Some pl \<longrightarrow> pl_feasible pl \<longrightarrow> pl_steps pl \<noteq> [])"

definition only_spends :: "campaign \<Rightarrow> campaign \<Rightarrow> attempt \<Rightarrow> bool" where
  "only_spends c c2 a \<longleftrightarrow> at_verdict a \<noteq> VerdictSucceeded \<and> cp_completed c2 = cp_completed c
     \<and> cp_status c2 = cp_status c \<and> cp_plan c2 = cp_plan c \<and> cp_plan_hash c2 = cp_plan_hash c
     \<and> cp_snapshot c2 = cp_snapshot c"

definition recorded_entry :: "campaign \<Rightarrow> record_input \<Rightarrow> campaign \<Rightarrow> attempt \<Rightarrow> bool" where
  "recorded_entry c inp c2 a \<longleftrightarrow> cp_plan c \<noteq> None \<and> cp_id c2 = cp_id c \<and> cp_max_attempts c2 = cp_max_attempts c
     \<and> cp_spent c2 = cp_spent c + 1 \<and> at_id a = attempt_id (cp_id c) (cp_spent c + 1) \<and> at_campaign a = cp_id c
     \<and> at_step a = ri_step inp \<and> 1 \<le> ri_step inp \<and> ri_step inp \<le> int (cp_completed c) + 1
     \<and> (advances c c2 a \<or> only_spends c c2 a)"

lemma Record_success:
  assumes "replan E w now st (c\<lparr>cp_spent := cp_spent c + 1, cp_completed := cp_completed c + 1\<rparr>) True = (Inr c2, st1)"
    and "cp_plan c \<noteq> None" "ri_step inp = int (cp_completed c) + 1" "ri_verdict inp = VerdictSucceeded"
  shows "st1 = save st c2 \<and> recorded_entry c inp c2 ((new_attempt c now inp False)\<lparr>at_snapshot_after := cp_snapshot c2\<rparr>)"
  using replan_cases [OF assms(1)] assms(2-4)
  by (auto simp: recorded_entry_def advances_def new_attempt_def attempt_id_def)

lemma record_live_cases:
  assumes "record_live E w now st c inp late = (out, st')" "cp_plan c \<noteq> None" "1 \<le> ri_step inp"
    and "ri_step inp \<le> int (cp_completed c) + 1" "late \<longleftrightarrow> ri_step inp < int (cp_completed c) + 1 \<or> cp_status c = StatusSucceeded"
  shows "(st' = st \<and> (\<exists>e. out = Inl e))
     \<or> (\<exists>c2 a. (out, st') = append_recorded (save st c2) a c2 \<and> recorded_entry c inp c2 a)"
proof (cases "\<not> late \<and> ri_verdict inp = VerdictSucceeded")
  case True
  let ?rp = "replan E w now st (c\<lparr>cp_spent := cp_spent c + 1, cp_completed := cp_completed c + 1\<rparr>) True"
  have R: "(out, st') = (case ?rp of (Inl e, st') \<Rightarrow> (Inl e, st')
      | (Inr c2, st') \<Rightarrow> append_recorded st' ((new_attempt c now inp False)\<lparr>at_snapshot_after := cp_snapshot c2\<rparr>) c2)"
    using assms(1) True by (simp add: record_live_def)
  obtain res st1 where rp: "?rp = (res, st1)" by fastforce
  show ?thesis
  proof (cases res)
    case (Inl e)
    then show ?thesis using R rp replan_cases [OF rp] by auto
  next
    case (Inr c2)
    have "st1 = save st c2 \<and> recorded_entry c inp c2 ((new_attempt c now inp False)\<lparr>at_snapshot_after := cp_snapshot c2\<rparr>)"
      using rp Inr assms True by (intro Record_success) auto
    then show ?thesis using R rp Inr by auto
  qed
next
  case False
  let ?c2 = "c\<lparr>cp_spent := cp_spent c + 1, cp_updated := now\<rparr>"
  have "(out, st') = append_recorded (save st ?c2) (new_attempt c now inp late) ?c2"
    using assms(1) False by (simp add: record_live_def Let_def)
  moreover have "recorded_entry c inp ?c2 (new_attempt c now inp late)"
    using assms(2-5) False by (auto simp: recorded_entry_def only_spends_def new_attempt_def attempt_id_def)
  ultimately show ?thesis by blast
qed

lemma Record_cases:
  assumes "Record E w now st inp = (out, st')"
  shows "(st' = st \<and> (\<exists>e. out = Inl e))
     \<or> (\<exists>c c2 a. Get st (ri_campaign inp) = Inr c \<and> (out, st') = append_recorded (save st c2) a c2
          \<and> recorded_entry c inp c2 a)"
proof -
  have "(st' = st \<and> (\<exists>e. out = Inl e)) \<or> (\<exists>c. Get st (ri_campaign inp) = Inr c \<and> cp_plan c \<noteq> None \<and> 1 \<le> ri_step inp
      \<and> ri_step inp \<le> int (cp_completed c) + 1
      \<and> record_live E w now st c inp (ri_step inp < int (cp_completed c) + 1 \<or> cp_status c = StatusSucceeded) = (out, st'))"
    using assms by (auto simp: Record_def Let_def add.commute split: if_splits sum.splits)
  then show ?thesis using record_live_cases by blast
qed

text \<open>The new id is free, so the append never fails.\<close>

lemma attempt_id_free:
  assumes "store_inv st" "c \<in> set (st_campaigns st)"
  shows "attempt_id (cp_id c) (cp_spent c + 1) \<notin> at_id ` set (st_attempts st)"
proof
  assume "attempt_id (cp_id c) (cp_spent c + 1) \<in> at_id ` set (st_attempts st)"
  then obtain a where a: "a \<in> set (st_attempts st)" "at_id a = attempt_id (cp_id c) (cp_spent c + 1)" by auto
  then obtain d where d: "d \<in> set (st_campaigns st)" "at_campaign a = cp_id d"
    using assms(1) unfolding store_inv_def by blast
  have ok: "row_ok (log_of st (cp_id d)) d" "row_ok (log_of st (cp_id c)) c" using assms d by (auto simp: store_inv_def)
  have "a \<in> set (log_of st (cp_id d))" using a d by (simp add: log_of_def)
  then have "at_id a \<in> set (map at_id (log_of st (cp_id d)))" by simp
  then obtain i where i: "i < length (log_of st (cp_id d))" "at_id a = attempt_id (cp_id d) (i + 1)"
    using ok(1) unfolding row_ok_def by auto
  obtain j k where "cp_id c = campaign_id j" "cp_id d = campaign_id k"
    using store_ids(2) [OF assms(1)] assms(2) d(1) by blast
  then have "cp_id c = cp_id d \<and> i = cp_spent c" using a(2) i(2) attempt_id_inject by fastforce
  moreover have "cp_spent c = length (log_of st (cp_id c))" using ok(2) by (simp add: row_ok_def)
  ultimately show False using i(1) by simp
qed

lemma recorded_row_ok:
  assumes "row_ok log c" "recorded_entry c inp c2 a" "at_id a' = at_id a" "at_verdict a' = at_verdict a" "at_step a' = at_step a"
  shows "row_ok (log @ [a']) c2"
proof -
  have l: "cp_spent c = length log" "cp_completed c = length (filter (\<lambda>a. at_verdict a = VerdictSucceeded) log)"
      "map at_id log = map (\<lambda>i. attempt_id (cp_id c) (i + 1)) [0..<length log]"
      "\<forall>a\<in>set log. 1 \<le> at_step a \<and> at_step a \<le> int (cp_completed c) + 1"
    using assms(1) by (auto simp: row_ok_def)
  have r: "cp_id c2 = cp_id c" "cp_spent c2 = cp_spent c + 1" "at_id a' = attempt_id (cp_id c) (cp_spent c + 1)"
      "1 \<le> at_step a'" "at_step a' \<le> int (cp_completed c) + 1" "0 < cp_max_attempts c2"
    using assms by (auto simp: recorded_entry_def row_ok_def)
  have "map at_id (log @ [a']) = map (\<lambda>i. attempt_id (cp_id c2) (i + 1)) [0..<length (log @ [a'])]"
    using l(1,3) r(1,3) by simp
  moreover from assms(2) have "advances c c2 a \<or> only_spends c c2 a" by (simp add: recorded_entry_def)
  ultimately show ?thesis
  proof (elim disjE)
    assume "advances c c2 a"
    then show "row_ok (log @ [a']) c2"
      using l r assms(4) \<open>map at_id (log @ [a']) = _\<close> unfolding row_ok_def advances_def by auto
  next
    assume "only_spends c c2 a"
    then show "row_ok (log @ [a']) c2"
      using l r assms(1,4) \<open>map at_id (log @ [a']) = _\<close> unfolding row_ok_def only_spends_def by auto
  qed
qed

lemma Record_effect:
  assumes "store_inv st" "Record E w now st inp = (out, st')"
  shows "(st' = st \<and> (\<exists>e. out = Inl e))
     \<or> (\<exists>c c2 a. Get st (ri_campaign inp) = Inr c \<and> out = Inr (a, c2) \<and> recorded_entry c inp c2 a
          \<and> st' = (save st c2)\<lparr>st_attempts := st_attempts st @ [a\<lparr>at_created := whole_seconds (at_created a)\<rparr>]\<rparr>)"
proof -
  have "append_recorded (save st c2) a c2 = (Inr (a, c2),
      (save st c2)\<lparr>st_attempts := st_attempts st @ [a\<lparr>at_created := whole_seconds (at_created a)\<rparr>]\<rparr>)"
    if "Get st (ri_campaign inp) = Inr c" "recorded_entry c inp c2 a" for c c2 a
  proof -
    have "at_id a \<notin> at_id ` set (st_attempts st)"
      using attempt_id_free [OF assms(1), of c] Get_Inr [OF that(1)] that(2) by (simp add: recorded_entry_def)
    then show ?thesis by (simp add: append_recorded_def appendAttempt_def save_campaigns)
  qed
  then show ?thesis using Record_cases [OF assms(2)] by (metis prod.inject)
qed

lemma Record_inv:
  assumes "store_inv st" "Record E w now st inp = (out, st')"
  shows "store_inv st'"
  using Record_effect [OF assms]
proof
  assume "\<exists>c c2 a. Get st (ri_campaign inp) = Inr c \<and> out = Inr (a, c2) \<and> recorded_entry c inp c2 a
          \<and> st' = (save st c2)\<lparr>st_attempts := st_attempts st @ [a\<lparr>at_created := whole_seconds (at_created a)\<rparr>]\<rparr>"
  then obtain c c2 a where e: "Get st (ri_campaign inp) = Inr c" "recorded_entry c inp c2 a"
      "st' = (save st c2)\<lparr>st_attempts := st_attempts st @ [a\<lparr>at_created := whole_seconds (at_created a)\<rparr>]\<rparr>" by blast
  have c: "c \<in> set (st_campaigns st)" using Get_Inr [OF e(1)] by blast
  then have ok: "row_ok (log_of st (cp_id c)) c" using assms(1) by (simp add: store_inv_def)
  show ?thesis
    by (rule store_inv_write [OF assms(1) c _ _ recorded_row_ok [OF ok e(2)] _ e(3)])
      (use e(2) in \<open>simp_all add: recorded_entry_def\<close>)
qed (use assms(1) in simp)

text \<open>Escalations are numbered per campaign, so their ids are fresh as well.\<close>

definition escalation_id :: "string \<Rightarrow> nat \<Rightarrow> string" where "escalation_id cid n = cid @ ''-e'' @ pad 2 n"

definition esc_log :: "cstore \<Rightarrow> string \<Rightarrow> escalation list" where
  "esc_log st cid = filter (\<lambda>e. es_campaign e = cid) (st_escalations st)"

definition esc_inv :: "cstore \<Rightarrow> bool" where
  "esc_inv st \<longleftrightarrow> es_campaign ` set (st_escalations st) \<subseteq> cp_id ` set (st_campaigns st)
     \<and> (\<forall>cid. map es_id (esc_log st cid) = map (\<lambda>i. escalation_id cid (i + 1)) [0..<length (esc_log st cid)])"

lemma escalation_id_inject:
  assumes "escalation_id (campaign_id i) m = escalation_id (campaign_id j) n"
  shows "i = j \<and> m = n"
proof -
  have "campaign_id i @ CHR ''-'' # (CHR ''e'' # pad 2 m) = campaign_id j @ CHR ''-'' # (CHR ''e'' # pad 2 n)"
    using assms by (simp add: escalation_id_def)
  from append_sep_eq [OF campaign_id_no_dash campaign_id_no_dash this] show ?thesis by simp
qed

lemma length_Escalations [simp]: "length (Escalations st cid) = length (esc_log st cid)"
  by (simp add: Escalations_def esc_log_def)

lemma escalation_id_free:
  assumes "store_inv st" "esc_inv st" "c \<in> set (st_campaigns st)"
  shows "escalation_id (cp_id c) (length (esc_log st (cp_id c)) + 1) \<notin> es_id ` set (st_escalations st)"
proof
  let ?n = "length (esc_log st (cp_id c))"
  assume "escalation_id (cp_id c) (?n + 1) \<in> es_id ` set (st_escalations st)"
  then obtain e where e: "e \<in> set (st_escalations st)" "es_id e = escalation_id (cp_id c) (?n + 1)" by auto
  then obtain d where d: "d \<in> set (st_campaigns st)" "es_campaign e = cp_id d"
    using assms(2) unfolding esc_inv_def by blast
  have "e \<in> set (esc_log st (cp_id d))" using e d by (simp add: esc_log_def)
  then have "es_id e \<in> set (map es_id (esc_log st (cp_id d)))" by simp
  then obtain i where i: "i < length (esc_log st (cp_id d))" "es_id e = escalation_id (cp_id d) (i + 1)"
    using assms(2) unfolding esc_inv_def by auto
  obtain j k where "cp_id c = campaign_id j" "cp_id d = campaign_id k"
    using store_ids(2) [OF assms(1)] assms(3) d(1) by blast
  then show False using e(2) i escalation_id_inject by fastforce
qed

lemma Escalate_effect:
  assumes "store_inv st" "esc_inv st" "Escalate st now cid reason filer = (out, st')"
  shows "(st' = st \<and> (\<exists>e. out = Inl e))
     \<or> (\<exists>c x. Get st cid = Inr c \<and> out = Inr x \<and> es_id (ed_escalation x) = escalation_id cid (length (esc_log st cid) + 1)
          \<and> es_campaign (ed_escalation x) = cid \<and> es_reason (ed_escalation x) = reason \<and> reason \<noteq> []
          \<and> Report st' cid = Inr (ed_report x)
          \<and> st' = st\<lparr>st_escalations := st_escalations st
                @ [(ed_escalation x)\<lparr>es_created := whole_seconds (es_created (ed_escalation x))\<rparr>]\<rparr>)"
proof (cases "Get st cid")
  case (Inr c)
  then have "escalation_id cid (length (esc_log st cid) + 1) \<notin> es_id ` set (st_escalations st)"
    using escalation_id_free [OF assms(1,2), of c] Get_Inr [OF Inr] by simp
  then have free: "cid @ ''-e'' @ pad 2 (length (esc_log st cid) + 1) \<notin> es_id ` set (st_escalations st)"
    by (simp add: escalation_id_def)
  have get: "Get (st\<lparr>st_escalations := x\<rparr>) cid = Inr c" for x using Inr by (simp add: Get_def)
  show ?thesis
    using assms(3) Inr free get
    by (auto simp: Escalate_def AppendEscalation_def Report_def Let_def escalation_id_def
        split: if_splits option.splits sum.splits)
qed (use assms(3) in \<open>auto simp: Escalate_def split: if_splits\<close>)

lemma store_inv_escalations [simp]: "store_inv (st\<lparr>st_escalations := x\<rparr>) = store_inv st"
  by (simp add: store_inv_def log_of_def)

lemma save_escalations [simp]: "st_escalations (save st c) = st_escalations st"
  by (simp add: save_def)

lemma save_ids: "cp_id ` set (st_campaigns (save st c)) = cp_id ` set (st_campaigns st)"
proof -
  have "map cp_id (st_campaigns (save st c)) = map cp_id (st_campaigns st)" by (simp add: save_campaigns saved_row_def)
  then show ?thesis by (metis set_map)
qed

text \<open>What the other calls do to the escalation log: nothing.\<close>

lemma esc_inv_same:
  assumes "esc_inv st" "st_escalations st' = st_escalations st" "cp_id ` set (st_campaigns st) \<subseteq> cp_id ` set (st_campaigns st')"
  shows "esc_inv st'"
  using assms(1) subset_trans [OF _ assms(3)] unfolding esc_inv_def esc_log_def assms(2) by blast

lemma engine_step_inv: "store_inv st \<Longrightarrow> esc_inv st \<Longrightarrow> engine_step E st st' \<Longrightarrow> store_inv st'"
proof (erule engine_step.cases)
  fix s now cid reason filer ed s'
  assume "store_inv st" "esc_inv st" "st = s" "st' = s'" "Escalate s now cid reason filer = (ed, s')"
  then show "store_inv st'" using Escalate_effect [of st now cid reason filer ed st'] by auto
qed (auto intro: New_inv Plan_inv Next_inv Record_inv)

lemma Escalate_inv:
  assumes "store_inv st" "esc_inv st" "Escalate st now cid reason filer = (out, st')"
  shows "esc_inv st'"
  using Escalate_effect [OF assms]
proof
  assume "\<exists>c x. Get st cid = Inr c \<and> out = Inr x \<and> es_id (ed_escalation x) = escalation_id cid (length (esc_log st cid) + 1)
          \<and> es_campaign (ed_escalation x) = cid \<and> es_reason (ed_escalation x) = reason \<and> reason \<noteq> []
          \<and> Report st' cid = Inr (ed_report x)
          \<and> st' = st\<lparr>st_escalations := st_escalations st
                @ [(ed_escalation x)\<lparr>es_created := whole_seconds (es_created (ed_escalation x))\<rparr>]\<rparr>"
  then obtain c e where "Get st cid = Inr c" and e: "es_id e = escalation_id cid (length (esc_log st cid) + 1)" "es_campaign e = cid"
      "st' = st\<lparr>st_escalations := st_escalations st @ [e\<lparr>es_created := whole_seconds (es_created e)\<rparr>]\<rparr>" by blast
  then have "cid \<in> cp_id ` set (st_campaigns st)" using Get_Inr by (metis image_eqI)
  moreover have "esc_log st' k = (if k = cid then esc_log st k @ [e\<lparr>es_created := whole_seconds (es_created e)\<rparr>] else esc_log st k)" for k
    using e(2) by (simp add: esc_log_def e(3))
  ultimately show ?thesis using assms(2) e by (auto simp: esc_inv_def)
qed (use assms(2) in simp)

lemma engine_step_esc_inv:
  assumes "store_inv st" "esc_inv st" "engine_step E st st'"
  shows "esc_inv st'"
  using assms(3)
proof cases
  case (step_new now spec res)
  then have "st' = st \<or> (\<exists>row. st' = st\<lparr>st_campaigns := st_campaigns st @ [row]\<rparr>)"
    by (auto simp: New_def insert_row_def Let_def split: if_splits)
  then show ?thesis using assms(2) by (auto intro: esc_inv_same)
next
  case (step_plan w now k refresh res)
  then have "st' = st \<or> (\<exists>c. st' = save st c)"
    using replan_cases [of E w now st _ refresh res st'] by (auto simp: Plan_def split: sum.splits)
  then show ?thesis using esc_inv_same [OF assms(2)] assms(2) save_ids by (metis order_refl save_escalations)
next
  case (step_next w now k ans)
  then have "st' = st \<or> (\<exists>c. st' = save st c)" using Next_cases by blast
  then show ?thesis using esc_inv_same [OF assms(2)] assms(2) save_ids by (metis order_refl save_escalations)
next
  case (step_record w now inp out)
  then have "st' = st \<or> (\<exists>c x. st' = (save st c)\<lparr>st_attempts := x\<rparr>)" using Record_effect [OF assms(1)] by blast
  then show ?thesis using assms(2) save_ids by (auto intro: esc_inv_same)
next
  case (step_escalate now k reason filer ed)
  then show ?thesis using Escalate_inv assms(1,2) by blast
qed

definition store_ok :: "cstore \<Rightarrow> bool" where
  "store_ok st \<longleftrightarrow> store_inv st \<and> esc_inv st"

lemma engine_step_ok: "store_ok st \<Longrightarrow> engine_step E st st' \<Longrightarrow> store_ok st'"
  unfolding store_ok_def using engine_step_inv engine_step_esc_inv by blast

lemma empty_store_ok: "store_ok empty_store"
  by (simp add: empty_store_def store_ok_def store_inv_def esc_inv_def esc_log_def)

interpretation campaign_run: invariant_system "\<lambda>st. st = empty_store" "engine_step E" store_ok for E
  by unfold_locales (simp_all add: empty_store_ok engine_step_ok)

subsection \<open>Dispatch\<close>

lemma Next_dispatch:
  assumes "store_inv st" "Next w now st cid = (Inr (NextDispatch c n tot order), st')"
  shows "st' = st \<and> Get st cid = Inr c \<and> int (cp_spent c) < cp_max_attempts c
     \<and> time_sub now (cp_created c) < cp_max_duration c \<and> n = cp_completed c + 1
     \<and> (\<exists>pl g. cp_plan c = Some pl \<and> pl_feasible pl \<and> pl_steps pl \<noteq> [] \<and> tot = cp_completed c + length (pl_steps pl)
          \<and> w (cp_roots c) False = Inr (g, cp_snapshot c) \<and> order = renderWorkOrder c g (Attempts st cid))
     \<and> (\<forall>a\<in>set (log_of st cid). \<not> gating_rejection c n a)"
proof -
  obtain c0 where g: "Get st cid = Inr c0" using assms(2) by (cases "Get st cid") (auto simp: Next_def)
  then obtain pl where pl: "cp_status c0 \<noteq> StatusSucceeded" "cp_plan c0 = Some pl"
    using assms(2) by (cases "cp_plan c0") (auto simp: Next_def split: if_splits)
  have nx: "cp_status c0 \<noteq> StatusExhausted" "\<not> over_budget now c0"
      "next_live w st cid c0 pl = Inr (NextDispatch c n tot order)" "st' = st"
    using assms(2) g pl by (auto simp: Next_def Let_def split: if_splits)
  then have "c0 = c" "n = cp_completed c + 1" "pl_feasible pl" "tot = cp_completed c + length (pl_steps pl)"
      "find_first (gating_rejection c n) (Attempts st cid) = None"
      "\<exists>gr. w (cp_roots c) False = Inr (gr, cp_snapshot c) \<and> order = renderWorkOrder c gr (Attempts st cid)"
    by (auto simp: next_live_def Let_def split: if_splits option.splits sum.splits)
  moreover from this have "\<forall>a\<in>set (log_of st cid). \<not> gating_rejection c n a"
    by (auto simp: find_first_None Attempts_def log_of_def)
  moreover have "pl_steps pl \<noteq> []"
    using assms(1) Get_Inr [OF g] pl(2) \<open>pl_feasible pl\<close> unfolding store_inv_def row_ok_def by blast
  ultimately show ?thesis using g nx pl by (auto simp: over_budget_def)
qed

subsection \<open>Budgets\<close>

lemma find_first_map:
  "(\<And>x. P (f x) = P x) \<Longrightarrow> find_first P (map f xs) = map_option f (find_first P xs)"
  by (induction xs) auto

lemma find_first_append: "find_first P (xs @ ys) = (case find_first P xs of None \<Rightarrow> find_first P ys | Some x \<Rightarrow> Some x)"
  by (induction xs) auto

lemma Get_save:
  "Get st cid = Inr row \<Longrightarrow> Get ((save st c)\<lparr>st_attempts := as\<rparr>) cid = Inr (if cid = cp_id c then saved_row row c else row)"
proof -
  assume g: "Get st cid = Inr row"
  let ?f = "\<lambda>row. if cp_id row = cp_id c then saved_row row c else row"
  have "find_first (\<lambda>d. cp_id d = cid) (map ?f (st_campaigns st)) = map_option ?f (find_first (\<lambda>d. cp_id d = cid) (st_campaigns st))"
    by (rule find_first_map) (simp add: saved_row_def)
  then show ?thesis using g Get_Inr [OF g]
    by (auto simp: Get_def save_campaigns split: option.splits)
qed

lemma save_attempts [simp]: "(save st c)\<lparr>st_attempts := st_attempts st\<rparr> = save st c"
  by (simp add: save_def)

text \<open>Counters only grow and limits stay.\<close>

definition grows :: "campaign \<Rightarrow> campaign \<Rightarrow> bool" where
  "grows c d \<longleftrightarrow> cp_spent c \<le> cp_spent d \<and> cp_completed c \<le> cp_completed d \<and> cp_max_attempts d = cp_max_attempts c"

lemma grows_refl [simp]: "grows c c"
  by (simp add: grows_def)

lemma saved_grows:
  assumes "Get st cid = Inr c" "Get st k = Inr row" "cp_id c2 = cp_id row" "cp_max_attempts c2 = cp_max_attempts row"
    and "cp_spent row \<le> cp_spent c2" "cp_completed row \<le> cp_completed c2"
  shows "\<exists>c'. Get ((save st c2)\<lparr>st_attempts := as\<rparr>) cid = Inr c' \<and> grows c c'"
proof (cases "cid = cp_id c2")
  case True
  then have "c = row" using assms(1-3) Get_Inr [OF assms(2)] by simp
  then show ?thesis using Get_save [OF assms(1), of as c2] True assms(4-6) by (simp add: grows_def saved_row_def)
qed (use Get_save [OF assms(1), of as c2] in simp)

lemma engine_step_grows:
  assumes "store_ok st" "engine_step E st st'" "Get st cid = Inr c"
  shows "\<exists>c'. Get st' cid = Inr c' \<and> grows c c'"
  using assms(2)
proof cases
  case (step_new now spec res)
  then have "st' = st \<or> (\<exists>row. st' = st\<lparr>st_campaigns := st_campaigns st @ [row]\<rparr>)"
    by (auto simp: New_def insert_row_def Let_def split: if_splits)
  then show ?thesis using assms(3) by (auto simp: Get_def find_first_append split: option.splits)
next
  case (step_plan w now k refresh res)
  show ?thesis
  proof (cases "Get st k")
    case (Inl e)
    then show ?thesis using step_plan assms(3) by (auto simp: Plan_def)
  next
    case (Inr row)
    then have "replan E w now st row refresh = (res, st')" using step_plan by (simp add: Plan_def)
    from replan_cases [OF this] show ?thesis
      using assms(3) saved_grows [OF assms(3) Inr, of _ "st_attempts st"] by auto
  qed
next
  case (step_next w now k ans)
  from Next_cases [OF this] show ?thesis
    using assms(3) saved_grows [OF assms(3), of k _ _ "st_attempts st"] by auto
next
  case (step_record w now inp out)
  have "store_inv st" using assms(1) by (simp add: store_ok_def)
  from Record_effect [OF this step_record] show ?thesis
  proof
    assume "\<exists>row c2 a. Get st (ri_campaign inp) = Inr row \<and> out = Inr (a, c2) \<and> recorded_entry row inp c2 a
          \<and> st' = (save st c2)\<lparr>st_attempts := st_attempts st @ [a\<lparr>at_created := whole_seconds (at_created a)\<rparr>]\<rparr>"
    then obtain row c2 a where r: "Get st (ri_campaign inp) = Inr row" "recorded_entry row inp c2 a"
      "st' = (save st c2)\<lparr>st_attempts := st_attempts st @ [a\<lparr>at_created := whole_seconds (at_created a)\<rparr>]\<rparr>" by blast
    show ?thesis unfolding r(3)
      by (rule saved_grows [OF assms(3) r(1)])
        (use r(2) in \<open>auto simp: recorded_entry_def advances_def only_spends_def\<close>)
  qed (use assms(3) in auto)
next
  case (step_escalate now k reason filer ed)
  then have "st_campaigns st' = st_campaigns st"
    using Escalate_effect [of st now k reason filer ed st'] assms(1) by (auto simp: store_ok_def)
  then show ?thesis using assms(3) by (auto simp: Get_def)
qed

lemma engine_steps_grow:
  assumes "(engine_step E)\<^sup>*\<^sup>* st st'" "store_ok st" "Get st cid = Inr c"
  shows "\<exists>c'. Get st' cid = Inr c' \<and> grows c c' \<and> store_ok st'"
  using assms
proof (induction rule: rtranclp_induct)
  case (step y z)
  then obtain d where d: "Get y cid = Inr d" "grows c d" "store_ok y" by blast
  from engine_step_grows [OF d(3) step(2) d(1)] engine_step_ok [OF d(3) step(2)] d(2)
  show ?case by (auto simp: grows_def)
qed simp

lemma spent_budget_final:
  assumes "store_ok st" "Get st cid = Inr c" "cp_max_attempts c \<le> int (cp_spent c)" "(engine_step E)\<^sup>*\<^sup>* st st'"
  shows "fst (Next w now st' cid) \<noteq> Inr (NextDispatch d n tot order)"
proof
  assume x: "fst (Next w now st' cid) = Inr (NextDispatch d n tot order)"
  obtain c' where c': "Get st' cid = Inr c'" "grows c c'" "store_ok st'"
    using engine_steps_grow [OF assms(4,1,2)] by blast
  from x have "Next w now st' cid = (Inr (NextDispatch d n tot order), snd (Next w now st' cid))" by (metis prod.collapse)
  from Next_dispatch [OF _ this] c'(3) c'(1,2) assms(3) show False by (auto simp: grows_def store_ok_def)
qed

lemma succeeded_not_recordable:
  assumes "store_ok st" "Get st (ri_campaign inp) = Inr c" "cp_status c = StatusSucceeded"
    and "ri_verdict inp \<in> {VerdictSucceeded, VerdictFailed, VerdictRejected}" "ri_verdict inp = VerdictRejected \<longrightarrow> ri_reason inp \<noteq> []"
  shows "Record E w now st inp = (Inl (No_Plan (cp_id c)), st)"
proof -
  have "cp_plan c = None" using assms(1,3) Get_Inr [OF assms(2)] unfolding store_ok_def store_inv_def row_ok_def by blast
  then show ?thesis using assms(2,4,5) by (auto simp: Record_def)
qed

end
