(* ===== verification/Project.thy ===== *)
theory Project
  imports Planner "HOL-Library.Multiset" "HOL-Library.Monad_Syntax"
begin

text \<open>
  \<open>depmaint/internal/project/project.go\<close>: roots are grouped into projects by a union-find over
  the internal edges of their dependency graphs. The parent table is a map, a missing key reads as
  the empty string as in Go. \<open>find\<close> recurses through the table and does not return on a cyclic
  one, so it is a partial function; \<open>Derive\<close> is shown to return. Go's iteration order over the
  groups is unspecified, the model lists them in the order their first root appears.
\<close>

record root_graph =
  rg_root :: string
  rg_module :: string
  rg_nodes :: "node list"
  rg_edges :: "edge list"

type_synonym parents = "string \<rightharpoonup> string"

definition bareKey :: "string \<Rightarrow> string" where
  "bareKey k = (case cut_last (CHR ''@'') k of Some (a, b) \<Rightarrow> a | None \<Rightarrow> k)"

definition parent_of :: "parents \<Rightarrow> string \<Rightarrow> string" where
  "parent_of p x = (case p x of None \<Rightarrow> [] | Some y \<Rightarrow> y)"

partial_function (option) find_root :: "parents \<Rightarrow> string \<Rightarrow> (parents \<times> string) option" where
  "find_root p x =
     (let y = parent_of p x in
      if y \<noteq> x then do { q \<leftarrow> find_root p y; Some ((fst q)(x \<mapsto> snd q), snd q) } else Some (p, x))"

definition union :: "parents \<Rightarrow> string \<times> string \<Rightarrow> parents option" where
  "union p ab =
     do { a \<leftarrow> find_root p (fst ab); b \<leftarrow> find_root (fst a) (snd ab);
          Some (if snd a \<noteq> snd b then (fst b)(snd a \<mapsto> snd b) else fst b) }"

fun union_all :: "parents \<Rightarrow> (string \<times> string) list \<Rightarrow> parents option" where
  "union_all p [] = Some p"
| "union_all p (ab # xs) = do { q \<leftarrow> union p ab; union_all q xs }"

text \<open>The unions of one edge of \<open>g\<close>, then of all graphs.\<close>

definition identity_of :: "root_graph list \<Rightarrow> string \<rightharpoonup> string" where
  "identity_of gs k = map_option rg_root (map_by (\<lambda>g. bareKey (rg_module g)) gs k)"

definition link :: "root_graph list \<Rightarrow> string \<Rightarrow> string \<Rightarrow> (string \<times> string) list" where
  "link gs root k = (case identity_of gs (bareKey k) of
      Some other \<Rightarrow> (if other \<noteq> root then [(root, other)] else []) | None \<Rightarrow> [])"

definition links :: "root_graph list \<Rightarrow> (string \<times> string) list" where
  "links gs = concat (map (\<lambda>g. concat (map (\<lambda>e.
      if e_internal e then link gs (rg_root g) (e_to e) @ link gs (rg_root g) (e_from e) else []) (rg_edges g))) gs)"

fun add_to_group :: "string \<Rightarrow> string \<Rightarrow> (string \<times> string list) list \<Rightarrow> (string \<times> string list) list" where
  "add_to_group k v [] = [(k, [v])]"
| "add_to_group k v ((k', vs) # gs) = (if k' = k then (k', vs @ [v]) # gs else (k', vs) # add_to_group k v gs)"

fun group_roots :: "parents \<Rightarrow> (string \<times> string list) list \<Rightarrow> string list \<Rightarrow> (string \<times> string list) list option" where
  "group_roots p acc [] = Some acc"
| "group_roots p acc (x # xs) = do { q \<leftarrow> find_root p x; group_roots (fst q) (add_to_group (snd q) x acc) xs }"

definition Derive :: "root_graph list \<Rightarrow> string list list option" where
  "Derive gs =
     do { p \<leftarrow> union_all (\<lambda>x. if x \<in> rg_root ` set gs then Some x else None) (links gs);
          groups \<leftarrow> group_roots p [] (map rg_root gs);
          Some (map snd groups) }"

subsection \<open>The forest\<close>

inductive leads :: "parents \<Rightarrow> string \<Rightarrow> string \<Rightarrow> bool" for p where
  leads_root: "parent_of p x = x \<Longrightarrow> leads p x x"
| leads_step: "parent_of p x = y \<Longrightarrow> y \<noteq> x \<Longrightarrow> leads p y r \<Longrightarrow> leads p x r"

inductive_cases leadsE: "leads p x r"

lemma leads_det: "leads p x r \<Longrightarrow> leads p x s \<Longrightarrow> r = s"
  by (induction rule: leads.induct) (auto elim: leadsE)

lemma leads_is_root: "leads p x r \<Longrightarrow> parent_of p r = r"
  by (induction rule: leads.induct)

lemma parent_of_upd [simp]: "parent_of (p(x \<mapsto> y)) z = (if z = x then y else parent_of p z)"
  by (simp add: parent_of_def)

lemma leads_self [simp]: "leads p x r \<Longrightarrow> leads p r r"
  by (simp add: leads_is_root leads_root)

text \<open>Pointing a node at the root it leads to changes no root.\<close>

lemma leads_compress:
  assumes "leads p x r" "parent_of p x \<noteq> x" and q: "q = p(x \<mapsto> r)"
  shows "leads q z s \<longleftrightarrow> leads p z s"
proof
  have r: "parent_of p r = r" "r \<noteq> x" using leads_is_root [OF assms(1)] assms(2) by auto
  have pq: "parent_of q u = (if u = x then r else parent_of p u)" for u by (simp add: q)
  show "leads q z s \<Longrightarrow> leads p z s"
  proof (induction rule: leads.induct)
    case (leads_root z)
    then show ?case using r pq by (metis leads.leads_root)
  next
    case (leads_step z y s)
    show ?case
    proof (cases "z = x")
      case True
      then have "s = r" using leads_step pq leads_det leads.leads_root [OF r(1)] by auto
      then show ?thesis using assms(1) True by simp
    qed (use leads_step pq in \<open>auto intro: leads.leads_step\<close>)
  qed
  show "leads p z s \<Longrightarrow> leads q z s"
  proof (induction rule: leads.induct)
    case (leads_root z)
    then show ?case using assms(2) pq by (intro leads.leads_root) auto
  next
    case (leads_step z y s)
    then have "leads p z s" using leads.leads_step by blast
    have rr: "leads q r r" using r pq by (intro leads.leads_root) simp
    show ?case
    proof (cases "z = x")
      case True
      then have "s = r" using \<open>leads p z s\<close> assms(1) leads_det by blast
      then show ?thesis using True rr r pq by (intro leads.leads_step [of _ z r]) auto
    qed (use leads_step pq in \<open>auto intro: leads.leads_step\<close>)
  qed
qed

lemma leads_link:
  assumes "parent_of p a = a" "parent_of p b = b" "a \<noteq> b" and q: "q = p(a \<mapsto> b)"
  shows "leads q z s \<longleftrightarrow> (\<exists>t. leads p z t \<and> s = (if t = a then b else t))"
proof
  have pq: "parent_of q u = (if u = a then b else parent_of p u)" for u by (simp add: q)
  have bb: "leads q b b" using assms(2,3) pq by (intro leads.leads_root) simp
  have ba: "leads q a b" using bb pq assms(3) by (intro leads.leads_step [of _ a b]) auto
  show "leads q z s \<Longrightarrow> \<exists>t. leads p z t \<and> s = (if t = a then b else t)"
  proof (induction rule: leads.induct)
    case (leads_root z)
    have za: "z \<noteq> a" using leads_root pq [of a] assms(3) by auto
    then have "parent_of p z = z" using leads_root pq [of z] by simp
    with za show ?case using leads.leads_root by metis
  next
    case (leads_step z y s)
    then obtain t where t: "leads p y t" "s = (if t = a then b else t)" by blast
    show ?case
    proof (cases "z = a")
      case True
      then have "y = b" using leads_step(1) pq by simp
      then have "t = b" using t(1) leads_det leads.leads_root [OF assms(2)] by blast
      then show ?thesis using True t(2) assms(3) leads.leads_root [OF assms(1)] by metis
    next
      case False
      then have "leads p z t" using leads_step t(1) pq by (auto intro: leads.leads_step)
      then show ?thesis using t(2) by blast
    qed
  qed
  have "leads p z t \<Longrightarrow> leads q z (if t = a then b else t)" for t
  proof (induction rule: leads.induct)
    case (leads_root z)
    then show ?case using ba pq by (cases "z = a") (simp_all add: leads.leads_root)
  next
    case (leads_step z y r)
    then have "parent_of q z = y" using assms(1) pq by auto
    then show ?case using leads_step leads.leads_step [of q z y] by simp
  qed
  then show "\<exists>t. leads p z t \<and> s = (if t = a then b else t) \<Longrightarrow> leads q z s" by blast
qed

lemma find_root_leads:
  "leads p x r \<Longrightarrow> \<exists>q. find_root p x = Some (q, r) \<and> leads q = leads p"
proof (induction rule: leads.induct)
  case (leads_root x)
  then show ?case by (simp add: find_root.simps [of p x])
next
  case (leads_step x y r)
  then obtain q where q: "find_root p y = Some (q, r)" "leads q = leads p" by blast
  have "leads p x r" using leads_step leads.leads_step by blast
  have eq: "find_root p x = Some (q(x \<mapsto> r), r)" using leads_step q by (simp add: find_root.simps [of p x])
  have "leads q x r" using \<open>leads p x r\<close> q(2) by simp
  show ?case
  proof (cases "parent_of q x = x")
    case True
    then have "r = x" using \<open>leads q x r\<close> leads_det leads.leads_root by blast
    then have "parent_of p x = x" using \<open>leads p x r\<close> leads_is_root by blast
    then show ?thesis using leads_step by simp
  next
    case False
    then have "leads (q(x \<mapsto> r)) = leads q" using leads_compress [OF \<open>leads q x r\<close> False refl] by (intro ext) simp
    then show ?thesis using eq q(2) by simp
  qed
qed


subsection \<open>Connected roots\<close>

definition linked :: "(string \<times> string) set \<Rightarrow> string \<Rightarrow> string \<Rightarrow> bool" where
  "linked E = (\<lambda>x y. (x, y) \<in> E \<or> (y, x) \<in> E)\<^sup>*\<^sup>*"

lemma linked_refl [simp]: "linked E x x"
  by (simp add: linked_def)

lemma linked_trans: "linked E x y \<Longrightarrow> linked E y z \<Longrightarrow> linked E x z"
  unfolding linked_def by (rule rtranclp_trans)

lemma linked_sym: "linked E x y \<Longrightarrow> linked E y x"
proof -
  have "symp (\<lambda>x y. (x, y) \<in> E \<or> (y, x) \<in> E)" by (auto simp: symp_def)
  from symp_rtranclp [OF this] show "linked E x y \<Longrightarrow> linked E y x" unfolding linked_def by (rule sympD)
qed

lemma linked_mono: "linked E x y \<Longrightarrow> E \<subseteq> F \<Longrightarrow> linked F x y"
  unfolding linked_def by (erule rtranclp_mono [THEN predicate2D, rotated]) blast

lemma linked_insert:
  "linked (insert (a, b) E) x y \<longleftrightarrow> linked E x y \<or> linked E x a \<and> linked E b y \<or> linked E x b \<and> linked E a y"
proof
  assume "linked (insert (a, b) E) x y"
  then show "linked E x y \<or> linked E x a \<and> linked E b y \<or> linked E x b \<and> linked E a y"
    unfolding linked_def [of "insert (a, b) E"]
  proof (induction rule: rtranclp_induct)
    case (step y z)
    then have "(y = a \<and> z = b) \<or> (y = b \<and> z = a) \<or> linked E y z"
      by (auto simp: linked_def)
    then show ?case using step.IH by (metis linked_refl linked_trans linked_sym)
  qed simp
next
  have ab: "linked (insert (a, b) E) a b" by (auto simp: linked_def)
  have up: "linked E u v \<Longrightarrow> linked (insert (a, b) E) u v" for u v by (erule linked_mono) blast
  assume "linked E x y \<or> linked E x a \<and> linked E b y \<or> linked E x b \<and> linked E a y"
  then show "linked (insert (a, b) E) x y" using up ab by (metis linked_trans linked_sym)
qed

text \<open>The forest holds exactly the links united so far.\<close>

definition represents :: "parents \<Rightarrow> string set \<Rightarrow> (string \<times> string) set \<Rightarrow> bool" where
  "represents p R E \<longleftrightarrow> (\<forall>x\<in>R. \<exists>r\<in>R. leads p x r)
     \<and> (\<forall>x\<in>R. \<forall>y\<in>R. (\<exists>r. leads p x r \<and> leads p y r) \<longleftrightarrow> linked E x y)"

lemma union_represents:
  assumes "represents p R E" "fst ab \<in> R" "snd ab \<in> R"
  shows "\<exists>q. union p ab = Some q \<and> represents q R (insert ab E)"
proof -
  obtain a b where ab: "ab = (a, b)" by fastforce
  obtain ra rb where r: "leads p a ra" "ra \<in> R" "leads p b rb" "rb \<in> R"
    using assms unfolding represents_def ab by (metis fst_conv snd_conv)
  obtain p1 where p1: "find_root p a = Some (p1, ra)" "leads p1 = leads p" using find_root_leads [OF r(1)] by blast
  obtain p2 where p2: "find_root p1 b = Some (p2, rb)" "leads p2 = leads p"
    using find_root_leads [of p1 b rb] r(3) p1(2) by auto
  define q where "q = (if ra \<noteq> rb then p2(ra \<mapsto> rb) else p2)"
  have u: "union p ab = Some q" using p1 p2 by (simp add: union_def ab q_def)
  have lq: "leads q z s \<longleftrightarrow> (\<exists>t. leads p z t \<and> s = (if t = ra then rb else t))" for z s
  proof (cases "ra = rb")
    case False
    have "parent_of p2 ra = ra" "parent_of p2 rb = rb" using r p2(2) leads_is_root by metis+
    then show ?thesis using leads_link [of p2 ra rb q z s] False p2(2) by (simp add: q_def)
  qed (use p2(2) in \<open>auto simp: q_def\<close>)
  have "(\<exists>s. leads q x s \<and> leads q y s) \<longleftrightarrow> linked (insert ab E) x y" if xy: "x \<in> R" "y \<in> R" for x y
  proof -
    obtain tx ty where t: "leads p x tx" "leads p y ty" using assms(1) xy unfolding represents_def by blast
    have same: "linked E u v \<longleftrightarrow> tu = tv" if "u \<in> R" "v \<in> R" "leads p u tu" "leads p v tv" for u v tu tv
      using assms(1) that leads_det unfolding represents_def by metis
    have "(\<exists>s. leads q x s \<and> leads q y s) \<longleftrightarrow> (if tx = ra then rb else tx) = (if ty = ra then rb else ty)"
      using t leads_det lq by metis
    moreover have "linked E x y \<longleftrightarrow> tx = ty" "linked E x a \<longleftrightarrow> tx = ra" "linked E b y \<longleftrightarrow> rb = ty" "linked E x b \<longleftrightarrow> tx = rb"
        "linked E a y \<longleftrightarrow> ra = ty"
      using same xy assms(2,3) t r ab by auto
    ultimately show ?thesis unfolding ab linked_insert by auto
  qed
  moreover have "\<exists>s\<in>R. leads q x s" if "x \<in> R" for x
    using assms(1) that lq r(4) unfolding represents_def by (metis (full_types))
  ultimately show ?thesis using u unfolding represents_def by blast
qed

lemma union_all_represents:
  "represents p R E \<Longrightarrow> \<forall>ab\<in>set xs. fst ab \<in> R \<and> snd ab \<in> R \<Longrightarrow>
   \<exists>q. union_all p xs = Some q \<and> represents q R (E \<union> set xs)"
proof (induction xs arbitrary: p E)
  case (Cons ab xs)
  then obtain q where "union p ab = Some q" "represents q R (insert ab E)" using union_represents by (metis list.set_intros(1))
  then show ?case using Cons.IH [of q "insert ab E"] Cons.prems(2) by (auto simp: insert_commute)
qed simp

subsection \<open>Groups\<close>

definition grouped :: "parents \<Rightarrow> (string \<times> string list) list \<Rightarrow> bool" where
  "grouped p acc \<longleftrightarrow> distinct (map fst acc) \<and> (\<forall>(k, vs)\<in>set acc. vs \<noteq> [] \<and> (\<forall>v\<in>set vs. leads p v k))"

lemma add_to_group_keys: "fst ` set (add_to_group k v acc) = insert k (fst ` set acc)"
  by (induction k v acc rule: add_to_group.induct) (simp_all add: insert_commute)

lemma add_to_group_mset: "mset (concat (map snd (add_to_group k v acc))) = add_mset v (mset (concat (map snd acc)))"
  by (induction acc) auto

lemma add_to_group_grouped: "grouped p acc \<Longrightarrow> leads p v k \<Longrightarrow> grouped p (add_to_group k v acc)"
proof (induction acc)
  case (Cons g acc)
  obtain k' vs where g: "g = (k', vs)" by fastforce
  have "k' \<notin> fst ` set acc" "grouped p acc" using Cons.prems(1) by (auto simp: g grouped_def)
  then show ?case using Cons add_to_group_keys [of k v acc] by (auto simp: g grouped_def)
qed (simp add: grouped_def)

lemma group_roots_result:
  "grouped p acc \<Longrightarrow> \<forall>x\<in>set xs. \<exists>r. leads p x r \<Longrightarrow>
   \<exists>gs. group_roots p acc xs = Some gs \<and> grouped p gs \<and> mset (concat (map snd gs)) = mset (concat (map snd acc)) + mset xs"
proof (induction xs arbitrary: p acc)
  case (Cons x xs)
  then obtain r q where q: "find_root p x = Some (q, r)" "leads q = leads p" "leads p x r"
    using find_root_leads by (metis list.set_intros(1))
  have "grouped q (add_to_group r x acc)" using add_to_group_grouped [OF Cons.prems(1) q(3)] q(2) by (simp add: grouped_def)
  moreover have "\<forall>x\<in>set xs. \<exists>r. leads q x r" using Cons.prems(2) q(2) by simp
  ultimately show ?case using Cons.IH [of q "add_to_group r x acc"] q(1,2)
    by (auto simp: add_to_group_mset grouped_def)
qed simp

lemma same_group:
  assumes "grouped p gs" "a \<in> set (concat (map snd gs))" "b \<in> set (concat (map snd gs))"
  shows "(\<exists>vs\<in>set (map snd gs). a \<in> set vs \<and> b \<in> set vs) \<longleftrightarrow> (\<exists>r. leads p a r \<and> leads p b r)"
proof
  assume "\<exists>r. leads p a r \<and> leads p b r"
  then obtain r where r: "leads p a r" "leads p b r" by blast
  obtain k vs l us where kv: "(k, vs) \<in> set gs" "a \<in> set vs" "(l, us) \<in> set gs" "b \<in> set us" using assms(2,3) by auto
  then have "leads p a k" "leads p b l" using assms(1) unfolding grouped_def by blast+
  then have "k = l" using r leads_det by metis
  then have "vs = us" using kv assms(1) unfolding grouped_def by (metis eq_key_imp_eq_value)
  then show "\<exists>vs\<in>set (map snd gs). a \<in> set vs \<and> b \<in> set vs" using kv by force
next
  assume "\<exists>vs\<in>set (map snd gs). a \<in> set vs \<and> b \<in> set vs"
  then obtain k vs where "(k, vs) \<in> set gs" "a \<in> set vs" "b \<in> set vs" by auto
  then show "\<exists>r. leads p a r \<and> leads p b r" using assms(1) unfolding grouped_def by blast
qed

lemma links_roots:
  "ab \<in> set (links gs) \<Longrightarrow> fst ab \<in> rg_root ` set gs \<and> snd ab \<in> rg_root ` set gs"
  by (auto simp: links_def link_def identity_of_def split: option.splits if_splits
      dest!: map_by_SomeD [OF sym])

lemma initial_represents: "represents (\<lambda>x. if x \<in> R then Some x else None) R {}"
proof -
  let ?p = "\<lambda>x. if x \<in> R then Some x else None"
  have root: "leads ?p x x" if "x \<in> R" for x using that by (intro leads.leads_root) (simp add: parent_of_def)
  have "linked {} x y \<Longrightarrow> x = y" for x y
    unfolding linked_def by (induction rule: rtranclp_induct) auto
  then have lk: "linked {} x y \<longleftrightarrow> x = y" for x y by (metis linked_refl)
  have "(\<exists>r. leads ?p x r \<and> leads ?p y r) \<longleftrightarrow> linked {} x y" if "x \<in> R" "y \<in> R" for x y
  proof -
    have "leads ?p x r \<longleftrightarrow> r = x" "leads ?p y r \<longleftrightarrow> r = y" for r
      using root [OF that(1)] root [OF that(2)] leads_det by blast+
    then show ?thesis unfolding lk by auto
  qed
  then show ?thesis unfolding represents_def using root by blast
qed

lemma Derive_components:
  "\<exists>ps. Derive gs = Some ps \<and> mset (concat ps) = mset (map rg_root gs) \<and> [] \<notin> set ps
     \<and> (\<forall>a\<in>rg_root ` set gs. \<forall>b\<in>rg_root ` set gs.
          (\<exists>p\<in>set ps. a \<in> set p \<and> b \<in> set p) \<longleftrightarrow> linked (set (links gs)) a b)"
proof -
  let ?R = "rg_root ` set gs"
  obtain p where p: "union_all (\<lambda>x. if x \<in> ?R then Some x else None) (links gs) = Some p" "represents p ?R (set (links gs))"
    using union_all_represents [OF initial_represents, of "links gs" ?R] links_roots by auto
  have "grouped p []" by (simp add: grouped_def)
  moreover have "\<forall>x\<in>set (map rg_root gs). \<exists>r. leads p x r" using p(2) by (auto simp: represents_def)
  ultimately obtain g where g: "group_roots p [] (map rg_root gs) = Some g" "grouped p g"
      "mset (concat (map snd g)) = mset (map rg_root gs)"
    using group_roots_result by fastforce
  have "set (concat (map snd g)) = ?R" using g(3) by (metis set_map set_mset_mset)
  then have "\<forall>a\<in>?R. \<forall>b\<in>?R. (\<exists>v\<in>set (map snd g). a \<in> set v \<and> b \<in> set v) \<longleftrightarrow> linked (set (links gs)) a b"
    using same_group [OF g(2)] p(2) by (intro ballI) (simp only: represents_def)
  moreover have "Derive gs = Some (map snd g)" using p(1) g(1) by (simp add: Derive_def)
  moreover have "[] \<notin> set (map snd g)" using g(2) by (auto simp: grouped_def)
  ultimately show ?thesis using g(3) by blast
qed

end
