(* ===== verification/Depmaint_Example.thy ===== *)
theory Depmaint_Example
  imports Campaign_Inv Project
begin

text \<open>
  A small project for the concrete instances of the dependency-maintenance properties: an application
  requires a library and a plugin, the plugin's first release requires the library's first major
  version, its second release accepts the second. The requested upgrade moves the library to its
  second major version.
\<close>

definition dep_app :: node where "dep_app = \<lparr>n_key = ''go:app@1.0.0'', n_kind = ''package'', n_direct = True\<rparr>"
definition dep_lib :: node where "dep_lib = \<lparr>n_key = ''go:lib@1.0.0'', n_kind = ''package'', n_direct = True\<rparr>"
definition dep_plug :: node where "dep_plug = \<lparr>n_key = ''go:plug@1.0.0'', n_kind = ''package'', n_direct = True\<rparr>"

definition dep_edge :: "string \<Rightarrow> string \<Rightarrow> string \<Rightarrow> edge" where
  "dep_edge a b r = \<lparr>e_from = a, e_to = b, e_requirement = r, e_resolved = ''1.0.0'', e_internal = True\<rparr>"

definition dep_graph :: graph where
  "dep_graph = \<lparr>gr_nodes = [dep_app, dep_lib, dep_plug],
     gr_edges = [dep_edge ''go:app@1.0.0'' ''go:lib@1.0.0'' ''*'', dep_edge ''go:app@1.0.0'' ''go:plug@1.0.0'' ''*'',
                 dep_edge ''go:plug@1.0.0'' ''go:lib@1.0.0'' ''^1.0.0'']\<rparr>"

definition dep_registry :: registry where
  "dep_registry = \<lparr>rg_versions = (\<lambda>p. if p = ''go:plug'' then Inr [''1.0.0'', ''2.0.0''] else Inr [''1.0.0'']),
     rg_requirements = (\<lambda>p v. if p = ''go:plug'' then Inr [\<lparr>rq_package = ''go:lib'', rq_constraint = ''>=2.0.0''\<rparr>] else Inr [])\<rparr>"

definition dep_accepts :: accepts where
  "dep_accepts requirement v = (case SemverAccepts requirement v of Inl e \<Rightarrow> Inl ''malformed'' | Inr b \<Rightarrow> Inr b)"

definition dep_upgrade :: upgrade where "dep_upgrade = \<lparr>up_package = ''go:lib'', up_target = ''2.0.0''\<rparr>"

definition dep_plan :: "plan_error + plan" where "dep_plan = Make dep_graph dep_upgrade dep_registry dep_accepts"

lemma dep_plan_result:
  "succeeds (\<lambda>pl. pl_feasible pl \<and> pl_tier pl = TierMajor \<and> map sp_package (pl_steps pl) = [''go:plug'', ''go:lib'']) dep_plan"
  by code_simp

definition dep_search :: search where "dep_search = projr (newSearch dep_graph dep_upgrade dep_registry dep_accepts)"

lemma dep_search_new: "newSearch dep_graph dep_upgrade dep_registry dep_accepts = Inr dep_search"
proof -
  have "succeeds (\<lambda>_. True) (newSearch dep_graph dep_upgrade dep_registry dep_accepts)" by code_simp
  then show ?thesis by (auto simp: dep_search_def succeeds_iff)
qed

subsection \<open>A campaign on it\<close>

definition dep_engine :: engine where
  "dep_engine = \<lparr>en_registry = dep_registry, en_accepts = dep_accepts, en_sha256 = (\<lambda>s. ''h'')\<rparr>"

definition dep_world :: world where "dep_world roots refresh = Inr (dep_graph, ''snap1'')"

definition dep_done :: world where
  "dep_done roots refresh = Inr (\<lparr>gr_nodes = [dep_app, \<lparr>n_key = ''go:lib@2.0.0'', n_kind = ''package'', n_direct = True\<rparr>],
     gr_edges = []\<rparr>, ''snap2'')"

definition dep_spec :: new_spec where
  "dep_spec = \<lparr>ns_type = TypeUpgrade, ns_package = ''go:lib'', ns_target = ''2.0.0'', ns_roots = [''app''],
     ns_max_attempts = 1, ns_max_duration = hour\<rparr>"

definition dep_report :: record_input where
  "dep_report = \<lparr>ri_campaign = ''dep_c1'', ri_step = 1, ri_verdict = VerdictSucceeded, ri_reason = [], ri_executor = [],
     ri_pr = [], ri_commit = []\<rparr>"

definition dep_st1 :: cstore where "dep_st1 = snd (New empty_store 0 dep_spec)"
definition dep_st2 :: cstore where "dep_st2 = snd (Plan dep_engine dep_world 0 dep_st1 ''dep_c1'' False)"
definition dep_st3 :: cstore where "dep_st3 = snd (Record dep_engine dep_done 0 dep_st2 dep_report)"
definition dep_st4 :: cstore where "dep_st4 = snd (Record dep_engine dep_world 0 dep_st2 (dep_report\<lparr>ri_verdict := VerdictFailed\<rparr>))"

abbreviation "dep_reached \<equiv> reach (\<lambda>st. st = empty_store) (engine_step dep_engine)"

lemma dep_reached:
  shows "dep_reached dep_st1" "dep_reached dep_st2" "dep_reached dep_st3" "dep_reached dep_st4"
proof -
  have "engine_step dep_engine empty_store dep_st1" unfolding dep_st1_def using step_new prod.collapse by metis
  then show 1: "dep_reached dep_st1" using reach_step [OF reach_init [of "\<lambda>st. st = empty_store"]] by blast
  have "engine_step dep_engine dep_st1 dep_st2" unfolding dep_st2_def using step_plan prod.collapse by metis
  then show 2: "dep_reached dep_st2" by (rule reach_step [OF 1])
  have "engine_step dep_engine dep_st2 dep_st3" unfolding dep_st3_def using step_record prod.collapse by metis
  then show "dep_reached dep_st3" by (rule reach_step [OF 2])
  have "engine_step dep_engine dep_st2 dep_st4" unfolding dep_st4_def using step_record prod.collapse by metis
  then show "dep_reached dep_st4" by (rule reach_step [OF 2])
qed

lemma dep_next: "succeeds (\<lambda>ans. case ans of NextDispatch c n k order \<Rightarrow> n = 1 \<and> k = 2 | _ \<Rightarrow> False)
    (fst (Next dep_world 0 dep_st2 ''dep_c1''))"
  by code_simp

lemma dep_succeeded: "succeeds (\<lambda>c. cp_status c = StatusSucceeded) (Get dep_st3 ''dep_c1'')"
  by code_simp

lemma dep_spent: "succeeds (\<lambda>c. cp_max_attempts c \<le> int (cp_spent c)) (Get dep_st4 ''dep_c1'')"
  by code_simp

end
