(* ===== verification/Depmaint_Properties.thy ===== *)
theory Depmaint_Properties
  imports Depmaint_Example
begin

text \<open>
  What the dependency-maintenance tools guarantee: sound and tier-minimal plans, requirements as
  version intervals, projects as connected components, campaigns that keep their books and budgets.
\<close>

section \<open>Plans\<close>

text \<open>C19. A feasible plan is a coordinated set of upgrades: there is an assignment of versions in
  which every requirement of the project is accepted, reached from the current versions by the plan's
  steps; each prerequisite moves up to a published version within the plan's tier, and the requested
  upgrade comes last.\<close>

theorem feasible_plan_satisfies_project:
  assumes "Make g up reg acc = Inr pl" "pl_feasible pl"
  shows "\<exists>s. newSearch g up reg acc = Inr s \<and> plan_sound s (pl_tier pl) (pl_steps pl)"
  using Make_Inr [OF assms(1)] assms(2) closure_sound by auto

theorem feasible_plan_satisfies_project_witness:
  "\<exists>pl s. Make dep_graph dep_upgrade dep_registry dep_accepts = Inr pl \<and> newSearch dep_graph dep_upgrade dep_registry dep_accepts = Inr s
     \<and> map sp_package (pl_steps pl) = [''go:plug'', ''go:lib''] \<and> plan_sound s (pl_tier pl) (pl_steps pl)"
proof -
  obtain pl where "Make dep_graph dep_upgrade dep_registry dep_accepts = Inr pl" "pl_feasible pl"
      "map sp_package (pl_steps pl) = [''go:plug'', ''go:lib'']"
    using dep_plan_result by (auto simp: succeeds_iff dep_plan_def)
  then show ?thesis using feasible_plan_satisfies_project [of dep_graph dep_upgrade dep_registry dep_accepts pl] by auto
qed

text \<open>The tiers are tried in order: no smaller tier had a feasible set, and an infeasible answer
  means that none of the three tiers had one.\<close>

theorem plan_takes_smallest_tier:
  assumes "Make g up reg acc = Inr pl"
  shows "\<exists>s. newSearch g up reg acc = Inr s
     \<and> (if pl_feasible pl
        then closure s (pl_tier pl) = Inr (Some (pl_steps pl)) \<and> (\<forall>t<pl_tier pl. closure s t = Inr None)
        else pl_steps pl = [] \<and> (\<forall>t. closure s t = Inr None))"
  using Make_Inr [OF assms] by blast

theorem plan_takes_smallest_tier_witness:
  "closure dep_search TierPatch = Inr None \<and> closure dep_search TierMinor = Inr None"
proof -
  obtain pl where pl: "Make dep_graph dep_upgrade dep_registry dep_accepts = Inr pl" "pl_feasible pl" "pl_tier pl = TierMajor"
    using dep_plan_result by (auto simp: succeeds_iff dep_plan_def)
  have "TierPatch < TierMajor" "TierMinor < TierMajor" by (simp_all add: less_Tier_def tier_rank_def)
  then show ?thesis using plan_takes_smallest_tier [OF pl(1)] pl(2,3) dep_search_new by simp
qed

text \<open>C24. Each repair uses up a published version: the number of newer published versions left to the
  assigned packages goes down, so the search for a coordinated set ends on every registry.\<close>

theorem repair_uses_up_versions:
  assumes "firstViolation s a st = Inr (Some v)" "repair s t a st v = Inr (Some (a', st'))"
  shows "room s a' < room s a"
proof -
  obtain p to where "p \<in> fst ` set a" "p \<noteq> up_package (s_up s)" "p \<notin> set (s_is_root s)" "smallestFix s p a st t = Inr (Some to)"
      "(a', st') = move_to s a st v p to" by (rule repair_Some [OF assms(2,1)])
  then show ?thesis using room_decreases by (metis fst_conv move_to_def prod.inject)
qed

theorem repair_uses_up_versions_witness:
  "\<exists>v a st. firstViolation dep_search (initial_assignment dep_search) [] = Inr (Some v)
     \<and> repair dep_search TierMajor (initial_assignment dep_search) [] v = Inr (Some (a, st))
     \<and> room dep_search a < room dep_search (initial_assignment dep_search)"
proof -
  let ?a = "initial_assignment dep_search"
  have "succeeds (\<lambda>ov. case ov of None \<Rightarrow> False | Some v \<Rightarrow> succeeds (\<lambda>r. r \<noteq> None) (repair dep_search TierMajor ?a [] v))
      (firstViolation dep_search ?a [])" by code_simp
  then obtain v a st where "firstViolation dep_search ?a [] = Inr (Some v)" "repair dep_search TierMajor ?a [] v = Inr (Some (a, st))"
    by (auto simp: succeeds_iff split: option.splits)
  then show ?thesis using repair_uses_up_versions by blast
qed

text \<open>The blockers of a plan are exactly the non-root requirers whose edge to the upgraded package
  rejects the target, in the order of their keys.\<close>

theorem blockers_are_rejecting_requirers:
  assumes "Make g up reg acc = Inr pl"
  shows "\<exists>s. newSearch g up reg acc = Inr s
     \<and> map bl_node (pl_blockers pl) = sort (map e_from (filter (rejecting s) (gr_edges (s_graph s))))"
  using Make_Inr [OF assms] blockers_Inr by blast

theorem blockers_are_rejecting_requirers_witness:
  "\<exists>pl. Make dep_graph dep_upgrade dep_registry dep_accepts = Inr pl
     \<and> map bl_node (pl_blockers pl) = sort (map e_from (filter (rejecting dep_search) (gr_edges (s_graph dep_search))))"
proof -
  obtain pl where "Make dep_graph dep_upgrade dep_registry dep_accepts = Inr pl"
    using dep_plan_result by (auto simp: succeeds_iff dep_plan_def)
  then show ?thesis using blockers_are_rejecting_requirers [of dep_graph dep_upgrade dep_registry dep_accepts pl] dep_search_new by auto
qed

text \<open>The tier a plan carries is the tier that was tried, not the largest tier among its steps: an
  upgrade that nobody blocks is answered in the patch tier although its only step is a major bump.\<close>

theorem plan_tier_is_not_the_largest:
  "\<exists>pl. Make (dep_graph\<lparr>gr_edges := [dep_edge ''go:app@1.0.0'' ''go:lib@1.0.0'' ''*'']\<rparr>) dep_upgrade dep_registry dep_accepts = Inr pl
     \<and> pl_feasible pl \<and> pl_tier pl = TierPatch \<and> map sp_tier (pl_steps pl) = [TierMajor]"
proof -
  have "succeeds (\<lambda>pl. pl_feasible pl \<and> pl_tier pl = TierPatch \<and> map sp_tier (pl_steps pl) = [TierMajor])
      (Make (dep_graph\<lparr>gr_edges := [dep_edge ''go:app@1.0.0'' ''go:lib@1.0.0'' ''*'']\<rparr>) dep_upgrade dep_registry dep_accepts)"
    by code_simp
  then show ?thesis by (simp add: succeeds_iff)
qed

text \<open>Merging the graphs of a project's roots keeps one node per key and one copy of every edge and
  loses none.\<close>

theorem merge_roots_loses_nothing:
  "distinct (map n_key (gr_nodes (MergeRoots roots)))
   \<and> n_key ` set (gr_nodes (MergeRoots roots)) = n_key ` root_nodes roots
   \<and> set (gr_nodes (MergeRoots roots)) \<subseteq> root_nodes roots
   \<and> distinct (gr_edges (MergeRoots roots))
   \<and> set (gr_edges (MergeRoots roots)) = root_edges roots"
  using merge_roots_loop_props [OF refl, of "{}" "{}" roots] by (auto simp: MergeRoots_def)

section \<open>Versions\<close>

text \<open>A requirement accepts a version exactly when the version parses, the requirement has at least
  one clause, and the version lies in the interval each clause denotes; caret and tilde clauses end at the
  next major, minor or patch version. A malformed clause that is reached is an error, never an accept.\<close>

theorem requirement_is_intersection_of_intervals:
  "SemverAccepts requirement s = Inr True \<longleftrightarrow>
     (\<exists>v. ParseVersion s = Inr v \<and> fields_func (\<lambda>c. c = CHR '' '' \<or> c = CHR '','') requirement \<noteq> []
        \<and> list_all (\<lambda>c. clause_holds c v) (fields_func (\<lambda>c. c = CHR '' '' \<or> c = CHR '','') requirement))"
  by (simp add: SemverAccepts_True list_all_iff)

text \<open>On parsed versions \<open>Compare\<close> never wraps around: it is the sign of the lexicographic order of
  major, minor and patch, and all three components are in range.\<close>

theorem compare_never_wraps:
  assumes "ParseVersion s = Inr v" "ParseVersion t = Inr w"
  shows "version_ok v \<and> version_ok w \<and> Compare v w = (if key v < key w then -1 else if key v = key w then 0 else 1)"
  using assms by (simp add: ParseVersion_ok Compare_key del: key_inject)

theorem compare_never_wraps_witness:
  "\<exists>v w. ParseVersion ''0.9.0'' = Inr v \<and> ParseVersion ''v1'' = Inr w \<and> Compare v w = -1"
proof -
  have "ParseVersion ''0.9.0'' = Inr \<lparr>v_major = 0, v_minor = 9, v_patch = 0\<rparr>"
    "ParseVersion ''v1'' = Inr \<lparr>v_major = 1, v_minor = 0, v_patch = 0\<rparr>" by code_simp+
  from compare_never_wraps [OF this] this show ?thesis by (simp add: key_def)
qed

text \<open>Printing a version and reading it back, with or without the leading v, gives the same version.\<close>

theorem version_roundtrip:
  assumes "version_ok v"
  shows "ParseVersion (show_version v) = Inr v \<and> ParseVersion (''v'' @ show_version v) = Inr v"
  using ParseVersion_show [OF assms] by blast

theorem version_roundtrip_witness:
  "ParseVersion (show_version \<lparr>v_major = 1, v_minor = 2, v_patch = 30\<rparr>) = Inr \<lparr>v_major = 1, v_minor = 2, v_patch = 30\<rparr>"
  using version_roundtrip [of "\<lparr>v_major = 1, v_minor = 2, v_patch = 30\<rparr>"] by (simp add: version_ok_def int64_max_def)

section \<open>Projects\<close>

text \<open>C20. \<open>Derive\<close> returns, splits the roots into non-empty groups without losing or repeating one, and
  puts two roots into one project exactly when internal edges connect them, in either direction and
  through any number of other roots.\<close>

theorem projects_are_connected_components:
  "\<exists>ps. Derive gs = Some ps \<and> mset (concat ps) = mset (map rg_root gs) \<and> [] \<notin> set ps
     \<and> (\<forall>a\<in>rg_root ` set gs. \<forall>b\<in>rg_root ` set gs.
          (\<exists>p\<in>set ps. a \<in> set p \<and> b \<in> set p) \<longleftrightarrow> linked (set (links gs)) a b)"
  by (rule Derive_components)

definition dep_roots :: "root_graph list" where
  "dep_roots = [\<lparr>rg_root = ''a'', rg_module = ''go:a'', rg_nodes = [], rg_edges = [dep_edge ''go:a@1'' ''go:c@1'' ''*'']\<rparr>,
     \<lparr>rg_root = ''b'', rg_module = ''go:b'', rg_nodes = [], rg_edges = []\<rparr>,
     \<lparr>rg_root = ''c'', rg_module = ''go:c'', rg_nodes = [], rg_edges = []\<rparr>]"

theorem projects_are_connected_components_witness:
  "\<exists>ps. Derive dep_roots = Some ps \<and> (\<exists>p\<in>set ps. ''a'' \<in> set p \<and> ''c'' \<in> set p)"
proof -
  have "(''a'', ''c'') \<in> set (links dep_roots)" by code_simp
  then have "linked (set (links dep_roots)) ''a'' ''c''" by (auto simp: linked_def)
  moreover have "''a'' \<in> rg_root ` set dep_roots" "''c'' \<in> rg_root ` set dep_roots" by (auto simp: dep_roots_def)
  ultimately show ?thesis using projects_are_connected_components [of dep_roots] by blast
qed

section \<open>Campaigns\<close>

text \<open>C21. Whatever sequence of calls ran, the campaign store keeps its books: campaign ids are
  sequential, every row's spent and completed counters agree with the append-only attempt log, attempt
  and escalation ids never collide, a completed campaign has no plan and a feasible plan has a step to
  issue.\<close>

theorem campaign_books_balance:
  assumes "reach (\<lambda>st. st = empty_store) (engine_step E) st"
  shows "store_inv st \<and> esc_inv st"
  using campaign_run.reach_inv [OF assms] by (simp add: store_ok_def)

theorem campaign_books_balance_witness:
  "store_inv dep_st4 \<and> esc_inv dep_st4 \<and> length (st_attempts dep_st4) = 1"
proof -
  have "length (st_attempts dep_st4) = 1" by code_simp
  then show ?thesis using campaign_books_balance [OF dep_reached(4)] by blast
qed

text \<open>C22. \<open>Next\<close> hands out a work order only for the live step of a campaign with budget left, on the
  very snapshot the plan was computed on, with a feasible plan, and never for a step that was rejected on
  this plan and snapshot. It changes nothing, so racing executors get the same order.\<close>

theorem next_dispatches_live_step:
  assumes "reach (\<lambda>st. st = empty_store) (engine_step E) st"
    and "Next w now st cid = (Inr (NextDispatch c n tot order), st')"
  shows "st' = st \<and> Get st cid = Inr c \<and> int (cp_spent c) < cp_max_attempts c
     \<and> time_sub now (cp_created c) < cp_max_duration c \<and> n = cp_completed c + 1
     \<and> (\<exists>pl g. cp_plan c = Some pl \<and> pl_feasible pl \<and> pl_steps pl \<noteq> [] \<and> tot = cp_completed c + length (pl_steps pl)
          \<and> w (cp_roots c) False = Inr (g, cp_snapshot c) \<and> order = renderWorkOrder c g (Attempts st cid))
     \<and> (\<forall>a\<in>set (log_of st cid). \<not> gating_rejection c n a)"
proof (rule Next_dispatch [OF _ assms(2)])
  show "store_inv st" using campaign_run.reach_inv [OF assms(1)] by (simp add: store_ok_def)
qed

theorem next_dispatches_live_step_witness:
  "\<exists>c order. Next dep_world 0 dep_st2 ''dep_c1'' = (Inr (NextDispatch c 1 2 order), dep_st2) \<and> cp_completed c = 0"
proof -
  obtain ans where ans: "fst (Next dep_world 0 dep_st2 ''dep_c1'') = Inr ans"
      "case ans of NextDispatch c n k order \<Rightarrow> n = 1 \<and> k = 2 | _ \<Rightarrow> False"
    using dep_next unfolding succeeds_iff by blast
  then obtain c order where f: "fst (Next dep_world 0 dep_st2 ''dep_c1'') = Inr (NextDispatch c 1 2 order)"
    by (cases ans) simp_all
  then have e: "Next dep_world 0 dep_st2 ''dep_c1'' = (Inr (NextDispatch c 1 2 order), snd (Next dep_world 0 dep_st2 ''dep_c1''))"
    by (metis prod.collapse)
  from next_dispatches_live_step [OF dep_reached(2) e] show ?thesis using e by auto
qed

text \<open>C23. Once the attempts are spent no later call, whatever happens in between, gets a work order
  for that campaign again.\<close>

theorem spent_campaign_never_dispatches:
  assumes "reach (\<lambda>st. st = empty_store) (engine_step E) st" "Get st cid = Inr c" "cp_max_attempts c \<le> int (cp_spent c)"
    and "(engine_step E)\<^sup>*\<^sup>* st st'"
  shows "fst (Next w now st' cid) \<noteq> Inr (NextDispatch d n tot order)"
  using spent_budget_final [OF campaign_run.reach_inv [OF assms(1)] assms(2-4)] .

theorem spent_campaign_never_dispatches_witness:
  "\<nexists>d n tot order. fst (Next dep_world 0 dep_st4 ''dep_c1'') = Inr (NextDispatch d n tot order)"
proof -
  obtain c where c: "Get dep_st4 ''dep_c1'' = Inr c" "cp_max_attempts c \<le> int (cp_spent c)" using dep_spent by (auto simp: succeeds_iff)
  show ?thesis using spent_campaign_never_dispatches [OF dep_reached(4) c rtranclp.rtrancl_refl] by blast
qed

text \<open>C25. A report that arrives after the last step succeeded is refused for want of a plan: it is not
  stored as superseded, although late reports are documented to be.\<close>

theorem late_report_after_success_is_refused:
  assumes "reach (\<lambda>st. st = empty_store) (engine_step E) st"
    and "Get st (ri_campaign inp) = Inr c" "cp_status c = StatusSucceeded"
    and "ri_verdict inp \<in> {VerdictSucceeded, VerdictFailed, VerdictRejected}" "ri_verdict inp = VerdictRejected \<longrightarrow> ri_reason inp \<noteq> []"
  shows "Record E w now st inp = (Inl (No_Plan (cp_id c)), st)"
  using succeeded_not_recordable [OF campaign_run.reach_inv [OF assms(1)] assms(2-5)] .

theorem late_report_after_success_is_refused_witness:
  "Record dep_engine dep_done 0 dep_st3 dep_report = (Inl (No_Plan ''dep_c1''), dep_st3)"
proof -
  obtain c where c: "Get dep_st3 ''dep_c1'' = Inr c" "cp_status c = StatusSucceeded" using dep_succeeded by (auto simp: succeeds_iff)
  then have "cp_id c = ''dep_c1''" using Get_Inr by blast
  then show ?thesis using late_report_after_success_is_refused [OF dep_reached(3), of dep_report c dep_done 0] c
    by (simp add: dep_report_def)
qed

end
