(* ===== verification/Go_Float.thy ===== *)
theory Go_Float
  imports Go_Lib "HOL-Library.Log_Nat"
begin

text \<open>The correctly rounded value \<open>strconv.ParseFloat(s, 64)\<close> gives a plain decimal.\<close>

text \<open>\<open>a / b\<close> to the nearest integer, ties to even; and \<open>d / 10 ^ k\<close> to the nearest double.\<close>

definition round_even :: "nat \<Rightarrow> nat \<Rightarrow> nat" where
  "round_even a b =
     (let q = a div b; r = a mod b in if 2 * r < b then q else if b < 2 * r then q + 1 else q + q mod 2)"

definition double_of :: "nat \<Rightarrow> nat \<Rightarrow> rat" where
  "double_of d k =
     (let scaled = (\<lambda>e. if e \<ge> 0 then (d, 10 ^ k * 2 ^ nat e) else (d * 2 ^ nat (- e), 10 ^ k :: nat));
          e0 = int (floorlog 2 d) - int (floorlog 2 (10 ^ k)) - 53;
          e1 = (case scaled e0 of (a, b) \<Rightarrow> if 2 ^ 53 * b \<le> a then e0 + 1 else e0);
          e = max e1 (- 1074)
      in case scaled e of (a, b) \<Rightarrow>
           (if e \<ge> 0 then of_nat (round_even a b) * 2 ^ nat e else of_nat (round_even a b) / 2 ^ nat (- e)))"

end
