(* ===== verification/Workloads.thy ===== *)
theory Workloads
  imports Constitution_Rules Go_Time Go_Text Go_Float
begin

text \<open>
  \<open>line/station/workloads.go\<close> and \<open>workload_store.go\<close>: workload requests of stations. A
  request is checked against the constitution's rules and the station's quota, recorded, approved
  automatically or by the king, acted on by the controller and expired by the clock. The store is the
  file's contents; a call reads the clock once and file failures are not modelled. The channel post is
  a parameter: the error it answers for a text.
\<close>

subsection \<open>Data\<close>

datatype wl_state =
    WorkloadPending | WorkloadApproved | WorkloadDenied | WorkloadCreating | WorkloadRunning
  | WorkloadExited | WorkloadFailed | WorkloadExpired | WorkloadRemoved | WorkloadUnknown string

record workload_event =
  we_at :: time
  we_state :: wl_state
  we_by :: string
  we_detail :: string

record workload_build =
  wb_commit :: string
  wb_dockerfile :: string

record workload_resources =
  rs_memory :: string
  rs_cpus :: string
  rs_pids :: int

record workload_expose =
  xp_port :: int
  xp_name :: string

record workload_spec =
  ws_kind :: string
  ws_image :: string
  ws_build :: "workload_build option"
  ws_args :: "string list"
  ws_env :: "(string \<times> string) list"
  ws_secrets :: "string list"
  ws_volumes :: "string list"
  ws_resources :: workload_resources
  ws_ttl :: string
  ws_expose :: "workload_expose option"
  ws_purpose :: string

record workload =
  wk_id :: string
  wk_station :: string
  wk_role :: string
  wk_rule :: string
  wk_spec :: workload_spec
  wk_state :: wl_state
  wk_detail :: string
  wk_stopped :: bool
  wk_expires :: time
  wk_history :: "workload_event list"

record workload_file =
  wf_next :: nat
  wf_workloads :: "workload list"
  wf_logs :: "string \<rightharpoonup> string"

record caller =
  ca_name :: string
  ca_role :: string

subsection \<open>The store\<close>

definition WorkloadExitDetail :: "int \<Rightarrow> string" where
  "WorkloadExitDetail code = ''exit code '' @ show_int code"

definition ExitCode :: "workload \<Rightarrow> int option" where
  "ExitCode w =
     (if wk_state w \<noteq> WorkloadExited \<and> wk_state w \<noteq> WorkloadFailed then None
      else case cut_prefix (wk_detail w) ''exit code '' of None \<Rightarrow> None | Some rest \<Rightarrow> atoi rest)"

definition wl_live :: "workload \<Rightarrow> bool" where
  "wl_live w \<longleftrightarrow> wk_state w \<in> {WorkloadPending, WorkloadApproved, WorkloadCreating, WorkloadRunning} \<and> \<not> wk_stopped w"

definition controllerVisible :: "workload \<Rightarrow> bool" where
  "controllerVisible w \<longleftrightarrow> wk_state w \<in> {WorkloadApproved, WorkloadCreating, WorkloadRunning, WorkloadExited,
      WorkloadFailed, WorkloadExpired}"

definition setState :: "time \<Rightarrow> wl_state \<Rightarrow> string \<Rightarrow> string \<Rightarrow> workload \<Rightarrow> workload" where
  "setState moment s by_whom detail w =
     w\<lparr>wk_state := s, wk_detail := detail,
       wk_history := wk_history w @ [\<lparr>we_at = moment, we_state = s, we_by = by_whom, we_detail = detail\<rparr>]\<rparr>"

definition lapsed :: "time \<Rightarrow> workload \<Rightarrow> bool" where
  "lapsed now w \<longleftrightarrow> wk_state w \<in> {WorkloadApproved, WorkloadCreating, WorkloadRunning} \<and> wk_expires w \<noteq> 0 \<and> wk_expires w \<le> now"

definition expire :: "time \<Rightarrow> workload_file \<Rightarrow> workload_file" where
  "expire now f = f\<lparr>wf_workloads := map (\<lambda>w. if lapsed now w then setState now WorkloadExpired ''serve'' ''ttl passed'' w else w)
     (wf_workloads f)\<rparr>"

text \<open>Load, sweep, apply, save; an error of \<open>fn\<close> leaves the file as it was.\<close>

definition update :: "time \<Rightarrow> (workload_file \<Rightarrow> 'e + 'a \<times> workload_file) \<Rightarrow> workload_file \<Rightarrow> ('e + 'a) \<times> workload_file" where
  "update now fn f = (case fn (expire now f) of Inl e \<Rightarrow> (Inl e, f) | Inr (x, f') \<Rightarrow> (Inr x, f'))"

definition wf_find :: "workload_file \<Rightarrow> string \<Rightarrow> nat option" where
  "wf_find f wid = find_first (\<lambda>i. wk_id (wf_workloads f ! i) = wid) [0..<length (wf_workloads f)]"

definition wf_add :: "workload_file \<Rightarrow> workload \<Rightarrow> workload \<times> workload_file" where
  "wf_add f w =
     (let n = wf_next f + 1; w' = w\<lparr>wk_id := ''wl-'' @ show_nat n\<rparr>
      in (w', f\<lparr>wf_next := n, wf_workloads := wf_workloads f @ [w']\<rparr>))"

subsection \<open>The shape of a request\<close>

definition pinned_image :: "string \<Rightarrow> bool" where
  "pinned_image s \<longleftrightarrow>
     (case cut_last (CHR ''@'') s of
        None \<Rightarrow> False
      | Some (name, d) \<Rightarrow>
          name \<noteq> [] \<and> (is_lower (hd name) \<or> is_digit (hd name))
          \<and> list_all (\<lambda>c. is_lower c \<or> is_digit c \<or> c \<in> set ''._/:-'') name
          \<and> has_prefix d ''sha256:'' \<and> length d = 71 \<and> list_all is_hex (drop 7 d))"

definition resource_name :: "string \<Rightarrow> bool" where
  "resource_name s \<longleftrightarrow> s \<noteq> [] \<and> length s \<le> 64 \<and> (is_lower (hd s) \<or> is_digit (hd s))
     \<and> list_all (\<lambda>c. is_lower c \<or> is_digit c \<or> c \<in> set ''_.-'') s"

definition env_name :: "string \<Rightarrow> bool" where
  "env_name s \<longleftrightarrow> s \<noteq> [] \<and> (is_lower (hd s) \<or> is_upper (hd s) \<or> hd s = CHR ''_'')
     \<and> list_all (\<lambda>c. is_lower c \<or> is_upper c \<or> is_digit c \<or> c = CHR ''_'') s"

definition WorkloadKinds :: "string list" where
  "WorkloadKinds = [''test'', ''staging'', ''demo'', ''build'']"

datatype spec_fault =
    Bad_Kind string | Image_And_Build | No_Image_Or_Build | Image_Not_Pinned string | Bad_Build_Commit string
  | Bad_Dockerfile string | Bad_Env_Name | Bad_Secret string | Bad_Volume string | Negative_Pids int | Bad_Expose

definition validateWorkloadSpec :: "workload_spec \<Rightarrow> spec_fault option" where
  "validateWorkloadSpec sp =
     first_err
       ([fail_if (ws_kind sp \<notin> set WorkloadKinds) (Bad_Kind (ws_kind sp)),
         fail_if (ws_image sp \<noteq> [] \<and> ws_build sp \<noteq> None) Image_And_Build,
         fail_if (ws_image sp = [] \<and> ws_build sp = None) No_Image_Or_Build,
         fail_if (ws_image sp \<noteq> [] \<and> \<not> pinned_image (ws_image sp)) (Image_Not_Pinned (ws_image sp))]
        @ (case ws_build sp of
             None \<Rightarrow> []
           | Some b \<Rightarrow> [fail_if (\<not> full_hex (wb_commit b)) (Bad_Build_Commit (wb_commit b)),
                        fail_if (\<not> is_local (wb_dockerfile b)) (Bad_Dockerfile (wb_dockerfile b))])
        @ [fail_if (\<not> list_all (\<lambda>(k, v). env_name k) (ws_env sp)) Bad_Env_Name]
        @ map (\<lambda>n. fail_if (\<not> resource_name n) (Bad_Secret n)) (ws_secrets sp)
        @ map (\<lambda>n. fail_if (\<not> resource_name n) (Bad_Volume n)) (ws_volumes sp)
        @ [fail_if (rs_pids (ws_resources sp) < 0) (Negative_Pids (rs_pids (ws_resources sp))),
           (case ws_expose sp of
              None \<Rightarrow> None
            | Some e \<Rightarrow> fail_if (xp_port e < 1 \<or> xp_port e > 65535 \<or> \<not> resource_name (xp_name e)) Bad_Expose)])"

subsection \<open>Applying a rule\<close>

definition ParseCPUCount :: "string \<Rightarrow> rat option" where
  "ParseCPUCount s =
     (if \<not> positive_cpus s then None
      else case decimal_parts s of None \<Rightarrow> None | Some (d, k) \<Rightarrow> Some (double_of d k))"

text \<open>The result is the resource as it stands after the call, or the reason of the refusal; \<open>bad\<close> is
  the parser's error text.\<close>

definition boundResource :: "string \<Rightarrow> (string \<Rightarrow> 'n :: linorder option) \<Rightarrow> (string \<Rightarrow> string) \<Rightarrow> 'n \<Rightarrow> string \<Rightarrow> string
    \<Rightarrow> string + string" where
  "boundResource name parse bad zero rule_bound requested =
     (if rule_bound = [] then
        (if requested = [] then Inr requested
         else case parse requested of None \<Rightarrow> Inl (bad requested) | Some n \<Rightarrow> Inr requested)
      else
        (let bound = (case parse rule_bound of None \<Rightarrow> zero | Some b \<Rightarrow> b);
             req = (if requested = [] then rule_bound else requested)
         in case parse req of
              None \<Rightarrow> Inl (bad req)
            | Some n \<Rightarrow> (if n > bound then Inl (name @ '' '' @ req @ '' exceeds the rule's '' @ rule_bound) else Inr req)))"

definition memory_bad :: "string \<Rightarrow> string" where
  "memory_bad s = ''memory '' @ go_quote s @ (if memory_size s then '': out of range'' else '': want a size like 4g or 512m'')"

definition cpus_bad :: "string \<Rightarrow> string" where
  "cpus_bad s = ''cpus '' @ go_quote s @ '': want a positive number like 2 or 0.5''"

text \<open>\<open>None\<close> is the panic of a rule without a readable lifetime.\<close>

definition resolve_ttl :: "workload_rule \<Rightarrow> string \<Rightarrow> (string + string) option" where
  "resolve_ttl r requested =
     map_option (\<lambda>ttl.
       if requested = [] then Inr (duration_string ttl)
       else case parse_duration requested of
              None \<Rightarrow> Inl (''ttl '' @ go_quote requested @ '': want a positive duration like 2h'')
            | Some d \<Rightarrow>
                (if d \<le> 0 then Inl (''ttl '' @ go_quote requested @ '': want a positive duration like 2h'')
                 else if d > ttl then Inl (''ttl '' @ duration_string d @ '' exceeds the rule's '' @ duration_string ttl)
                 else Inr (duration_string d)))
       (TTLDuration r)"

definition resolve_resources :: "workload_rule \<Rightarrow> workload_resources \<Rightarrow> string + workload_resources" where
  "resolve_resources r res =
     (case boundResource ''memory'' ParseMemoryBytes memory_bad 0 (wr_memory r) (rs_memory res) of
        Inl e \<Rightarrow> Inl e
      | Inr m \<Rightarrow>
          (case boundResource ''cpus'' ParseCPUCount cpus_bad 0 (wr_cpus r) (rs_cpus res) of
             Inl e \<Rightarrow> Inl e
           | Inr c \<Rightarrow>
               (let p = (if wr_pids r > 0 \<and> rs_pids res = 0 then wr_pids r else rs_pids res) in
                if wr_pids r > 0 \<and> p > wr_pids r
                then Inl (''pids '' @ show_int p @ '' exceeds the rule's '' @ show_int (wr_pids r))
                else Inr \<lparr>rs_memory = m, rs_cpus = c, rs_pids = p\<rparr>)))"

definition resolveWorkload :: "workload_rule \<Rightarrow> workload_spec \<Rightarrow> (string + workload_spec) option" where
  "resolveWorkload r sp =
     (if ws_expose sp \<noteq> None \<and> \<not> wr_expose r then Some (Inl ''the rule does not allow exposing a port'')
      else map_option (\<lambda>t. case t of
             Inl e \<Rightarrow> Inl e
           | Inr ttl \<Rightarrow>
               (case resolve_resources r (ws_resources sp) of
                  Inl e \<Rightarrow> Inl e
                | Inr res \<Rightarrow> Inr (sp\<lparr>ws_ttl := ttl, ws_resources := res\<rparr>)))
           (resolve_ttl r (ws_ttl sp)))"

subsection \<open>Requests\<close>

text \<open>Text for the channel, on ASCII: one line, cut after \<open>limit\<close> characters.\<close>

definition oneLine :: "string \<Rightarrow> nat \<Rightarrow> string" where
  "oneLine s limit =
     (let t = join '' '' (fields_func is_space s)
      in if length t > limit then take limit t @ [CHR 0xE2, CHR 0x80, CHR 0xA6] else t)"

definition workloadTarget :: "workload_spec \<Rightarrow> string" where
  "workloadTarget sp = (case ws_build sp of Some b \<Rightarrow> ''build '' @ take 12 (wb_commit b) | None \<Rightarrow> ws_image sp)"

datatype workload_fault =
    Malformed spec_fault
  | Denied nat workload string
  | Post_Failed workload string
  | Rule_Panic
  | No_Workload string
  | Not_Pending string
  | Unreadable_TTL string
  | Not_Acted_On string
  | Not_Reportable wl_state
  | Not_Controller

text \<open>The outcome of the policy: a denial or the rule and the resolved request; \<open>None\<close> is the panic.\<close>

definition request_policy :: "workloads \<Rightarrow> caller \<Rightarrow> workload_spec \<Rightarrow> (string + workload_rule \<times> workload_spec) option" where
  "request_policy pol st sp =
     (case RuleFor pol (ca_role st) (ws_kind sp) of
        None \<Rightarrow> Some (Inl (''role '' @ go_quote (ca_role st) @ '' has no workloads rule for kind '' @ go_quote (ws_kind sp)))
      | Some r \<Rightarrow>
          (if ws_image sp \<noteq> [] \<and> \<not> ImageAllowed pol (ws_image sp)
           then Some (Inl (''image '' @ go_quote (ws_image sp) @ '' is not in the allowed images''))
           else map_option (map_sum id (Pair r)) (resolveWorkload r sp)))"

definition live_of :: "workload_file \<Rightarrow> string \<Rightarrow> workload_rule \<Rightarrow> nat" where
  "live_of f name r =
     length (filter (\<lambda>w. wk_station w = name \<and> wl_live w \<and> ws_kind (wk_spec w) \<in> set (wr_kinds r)) (wf_workloads f))"

definition new_workload :: "caller \<Rightarrow> workload_spec \<Rightarrow> workload" where
  "new_workload st sp =
     \<lparr>wk_id = [], wk_station = ca_name st, wk_role = ca_role st, wk_rule = ca_role st @ ''/'' @ ws_kind sp, wk_spec = sp,
      wk_state = WorkloadUnknown [], wk_detail = [], wk_stopped = False, wk_expires = 0, wk_history = []\<rparr>"

text \<open>The record a request leaves and the HTTP code of its denial, \<open>None\<close> for none.\<close>

definition request_entry :: "time \<Rightarrow> caller \<Rightarrow> workload_spec \<Rightarrow> string + workload_rule \<times> workload_spec \<Rightarrow> workload_file
    \<Rightarrow> workload \<times> (nat \<times> string) option" where
  "request_entry now st sp verdict f =
     (let w = new_workload st sp in
      case verdict of
        Inl reason \<Rightarrow> (setState now WorkloadDenied ''serve'' reason w, Some (403, reason))
      | Inr (r, resolved) \<Rightarrow>
          (let w = w\<lparr>wk_spec := resolved\<rparr>; live = live_of f (ca_name st) r in
           if wr_max_per_station r > 0 \<and> int live \<ge> wr_max_per_station r then
             (let reason = ''station '' @ ca_name st @ '' already has '' @ show_nat live @ '' live workloads; the rule allows ''
                    @ show_int (wr_max_per_station r)
              in (setState now WorkloadDenied ''serve'' reason w, Some (429, reason)))
           else if wr_approval r = ''auto'' then
             (let ttl = (case parse_duration (ws_ttl resolved) of None \<Rightarrow> 0 | Some d \<Rightarrow> d)
              in (setState now WorkloadApproved ''serve'' (''auto approval under rule '' @ wk_rule w)
                    (w\<lparr>wk_expires := now + ttl,
                       wk_history := [\<lparr>we_at = now, we_state = WorkloadPending, we_by = ca_name st,
                                       we_detail = ''requested under rule '' @ wk_rule w\<rparr>]\<rparr>), None))
           else (setState now WorkloadPending (ca_name st) (''requested under rule '' @ wk_rule w @ ''; waiting for the king'') w, None)))"

definition request_text :: "caller \<Rightarrow> workload \<Rightarrow> string" where
  "request_text st w =
     ca_name st @ '' ('' @ ca_role st @ '') asks for a '' @ ws_kind (wk_spec w) @ '' workload '' @ wk_id w @ '': ''
     @ oneLine (ws_purpose (wk_spec w) @ '' '' @ workloadTarget (wk_spec w)) 320 @ ''. reply: approve workload '' @ wk_id w"

definition RequestWorkload :: "workloads \<Rightarrow> (string \<Rightarrow> string option) \<Rightarrow> time \<Rightarrow> caller \<Rightarrow> workload_spec \<Rightarrow> workload_file
    \<Rightarrow> (workload_fault + workload) \<times> workload_file" where
  "RequestWorkload pol post now st spec f =
     (case validateWorkloadSpec spec of
        Some e \<Rightarrow> (Inl (Malformed e), f)
      | None \<Rightarrow>
          (let sp = spec\<lparr>ws_purpose := oneLine (ws_purpose spec) 200\<rparr> in
           case request_policy pol st sp of
             None \<Rightarrow> (Inl Rule_Panic, f)
           | Some verdict \<Rightarrow>
               (let (entry, denied) = request_entry now st sp verdict (expire now f);
                    (w, f') = wf_add (expire now f) entry
                in case denied of
                     Some (code, reason) \<Rightarrow> (Inl (Denied code w reason), f')
                   | None \<Rightarrow>
                       (if wk_state w = WorkloadPending then
                          (case post (request_text st w) of
                             Some e \<Rightarrow> (Inl (Post_Failed w e), f')
                           | None \<Rightarrow> (Inr w, f'))
                        else (Inr w, f')))))"

subsection \<open>Approval, stopping, the controller's reports\<close>

definition set_workload :: "workload_file \<Rightarrow> nat \<Rightarrow> workload \<Rightarrow> workload_file" where
  "set_workload f i w = f\<lparr>wf_workloads := (wf_workloads f)[i := w]\<rparr>"

definition ApproveWorkload :: "time \<Rightarrow> string \<Rightarrow> string \<Rightarrow> workload_file \<Rightarrow> (workload_fault + unit) \<times> workload_file" where
  "ApproveWorkload now wid msg =
     update now (\<lambda>f.
       case wf_find f wid of
         None \<Rightarrow> Inl (Not_Pending wid)
       | Some i \<Rightarrow>
           (let w = wf_workloads f ! i in
            if wk_state w \<noteq> WorkloadPending then Inl (Not_Pending wid)
            else case parse_duration (ws_ttl (wk_spec w)) of
                   None \<Rightarrow> Inl (Unreadable_TTL wid)
                 | Some d \<Rightarrow> Inr ((), set_workload f i
                     (setState now WorkloadApproved (''king:'' @ msg) ''approved by the king'' (w\<lparr>wk_expires := now + d\<rparr>)))))"

definition seesWorkload :: "caller \<Rightarrow> workload \<Rightarrow> bool" where
  "seesWorkload st w \<longleftrightarrow> wk_station w = ca_name st \<or> ca_role st = ''gemba''"

definition stop_entry :: "time \<Rightarrow> caller \<Rightarrow> workload \<Rightarrow> workload" where
  "stop_entry now st w =
     (if wk_state w = WorkloadPending then setState now WorkloadRemoved (ca_name st) ''withdrawn before approval'' w
      else if controllerVisible w \<and> \<not> wk_stopped w then
        w\<lparr>wk_stopped := True, wk_history := wk_history w @
            [\<lparr>we_at = now, we_state = wk_state w, we_by = ca_name st, we_detail = ''stop requested''\<rparr>]\<rparr>
      else w)"

definition StopWorkload :: "time \<Rightarrow> caller \<Rightarrow> string \<Rightarrow> workload_file \<Rightarrow> (workload_fault + workload) \<times> workload_file" where
  "StopWorkload now st wid =
     update now (\<lambda>f.
       case wf_find f wid of
         None \<Rightarrow> Inl (No_Workload wid)
       | Some i \<Rightarrow>
           (if \<not> seesWorkload st (wf_workloads f ! i) then Inl (No_Workload wid)
            else let w = stop_entry now st (wf_workloads f ! i) in Inr (w, set_workload f i w)))"

record workload_status =
  wu_id :: string
  wu_state :: wl_state
  wu_detail :: string
  wu_logs :: string

definition suffix_of :: "nat \<Rightarrow> string \<Rightarrow> string" where
  "suffix_of n s = drop (length s - n) s"

text \<open>\<open>routeController\<close>: what the controller must act on, and its report on one workload.\<close>

definition controller_pending :: "time \<Rightarrow> workload_file \<Rightarrow> workload list" where
  "controller_pending now f = filter controllerVisible (wf_workloads (expire now f))"

definition controller_status :: "time \<Rightarrow> workload_status \<Rightarrow> workload_file \<Rightarrow> (workload_fault + unit) \<times> workload_file" where
  "controller_status now rep f =
     (if wu_state rep \<notin> {WorkloadCreating, WorkloadRunning, WorkloadExited, WorkloadFailed, WorkloadRemoved}
      then (Inl (Not_Reportable (wu_state rep)), f)
      else update now (\<lambda>f.
        case wf_find f (wu_id rep) of
          None \<Rightarrow> Inl (Not_Acted_On (wu_id rep))
        | Some i \<Rightarrow>
            (if \<not> controllerVisible (wf_workloads f ! i) then Inl (Not_Acted_On (wu_id rep))
             else let f' = set_workload f i (setState now (wu_state rep) ''controller'' (wu_detail rep) (wf_workloads f ! i))
                  in Inr ((), if wu_logs rep \<noteq> []
                              then f'\<lparr>wf_logs := (wf_logs f')(wu_id rep \<mapsto> suffix_of 65536 (wu_logs rep))\<rparr> else f'))) f)"

text \<open>The reading routes: the caller's own workloads (all of them for gemba), one of them, its log.\<close>

definition list_workloads :: "time \<Rightarrow> caller \<Rightarrow> workload_file \<Rightarrow> workload list" where
  "list_workloads now st f = filter (seesWorkload st) (wf_workloads (expire now f))"

definition get_workload :: "time \<Rightarrow> caller \<Rightarrow> string \<Rightarrow> workload_file \<Rightarrow> workload_fault + workload" where
  "get_workload now st wid f =
     (case wf_find (expire now f) wid of
        None \<Rightarrow> Inl (No_Workload wid)
      | Some i \<Rightarrow> (let w = wf_workloads (expire now f) ! i in if seesWorkload st w then Inr w else Inl (No_Workload wid)))"

definition get_workload_logs :: "time \<Rightarrow> caller \<Rightarrow> string \<Rightarrow> workload_file \<Rightarrow> workload_fault + string" where
  "get_workload_logs now st wid f =
     map_sum id (\<lambda>w. case wf_logs f wid of None \<Rightarrow> [] | Some t \<Rightarrow> t) (get_workload now st wid f)"

end
