(* ===== verification/Workloads_Inv.thy ===== *)
theory Workloads_Inv
  imports Workloads
begin

text \<open>
  What the workload store keeps under every sequence of requests, approvals, stops and controller
  reports: an audit trail that follows the request lifecycle, requests inside their rule, lifetimes that
  start at the approval and end within the rule's bound.
\<close>

subsection \<open>The lifecycle\<close>

definition visible_state :: "wl_state \<Rightarrow> bool" where
  "visible_state s \<longleftrightarrow> s \<in> {WorkloadApproved, WorkloadCreating, WorkloadRunning, WorkloadExited, WorkloadFailed, WorkloadExpired}"

lemma controllerVisible_state: "controllerVisible w \<longleftrightarrow> visible_state (wk_state w)"
  by (simp add: controllerVisible_def visible_state_def)

inductive moves :: "wl_state \<Rightarrow> wl_state \<Rightarrow> bool" where
  moves_stay: "moves s s"
| moves_approve: "moves WorkloadPending WorkloadApproved"
| moves_withdraw: "moves WorkloadPending WorkloadRemoved"
| moves_report: "visible_state s \<Longrightarrow>
    t \<in> {WorkloadCreating, WorkloadRunning, WorkloadExited, WorkloadFailed, WorkloadRemoved, WorkloadExpired} \<Longrightarrow> moves s t"

inductive_simps moves_from_removed: "moves WorkloadRemoved s"
inductive_simps moves_from_denied: "moves WorkloadDenied s"

text \<open>A request inside rule \<open>r\<close>.\<close>

definition spec_within :: "workload_rule \<Rightarrow> workload_spec \<Rightarrow> bool" where
  "spec_within r sp \<longleftrightarrow>
     (\<exists>ttl d. TTLDuration r = Some ttl \<and> parse_duration (ws_ttl sp) = Some d \<and> 0 < d \<and> d \<le> ttl)
     \<and> (wr_memory r \<noteq> [] \<longrightarrow> (\<exists>b m. ParseMemoryBytes (wr_memory r) = Some b
          \<and> ParseMemoryBytes (rs_memory (ws_resources sp)) = Some m \<and> m \<le> b))
     \<and> (wr_cpus r \<noteq> [] \<longrightarrow> (\<exists>b c. ParseCPUCount (wr_cpus r) = Some b
          \<and> ParseCPUCount (rs_cpus (ws_resources sp)) = Some c \<and> c \<le> b))
     \<and> (0 < wr_pids r \<longrightarrow> 0 < rs_pids (ws_resources sp) \<and> rs_pids (ws_resources sp) \<le> wr_pids r)
     \<and> (ws_expose sp \<noteq> None \<longrightarrow> wr_expose r)"

definition within_policy :: "workloads \<Rightarrow> workload \<Rightarrow> bool" where
  "within_policy pol w \<longleftrightarrow>
     (\<exists>r. RuleFor pol (wk_role w) (ws_kind (wk_spec w)) = Some r \<and> spec_within r (wk_spec w))
     \<and> (ws_image (wk_spec w) \<noteq> [] \<longrightarrow> pinned_image (ws_image (wk_spec w)) \<and> ImageAllowed pol (ws_image (wk_spec w)))"

definition wl_ok :: "workloads \<Rightarrow> workload \<Rightarrow> bool" where
  "wl_ok pol w \<longleftrightarrow>
     wk_history w \<noteq> [] \<and> we_state (last (wk_history w)) = wk_state w
     \<and> we_state (hd (wk_history w)) \<in> {WorkloadPending, WorkloadDenied}
     \<and> successively moves (map we_state (wk_history w))
     \<and> (wk_state w = WorkloadDenied \<or> within_policy pol w)
     \<and> (controllerVisible w \<longrightarrow> (\<exists>e\<in>set (wk_history w). we_state e = WorkloadApproved \<and> 0 < we_at e
          \<and> (\<exists>d. parse_duration (ws_ttl (wk_spec w)) = Some d \<and> wk_expires w = we_at e + d)))"

definition file_ok :: "workloads \<Rightarrow> workload_file \<Rightarrow> bool" where
  "file_ok pol f \<longleftrightarrow>
     map wk_id (wf_workloads f) = map (\<lambda>i. ''wl-'' @ show_nat (i + 1)) [0..<wf_next f]
     \<and> (\<forall>w\<in>set (wf_workloads f). wl_ok pol w)"

inductive workload_step :: "workloads \<Rightarrow> workload_file \<Rightarrow> workload_file \<Rightarrow> bool" for pol where
  step_request: "0 < now \<Longrightarrow> RequestWorkload pol post now st spec f = (res, f') \<Longrightarrow> workload_step pol f f'"
| step_approve: "0 < now \<Longrightarrow> ApproveWorkload now wid msg f = (ok, f') \<Longrightarrow> workload_step pol f f'"
| step_stop: "0 < now \<Longrightarrow> StopWorkload now st wid f = (out, f') \<Longrightarrow> workload_step pol f f'"
| step_report: "0 < now \<Longrightarrow> controller_status now rep f = (ok, f') \<Longrightarrow> workload_step pol f f'"

definition empty_file :: workload_file where
  "empty_file = \<lparr>wf_next = 0, wf_workloads = [], wf_logs = Map.empty\<rparr>"

subsection \<open>Single records\<close>

lemma setState_simps [simp]:
  "wk_id (setState t s b d w) = wk_id w" "wk_spec (setState t s b d w) = wk_spec w" "wk_role (setState t s b d w) = wk_role w"
  "wk_station (setState t s b d w) = wk_station w" "wk_stopped (setState t s b d w) = wk_stopped w"
  "wk_state (setState t s b d w) = s" "wk_expires (setState t s b d w) = wk_expires w"
  "wk_history (setState t s b d w) = wk_history w @ [\<lparr>we_at = t, we_state = s, we_by = b, we_detail = d\<rparr>]"
  by (simp_all add: setState_def)

lemma within_policy_setState [simp]: "within_policy pol (setState t s b d w) = within_policy pol w"
  by (simp add: within_policy_def)

lemma wl_ok_setState:
  assumes "wl_ok pol w" "moves (wk_state w) s" "wk_state w \<noteq> WorkloadDenied" "visible_state s \<Longrightarrow> visible_state (wk_state w)"
  shows "wl_ok pol (setState t s b d w)"
proof -
  have h: "wk_history w \<noteq> []" "we_state (last (wk_history w)) = wk_state w" using assms(1) by (auto simp: wl_ok_def)
  then have "successively moves (map we_state (wk_history (setState t s b d w)))"
    using assms(1,2) by (simp add: wl_ok_def successively_append_iff last_map)
  then show ?thesis using assms(1,3,4) h unfolding wl_ok_def controllerVisible_state by auto
qed

lemma wl_ok_approve:
  assumes "wl_ok pol w" "wk_state w = WorkloadPending" "parse_duration (ws_ttl (wk_spec w)) = Some d" "0 < now"
  shows "wl_ok pol (setState now WorkloadApproved b t (w\<lparr>wk_expires := now + d\<rparr>))"
proof -
  have "successively moves (map we_state (wk_history w @ [\<lparr>we_at = now, we_state = WorkloadApproved, we_by = b, we_detail = t\<rparr>]))"
    using assms(1,2) moves_approve by (simp add: wl_ok_def successively_append_iff last_map)
  then show ?thesis using assms unfolding wl_ok_def within_policy_def by auto
qed

lemma wl_ok_stop:
  assumes "wl_ok pol w"
  shows "wl_ok pol (stop_entry now st w)"
proof -
  have "wl_ok pol (w\<lparr>wk_stopped := True, wk_history := wk_history w @ [\<lparr>we_at = now, we_state = wk_state w, we_by = b, we_detail = d\<rparr>]\<rparr>)"
    for b d
    using assms moves_stay unfolding wl_ok_def within_policy_def controllerVisible_state
    by (auto simp: successively_append_iff last_map)
  then show ?thesis
    using assms moves_withdraw by (auto simp: stop_entry_def visible_state_def intro: wl_ok_setState)
qed

lemma stop_entry_id [simp]: "wk_id (stop_entry now st w) = wk_id w"
  by (simp add: stop_entry_def)

subsection \<open>Files\<close>

lemma expire_ok:
  assumes "file_ok pol f"
  shows "file_ok pol (expire now f)"
proof -
  have "wl_ok pol (setState now WorkloadExpired b d w)" if "w \<in> set (wf_workloads f)" "lapsed now w" for w b d
    using that assms by (intro wl_ok_setState) (auto simp: file_ok_def lapsed_def visible_state_def intro: moves_report)
  then have "\<forall>w\<in>set (wf_workloads (expire now f)). wl_ok pol w" using assms by (auto simp: file_ok_def expire_def)
  moreover have "map wk_id (wf_workloads (expire now f)) = map wk_id (wf_workloads f)" by (simp add: expire_def)
  moreover have "wf_next (expire now f) = wf_next f" by (simp add: expire_def)
  ultimately show ?thesis using assms by (simp only: file_ok_def simp_thms)
qed

lemma set_workload_ok:
  assumes "file_ok pol f" "i < length (wf_workloads f)" "wl_ok pol w" "wk_id w = wk_id (wf_workloads f ! i)"
  shows "file_ok pol (set_workload f i w)"
proof -
  have "map wk_id ((wf_workloads f)[i := w]) = map wk_id (wf_workloads f)"
    using assms(2,4) by (metis list_update_id map_update nth_map)
  then show ?thesis using assms(1,3) by (auto simp: file_ok_def set_workload_def dest: set_update_subset_insert [THEN subsetD])
qed

lemma wf_add_ok:
  assumes "file_ok pol f" "wl_ok pol (w\<lparr>wk_id := ''wl-'' @ show_nat (wf_next f + 1)\<rparr>)"
  shows "file_ok pol (snd (wf_add f w))"
  using assms by (simp add: file_ok_def wf_add_def Let_def)

lemma wf_find_Some:
  "wf_find f wid = Some i \<Longrightarrow> i < length (wf_workloads f) \<and> wk_id (wf_workloads f ! i) = wid"
  by (auto simp: wf_find_def dest!: find_first_SomeD)

lemma logs_ok [simp]: "file_ok pol (f\<lparr>wf_logs := l\<rparr>) = file_ok pol f"
  by (simp add: file_ok_def)

lemma update_ok:
  assumes "file_ok pol f" "update now fn f = (res, f')"
    and "\<And>g x g'. file_ok pol g \<Longrightarrow> fn g = Inr (x, g') \<Longrightarrow> file_ok pol g'"
  shows "file_ok pol f'"
  using assms expire_ok [OF assms(1), of now] by (auto simp: update_def split: sum.splits prod.splits)

lemma entry_ok: "file_ok pol f \<Longrightarrow> i < length (wf_workloads f) \<Longrightarrow> wl_ok pol (wf_workloads f ! i)"
  by (simp add: file_ok_def)

lemma ApproveWorkload_ok:
  assumes "file_ok pol f" "0 < now" "ApproveWorkload now wid msg f = (res, f')"
  shows "file_ok pol f'"
  using assms(1) assms(3) [unfolded ApproveWorkload_def]
proof (rule update_ok)
  fix g x g'
  let ?fn = "\<lambda>f. case wf_find f wid of None \<Rightarrow> Inl (Not_Pending wid)
       | Some i \<Rightarrow> (let w = wf_workloads f ! i in
            if wk_state w \<noteq> WorkloadPending then Inl (Not_Pending wid)
            else case parse_duration (ws_ttl (wk_spec w)) of
                   None \<Rightarrow> Inl (Unreadable_TTL wid)
                 | Some d \<Rightarrow> Inr ((), set_workload f i
                     (setState now WorkloadApproved (''king:'' @ msg) ''approved by the king'' (w\<lparr>wk_expires := now + d\<rparr>))))"
  assume g: "file_ok pol g" "?fn g = Inr (x, g')"
  then obtain i d where i: "wf_find g wid = Some i" "wk_state (wf_workloads g ! i) = WorkloadPending"
      "parse_duration (ws_ttl (wk_spec (wf_workloads g ! i))) = Some d"
      "g' = set_workload g i (setState now WorkloadApproved (''king:'' @ msg) ''approved by the king''
         ((wf_workloads g ! i)\<lparr>wk_expires := now + d\<rparr>))"
    by (auto simp: Let_def split: option.splits if_splits)
  have l: "i < length (wf_workloads g)" using wf_find_Some [OF i(1)] by blast
  show "file_ok pol g'" unfolding i(4)
    by (rule set_workload_ok [OF g(1) l]) (use wl_ok_approve [OF entry_ok [OF g(1) l] i(2,3) assms(2)] in simp_all)
qed

lemma StopWorkload_ok:
  assumes "file_ok pol f" "StopWorkload now st wid f = (res, f')"
  shows "file_ok pol f'"
  using assms(1) assms(2) [unfolded StopWorkload_def]
proof (rule update_ok)
  fix g x g'
  assume g: "file_ok pol g" "(case wf_find g wid of None \<Rightarrow> Inl (No_Workload wid)
       | Some i \<Rightarrow> (if \<not> seesWorkload st (wf_workloads g ! i) then Inl (No_Workload wid)
            else let w = stop_entry now st (wf_workloads g ! i) in Inr (w, set_workload g i w))) = Inr (x, g')"
  then obtain i where i: "wf_find g wid = Some i" "g' = set_workload g i (stop_entry now st (wf_workloads g ! i))"
    by (auto simp: Let_def split: option.splits if_splits)
  have l: "i < length (wf_workloads g)" using wf_find_Some [OF i(1)] by blast
  show "file_ok pol g'" unfolding i(2)
    by (rule set_workload_ok [OF g(1) l wl_ok_stop [OF entry_ok [OF g(1) l]]]) simp
qed

lemma controller_status_ok:
  assumes "file_ok pol f" "controller_status now rep f = (res, f')"
  shows "file_ok pol f'"
proof (cases "wu_state rep \<in> {WorkloadCreating, WorkloadRunning, WorkloadExited, WorkloadFailed, WorkloadRemoved}")
  case True
  let ?new = "\<lambda>g i. set_workload g i (setState now (wu_state rep) ''controller'' (wu_detail rep) (wf_workloads g ! i))"
  have new: "file_ok pol (?new g i)" if g: "file_ok pol g" "wf_find g (wu_id rep) = Some i" "controllerVisible (wf_workloads g ! i)" for g i
  proof -
    have l: "i < length (wf_workloads g)" using wf_find_Some [OF g(2)] by blast
    have v: "visible_state (wk_state (wf_workloads g ! i))" using g(3) by (simp add: controllerVisible_state)
    have "moves (wk_state (wf_workloads g ! i)) (wu_state rep)" using v True by (intro moves_report) auto
    then have "wl_ok pol (setState now (wu_state rep) ''controller'' (wu_detail rep) (wf_workloads g ! i))"
      using v by (intro wl_ok_setState [OF entry_ok [OF g(1) l]]) (auto simp: visible_state_def)
    then show ?thesis by (intro set_workload_ok [OF g(1) l]) simp_all
  qed
  from assms(2) True show ?thesis
    unfolding controller_status_def
    by (simp only: if_not_P simp_thms not_not)
      (erule update_ok [OF assms(1)], use new in \<open>auto simp: Let_def split: option.splits if_splits\<close>)
next
  case False
  then show ?thesis using assms by (auto simp: controller_status_def)
qed

subsection \<open>Requests\<close>

lemma boundResource_Inr:
  assumes "boundResource name parse bad zero rb req = Inr x" "rb \<noteq> []"
  shows "\<exists>n. parse x = Some n \<and> n \<le> (case parse rb of None \<Rightarrow> zero | Some b \<Rightarrow> b)"
  using assms by (auto simp: boundResource_def Let_def not_less split: if_splits option.splits)

lemma rule_valid:
  assumes "validateWorkloads pol = None" "r \<in> set (wl_rules pol)"
  shows "wr_cpus r \<noteq> [] \<longrightarrow> positive_cpus (wr_cpus r)"
proof -
  obtain j where "j < length (wl_rules pol)" "wl_rules pol ! j = r" using assms(2) by (auto simp: in_set_conv_nth)
  with validateWorkloads_rule [OF assms(1), of j] show ?thesis by (auto simp: validate_rule_def ball_Un)
qed

lemma resolve_resources_within:
  assumes "resolve_resources r res = Inr res'" "0 \<le> rs_pids res" "wr_cpus r \<noteq> [] \<longrightarrow> positive_cpus (wr_cpus r)"
  shows "wr_memory r \<noteq> [] \<longrightarrow> (\<exists>b m. ParseMemoryBytes (wr_memory r) = Some b \<and> ParseMemoryBytes (rs_memory res') = Some m \<and> m \<le> b)"
    and "wr_cpus r \<noteq> [] \<longrightarrow> (\<exists>b c. ParseCPUCount (wr_cpus r) = Some b \<and> ParseCPUCount (rs_cpus res') = Some c \<and> c \<le> b)"
    and "0 < wr_pids r \<longrightarrow> 0 < rs_pids res' \<and> rs_pids res' \<le> wr_pids r"
proof -
  obtain m c where m: "boundResource ''memory'' ParseMemoryBytes memory_bad 0 (wr_memory r) (rs_memory res) = Inr m"
      "boundResource ''cpus'' ParseCPUCount cpus_bad 0 (wr_cpus r) (rs_cpus res) = Inr c"
    and x: "rs_memory res' = m" "rs_cpus res' = c" "rs_pids res' = (if wr_pids r > 0 \<and> rs_pids res = 0 then wr_pids r else rs_pids res)"
      "\<not> (wr_pids r > 0 \<and> rs_pids res' > wr_pids r)"
    using assms(1) by (auto simp: resolve_resources_def Let_def split: sum.splits if_splits)
  show "wr_memory r \<noteq> [] \<longrightarrow> (\<exists>b m. ParseMemoryBytes (wr_memory r) = Some b \<and> ParseMemoryBytes (rs_memory res') = Some m \<and> m \<le> b)"
    using boundResource_Inr [OF m(1)] ParseMemoryBytes_bounds [of m] x(1) by (fastforce split: option.splits)
  have "wr_cpus r \<noteq> [] \<longrightarrow> (\<exists>b. ParseCPUCount (wr_cpus r) = Some b)"
    using assms(3) by (auto simp: ParseCPUCount_def positive_cpus_def split: option.splits)
  then show "wr_cpus r \<noteq> [] \<longrightarrow> (\<exists>b c. ParseCPUCount (wr_cpus r) = Some b \<and> ParseCPUCount (rs_cpus res') = Some c \<and> c \<le> b)"
    using boundResource_Inr [OF m(2)] x(2) by auto
  show "0 < wr_pids r \<longrightarrow> 0 < rs_pids res' \<and> rs_pids res' \<le> wr_pids r" using x(3,4) assms(2) by auto
qed

lemma resolve_ttl_within:
  assumes "resolve_ttl r requested = Some (Inr t)" "TTLDuration r = Some ttl" "0 < ttl"
  shows "\<exists>d. parse_duration t = Some d \<and> 0 < d \<and> d \<le> ttl"
proof -
  obtain d where d: "t = duration_string d" "0 < d" "d \<le> ttl"
    using assms by (auto simp: resolve_ttl_def split: if_splits option.splits)
  moreover have "ttl \<le> int64_max" using assms(2) parse_duration_bound by (simp add: TTLDuration_def)
  ultimately show ?thesis using duration_roundtrip [of d] by auto
qed

lemma resolveWorkload_within:
  assumes "resolveWorkload r sp = Some (Inr sp')" "validateWorkloads pol = None" "r \<in> set (wl_rules pol)" "0 \<le> rs_pids (ws_resources sp)"
  shows "spec_within r sp' \<and> ws_kind sp' = ws_kind sp \<and> ws_image sp' = ws_image sp"
proof -
  obtain q where q: "resolve_ttl r (ws_ttl sp) = Some q" and x: "ws_expose sp \<noteq> None \<longrightarrow> wr_expose r"
    using assms(1) by (auto simp: resolveWorkload_def split: if_splits)
  obtain t res where t: "resolve_ttl r (ws_ttl sp) = Some (Inr t)" "resolve_resources r (ws_resources sp) = Inr res"
      "sp' = sp\<lparr>ws_ttl := t, ws_resources := res\<rparr>" "ws_expose sp \<noteq> None \<longrightarrow> wr_expose r"
    using assms(1) q x
    by (cases q; cases "resolve_resources r (ws_resources sp)") (auto simp: resolveWorkload_def split: if_splits)
  obtain ttl where ttl: "TTLDuration r = Some ttl" "0 < ttl" using TTLDuration_valid [OF assms(2,3)] by blast
  show ?thesis
    using resolve_ttl_within [OF t(1) ttl] resolve_resources_within [OF t(2) assms(4) rule_valid [OF assms(2,3)]] t(3,4) ttl
    unfolding spec_within_def by auto
qed

text \<open>A request that is not denied obeys the rule it was resolved under.\<close>

lemma request_policy_within:
  assumes "request_policy pol st sp = Some (Inr (r, sp'))" "validateWorkloads pol = None" "validateWorkloadSpec sp = None"
  shows "RuleFor pol (ca_role st) (ws_kind sp) = Some r \<and> spec_within r sp' \<and> ws_kind sp' = ws_kind sp
     \<and> (ws_image sp' \<noteq> [] \<longrightarrow> pinned_image (ws_image sp') \<and> ImageAllowed pol (ws_image sp'))"
proof -
  have r: "RuleFor pol (ca_role st) (ws_kind sp) = Some r" "ws_image sp \<noteq> [] \<longrightarrow> ImageAllowed pol (ws_image sp)"
      "resolveWorkload r sp = Some (Inr sp')"
    using assms(1) by (auto simp: request_policy_def split: option.splits if_splits)
  have "r \<in> set (wl_rules pol)" using r(1) by (auto simp: RuleFor_def dest: find_first_SomeD)
  moreover have "0 \<le> rs_pids (ws_resources sp)" "ws_image sp \<noteq> [] \<longrightarrow> pinned_image (ws_image sp)"
    using assms(3) by (auto simp: validateWorkloadSpec_def ball_Un)
  ultimately show ?thesis using resolveWorkload_within [OF r(3) assms(2)] r(1,2) by auto
qed

lemma request_entry_ok:
  assumes "request_policy pol st sp = Some v" "validateWorkloads pol = None" "validateWorkloadSpec sp = None" "0 < now"
    and "request_entry now st sp v f = (w, denied)"
  shows "wl_ok pol (w\<lparr>wk_id := x\<rparr>)"
proof (cases v)
  case (Inl reason)
  then show ?thesis using assms(5) by (auto simp: request_entry_def new_workload_def wl_ok_def controllerVisible_def)
next
  case (Inr rs)
  obtain r sp' where rs: "rs = (r, sp')" by fastforce
  have p: "RuleFor pol (ca_role st) (ws_kind sp) = Some r" "spec_within r sp'" "ws_kind sp' = ws_kind sp"
      "ws_image sp' \<noteq> [] \<longrightarrow> pinned_image (ws_image sp') \<and> ImageAllowed pol (ws_image sp')"
    using request_policy_within [of pol st sp r sp'] assms(1-3) Inr rs by auto
  obtain d where d: "parse_duration (ws_ttl sp') = Some d" using p(2) by (auto simp: spec_within_def)
  have "within_policy pol (w\<lparr>wk_id := x\<rparr>)" if "denied = None"
    using that assms(5) p by (auto simp: request_entry_def Inr rs Let_def new_workload_def within_policy_def split: if_splits)
  then show ?thesis
    using assms(4,5) d moves_approve
    by (auto simp: request_entry_def Inr rs Let_def new_workload_def wl_ok_def controllerVisible_def split: if_splits)
qed

lemma RequestWorkload_ok:
  assumes "file_ok pol f" "validateWorkloads pol = None" "0 < now" "RequestWorkload pol post now st spec f = (res, f')"
  shows "file_ok pol f'"
proof (cases "validateWorkloadSpec spec")
  case None
  let ?sp = "spec\<lparr>ws_purpose := oneLine (ws_purpose spec) 200\<rparr>"
  have v: "validateWorkloadSpec ?sp = None" using None by (simp add: validateWorkloadSpec_def)
  show ?thesis
  proof (cases "request_policy pol st ?sp")
    case None
    then show ?thesis using assms(1,4) \<open>validateWorkloadSpec spec = None\<close> by (simp add: RequestWorkload_def)
  next
    case (Some verdict)
    obtain w denied where e: "request_entry now st ?sp verdict (expire now f) = (w, denied)" by fastforce
    have "file_ok pol (snd (wf_add (expire now f) w))"
      by (rule wf_add_ok [OF expire_ok [OF assms(1)]]) (rule request_entry_ok [OF Some assms(2) v assms(3) e])
    moreover have "f' = snd (wf_add (expire now f) w)"
      using assms(4) None Some e by (auto simp: RequestWorkload_def Let_def split: option.splits prod.splits if_splits)
    ultimately show ?thesis by simp
  qed
qed (use assms(1,4) in \<open>simp add: RequestWorkload_def\<close>)

lemma workload_step_ok:
  assumes "validateWorkloads pol = None" "file_ok pol f" "workload_step pol f f'"
  shows "file_ok pol f'"
  using assms(3,2)
  by (cases rule: workload_step.cases)
    (auto intro: RequestWorkload_ok [OF _ assms(1)] ApproveWorkload_ok StopWorkload_ok controller_status_ok)

lemma empty_file_ok: "file_ok pol empty_file"
  by (simp add: file_ok_def empty_file_def)

text \<open>A run of the store under one policy.\<close>

definition wl_init :: "workloads \<times> workload_file \<Rightarrow> bool" where
  "wl_init s \<longleftrightarrow> validateWorkloads (fst s) = None \<and> snd s = empty_file"

definition wl_step :: "workloads \<times> workload_file \<Rightarrow> workloads \<times> workload_file \<Rightarrow> bool" where
  "wl_step s t \<longleftrightarrow> fst t = fst s \<and> workload_step (fst s) (snd s) (snd t)"

interpretation workload_run: invariant_system wl_init wl_step "\<lambda>s. validateWorkloads (fst s) = None \<and> file_ok (fst s) (snd s)"
  by unfold_locales (auto simp: wl_init_def wl_step_def empty_file_ok intro: workload_step_ok)

subsection \<open>Lifetimes and quotas\<close>

text \<open>Nothing the controller is asked to keep alive has outlived its rule.\<close>

lemma expire_not_lapsed: "w \<in> set (wf_workloads (expire now f)) \<Longrightarrow> \<not> lapsed now w"
  by (auto simp: expire_def lapsed_def)

lemma pending_lifetime:
  assumes "file_ok pol f" "w \<in> set (controller_pending now f)"
    and "wk_state w \<in> {WorkloadApproved, WorkloadCreating, WorkloadRunning}"
  shows "\<exists>e r ttl. e \<in> set (wk_history w) \<and> we_state e = WorkloadApproved
     \<and> RuleFor pol (wk_role w) (ws_kind (wk_spec w)) = Some r \<and> TTLDuration r = Some ttl
     \<and> wk_expires w \<le> we_at e + ttl \<and> now < wk_expires w"
proof -
  have w: "w \<in> set (wf_workloads (expire now f))" "controllerVisible w" using assms(2) by (auto simp: controller_pending_def)
  then have ok: "wl_ok pol w" using expire_ok [OF assms(1)] by (simp add: file_ok_def)
  have "\<not> lapsed now w" by (rule expire_not_lapsed [OF w(1)])
  obtain e d where e: "e \<in> set (wk_history w)" "we_state e = WorkloadApproved" "0 < we_at e"
      "parse_duration (ws_ttl (wk_spec w)) = Some d" "wk_expires w = we_at e + d"
    using ok w(2) unfolding wl_ok_def by blast
  have "within_policy pol w" using ok assms(3) unfolding wl_ok_def by auto
  then obtain r ttl where r: "RuleFor pol (wk_role w) (ws_kind (wk_spec w)) = Some r" "TTLDuration r = Some ttl" "0 < d" "d \<le> ttl"
    using e(4) unfolding within_policy_def spec_within_def by auto
  have "now < wk_expires w" using \<open>\<not> lapsed now w\<close> assms(3) e(3,5) r(3) by (auto simp: lapsed_def)
  then show ?thesis using e r by auto
qed

lemma RequestWorkload_quota:
  assumes "RequestWorkload pol post now st spec f = (Inr w, f')"
    and "RuleFor pol (ca_role st) (ws_kind spec) = Some r" "0 < wr_max_per_station r"
  shows "int (live_of f' (ca_name st) r) \<le> wr_max_per_station r"
proof -
  let ?sp = "spec\<lparr>ws_purpose := oneLine (ws_purpose spec) 200\<rparr>"
  obtain r0 sp' where v: "validateWorkloadSpec spec = None" "request_policy pol st ?sp = Some (Inr (r0, sp'))"
    and e: "\<exists>en. request_entry now st ?sp (Inr (r0, sp')) (expire now f) = (en, None) \<and> f' = snd (wf_add (expire now f) en)"
    using assms(1) by (auto simp: RequestWorkload_def Let_def request_entry_def split: option.splits prod.splits if_splits sum.splits)
  have "r0 = r" using v(2) assms(2) by (auto simp: request_policy_def split: option.splits if_splits)
  then have l: "int (live_of (expire now f) (ca_name st) r) < wr_max_per_station r"
    using e assms(3) by (auto simp: request_entry_def Let_def split: if_splits)
  obtain en where "f' = snd (wf_add (expire now f) en)" using e by blast
  then have "live_of f' (ca_name st) r \<le> live_of (expire now f) (ca_name st) r + 1"
    by (simp add: wf_add_def live_of_def Let_def)
  then show ?thesis using l by simp
qed

end
