(* ===== verification/Controller.thy ===== *)
theory Controller
  imports Workloads_Inv
begin

text \<open>
  \<open>line/controller/controller.go\<close>: one reconcile pass of the line controller. Serve and the container
  engine are its two interfaces (\<open>API\<close>, \<open>Engine\<close>); both act on a state \<open>'s\<close> and are arguments. An
  error list is \<open>errors.Join\<close>: empty for success. Go iterates over the left-over objects in no fixed
  order; the model takes the order of the listing.
\<close>

record engine_instance =
  ei_workload :: string
  ei_image :: string
  ei_args :: "string list"
  ei_env :: "(string \<times> string) list"
  ei_memory :: string
  ei_cpus :: string
  ei_pids :: int

record observed =
  ob_workload :: string
  ob_running :: bool
  ob_exit_code :: int
  ob_since :: time

record 's cengine =
  ce_create :: "engine_instance \<Rightarrow> 's \<Rightarrow> string option \<times> 's"
  ce_list :: "'s \<Rightarrow> string + observed list"
  ce_logs :: "string \<Rightarrow> 's \<Rightarrow> string option"
  ce_remove :: "string \<Rightarrow> 's \<Rightarrow> string option \<times> 's"

record 's capi =
  ap_pending :: "'s \<Rightarrow> string + workload list"
  ap_report :: "workload_status \<Rightarrow> 's \<Rightarrow> string option \<times> 's"

definition DefaultGrace :: duration where "DefaultGrace = 10 * minute"

definition grace :: "duration \<Rightarrow> duration" where "grace g = (if g > 0 then g else DefaultGrace)"

definition unsupported :: "workload_spec \<Rightarrow> string" where
  "unsupported sp =
     (if ws_build sp \<noteq> None then ''build requests are not supported by the podman backend''
      else if ws_secrets sp \<noteq> [] then ''secrets are not supported by the podman backend''
      else if ws_volumes sp \<noteq> [] then ''volumes are not supported by the podman backend''
      else if ws_expose sp \<noteq> None then ''expose is not supported by the podman backend''
      else [])"

definition errs :: "string option \<Rightarrow> string list" where
  "errs e = (case e of None \<Rightarrow> [] | Some m \<Rightarrow> [m])"

definition reportWith :: "'s capi \<Rightarrow> workload \<Rightarrow> wl_state \<Rightarrow> string \<Rightarrow> string \<Rightarrow> 's \<Rightarrow> string list \<times> 's" where
  "reportWith A w state detail logs s =
     map_prod errs id (ap_report A \<lparr>wu_id = wk_id w, wu_state = state, wu_detail = detail, wu_logs = suffix_of 32768 logs\<rparr> s)"

definition report :: "'s capi \<Rightarrow> 's cengine \<Rightarrow> workload \<Rightarrow> wl_state \<Rightarrow> string \<Rightarrow> bool \<Rightarrow> 's \<Rightarrow> string list \<times> 's" where
  "report A E w state detail with_logs s =
     reportWith A w state detail
       (if with_logs then (case ce_logs E (wk_id w) s of None \<Rightarrow> [] | Some l \<Rightarrow> l) else []) s"

definition retire :: "'s capi \<Rightarrow> 's cengine \<Rightarrow> workload \<Rightarrow> bool \<Rightarrow> string \<Rightarrow> 's \<Rightarrow> string list \<times> 's" where
  "retire A E w has detail s =
     (if has then
        (let logs = (case ce_logs E (wk_id w) s of None \<Rightarrow> [] | Some l \<Rightarrow> l) in
         case ce_remove E (wk_id w) s of
           (Some e, s') \<Rightarrow> ([''remove: '' @ e], s')
         | (None, s') \<Rightarrow> reportWith A w WorkloadRemoved detail logs s')
      else reportWith A w WorkloadRemoved detail [] s)"

definition create :: "'s capi \<Rightarrow> 's cengine \<Rightarrow> workload \<Rightarrow> 's \<Rightarrow> string list \<times> 's" where
  "create A E w s =
     (let sp = wk_spec w in
      if unsupported sp \<noteq> [] then report A E w WorkloadFailed (unsupported sp) False s
      else case ce_create E \<lparr>ei_workload = wk_id w, ei_image = ws_image sp, ei_args = ws_args sp, ei_env = ws_env sp,
                   ei_memory = rs_memory (ws_resources sp), ei_cpus = rs_cpus (ws_resources sp),
                   ei_pids = rs_pids (ws_resources sp)\<rparr> s of
             (Some e, s') \<Rightarrow> (case report A E w WorkloadFailed (''create: '' @ e) False s' of (es, s'') \<Rightarrow> (e # es, s''))
           | (None, s') \<Rightarrow> report A E w WorkloadRunning [] False s')"

definition reconcile :: "'s capi \<Rightarrow> 's cengine \<Rightarrow> duration \<Rightarrow> time \<Rightarrow> workload \<Rightarrow> observed option \<Rightarrow> 's \<Rightarrow> string list \<times> 's" where
  "reconcile A E g now w obj s =
     (if wk_stopped w \<or> wk_state w = WorkloadExpired then
        retire A E w (obj \<noteq> None) (if wk_state w = WorkloadExpired then ''ttl passed'' else ''stopped by its owner'') s
      else case obj of
             None \<Rightarrow> (if wk_state w \<noteq> WorkloadApproved then ([], s) else create A E w s)
           | Some ob \<Rightarrow>
               (if ob_running ob then
                  (if wk_state w = WorkloadRunning then ([], s) else report A E w WorkloadRunning [] False s)
                else
                  (let state = (if ob_exit_code ob \<noteq> 0 then WorkloadFailed else WorkloadExited) in
                   if wk_state w \<noteq> state then report A E w state (WorkloadExitDetail (ob_exit_code ob)) True s
                   else if time_sub now (ob_since ob) < grace g then ([], s)
                   else retire A E w True (''finished; kept for '' @ duration_string (grace g)) s)))"

fun reconcile_all :: "'s capi \<Rightarrow> 's cengine \<Rightarrow> duration \<Rightarrow> time \<Rightarrow> (string \<rightharpoonup> observed) \<Rightarrow> workload list \<Rightarrow> 's \<Rightarrow> string list \<times> 's" where
  "reconcile_all A E g now by_id [] s = ([], s)"
| "reconcile_all A E g now by_id (w # ws) s =
     (case reconcile A E g now w (by_id (wk_id w)) s of (es, s1) \<Rightarrow>
      case reconcile_all A E g now (by_id(wk_id w := None)) ws s1 of (es2, s2) \<Rightarrow>
        (map (\<lambda>e. wk_id w @ '': '' @ e) es @ es2, s2))"

fun sweep_orphans :: "'s cengine \<Rightarrow> duration \<Rightarrow> time \<Rightarrow> observed list \<Rightarrow> 's \<Rightarrow> string list \<times> 's" where
  "sweep_orphans E g now [] s = ([], s)"
| "sweep_orphans E g now (ob # obs) s =
     (if ob_workload ob = [] \<or> time_sub now (ob_since ob) < grace g then sweep_orphans E g now obs s
      else case ce_remove E (ob_workload ob) s of (e, s1) \<Rightarrow>
           case sweep_orphans E g now obs s1 of (es, s2) \<Rightarrow>
             ((case e of None \<Rightarrow> [] | Some m \<Rightarrow> [''remove orphan '' @ ob_workload ob @ '': '' @ m]) @ es, s2))"

definition orphans :: "observed list \<Rightarrow> workload list \<Rightarrow> observed list" where
  "orphans objects wanted =
     map (\<lambda>i. the (map_by ob_workload objects i))
       (filter (\<lambda>i. i \<notin> wk_id ` set wanted) (remdups (map ob_workload objects)))"

definition Once :: "'s capi \<Rightarrow> 's cengine \<Rightarrow> duration \<Rightarrow> time \<Rightarrow> 's \<Rightarrow> string list \<times> 's" where
  "Once A E g now s =
     (case ap_pending A s of
        Inl e \<Rightarrow> ([''pending: '' @ e], s)
      | Inr wanted \<Rightarrow>
          (case ce_list E s of
             Inl e \<Rightarrow> ([''list engine objects: '' @ e], s)
           | Inr objects \<Rightarrow>
               (case reconcile_all A E g now (map_by ob_workload objects) wanted s of (es, s1) \<Rightarrow>
                case sweep_orphans E g now (orphans objects wanted) s1 of (es2, s2) \<Rightarrow> (es @ es2, s2))))"

text \<open>Serve as the controller sees it, over a state that holds the workload file.\<close>

definition serve_api :: "time \<Rightarrow> ('s \<Rightarrow> workload_file) \<Rightarrow> (workload_file \<Rightarrow> 's \<Rightarrow> 's) \<Rightarrow> (workload_fault \<Rightarrow> string) \<Rightarrow> 's capi" where
  "serve_api now get put show_fault =
     \<lparr>ap_pending = (\<lambda>s. Inr (controller_pending now (get s))),
      ap_report = (\<lambda>rep s. case controller_status now rep (get s) of
         (Inl e, f) \<Rightarrow> (Some (show_fault e), put f s) | (Inr _, f) \<Rightarrow> (None, put f s))\<rparr>"

end
