(* ===== verification/Controller_Correct.thy ===== *)
theory Controller_Correct
  imports Controller
begin

text \<open>
  The controller on top of serve's workload store and an engine that keeps its interface's promises: a
  pass touches a workload's object and record only when it reconciles that workload, and it retires what
  was stopped or has expired.
\<close>

type_synonym 'e line_state = "workload_file \<times> 'e"

abbreviation serve :: "time \<Rightarrow> (workload_fault \<Rightarrow> string) \<Rightarrow> 'e line_state capi" where
  "serve now show_fault \<equiv> serve_api now fst (\<lambda>f s. (f, snd s)) show_fault"

text \<open>What the interface \<open>Engine\<close> documents, over a view of its objects by workload: listing shows
  them, removing deletes one and does not fail, creating touches only the new one.\<close>

definition lawful_engine :: "'e line_state cengine \<Rightarrow> ('e \<Rightarrow> string \<rightharpoonup> observed) \<Rightarrow> bool" where
  "lawful_engine E objs \<longleftrightarrow>
     (\<forall>s. \<exists>l. ce_list E s = Inr l \<and> map_by ob_workload l = objs (snd s))
     \<and> (\<forall>i s. \<exists>e. ce_remove E i s = (None, (fst s, e)) \<and> objs e = (objs (snd s))(i := None))
     \<and> (\<forall>x s. \<exists>r e. ce_create E x s = (r, (fst s, e)) \<and> (\<forall>i. i \<noteq> ei_workload x \<longrightarrow> objs e i = objs (snd s) i))"

definition in_state :: "(wl_state \<Rightarrow> bool) \<Rightarrow> workload_file \<Rightarrow> string \<Rightarrow> bool" where
  "in_state P f i \<longleftrightarrow> (\<exists>w\<in>set (wf_workloads f). wk_id w = i \<and> P (wk_state w))"

abbreviation "visible \<equiv> in_state visible_state"
abbreviation "removed \<equiv> in_state (\<lambda>s. s = WorkloadRemoved)"

text \<open>Nothing about workload \<open>i\<close> is undone.\<close>

definition untouched :: "('e \<Rightarrow> string \<rightharpoonup> observed) \<Rightarrow> string \<Rightarrow> 'e line_state \<Rightarrow> 'e line_state \<Rightarrow> bool" where
  "untouched objs i s s' \<longleftrightarrow> (visible (fst s) i \<longrightarrow> visible (fst s') i) \<and> (removed (fst s) i \<longrightarrow> removed (fst s') i)
     \<and> objs (snd s') i = objs (snd s) i"

lemma untouched_refl [simp]: "untouched objs i s s"
  by (simp add: untouched_def)

lemma untouched_trans: "untouched objs i s t \<Longrightarrow> untouched objs i t u \<Longrightarrow> untouched objs i s u"
  by (auto simp: untouched_def)

subsection \<open>Reports\<close>

lemma expire_in_state:
  assumes "\<And>s. s \<in> {WorkloadApproved, WorkloadCreating, WorkloadRunning} \<Longrightarrow> P s \<Longrightarrow> P WorkloadExpired" "in_state P f i"
  shows "in_state P (expire now f) i"
proof -
  obtain w where w: "w \<in> set (wf_workloads f)" "wk_id w = i" "P (wk_state w)" using assms(2) by (auto simp: in_state_def)
  let ?w = "if lapsed now w then setState now WorkloadExpired ''serve'' ''ttl passed'' w else w"
  have "?w \<in> set (wf_workloads (expire now f))" using w(1) by (auto simp: expire_def)
  moreover have "wk_id ?w = i" "P (wk_state ?w)" using w assms(1) [of "wk_state w"] by (auto simp: lapsed_def)
  ultimately show ?thesis unfolding in_state_def by blast
qed

lemma expire_visible: "visible f i \<Longrightarrow> visible (expire now f) i"
  by (rule expire_in_state) (simp_all add: visible_state_def)

lemma expire_removed: "removed f i \<Longrightarrow> removed (expire now f) i"
  by (rule expire_in_state) simp_all

lemma distinct_ids: "file_ok pol f \<Longrightarrow> distinct (map wk_id (wf_workloads f))"
  by (simp add: file_ok_def distinct_map inj_on_def)

lemma unique_id: "distinct (map wk_id ws) \<Longrightarrow> v \<in> set ws \<Longrightarrow> w \<in> set ws \<Longrightarrow> wk_id v = wk_id w \<Longrightarrow> v = w"
  by (simp add: distinct_map inj_on_def)

lemma set_workload_other:
  assumes "j < length (wf_workloads f)" "wk_id (wf_workloads f ! j) \<noteq> i" "in_state P f i"
  shows "in_state P (set_workload f j w) i"
proof -
  obtain k where k: "k < length (wf_workloads f)" "wk_id (wf_workloads f ! k) = i" "P (wk_state (wf_workloads f ! k))"
    using assms(3) by (auto simp: in_state_def in_set_conv_nth)
  then have "k \<noteq> j" using assms(2) by auto
  then have "wf_workloads (set_workload f j w) ! k = wf_workloads f ! k" "k < length (wf_workloads (set_workload f j w))"
    using k(1) by (simp_all add: set_workload_def)
  then show ?thesis using k(2,3) unfolding in_state_def by (metis nth_mem)
qed

lemma in_state_logs [simp]: "in_state P (f\<lparr>wf_logs := l\<rparr>) i = in_state P f i"
  by (simp add: in_state_def)

lemma status_cases:
  assumes "controller_status now rep f = (res, f')"
  shows "(f' = f \<and> (\<exists>e. res = Inl e)) \<or> (\<exists>j l. res = Inr () \<and> wf_find (expire now f) (wu_id rep) = Some j
      \<and> f' = (set_workload (expire now f) j
           (setState now (wu_state rep) ''controller'' (wu_detail rep) (wf_workloads (expire now f) ! j)))\<lparr>wf_logs := l\<rparr>)"
proof (cases "wf_find (expire now f) (wu_id rep)")
  case None
  then show ?thesis using assms by (auto simp: controller_status_def update_def split: if_splits)
next
  case (Some j)
  let ?g = "set_workload (expire now f) j (setState now (wu_state rep) ''controller'' (wu_detail rep) (wf_workloads (expire now f) ! j))"
  have same: "?g = ?g\<lparr>wf_logs := wf_logs ?g\<rparr>" by simp
  from assms Some have "(f' = f \<and> (\<exists>e. res = Inl e)) \<or> (res = Inr () \<and> (f' = ?g \<or> (\<exists>l. f' = ?g\<lparr>wf_logs := l\<rparr>)))"
    by (auto simp: controller_status_def update_def Let_def split: if_splits)
  then show ?thesis using Some same by metis
qed

lemma status_other:
  assumes "controller_status now rep f = (res, f')" "i \<noteq> wu_id rep"
  shows "(visible f i \<longrightarrow> visible f' i) \<and> (removed f i \<longrightarrow> removed f' i)"
  using status_cases [OF assms(1)]
proof
  assume "\<exists>j l. res = Inr () \<and> wf_find (expire now f) (wu_id rep) = Some j
      \<and> f' = (set_workload (expire now f) j
           (setState now (wu_state rep) ''controller'' (wu_detail rep) (wf_workloads (expire now f) ! j)))\<lparr>wf_logs := l\<rparr>"
  then obtain j l where j: "wf_find (expire now f) (wu_id rep) = Some j"
      "f' = (set_workload (expire now f) j
           (setState now (wu_state rep) ''controller'' (wu_detail rep) (wf_workloads (expire now f) ! j)))\<lparr>wf_logs := l\<rparr>" by blast
  have "j < length (wf_workloads (expire now f))" "wk_id (wf_workloads (expire now f) ! j) \<noteq> i"
    using wf_find_Some [OF j(1)] assms(2) by auto
  then show ?thesis unfolding j(2) using set_workload_other expire_visible expire_removed by (auto simp: in_state_logs)
qed simp

lemma find_known:
  assumes "w \<in> set (wf_workloads f)"
  shows "\<exists>j. wf_find f (wk_id w) = Some j"
proof (cases "wf_find f (wk_id w)")
  case None
  then have "\<forall>j<length (wf_workloads f). wk_id (wf_workloads f ! j) \<noteq> wk_id w" by (auto simp: wf_find_def find_first_None)
  then show ?thesis using assms by (metis in_set_conv_nth)
qed simp

lemma status_removes:
  assumes "file_ok pol f" "visible f (wu_id rep)" "wu_state rep = WorkloadRemoved" "controller_status now rep f = (res, f')"
  shows "removed f' (wu_id rep)"
proof -
  let ?f = "expire now f"
  obtain w where w: "w \<in> set (wf_workloads ?f)" "wk_id w = wu_id rep" "visible_state (wk_state w)"
    using expire_visible [OF assms(2), of now] by (auto simp: in_state_def)
  obtain j where j: "wf_find ?f (wu_id rep) = Some j" using find_known [OF w(1)] w(2) by auto
  have jl: "j < length (wf_workloads ?f)" "wk_id (wf_workloads ?f ! j) = wu_id rep" using wf_find_Some [OF j] by auto
  have "wf_workloads ?f ! j = w"
    using unique_id [OF distinct_ids [OF expire_ok [OF assms(1)]] nth_mem [OF jl(1)] w(1)] jl(2) w(2) by simp
  then have "controllerVisible (wf_workloads ?f ! j)" using w(3) by (simp add: controllerVisible_state)
  then have "f' = (if wu_logs rep \<noteq> [] then (set_workload ?f j (setState now WorkloadRemoved ''controller'' (wu_detail rep) (wf_workloads ?f ! j)))
      \<lparr>wf_logs := (wf_logs ?f)(wu_id rep \<mapsto> suffix_of 65536 (wu_logs rep))\<rparr>
     else set_workload ?f j (setState now WorkloadRemoved ''controller'' (wu_detail rep) (wf_workloads ?f ! j)))"
    using assms(3,4) j by (auto simp: controller_status_def update_def Let_def set_workload_def)
  moreover have "removed (set_workload ?f j (setState now WorkloadRemoved ''controller'' d (wf_workloads ?f ! j))) (wu_id rep)" for d
  proof -
    let ?w = "setState now WorkloadRemoved ''controller'' d (wf_workloads ?f ! j)"
    have "?w \<in> set (wf_workloads (set_workload ?f j ?w))" using set_update_memI [OF jl(1)] by (simp add: set_workload_def)
    then show ?thesis using jl(2) unfolding in_state_def by (metis setState_simps(1,6))
  qed
  ultimately show ?thesis by simp
qed

subsection \<open>One workload\<close>

text \<open>Nothing about workload \<open>i\<close> is undone and the file stays well formed.\<close>

definition calm :: "workloads \<Rightarrow> ('e \<Rightarrow> string \<rightharpoonup> observed) \<Rightarrow> string \<Rightarrow> 'e line_state \<Rightarrow> 'e line_state \<Rightarrow> bool" where
  "calm pol objs i s s' \<longleftrightarrow> untouched objs i s s' \<and> (file_ok pol (fst s) \<longrightarrow> file_ok pol (fst s'))"

lemma calm_refl [simp]: "calm pol objs i s s"
  by (simp add: calm_def)

lemma calm_trans: "calm pol objs i s t \<Longrightarrow> calm pol objs i t u \<Longrightarrow> calm pol objs i s u"
  unfolding calm_def using untouched_trans by metis

lemma reportWith_serve:
  obtains r f' where "controller_status now \<lparr>wu_id = wk_id w, wu_state = st, wu_detail = d, wu_logs = suffix_of 32768 l\<rparr> (fst s) = (r, f')"
    and "snd (reportWith (serve now sf) w st d l s) = (f', snd s)"
proof -
  obtain r f' where c: "controller_status now \<lparr>wu_id = wk_id w, wu_state = st, wu_detail = d, wu_logs = suffix_of 32768 l\<rparr> (fst s) = (r, f')"
    by fastforce
  then have "snd (reportWith (serve now sf) w st d l s) = (f', snd s)"
    by (cases r) (simp_all add: reportWith_def serve_api_def)
  with c that show thesis by blast
qed

lemma report_calm:
  assumes "i \<noteq> wk_id w"
  shows "calm pol objs i s (snd (reportWith (serve now sf) w st d l s))"
proof -
  obtain r f' where c: "controller_status now \<lparr>wu_id = wk_id w, wu_state = st, wu_detail = d, wu_logs = suffix_of 32768 l\<rparr> (fst s) = (r, f')"
      and s': "snd (reportWith (serve now sf) w st d l s) = (f', snd s)" by (rule reportWith_serve)
  show ?thesis unfolding s' calm_def untouched_def
    using status_other [OF c, of i] controller_status_ok [OF _ c] assms by simp
qed

lemma report_removes:
  assumes "file_ok pol (fst s)" "visible (fst s) (wk_id w)"
  shows "removed (fst (snd (reportWith (serve now sf) w WorkloadRemoved d l s))) (wk_id w)"
    and "snd (snd (reportWith (serve now sf) w st d l s)) = snd s"
proof -
  obtain r f' where c: "controller_status now \<lparr>wu_id = wk_id w, wu_state = WorkloadRemoved, wu_detail = d,
        wu_logs = suffix_of 32768 l\<rparr> (fst s) = (r, f')"
      and s': "snd (reportWith (serve now sf) w WorkloadRemoved d l s) = (f', snd s)" by (rule reportWith_serve)
  then show "removed (fst (snd (reportWith (serve now sf) w WorkloadRemoved d l s))) (wk_id w)"
    using status_removes [OF assms(1) _ _ c] assms(2) by simp
  show "snd (snd (reportWith (serve now sf) w st d l s)) = snd s"
    by (rule reportWith_serve [of now w st d l s sf]) simp
qed

lemma remove_lawful:
  assumes "lawful_engine E objs"
  obtains e where "ce_remove E k s = (None, (fst s, e))" "objs e = (objs (snd s))(k := None)"
  using assms unfolding lawful_engine_def by blast

lemma retire_form:
  assumes "lawful_engine E objs"
  obtains e l where "snd (retire (serve now sf) E w has d s) = snd (reportWith (serve now sf) w WorkloadRemoved d l (fst s, e))"
    and "objs e = (if has then (objs (snd s))(wk_id w := None) else objs (snd s))"
proof (cases has)
  case True
  obtain e where "ce_remove E (wk_id w) s = (None, (fst s, e))" "objs e = (objs (snd s))(wk_id w := None)"
    by (rule remove_lawful [OF assms])
  then show thesis using that [of "case ce_logs E (wk_id w) s of None \<Rightarrow> [] | Some l \<Rightarrow> l" e] True by (simp add: retire_def)
next
  case False
  then show thesis using that [of "[]" "snd s"] by (simp add: retire_def)
qed

lemma retire_calm:
  assumes "lawful_engine E objs" "i \<noteq> wk_id w"
  shows "calm pol objs i s (snd (retire (serve now sf) E w has d s))"
proof -
  obtain e l where r: "snd (retire (serve now sf) E w has d s) = snd (reportWith (serve now sf) w WorkloadRemoved d l (fst s, e))"
    and e: "objs e = (if has then (objs (snd s))(wk_id w := None) else objs (snd s))" by (rule retire_form [OF assms(1)])
  have "calm pol objs i s (fst s, e)" using e assms(2) by (simp add: calm_def untouched_def)
  then show ?thesis unfolding r using report_calm [OF assms(2)] by (rule calm_trans)
qed

lemma create_calm:
  assumes "lawful_engine E objs" "i \<noteq> wk_id w"
  shows "calm pol objs i s (snd (create (serve now sf) E w s))"
proof (cases "unsupported (wk_spec w) \<noteq> []")
  case True
  then show ?thesis using report_calm [OF assms(2)] by (simp add: create_def report_def)
next
  case False
  define x where "x = \<lparr>ei_workload = wk_id w, ei_image = ws_image (wk_spec w), ei_args = ws_args (wk_spec w), ei_env = ws_env (wk_spec w),
      ei_memory = rs_memory (ws_resources (wk_spec w)), ei_cpus = rs_cpus (ws_resources (wk_spec w)),
      ei_pids = rs_pids (ws_resources (wk_spec w))\<rparr>"
  have "\<exists>r e. ce_create E x s = (r, (fst s, e)) \<and> (\<forall>i. i \<noteq> ei_workload x \<longrightarrow> objs e i = objs (snd s) i)"
    using assms(1) unfolding lawful_engine_def by blast
  then obtain res e where c: "ce_create E x s = (res, (fst s, e))" "objs e i = objs (snd s) i" using assms(2) by (auto simp: x_def)
  have "calm pol objs i s (fst s, e)" using c(2) by (simp add: calm_def untouched_def)
  moreover have "\<exists>st d. snd (create (serve now sf) E w s) = snd (reportWith (serve now sf) w st d [] (fst s, e))"
    using False c(1) by (cases res) (simp_all add: create_def report_def x_def [symmetric] case_prod_beta, blast+)
  ultimately show ?thesis using report_calm [OF assms(2)] calm_trans by metis
qed

lemma reconcile_forms:
  assumes "P ([], s)" "\<And>has d. P (retire A E w has d s)" "P (create A E w s)" "\<And>st d l. P (reportWith A w st d l s)"
  shows "P (reconcile A E g now w ob s)"
  using assms by (simp add: reconcile_def report_def Let_def split: option.splits)

lemma reconcile_calm:
  assumes "lawful_engine E objs" "i \<noteq> wk_id w"
  shows "calm pol objs i s (snd (reconcile (serve now sf) E g now w ob s))"
  by (rule reconcile_forms [where P = "\<lambda>x. calm pol objs i s (snd x)"])
    (simp_all add: retire_calm [OF assms] create_calm [OF assms] report_calm [OF assms(2)])

text \<open>A stopped or expired workload is retired: its object goes and its record says removed.\<close>

lemma reconcile_retires:
  assumes "lawful_engine E objs" "wk_stopped w \<or> wk_state w = WorkloadExpired" "file_ok pol (fst s)" "visible (fst s) (wk_id w)"
    and "ob = objs (snd s) (wk_id w)"
  shows "removed (fst (snd (reconcile (serve now sf) E g now w ob s))) (wk_id w)"
    and "objs (snd (snd (reconcile (serve now sf) E g now w ob s))) (wk_id w) = None"
proof -
  define d where "d = (if wk_state w = WorkloadExpired then ''ttl passed'' else ''stopped by its owner'')"
  have r: "reconcile (serve now sf) E g now w ob s = retire (serve now sf) E w (ob \<noteq> None) d s"
    using assms(2) by (simp add: reconcile_def d_def)
  obtain e l where f: "snd (retire (serve now sf) E w (ob \<noteq> None) d s) = snd (reportWith (serve now sf) w WorkloadRemoved d l (fst s, e))"
    and e: "objs e = (if ob \<noteq> None then (objs (snd s))(wk_id w := None) else objs (snd s))" by (rule retire_form [OF assms(1)])
  show "removed (fst (snd (reconcile (serve now sf) E g now w ob s))) (wk_id w)"
    unfolding r f using report_removes(1) [of pol "(fst s, e)" w] assms(3,4) by simp
  have "objs e (wk_id w) = None" using e assms(5) by (auto split: if_splits)
  then show "objs (snd (snd (reconcile (serve now sf) E g now w ob s))) (wk_id w) = None"
    unfolding r f using report_removes(2) [of pol "(fst s, e)" w] assms(3,4) by simp
qed

lemma reconcile_all_calm:
  assumes "lawful_engine E objs" "i \<notin> wk_id ` set ws"
  shows "calm pol objs i s (snd (reconcile_all (serve now sf) E g now by_id ws s))"
  using assms(2)
proof (induction ws arbitrary: by_id s)
  case (Cons w ws)
  have "calm pol objs i s (snd (reconcile (serve now sf) E g now w (by_id (wk_id w)) s))"
    using reconcile_calm [OF assms(1)] Cons.prems by simp
  moreover have "calm pol objs i t (snd (reconcile_all (serve now sf) E g now b ws t))" for b t using Cons by simp
  ultimately show ?case using calm_trans by (simp add: case_prod_beta) blast
qed simp

lemma reconcile_file_ok:
  assumes "lawful_engine E objs" "file_ok pol (fst s)"
  shows "file_ok pol (fst (snd (reconcile (serve now sf) E g now w ob s)))"
  using reconcile_calm [OF assms(1), of "CHR ''x'' # wk_id w" w pol s now sf g ob] assms(2) by (simp add: calm_def)

text \<open>A pass over all workloads serve lists.\<close>

lemma reconcile_all_retires:
  assumes "lawful_engine E objs" "file_ok pol (fst s)" "distinct (map wk_id ws)" "w \<in> set ws"
    and "wk_stopped w \<or> wk_state w = WorkloadExpired" "visible (fst s) (wk_id w)" "by_id (wk_id w) = objs (snd s) (wk_id w)"
  shows "removed (fst (snd (reconcile_all (serve now sf) E g now by_id ws s))) (wk_id w)
     \<and> objs (snd (snd (reconcile_all (serve now sf) E g now by_id ws s))) (wk_id w) = None"
  using assms(2-4,6,7)
proof (induction ws arbitrary: by_id s)
  case (Cons v ws)
  let ?s1 = "snd (reconcile (serve now sf) E g now v (by_id (wk_id v)) s)"
  have step: "snd (reconcile_all (serve now sf) E g now by_id (v # ws) s)
      = snd (reconcile_all (serve now sf) E g now (by_id(wk_id v := None)) ws ?s1)" by (simp add: case_prod_beta)
  show ?case
  proof (cases "v = w")
    case True
    then have "wk_id w \<notin> wk_id ` set ws" using Cons.prems(2) by auto
    then have "untouched objs (wk_id w) ?s1 (snd (reconcile_all (serve now sf) E g now (by_id(wk_id v := None)) ws ?s1))"
      using reconcile_all_calm [OF assms(1)] by (simp add: calm_def)
    moreover have "removed (fst ?s1) (wk_id w)" "objs (snd ?s1) (wk_id w) = None"
      using reconcile_retires [OF assms(1,5) Cons.prems(1,4,5)] True by auto
    ultimately show ?thesis unfolding step by (simp add: untouched_def)
  next
    case False
    then have w: "w \<in> set ws" using Cons.prems(3) by auto
    then have ne: "wk_id w \<noteq> wk_id v" using Cons.prems(2) by (metis distinct.simps(2) image_eqI list.simps(9) set_map)
    have "calm pol objs (wk_id w) s ?s1" by (rule reconcile_calm [OF assms(1) ne])
    then have "file_ok pol (fst ?s1)" "visible (fst ?s1) (wk_id w)" "objs (snd ?s1) (wk_id w) = objs (snd s) (wk_id w)"
      using Cons.prems(1,4) by (auto simp: calm_def untouched_def)
    then show ?thesis unfolding step using Cons.prems(2,5) w ne by (intro Cons.IH) simp_all
  qed
qed simp

lemma sweep_orphans_calm:
  assumes "lawful_engine E objs"
  shows "fst (snd (sweep_orphans E g now obs s)) = fst s
     \<and> (objs (snd s) i = None \<longrightarrow> objs (snd (snd (sweep_orphans E g now obs s))) i = None)"
proof (induction obs arbitrary: s)
  case (Cons ob obs)
  obtain e where e: "ce_remove E (ob_workload ob) s = (None, (fst s, e))" "objs e = (objs (snd s))(ob_workload ob := None)"
    by (rule remove_lawful [OF assms])
  show ?case using Cons [of "(fst s, e)"] Cons [of s] by (simp add: case_prod_beta e)
qed simp

lemma Once_retires:
  assumes "lawful_engine E objs" "file_ok pol f" "w \<in> set (controller_pending now f)"
    and "wk_stopped w \<or> wk_state w = WorkloadExpired" "Once (serve now sf) E g now (f, e) = (es, (f', e'))"
  shows "objs e' (wk_id w) = None \<and> removed f' (wk_id w)"
proof -
  let ?ws = "controller_pending now f"
  obtain l where l: "ce_list E (f, e) = Inr l" "map_by ob_workload l = objs e" using assms(1) unfolding lawful_engine_def by (metis snd_conv)
  let ?s1 = "snd (reconcile_all (serve now sf) E g now (objs e) ?ws (f, e))"
  have o: "(f', e') = snd (sweep_orphans E g now (orphans l ?ws) ?s1)"
    using assms(5) l by (simp add: Once_def serve_api_def case_prod_beta)
  have d: "distinct (map wk_id ?ws)"
    using distinct_ids [OF expire_ok [OF assms(2), of now]] by (simp add: controller_pending_def distinct_map_filter)
  have "visible f (wk_id w)"
  proof -
    obtain v where v: "v \<in> set (wf_workloads f)" "w = (if lapsed now v then setState now WorkloadExpired ''serve'' ''ttl passed'' v else v)"
      "controllerVisible w" using assms(3) by (auto simp: controller_pending_def expire_def)
    then have "visible_state (wk_state v)" "wk_id w = wk_id v"
      by (auto simp: controllerVisible_state lapsed_def visible_state_def split: if_splits)
    then show ?thesis using v(1) unfolding in_state_def by metis
  qed
  then have "removed (fst ?s1) (wk_id w) \<and> objs (snd ?s1) (wk_id w) = None"
    using assms(2) by (intro reconcile_all_retires [OF assms(1) _ d assms(3,4)]) simp_all
  then show ?thesis using sweep_orphans_calm [OF assms(1), of g now "orphans l ?ws" ?s1 "wk_id w"] o by (metis fst_conv snd_conv)
qed

end
