(* ===== verification/Station_Liveness.thy ===== *)
theory Station_Liveness
  imports Go_Time Go_Text
begin

text \<open>
  \<open>line/station/liveness.go\<close>: heartbeats of stations, the liveness the line reports of them, and the
  watch that tells the king when no maker is alive and when a clock is off. The in-memory table is a
  map; posting to the channel is a parameter that answers an error or none.
\<close>

datatype station_state = StateIdle | StateWorking | StateUnseen | StateOther string

record heartbeat =
  hb_state :: station_state
  hb_card :: string
  hb_commit :: string
  hb_idle_reason :: string
  hb_clock :: "time option"
  hb_last_run :: "time option"
  hb_next_run :: "time option"

record station =
  sn_name :: string
  sn_role :: string

record station_status =
  ss_name :: string
  ss_role :: string
  ss_state :: station_state
  ss_card :: string
  ss_commit :: string
  ss_idle_reason :: string
  ss_last_card :: string
  ss_last_seen :: "time option"
  ss_clock_skew_seconds :: int
  ss_alive :: bool
  ss_last_run :: "time option"
  ss_next_run :: "time option"

record seen_station =
  se_beat :: heartbeat
  se_at :: time
  se_last_card :: string

type_synonym liveness = "string \<rightharpoonup> seen_station"

definition MakerPollInterval :: duration where "MakerPollInterval = 60 * second"
definition MakerSilenceLimit :: duration where "MakerSilenceLimit = 3 * MakerPollInterval"
definition MaxClockSkew :: duration where "MaxClockSkew = 2 * minute"

definition beat :: "string \<Rightarrow> heartbeat \<Rightarrow> time \<Rightarrow> liveness \<Rightarrow> liveness" where
  "beat name hb now l =
     l(name \<mapsto> \<lparr>se_beat = hb, se_at = now,
        se_last_card = (case l name of
           None \<Rightarrow> []
         | Some prev \<Rightarrow> (if hb_state (se_beat prev) = StateWorking \<and> hb_card (se_beat prev) \<noteq> hb_card hb
                         then hb_card (se_beat prev) else se_last_card prev))\<rparr>)"

definition seen_status :: "station \<Rightarrow> time \<Rightarrow> seen_station \<Rightarrow> station_status" where
  "seen_status st now seen =
     (let hb = se_beat seen; skew = (case hb_clock hb of None \<Rightarrow> 0 | Some c \<Rightarrow> time_sub c (se_at seen)) in
      \<lparr>ss_name = sn_name st, ss_role = sn_role st, ss_state = hb_state hb, ss_card = hb_card hb, ss_commit = hb_commit hb,
       ss_idle_reason = hb_idle_reason hb, ss_last_card = se_last_card seen, ss_last_seen = Some (se_at seen),
       ss_clock_skew_seconds = go_quot skew second, ss_alive = (time_sub now (se_at seen) \<le> MakerSilenceLimit),
       ss_last_run = hb_last_run hb, ss_next_run = hb_next_run hb\<rparr>)"

definition unseen_status :: "station \<Rightarrow> station_status" where
  "unseen_status st =
     \<lparr>ss_name = sn_name st, ss_role = sn_role st, ss_state = StateUnseen, ss_card = [], ss_commit = [], ss_idle_reason = [],
      ss_last_card = [], ss_last_seen = None, ss_clock_skew_seconds = 0, ss_alive = False, ss_last_run = None, ss_next_run = None\<rparr>"

fun snapshot :: "station list \<Rightarrow> time \<Rightarrow> liveness \<Rightarrow> station_status list" where
  "snapshot [] now l = []"
| "snapshot (st # sts) now l =
     (case l (sn_name st) of
        None \<Rightarrow> (if sn_role st = ''maker'' then unseen_status st # snapshot sts now l else snapshot sts now l)
      | Some seen \<Rightarrow> seen_status st now seen # snapshot sts now l)"

definition MakersAlive :: "station_status list \<Rightarrow> nat" where
  "MakersAlive sts = length (filter (\<lambda>s. ss_role s = ''maker'' \<and> ss_alive s) sts)"

datatype heartbeat_fault = Bad_Heartbeat_State station_state | Card_Only_When_Working | Reason_Only_When_Idle

definition heartbeat_handler :: "station \<Rightarrow> heartbeat \<Rightarrow> time \<Rightarrow> liveness \<Rightarrow> (heartbeat_fault + unit) \<times> liveness" where
  "heartbeat_handler st hb now l =
     (if hb_state hb \<noteq> StateIdle \<and> hb_state hb \<noteq> StateWorking then (Inl (Bad_Heartbeat_State (hb_state hb)), l)
      else if (hb_state hb = StateWorking) \<noteq> (hb_card hb \<noteq> []) then (Inl Card_Only_When_Working, l)
      else if hb_idle_reason hb \<noteq> [] \<and> hb_state hb \<noteq> StateIdle then (Inl Reason_Only_When_Idle, l)
      else (Inr (), beat (sn_name st) hb now l))"

subsection \<open>The watch\<close>

record maker_watch =
  mw_started :: time
  mw_alerted :: bool
  mw_skewed :: "string \<Rightarrow> bool"

definition lastMakerSeen :: "time \<Rightarrow> time \<Rightarrow> station_status list \<Rightarrow> time \<times> bool" where
  "lastMakerSeen started now sts =
     (let newest = foldl (\<lambda>t s. case ss_last_seen s of
           None \<Rightarrow> t | Some x \<Rightarrow> (if ss_role s = ''maker'' \<and> t < x then x else t)) started sts
      in (newest, time_sub now newest \<le> MakerSilenceLimit))"

definition skew_text :: "station_status \<Rightarrow> bool \<Rightarrow> duration \<Rightarrow> string" where
  "skew_text s skewed skew =
     ''station '' @ ss_name s @
     (if skewed then '' clock is '' @ duration_string skew @ '' off the line's (negative is behind); on a podman machine run: podman machine ssh ''
          @ [CHR 0x22] @ ''sudo date -u -s @$(date +%s)'' @ [CHR 0x22]
      else '' clock is back in step with the line'')"

fun checkClockSkew :: "(string \<Rightarrow> string option) \<Rightarrow> station_status list \<Rightarrow> (string \<Rightarrow> bool) \<Rightarrow> string list \<times> (string \<Rightarrow> bool)" where
  "checkClockSkew announce [] sk = ([], sk)"
| "checkClockSkew announce (s # ss) sk =
     (let skew = ss_clock_skew_seconds s * second; skewed = (ss_alive s \<and> (skew > MaxClockSkew \<or> skew < - MaxClockSkew)) in
      if skewed = sk (ss_name s) then checkClockSkew announce ss sk
      else let text = skew_text s skewed skew in
           case announce text of
             Some e \<Rightarrow> map_prod ((#) (''announce '' @ go_quote text @ '': '' @ e)) id (checkClockSkew announce ss sk)
           | None \<Rightarrow> checkClockSkew announce ss (sk(ss_name s := skewed)))"

definition alert_text :: "time \<Rightarrow> bool \<Rightarrow> string" where
  "alert_text newest alive = (if alive then ''a maker is alive again'' else ''no maker alive since '' @ format_utc newest)"

definition Check :: "(string \<Rightarrow> string option) \<Rightarrow> station_status list \<Rightarrow> time \<Rightarrow> maker_watch \<Rightarrow> string list \<times> maker_watch" where
  "Check announce sts now w =
     (let (skew_errs, sk) = checkClockSkew announce sts (mw_skewed w);
          w1 = w\<lparr>mw_skewed := sk\<rparr>;
          (newest, alive) = lastMakerSeen (mw_started w) now sts
      in if alive \<noteq> mw_alerted w then (skew_errs, w1)
         else case announce (alert_text newest alive) of
                Some e \<Rightarrow> (skew_errs @ [''announce '' @ go_quote (alert_text newest alive) @ '': '' @ e], w1)
              | None \<Rightarrow> (skew_errs, w1\<lparr>mw_alerted := \<not> alive\<rparr>))"

subsection \<open>What a snapshot says\<close>

text \<open>The table after a sequence of heartbeats, oldest first.\<close>

definition after_beats :: "(string \<times> heartbeat \<times> time) list \<Rightarrow> liveness" where
  "after_beats bs = foldl (\<lambda>l (name, hb, t). beat name hb t l) Map.empty bs"

definition beats_of :: "string \<Rightarrow> (string \<times> heartbeat \<times> time) list \<Rightarrow> (heartbeat \<times> time) list" where
  "beats_of name bs = map snd (filter (\<lambda>b. fst b = name) bs)"

lemma after_beats_snoc [simp]: "after_beats (bs @ [(n, hb, t)]) = beat n hb t (after_beats bs)"
  by (simp add: after_beats_def)

lemma beats_of_snoc [simp]: "beats_of name (bs @ [(n, x)]) = beats_of name bs @ (if n = name then [x] else [])"
  by (simp add: beats_of_def)

lemma after_beats_None: "after_beats bs name = None \<longleftrightarrow> beats_of name bs = []"
proof (induction bs rule: rev_induct)
  case (snoc b bs)
  then show ?case by (cases b) (simp add: beat_def)
qed (simp add: after_beats_def beats_of_def)

lemma after_beats_Some:
  "after_beats bs name = Some seen \<Longrightarrow> beats_of name bs \<noteq> [] \<and> last (beats_of name bs) = (se_beat seen, se_at seen)"
proof (induction bs rule: rev_induct)
  case (snoc b bs)
  then show ?case by (cases b) (auto simp: beat_def split: if_splits)
qed (simp add: after_beats_def)

lemma snapshot_entry:
  assumes "s \<in> set (snapshot sts now l)"
  shows "\<exists>st\<in>set sts. ss_name s = sn_name st \<and> ss_role s = sn_role st
     \<and> (case l (sn_name st) of None \<Rightarrow> sn_role st = ''maker'' \<and> s = unseen_status st | Some seen \<Rightarrow> s = seen_status st now seen)"
  using assms
proof (induction sts)
  case (Cons st sts)
  show ?case
  proof (cases "l (sn_name st)")
    case None
    then show ?thesis using Cons by (auto simp: unseen_status_def split: if_splits)
  next
    case (Some seen)
    then show ?thesis using Cons by (auto simp: seen_status_def Let_def)
  qed
qed simp

lemma snapshot_alive:
  assumes "s \<in> set (snapshot sts now (after_beats bs))"
  shows "ss_alive s \<longleftrightarrow> beats_of (ss_name s) bs \<noteq> [] \<and> time_sub now (snd (last (beats_of (ss_name s) bs))) \<le> MakerSilenceLimit"
proof -
  obtain st where st: "ss_name s = sn_name st"
      "case after_beats bs (sn_name st) of None \<Rightarrow> sn_role st = ''maker'' \<and> s = unseen_status st | Some seen \<Rightarrow> s = seen_status st now seen"
    using snapshot_entry [OF assms] by blast
  show ?thesis
  proof (cases "after_beats bs (sn_name st)")
    case None
    then show ?thesis using st after_beats_None [of bs "sn_name st"] by (simp add: unseen_status_def)
  next
    case (Some seen)
    then show ?thesis using st after_beats_Some [OF Some] by (simp add: seen_status_def Let_def)
  qed
qed

end
