(* ===== verification/Heijunka.thy ===== *)
theory Heijunka
  imports Station_Liveness Constitution_Rules
begin

text \<open>
  \<open>line/heijunka\<close>: the worker that levels the line's flow. Pure decisions (\<open>Decide\<close>,
  \<open>ShouldRequestKaizen\<close>, \<open>AnalyzeFlow\<close>, \<open>DecideStaleNeed\<close>, \<open>AbandonedReason\<close>) and the handlers that
  apply them. The card tracker, the station API and the actuator are interfaces of the source; they act
  on a state \<open>'s\<close> and are arguments.
\<close>

subsection \<open>Deferred cards\<close>

definition LabelNeedsPrefix :: string where "LabelNeedsPrefix = ''needs:''"
definition LabelGaveUp :: string where "LabelGaveUp = ''line-gave-up''"
definition LabelDeferred :: string where "LabelDeferred = ''line-deferred''"
definition LabelDeferUntilPrefix :: string where "LabelDeferUntilPrefix = ''line-defer-until:''"

definition IsDeferred :: "string list \<Rightarrow> time \<Rightarrow> bool" where
  "IsDeferred labels now =
     (LabelDeferred \<in> set labels \<and>
      (case find_first (\<lambda>l. has_prefix l LabelDeferUntilPrefix) labels of
         None \<Rightarrow> True
       | Some l \<Rightarrow> (case parse_date (drop (length LabelDeferUntilPrefix) l) of None \<Rightarrow> True | Some until \<Rightarrow> now < until)))"

subsection \<open>Flow\<close>

record flow_card =
  fc_id :: string
  fc_status :: string
  fc_labels :: "string list"
  fc_created :: time
  fc_started :: time
  fc_updated :: time
  fc_closed :: time

record stage_flow =
  sf_stage :: string
  sf_wip :: int
  sf_total_wait :: duration
  sf_oldest_id :: string
  sf_oldest_wait :: duration

record flow_report =
  fr_stages :: "stage_flow list"
  fr_bottleneck :: "stage_flow option"
  fr_closed :: int
  fr_mean_lead_time :: duration
  fr_mean_queue_latency :: duration

definition StageQueued :: string where "StageQueued = ''queued''"
definition StageWorking :: string where "StageWorking = ''working''"
definition StageNeeds :: "string \<Rightarrow> string" where "StageNeeds role = LabelNeedsPrefix @ role"

definition flow_wait :: "flow_report \<Rightarrow> string \<Rightarrow> duration" where
  "flow_wait r stage = (case find_first (\<lambda>s. sf_stage s = stage) (fr_stages r) of None \<Rightarrow> 0 | Some s \<Rightarrow> sf_oldest_wait s)"

definition cardStage :: "flow_card \<Rightarrow> time \<Rightarrow> (string \<times> time) option" where
  "cardStage c now =
     (if LabelGaveUp \<in> set (fc_labels c) \<or> IsDeferred (fc_labels c) now then None
      else case find_first (\<lambda>l. has_prefix l LabelNeedsPrefix) (fc_labels c) of
             Some l \<Rightarrow> Some (StageNeeds (drop (length LabelNeedsPrefix) l), fc_updated c)
           | None \<Rightarrow> (if fc_status c = ''in_progress'' then Some (StageWorking, fc_started c) else Some (StageQueued, fc_created c)))"

text \<open>\<open>byStage\<close> as a list of the stages in the order they were first seen; sums wrap around at 64 bits.\<close>

definition bump :: "string \<Rightarrow> duration \<Rightarrow> stage_flow \<Rightarrow> stage_flow" where
  "bump cid wait s =
     (let s' = s\<lparr>sf_wip := sf_wip s + 1, sf_total_wait := wrap64 (sf_total_wait s + wait)\<rparr>
      in if wait > sf_oldest_wait s \<or> sf_oldest_id s = [] then s'\<lparr>sf_oldest_id := cid, sf_oldest_wait := wait\<rparr> else s')"

fun add_wait :: "string \<Rightarrow> string \<Rightarrow> duration \<Rightarrow> stage_flow list \<Rightarrow> stage_flow list" where
  "add_wait stage cid wait [] =
     [bump cid wait \<lparr>sf_stage = stage, sf_wip = 0, sf_total_wait = 0, sf_oldest_id = [], sf_oldest_wait = 0\<rparr>]"
| "add_wait stage cid wait (s # ss) = (if sf_stage s = stage then bump cid wait s # ss else s # add_wait stage cid wait ss)"

record flow_acc =
  fa_stages :: "stage_flow list"
  fa_closed :: int
  fa_lead :: duration
  fa_queue :: duration
  fa_samples :: int

definition flow_card_step :: "time \<Rightarrow> flow_acc \<Rightarrow> flow_card \<Rightarrow> flow_acc" where
  "flow_card_step now a c =
     (if fc_status c = ''closed'' then
        (let a' = a\<lparr>fa_closed := fa_closed a + 1, fa_lead := wrap64 (fa_lead a + time_sub (fc_closed c) (fc_created c))\<rparr>
         in if fc_started c \<noteq> 0
            then a'\<lparr>fa_queue := wrap64 (fa_queue a + time_sub (fc_started c) (fc_created c)), fa_samples := fa_samples a + 1\<rparr>
            else a')
      else case cardStage c now of
             None \<Rightarrow> a
           | Some (stage, since) \<Rightarrow> a\<lparr>fa_stages := add_wait stage (fc_id c) (max (time_sub now since) 0) (fa_stages a)\<rparr>)"

text \<open>The comparison of \<open>slices.SortFunc\<close> and the insertion sort it uses on short lists.\<close>

definition stage_less :: "stage_flow \<Rightarrow> stage_flow \<Rightarrow> bool" where
  "stage_less a b \<longleftrightarrow>
     (if sf_total_wait a \<noteq> sf_total_wait b then wrap64 (sf_total_wait b - sf_total_wait a) < 0 else sf_stage a < sf_stage b)"

fun insert_stage :: "stage_flow \<Rightarrow> stage_flow list \<Rightarrow> stage_flow list" where
  "insert_stage x [] = [x]"
| "insert_stage x (y # ys) = (if stage_less x y then x # y # ys else y # insert_stage x ys)"

definition sort_stages :: "stage_flow list \<Rightarrow> stage_flow list" where
  "sort_stages ss = foldl (\<lambda>acc s. insert_stage s acc) [] ss"

definition AnalyzeFlow :: "flow_card list \<Rightarrow> time \<Rightarrow> flow_report" where
  "AnalyzeFlow cards now =
     (let a = foldl (flow_card_step now) \<lparr>fa_stages = [], fa_closed = 0, fa_lead = 0, fa_queue = 0, fa_samples = 0\<rparr> cards;
          stages = sort_stages (fa_stages a)
      in \<lparr>fr_stages = stages, fr_bottleneck = find_first (\<lambda>s. sf_stage s \<noteq> StageWorking) stages, fr_closed = fa_closed a,
          fr_mean_lead_time = (if fa_closed a > 0 then go_quot (fa_lead a) (fa_closed a) else 0),
          fr_mean_queue_latency = (if fa_samples a > 0 then go_quot (fa_queue a) (fa_samples a) else 0)\<rparr>)"

subsection \<open>Levels\<close>

record levels =
  lv_agents :: int
  lv_wip_limit :: int

datatype kaizen_request_state = KaizenRequestPending | KaizenRequestStarted | KaizenRequestDeclined | KaizenRequestOther string

record kaizen_request =
  kr_state :: kaizen_request_state
  kr_master :: string
  kr_requested_at :: time
  kr_reason :: string

record snap =
  sp_ready :: int
  sp_in_progress :: int
  sp_stopped :: bool
  sp_makers_alive :: int
  sp_current :: levels
  sp_now :: time
  sp_master :: string
  sp_kaizen_idle :: bool
  sp_kaizen_last_run :: time
  sp_kaizen_request :: "kaizen_request option"
  sp_flow :: flow_report

record policy =
  po_min_agents :: int
  po_max_agents :: int
  po_cards_per_agent :: int
  po_wip_per_agent :: int
  po_max_step :: int
  po_kaizen_min_gap :: duration
  po_queue_latency_target :: duration

definition DefaultPolicy :: policy where
  "DefaultPolicy = \<lparr>po_min_agents = 1, po_max_agents = 4, po_cards_per_agent = 2, po_wip_per_agent = 1, po_max_step = 1,
     po_kaizen_min_gap = 6 * hour, po_queue_latency_target = hour\<rparr>"

definition policy_valid :: "policy \<Rightarrow> bool" where
  "policy_valid p \<longleftrightarrow> \<not> (po_min_agents p < 0 \<or> po_max_agents p < po_min_agents p \<or> po_cards_per_agent p < 1
     \<or> po_wip_per_agent p < 1 \<or> po_max_step p < 1 \<or> po_kaizen_min_gap p < 0 \<or> po_queue_latency_target p < 1)"

text \<open>The agent count \<open>Decide\<close> steers to. Counts are far from the 64-bit limits, so sums are exact.\<close>

definition agent_target :: "snap \<Rightarrow> policy \<Rightarrow> int" where
  "agent_target s p =
     (let backlog = sp_ready s + sp_in_progress s;
          t0 = go_quot (backlog + po_cards_per_agent p - 1) (po_cards_per_agent p);
          t1 = (if flow_wait (sp_flow s) StageQueued > po_queue_latency_target p then max t0 (lv_agents (sp_current s) + 1) else t0)
      in min (max t1 (po_min_agents p)) (po_max_agents p))"

definition Decide :: "snap \<Rightarrow> policy \<Rightarrow> levels" where
  "Decide s p =
     (if sp_stopped s then \<lparr>lv_agents = lv_agents (sp_current s), lv_wip_limit = 1\<rparr>
      else let t = agent_target s p; a = lv_agents (sp_current s);
               a' = (if t > a then min t (a + po_max_step p) else if t < a then max t (a - po_max_step p) else a)
           in \<lparr>lv_agents = a', lv_wip_limit = a' * po_wip_per_agent p\<rparr>)"

definition ShouldRequestKaizen :: "snap \<Rightarrow> policy \<Rightarrow> bool" where
  "ShouldRequestKaizen s p =
     (if sp_stopped s \<or> \<not> sp_kaizen_idle s then False
      else if sp_ready s > 0 \<or> sp_in_progress s \<ge> sp_makers_alive s then False
      else if sp_kaizen_last_run s \<noteq> 0 \<and> time_sub (sp_now s) (sp_kaizen_last_run s) < po_kaizen_min_gap p then False
      else case sp_kaizen_request s of
             None \<Rightarrow> True
           | Some r \<Rightarrow> \<not> (kr_state r = KaizenRequestPending \<or> kr_master r = sp_master s))"

end
