(* ===== verification/Heijunka_Worker.thy ===== *)
theory Heijunka_Worker
  imports Heijunka Guard
begin

text \<open>
  The handlers of \<open>line/heijunka\<close> (\<open>needs.go\<close>, \<open>reaper.go\<close>, \<open>Worker.Step\<close>, \<open>BeadsObserver\<close>) and the
  station routes they talk to (\<open>kaizen_request.go\<close>, \<open>heijunka_levels.go\<close>, \<open>heijunka_state.go\<close>). The
  \<open>bd\<close> program acts on a state \<open>'s\<close> and is an argument, with the decoders of its JSON answers; the
  interfaces \<open>NeedsCards\<close>, \<open>ReapCards\<close>, \<open>Observer\<close>, \<open>Actuator\<close> and \<open>KaizenRequester\<close> are records of
  operations, and the \<open>bd\<close> implementations of the first three are definitions. A call that answers a value
  returns \<open>string + 'a\<close> (\<open>Inl\<close> the error text), one that answers only an error \<open>string option\<close>; log lines
  are not modelled.
\<close>

definition call :: "('e + 'a) \<times> 's \<Rightarrow> ('a \<Rightarrow> 's \<Rightarrow> ('e + 'b) \<times> 's) \<Rightarrow> ('e + 'b) \<times> 's" where
  "call r f = (case r of (Inl e, s) \<Rightarrow> (Inl e, s) | (Inr x, s) \<Rightarrow> f x s)"

definition call_err :: "(string + 'a) \<times> 's \<Rightarrow> ('s \<Rightarrow> string option \<times> 's) \<Rightarrow> string option \<times> 's" where
  "call_err r f = (case r of (Inl e, s) \<Rightarrow> (Some e, s) | (Inr x, s) \<Rightarrow> f s)"

lemma call_simps [simp]: "call (Inl e, s) f = (Inl e, s)" "call (Inr x, s) f = f x s"
  by (simp_all add: call_def)

lemma call_err_simps [simp]: "call_err (Inl e, s) g = (Some e, s)" "call_err (Inr x, s) g = g s"
  by (simp_all add: call_err_def)

subsection \<open>Stale needs\<close>

datatype need_kind = NeedReroute | NeedEscalate | NeedPark

definition need_kind_text :: "need_kind \<Rightarrow> string" where
  "need_kind_text k = (case k of NeedReroute \<Rightarrow> ''reroute'' | NeedEscalate \<Rightarrow> ''escalate'' | NeedPark \<Rightarrow> ''park'')"

record need_action =
  na_kind :: need_kind
  na_to :: string

record stale_need =
  sd_id :: string
  sd_role :: string

definition DecideStaleNeed :: "string \<Rightarrow> need_action" where
  "DecideStaleNeed role =
     (if role = ''king'' then \<lparr>na_kind = NeedPark, na_to = []\<rparr>
      else if role = ''viceroy'' then \<lparr>na_kind = NeedEscalate, na_to = ''king''\<rparr>
      else \<lparr>na_kind = NeedReroute, na_to = ''viceroy''\<rparr>)"

record 's needs_cards =
  nc_stale :: "time \<Rightarrow> 's \<Rightarrow> (string + stale_need list) \<times> 's"
  nc_move :: "string \<Rightarrow> string \<Rightarrow> string \<Rightarrow> string \<Rightarrow> 's \<Rightarrow> string option \<times> 's"
  nc_park :: "string \<Rightarrow> string \<Rightarrow> string \<Rightarrow> 's \<Rightarrow> string option \<times> 's"

definition need_note :: "duration \<Rightarrow> stale_need \<Rightarrow> string" where
  "need_note timeout n =
     ''heijunka: needs:'' @ sd_role n @ '' unanswered for over '' @ duration_string timeout @ ''; ''
     @ need_kind_text (na_kind (DecideStaleNeed (sd_role n)))"

definition apply_need :: "'s needs_cards \<Rightarrow> duration \<Rightarrow> stale_need \<Rightarrow> 's \<Rightarrow> string option \<times> 's" where
  "apply_need C timeout n s =
     (let act = DecideStaleNeed (sd_role n) in
      if na_kind act = NeedPark then nc_park C (sd_id n) (sd_role n) (need_note timeout n) s
      else nc_move C (sd_id n) (sd_role n) (na_to act) (need_note timeout n) s)"

fun triage_loop :: "'s needs_cards \<Rightarrow> duration \<Rightarrow> string option \<Rightarrow> stale_need list \<Rightarrow> 's \<Rightarrow> string option \<times> 's" where
  "triage_loop C timeout fst_err [] s = (fst_err, s)"
| "triage_loop C timeout fst_err (n # ns) s =
     (case apply_need C timeout n s of
        (Some e, s') \<Rightarrow>
          triage_loop C timeout
            (case fst_err of
               None \<Rightarrow> Some (need_kind_text (na_kind (DecideStaleNeed (sd_role n))) @ '' '' @ sd_id n @ '': '' @ e)
             | Some f \<Rightarrow> Some f) ns s'
      | (None, s') \<Rightarrow> triage_loop C timeout fst_err ns s')"

definition Triage :: "'s needs_cards \<Rightarrow> duration \<Rightarrow> time \<Rightarrow> 's \<Rightarrow> string option \<times> 's" where
  "Triage C timeout now s =
     (case nc_stale C (now - timeout) s of
        (Inl e, s') \<Rightarrow> (Some (''list stale needs: '' @ e), s')
      | (Inr stale, s') \<Rightarrow> triage_loop C timeout None stale s')"

definition NeedsTimeoutFromConstitution :: "lib \<Rightarrow> (string \<Rightarrow> bool) \<Rightarrow> (string \<Rightarrow> constitution option) \<Rightarrow> string \<Rightarrow> constitution_error + duration" where
  "NeedsTimeoutFromConstitution L url decode bytes =
     (case Parse L url decode bytes of Inl e \<Rightarrow> Inl e | Inr c \<Rightarrow> Inr (NeedsTimeoutOrDefault (cn_cards c)))"

subsection \<open>The \<open>bd\<close> tracker\<close>

definition LabelLine :: string where "LabelLine = ''line''"

record shown_card =
  sh_assignee :: string
  sh_revision :: string
  sh_labels :: "string list"

record 's bd_tool =
  bt_run :: "string list \<Rightarrow> 's \<Rightarrow> (string \<times> string + string) \<times> 's"  \<comment> \<open>the run error with stderr, or stdout\<close>
  bt_updated :: "string \<Rightarrow> string + (string \<times> time) list"
  bt_ids :: "string \<Rightarrow> string + string list"
  bt_shown :: "string \<Rightarrow> string + shown_card list"
  bt_comments :: "string \<Rightarrow> string + string list"
  bt_flow :: "string \<Rightarrow> string + flow_card list"
  bt_beads :: "string \<Rightarrow> string + (string \<times> string list) list"

definition bd :: "'s bd_tool \<Rightarrow> string list \<Rightarrow> 's \<Rightarrow> (string + string) \<times> 's" where
  "bd B args s =
     (case bt_run B args s of
        (Inl (err, stderr), s') \<Rightarrow> (Inl (''bd '' @ hd args @ '': '' @ err @ '': '' @ trim_space stderr), s')
      | (Inr out, s') \<Rightarrow> (Inr out, s'))"

fun stale_loop :: "'s bd_tool \<Rightarrow> time \<Rightarrow> stale_need list \<Rightarrow> string list \<Rightarrow> 's \<Rightarrow> (string + stale_need list) \<times> 's" where
  "stale_loop B cutoff acc [] s = (Inr acc, s)"
| "stale_loop B cutoff acc (role # roles) s =
     call (bd B [''list'', ''--label'', LabelNeedsPrefix @ role, ''--limit'', ''0'', ''--json''] s) (\<lambda>out s'.
       case bt_updated B out of
         Inl e \<Rightarrow> (Inl (''bd list needs:'' @ role @ '': parse output: '' @ e), s')
       | Inr rows \<Rightarrow>
           stale_loop B cutoff (acc @ map (\<lambda>r. \<lparr>sd_id = fst r, sd_role = role\<rparr>) (filter (\<lambda>r. snd r < cutoff) rows)) roles s')"

definition beads_stale :: "'s bd_tool \<Rightarrow> time \<Rightarrow> 's \<Rightarrow> (string + stale_need list) \<times> 's" where
  "beads_stale B cutoff s = stale_loop B cutoff [] (''king'' # Roles) s"

definition relabel :: "'s bd_tool \<Rightarrow> string \<Rightarrow> string \<Rightarrow> string \<Rightarrow> string \<Rightarrow> 's \<Rightarrow> string option \<times> 's" where
  "relabel B cid new_label old_label note s =
     call_err (bd B [''label'', ''add'', cid, new_label] s) (\<lambda>s.
     call_err (bd B [''label'', ''remove'', cid, old_label] s) (\<lambda>s.
     call_err (bd B [''comments'', ''add'', ''--'', cid, note] s) (\<lambda>s. (None, s))))"

definition beads_move :: "'s bd_tool \<Rightarrow> string \<Rightarrow> string \<Rightarrow> string \<Rightarrow> string \<Rightarrow> 's \<Rightarrow> string option \<times> 's" where
  "beads_move B cid from_role to_role note s =
     relabel B cid (LabelNeedsPrefix @ to_role) (LabelNeedsPrefix @ from_role) note s"

definition beads_park :: "'s bd_tool \<Rightarrow> string \<Rightarrow> string \<Rightarrow> string \<Rightarrow> 's \<Rightarrow> string option \<times> 's" where
  "beads_park B cid from_role note s = relabel B cid LabelGaveUp (LabelNeedsPrefix @ from_role) note s"

definition BeadsNeeds :: "'s bd_tool \<Rightarrow> 's needs_cards" where
  "BeadsNeeds B = \<lparr>nc_stale = beads_stale B, nc_move = beads_move B, nc_park = beads_park B\<rparr>"

subsection \<open>Abandoned claims\<close>

definition MaxReaps :: int where "MaxReaps = 3"
definition ReapCommentPrefix :: string where "ReapCommentPrefix = ''heijunka: reaped''"

record claimed_card =
  cc_id :: string
  cc_assignee :: string
  cc_revision :: string
  cc_labels :: "string list"
  cc_reaps :: int

datatype release_result = Released | ErrCardMoved | Release_Failed string

record 's reap_cards =
  rc_claimed :: "'s \<Rightarrow> (string + claimed_card list) \<times> 's"
  rc_release :: "claimed_card \<Rightarrow> string \<Rightarrow> 's \<Rightarrow> release_result \<times> 's"
  rc_escalate :: "claimed_card \<Rightarrow> string \<Rightarrow> 's \<Rightarrow> string option \<times> 's"
  rc_record :: "string \<Rightarrow> string \<Rightarrow> 's \<Rightarrow> 's"   \<comment> \<open>\<open>Events.RecordReap\<close>; the identity when \<open>Events\<close> is nil or it fails\<close>

definition state_text :: "station_state \<Rightarrow> string" where
  "state_text st = (case st of StateIdle \<Rightarrow> ''idle'' | StateWorking \<Rightarrow> ''working'' | StateUnseen \<Rightarrow> ''unseen'' | StateOther t \<Rightarrow> t)"

definition AbandonedReason :: "claimed_card \<Rightarrow> station_status list \<Rightarrow> string" where
  "AbandonedReason c sts =
     (case find_first (\<lambda>s. ss_name s = cc_assignee c) sts of
        None \<Rightarrow> ''station '' @ cc_assignee c @ '' no longer exists''
      | Some s \<Rightarrow>
          (case ss_last_seen s of
             None \<Rightarrow> []
           | Some seen \<Rightarrow>
               (if \<not> ss_alive s then ''station '' @ ss_name s @ '' silent since '' @ format_utc seen @ '' (last seen)''
                else if ss_state s \<noteq> StateWorking \<or> ss_card s \<noteq> cc_id c
                then ''station '' @ ss_name s @ '' is '' @ state_text (ss_state s) @ '' on card '' @ go_quote (ss_card s) @ '', not this one''
                else [])))"

definition reap_note :: "claimed_card \<Rightarrow> string \<Rightarrow> string" where
  "reap_note c reason =
     (if cc_reaps c \<ge> MaxReaps
      then ReapCommentPrefix @ '': '' @ reason @ ''; already reaped '' @ show_int (cc_reaps c) @ '' times, so not released again''
      else ReapCommentPrefix @ '' (reap '' @ show_int (cc_reaps c + 1) @ '' of '' @ show_int MaxReaps @ ''): '' @ reason)"

definition reap_skips :: "station_status list \<Rightarrow> claimed_card \<Rightarrow> bool" where
  "reap_skips sts c \<longleftrightarrow> AbandonedReason c sts = [] \<or> LabelNeedsPrefix @ ''viceroy'' \<in> set (cc_labels c)"

definition reap_card :: "'s reap_cards \<Rightarrow> station_status list \<Rightarrow> claimed_card \<Rightarrow> 's \<Rightarrow> string list \<times> 's" where
  "reap_card C sts c s =
     (let note = reap_note c (AbandonedReason c sts);
          (res, s') = (if cc_reaps c \<ge> MaxReaps
             then (case rc_escalate C c note s of (None, s1) \<Rightarrow> (Released, s1) | (Some e, s1) \<Rightarrow> (Release_Failed e, s1))
             else rc_release C c note s)
      in case res of
           ErrCardMoved \<Rightarrow> ([], s')
         | Release_Failed e \<Rightarrow> ([''reap '' @ cc_id c @ '': '' @ e], s')
         | Released \<Rightarrow> ([], rc_record C (cc_id c) note s'))"

fun reap_loop :: "'s reap_cards \<Rightarrow> station_status list \<Rightarrow> claimed_card list \<Rightarrow> 's \<Rightarrow> string list \<times> 's" where
  "reap_loop C sts [] s = ([], s)"
| "reap_loop C sts (c # cs) s =
     (if reap_skips sts c then reap_loop C sts cs s
      else case reap_card C sts c s of (es, s1) \<Rightarrow>
           case reap_loop C sts cs s1 of (es2, s2) \<Rightarrow> (es @ es2, s2))"

definition Reap :: "'s reap_cards \<Rightarrow> station_status list \<Rightarrow> 's \<Rightarrow> string list \<times> 's" where
  "Reap C sts s =
     (case rc_claimed C s of
        (Inl e, s') \<Rightarrow> ([''list claimed cards: '' @ e], s')
      | (Inr claimed, s') \<Rightarrow> reap_loop C sts claimed s')"

definition beads_read :: "'s bd_tool \<Rightarrow> string \<Rightarrow> 's \<Rightarrow> (string + claimed_card) \<times> 's" where
  "beads_read B cid s =
     call (bd B [''show'', cid, ''--json''] s) (\<lambda>out s.
       case bt_shown B out of
         Inl e \<Rightarrow> (Inl (''bd show '' @ cid @ '': unexpected output ('' @ e @ '')''), s)
       | Inr shown \<Rightarrow>
           (if length shown \<noteq> 1 then (Inl (''bd show '' @ cid @ '': unexpected output (<nil>)''), s)
            else call (bd B [''comments'', cid, ''--json''] s) (\<lambda>out s.
              case bt_comments B out of
                Inl e \<Rightarrow> (Inl (''bd comments '' @ cid @ '': parse output: '' @ e), s)
              | Inr comments \<Rightarrow>
                  (let c = hd shown in
                   (Inr \<lparr>cc_id = cid, cc_assignee = sh_assignee c, cc_revision = sh_revision c, cc_labels = sh_labels c,
                         cc_reaps = int (length (filter (\<lambda>t. has_prefix t ReapCommentPrefix) comments))\<rparr>, s)))))"

fun beads_read_all :: "'s bd_tool \<Rightarrow> claimed_card list \<Rightarrow> string list \<Rightarrow> 's \<Rightarrow> (string + claimed_card list) \<times> 's" where
  "beads_read_all B acc [] s = (Inr acc, s)"
| "beads_read_all B acc (cid # cids) s = call (beads_read B cid s) (\<lambda>c s. beads_read_all B (acc @ [c]) cids s)"

definition beads_claimed :: "'s bd_tool \<Rightarrow> 's \<Rightarrow> (string + claimed_card list) \<times> 's" where
  "beads_claimed B s =
     call (bd B [''list'', ''--label'', LabelLine, ''--status'', ''in_progress'', ''--limit'', ''0'', ''--json''] s) (\<lambda>out s.
       case bt_ids B out of
         Inl e \<Rightarrow> (Inl (''bd list in_progress: parse output: '' @ e), s)
       | Inr ids \<Rightarrow> beads_read_all B [] ids s)"

definition beads_release :: "'s bd_tool \<Rightarrow> claimed_card \<Rightarrow> string \<Rightarrow> 's \<Rightarrow> release_result \<times> 's" where
  "beads_release B c note s =
     (case beads_read B (cc_id c) s of
        (Inl e, s') \<Rightarrow> (Release_Failed e, s')
      | (Inr cur, s') \<Rightarrow>
          (if cc_revision cur \<noteq> cc_revision c \<or> cc_assignee cur \<noteq> cc_assignee c then (ErrCardMoved, s')
           else case bd B [''unclaim'', cc_id c, ''--reason'', note, ''--actor'', cc_assignee c] s' of
                  (Inl e, s'') \<Rightarrow> (Release_Failed e, s'')
                | (Inr out, s'') \<Rightarrow> (Released, s'')))"

definition beads_escalate :: "'s bd_tool \<Rightarrow> claimed_card \<Rightarrow> string \<Rightarrow> 's \<Rightarrow> string option \<times> 's" where
  "beads_escalate B c note s =
     call_err (bd B [''label'', ''add'', cc_id c, LabelNeedsPrefix @ ''viceroy''] s) (\<lambda>s.
     call_err (bd B [''comments'', ''add'', ''--'', cc_id c, note] s) (\<lambda>s. (None, s)))"

definition BeadsReap :: "'s bd_tool \<Rightarrow> (string \<Rightarrow> string \<Rightarrow> 's \<Rightarrow> 's) \<Rightarrow> 's reap_cards" where
  "BeadsReap B record_reap =
     \<lparr>rc_claimed = beads_claimed B, rc_release = beads_release B, rc_escalate = beads_escalate B, rc_record = record_reap\<rparr>"

subsection \<open>Observing the line\<close>

record line_status =
  ls_master :: string
  ls_event :: string
  ls_stations :: "station_status list"
  ls_kaizen_request :: "kaizen_request option"

definition flowClosedWindow :: duration where "flowClosedWindow = 7 * 24 * hour"

definition Ready :: "'s bd_tool \<Rightarrow> string \<Rightarrow> time \<Rightarrow> 's \<Rightarrow> (string + (string \<times> string list) list) \<times> 's" where
  "Ready B label now s =
     call (bd B [''ready'', ''--label'', label, ''--exclude-label'', LabelGaveUp, ''--limit'', ''0'', ''--json''] s) (\<lambda>out s.
       case bt_beads B out of
         Inl e \<Rightarrow> (Inl (''parse ready cards: '' @ e), s)
       | Inr beads \<Rightarrow> (Inr (filter (\<lambda>b. \<not> IsDeferred (snd b) now) beads), s))"

definition listCards :: "'s bd_tool \<Rightarrow> string \<Rightarrow> string \<Rightarrow> 's \<Rightarrow> (string + flow_card list) \<times> 's" where
  "listCards B label status s =
     (case bt_run B [''list'', ''--label'', label, ''--status'', status, ''--limit'', ''0'', ''--json''] s of
        (Inl (err, stderr), s') \<Rightarrow> (Inl (''bd list --status '' @ status @ '': '' @ err), s')
      | (Inr out, s') \<Rightarrow>
          (case bt_flow B out of Inl e \<Rightarrow> (Inl (''bd list: parse output: '' @ e), s') | Inr cards \<Rightarrow> (Inr cards, s')))"

definition flow_cards :: "time \<Rightarrow> string set \<Rightarrow> flow_card list \<Rightarrow> flow_card list \<Rightarrow> flow_card list \<Rightarrow> flow_card list" where
  "flow_cards now ready_ids in_progress opened closed =
     in_progress
     @ filter (\<lambda>c. fc_id c \<in> ready_ids \<or> list_ex (\<lambda>l. has_prefix l LabelNeedsPrefix) (fc_labels c)) opened
     @ filter (\<lambda>c. time_sub now (fc_closed c) \<le> flowClosedWindow) closed"

definition observed_snap :: "time \<Rightarrow> line_status \<Rightarrow> (string \<times> string list) list \<Rightarrow> flow_card list \<Rightarrow> flow_card list \<Rightarrow> flow_card list \<Rightarrow> levels \<Rightarrow> snap" where
  "observed_snap now st ready in_progress opened closed published =
     (let kz = find_first (\<lambda>s. ss_role s = ''kaizen'') (ls_stations st) in
      \<lparr>sp_ready = int (length ready), sp_in_progress = int (length in_progress), sp_stopped = (ls_event st \<noteq> []),
       sp_makers_alive = int (MakersAlive (ls_stations st)), sp_current = published, sp_now = now, sp_master = ls_master st,
       sp_kaizen_idle = (case kz of None \<Rightarrow> False | Some k \<Rightarrow> ss_alive k \<and> ss_state k = StateIdle),
       sp_kaizen_last_run = (case kz of None \<Rightarrow> 0 | Some k \<Rightarrow> (case ss_last_run k of None \<Rightarrow> 0 | Some t \<Rightarrow> t)),
       sp_kaizen_request = ls_kaizen_request st,
       sp_flow = AnalyzeFlow (flow_cards now (set (map fst ready)) in_progress opened closed) now\<rparr>)"

text \<open>\<open>StatusAPI\<close> and \<open>LevelsAPI\<close>: the station client's calls.\<close>

record 's line_api =
  la_status :: "'s \<Rightarrow> string + line_status"
  la_levels :: "'s \<Rightarrow> string + levels"
  la_publish :: "levels \<Rightarrow> 's \<Rightarrow> string option \<times> 's"

definition Observe :: "'s line_api \<Rightarrow> 's bd_tool \<Rightarrow> string \<Rightarrow> time \<Rightarrow> 's \<Rightarrow> (string + snap) \<times> 's" where
  "Observe A B label now s =
     (case la_status A s of
        Inl e \<Rightarrow> (Inl (''status: '' @ e), s)
      | Inr st \<Rightarrow>
          call (Ready B label now s) (\<lambda>ready s.
          call (listCards B label ''in_progress'' s) (\<lambda>in_progress s.
          call (listCards B label ''open'' s) (\<lambda>opened s.
          call (listCards B label ''closed'' s) (\<lambda>closed s.
            case la_levels A s of
              Inl e \<Rightarrow> (Inl e, s)
            | Inr published \<Rightarrow> (Inr (observed_snap now st ready in_progress opened closed published), s))))))"

subsection \<open>One wake of the worker\<close>

record 's worker =
  hw_observe :: "time \<Rightarrow> 's \<Rightarrow> (string + snap) \<times> 's"
  hw_apply :: "levels \<Rightarrow> 's \<Rightarrow> string option \<times> 's"
  hw_policy :: policy
  hw_needs :: "('s needs_cards \<times> duration) option"
  hw_reaper :: "'s reap_cards option"
  hw_status :: "'s \<Rightarrow> string + line_status"
  hw_kaizen :: "('s \<Rightarrow> string option \<times> 's) option"

definition levels_text :: "levels \<Rightarrow> string" where
  "levels_text l = ''{Agents:'' @ show_int (lv_agents l) @ '' WIPLimit:'' @ show_int (lv_wip_limit l) @ ''}''"

definition worker_reap :: "'s worker \<Rightarrow> 's reap_cards \<Rightarrow> 's \<Rightarrow> string list \<times> 's" where
  "worker_reap w C s = (case hw_status w s of Inl e \<Rightarrow> ([''status: '' @ e], s) | Inr st \<Rightarrow> Reap C (ls_stations st) s)"

definition step_chores :: "'s worker \<Rightarrow> time \<Rightarrow> 's \<Rightarrow> 's" where
  "step_chores w now s =
     (let s1 = (case hw_needs w of None \<Rightarrow> s | Some (C, timeout) \<Rightarrow> snd (Triage C timeout now s))
      in case hw_reaper w of None \<Rightarrow> s1 | Some C \<Rightarrow> snd (worker_reap w C s1))"

definition step_kaizen :: "'s worker \<Rightarrow> snap \<Rightarrow> 's \<Rightarrow> 's" where
  "step_kaizen w sn s =
     (case hw_kaizen w of None \<Rightarrow> s | Some request \<Rightarrow> (if ShouldRequestKaizen sn (hw_policy w) then snd (request s) else s))"

definition Step :: "'s worker \<Rightarrow> time \<Rightarrow> 's \<Rightarrow> (levels \<times> string option) \<times> 's" where
  "Step w now s =
     (case hw_observe w now (step_chores w now s) of
        (Inl e, s2) \<Rightarrow> ((\<lparr>lv_agents = 0, lv_wip_limit = 0\<rparr>, Some (''observe: '' @ e)), s2)
      | (Inr sn, s2) \<Rightarrow>
          (let s3 = step_kaizen w sn s2; want = Decide sn (hw_policy w) in
           if want = sp_current sn then ((want, None), s3)
           else case hw_apply w want s3 of
                  (Some e, s4) \<Rightarrow> ((sp_current sn, Some (''apply '' @ levels_text want @ '': '' @ e)), s4)
                | (None, s4) \<Rightarrow> ((want, None), s4)))"

definition LevelsPublisher :: "'s line_api \<Rightarrow> levels \<Rightarrow> 's \<Rightarrow> string option \<times> 's" where
  "LevelsPublisher A l s = la_publish A l s"

end
