(* ===== verification/Station_Kaizen.thy ===== *)
theory Station_Kaizen
  imports Heijunka_Worker
begin

text \<open>
  The station routes that join heijunka and kaizen: \<open>kaizen_request.go\<close> (the one pending request and its
  answer, the analysis reports), \<open>heijunka_levels.go\<close> and \<open>heijunka_state.go\<close>. A route answers a fault with
  its HTTP status, or a value; the request record is the state it returns. The object store and the card
  lister are arguments.
\<close>

datatype route_fault = Http nat string | Internal guard_error | Store_Failed string

definition heijunkaRole :: string where "heijunkaRole = ''heijunka''"
definition kaizenRole :: string where "kaizenRole = ''kaizen''"

definition kaizen_state_text :: "kaizen_request_state \<Rightarrow> string" where
  "kaizen_state_text st =
     (case st of KaizenRequestPending \<Rightarrow> ''pending'' | KaizenRequestStarted \<Rightarrow> ''started''
               | KaizenRequestDeclined \<Rightarrow> ''declined'' | KaizenRequestOther t \<Rightarrow> t)"

record kaizen_answer =
  ka_state :: kaizen_request_state
  ka_reason :: string

record kaizen_analysis =
  kn_run :: string
  kn_markdown :: string

subsection \<open>Requests and answers\<close>

definition requestKaizen :: "ext \<Rightarrow> guard \<Rightarrow> repo \<Rightarrow> time \<Rightarrow> kaizen_request option \<Rightarrow> (route_fault + kaizen_request) \<times> kaizen_request option" where
  "requestKaizen X g r now kr =
     (case repo_Ref (x_git X) r (g_ref g) of
        Inl e \<Rightarrow> (Inl (Internal (GE_Git e)), kr)
      | Inr master \<Rightarrow>
          (case Stopped X r of
             Fail e \<Rightarrow> (Inl (Internal e), kr)
           | Answer a \<Rightarrow> (Inl (Http 409 ''the andon cord is pulled''), kr)
           | Go (sid, ev) \<Rightarrow>
               (if sid \<noteq> [] then (Inl (Http 409 (''the andon cord is pulled ('' @ sid @ '')'')), kr)
                else case kr of
                       Some q \<Rightarrow>
                         (if kr_state q = KaizenRequestPending then (Inl (Http 409 ''a kaizen request is already pending''), kr)
                          else let req = \<lparr>kr_state = KaizenRequestPending, kr_master = master, kr_requested_at = now, kr_reason = []\<rparr>
                               in (Inr req, Some req))
                     | None \<Rightarrow>
                         (let req = \<lparr>kr_state = KaizenRequestPending, kr_master = master, kr_requested_at = now, kr_reason = []\<rparr>
                          in (Inr req, Some req)))))"

definition answerKaizen :: "kaizen_answer \<Rightarrow> kaizen_request option \<Rightarrow> (route_fault + kaizen_request) \<times> kaizen_request option" where
  "answerKaizen a kr =
     (if ka_state a \<noteq> KaizenRequestStarted \<and> ka_state a \<noteq> KaizenRequestDeclined
      then (Inl (Http 400 (''state '' @ go_quote (kaizen_state_text (ka_state a)) @ '' is not started or declined'')), kr)
      else if (ka_state a = KaizenRequestDeclined) \<noteq> (ka_reason a \<noteq> [])
      then (Inl (Http 400 ''a reason goes with state declined and only with it''), kr)
      else case kr of
             None \<Rightarrow> (Inl (Http 409 ''no kaizen request is pending''), kr)
           | Some q \<Rightarrow>
               (if kr_state q \<noteq> KaizenRequestPending then (Inl (Http 409 ''no kaizen request is pending''), kr)
                else let q' = q\<lparr>kr_state := ka_state a, kr_reason := ka_reason a\<rparr> in (Inr q', Some q')))"

subsection \<open>Analyses\<close>

definition is_alnum :: "char \<Rightarrow> bool" where
  "is_alnum c \<longleftrightarrow> is_lower c \<or> is_upper c \<or> is_digit c"

definition run_char :: "char \<Rightarrow> bool" where
  "run_char c \<longleftrightarrow> is_alnum c \<or> c \<in> set ''._-''"

definition kaizenRunID :: "string \<Rightarrow> bool" where
  "kaizenRunID s = (case s of [] \<Rightarrow> False | c # cs \<Rightarrow> is_alnum c \<and> list_all run_char cs)"

definition KaizenAnalysisKey :: "string \<Rightarrow> string" where
  "KaizenAnalysisKey run = ''kaizen/'' @ run @ ''/analysis.md''"

text \<open>The object store's \<open>Put\<close>: key, content type and body to an error or the new store.\<close>

type_synonym 'o putter = "string \<Rightarrow> string \<Rightarrow> string \<Rightarrow> 'o \<Rightarrow> string option \<times> 'o"

definition publishKaizenAnalysis :: "'o putter option \<Rightarrow> kaizen_analysis \<Rightarrow> 'o \<Rightarrow> (route_fault + string) \<times> 'o" where
  "publishKaizenAnalysis reports a os =
     (case reports of
        None \<Rightarrow> (Inl (Http 503 ''no object store configured''), os)
      | Some put \<Rightarrow>
          (if \<not> kaizenRunID (kn_run a) then (Inl (Http 400 (''run '' @ go_quote (kn_run a) @ '' is not a valid run ID'')), os)
           else if kn_markdown a = [] then (Inl (Http 400 ''markdown is empty''), os)
           else case put (KaizenAnalysisKey (kn_run a)) ''text/markdown; charset=utf-8'' (kn_markdown a) os of
                  (Some e, os') \<Rightarrow> (Inl (Store_Failed e), os')
                | (None, os') \<Rightarrow> (Inr (KaizenAnalysisKey (kn_run a)), os')))"

subsection \<open>Dispatch\<close>

datatype kaizen_handler =
    Previous_Signals | List_Mutation | Record_Mutation | Request_Run | Answer_Run | Publish_Analysis | Publish_Signals

definition kaizen_gate :: "string \<Rightarrow> string \<Rightarrow> string \<Rightarrow> kaizen_handler \<Rightarrow> route_fault + kaizen_handler" where
  "kaizen_gate role wanted what h =
     (if role \<noteq> wanted then Inl (Http 403 (''role '' @ go_quote role @ '' may not '' @ what)) else Inr h)"

definition routeKaizen :: "string \<Rightarrow> string \<Rightarrow> string \<Rightarrow> route_fault + kaizen_handler" where
  "routeKaizen path method role =
     (if path = ''/v1/kaizen/signals/previous'' then
        (case kaizen_gate role kaizenRole ''read kaizen signals'' Previous_Signals of
           Inl e \<Rightarrow> Inl e
         | Inr h \<Rightarrow> (if method \<noteq> ''GET'' then Inl (Http 405 (''use GET for '' @ path)) else Inr h))
      else if path = ''/v1/kaizen/mutation'' \<and> method = ''GET'' then kaizen_gate role kaizenRole ''read kaizen mutation runs'' List_Mutation
      else if method \<noteq> ''POST'' then Inl (Http 405 (''use POST for '' @ path))
      else if path = ''/v1/kaizen/mutation'' then kaizen_gate role kaizenRole ''record kaizen mutation runs'' Record_Mutation
      else if path = ''/v1/kaizen/request'' then kaizen_gate role heijunkaRole ''request a kaizen run'' Request_Run
      else if path = ''/v1/kaizen/answer'' then kaizen_gate role kaizenRole ''answer a kaizen request'' Answer_Run
      else if path = ''/v1/kaizen/analysis'' then kaizen_gate role kaizenRole ''publish a kaizen analysis'' Publish_Analysis
      else if path = ''/v1/kaizen/signals'' then kaizen_gate role kaizenRole ''publish kaizen signals'' Publish_Signals
      else Inl (Http 404 (''no route '' @ path)))"

subsection \<open>Published levels\<close>

text \<open>The database's one row of levels is an option; the database itself may be absent.\<close>

definition store_Levels :: "levels option \<Rightarrow> levels" where
  "store_Levels row = (case row of None \<Rightarrow> \<lparr>lv_agents = 0, lv_wip_limit = 0\<rparr> | Some l \<Rightarrow> l)"

definition SetLevels :: "levels \<Rightarrow> levels option \<Rightarrow> levels option" where
  "SetLevels l row = Some l"

definition routeHeijunkaLevels :: "string \<Rightarrow> string \<Rightarrow> string \<Rightarrow> levels \<Rightarrow> levels option option \<Rightarrow> (route_fault + levels) \<times> levels option option" where
  "routeHeijunkaLevels path method role body db =
     (case db of
        None \<Rightarrow> (Inl (Http 503 ''no line database''), db)
      | Some row \<Rightarrow>
          (if method = ''GET'' then (Inr (store_Levels row), db)
           else if method = ''POST'' then
             (if role \<noteq> heijunkaRole then (Inl (Http 403 (''role '' @ go_quote role @ '' may not publish heijunka levels'')), db)
              else if lv_agents body < 0 \<or> lv_wip_limit body < 0 then (Inl (Http 400 ''levels must not be negative''), db)
              else (Inr body, Some (SetLevels body row)))
           else (Inl (Http 405 (''use GET or POST for '' @ path)), db)))"

subsection \<open>Why makers idle\<close>

record heijunka_state =
  hs_levels :: levels
  hs_in_progress :: int
  hs_offered :: "string list"
  hs_unlabelled :: "string list"
  hs_idle :: "(string \<times> string) list"

definition idleReason :: "heijunka_state \<Rightarrow> string" where
  "idleReason hs =
     (if lv_wip_limit (hs_levels hs) > 0 \<and> hs_in_progress hs \<ge> lv_wip_limit (hs_levels hs)
      then ''WIP cap reached: '' @ show_int (hs_in_progress hs) @ '' in progress, limit '' @ show_int (lv_wip_limit (hs_levels hs))
      else if hs_offered hs \<noteq> [] then show_nat (length (hs_offered hs)) @ '' offered cards wait; the maker has not pulled one''
      else if hs_unlabelled hs \<noteq> [] then ''label mismatch: '' @ show_nat (length (hs_unlabelled hs)) @ '' ready cards lack label '' @ LabelLine
      else ''no offerable cards'')"

text \<open>\<open>ready\<close> and \<open>held\<close> are the decoded answers of the two card lists, with their labels.\<close>

definition heijunkaState :: "levels option \<Rightarrow> string + (string \<times> string list) list \<Rightarrow> string + (string \<times> string list) list \<Rightarrow> station list \<Rightarrow> time \<Rightarrow> liveness \<Rightarrow> route_fault + heijunka_state" where
  "heijunkaState row ready held stations now live =
     (case ready of
        Inl e \<Rightarrow> Inl (Store_Failed (''list ready cards: '' @ e))
      | Inr rows \<Rightarrow>
          (case held of
             Inl e \<Rightarrow> Inl (Store_Failed (''list in-progress cards: '' @ e))
           | Inr hrows \<Rightarrow>
               (let hs = \<lparr>hs_levels = store_Levels row, hs_in_progress = int (length hrows),
                          hs_offered = map fst (filter (\<lambda>r. LabelLine \<in> set (snd r)) rows),
                          hs_unlabelled = map fst (filter (\<lambda>r. LabelLine \<notin> set (snd r)) rows), hs_idle = []\<rparr>
                in Inr (hs\<lparr>hs_idle := map (\<lambda>st. (ss_name st, idleReason hs))
                      (filter (\<lambda>st. ss_role st = ''maker'' \<and> ss_alive st \<and> ss_state st = StateIdle) (snapshot stations now live))\<rparr>))))"

subsection \<open>Requests are not repeated\<close>

text \<open>A snapshot that shows what the station holds: the cord, the branch and the latest request.\<close>

definition shows_line :: "ext \<Rightarrow> guard \<Rightarrow> repo \<Rightarrow> kaizen_request option \<Rightarrow> snap \<Rightarrow> bool" where
  "shows_line X g r kr sn \<longleftrightarrow>
     repo_Ref (x_git X) r (g_ref g) = Inr (sp_master sn) \<and> sp_kaizen_request sn = kr
     \<and> (case Stopped X r of Go (sid, ev) \<Rightarrow> sp_stopped sn = (sid \<noteq> []) | _ \<Rightarrow> False)"

definition pending_on :: "string \<Rightarrow> time \<Rightarrow> kaizen_request" where
  "pending_on m now = \<lparr>kr_state = KaizenRequestPending, kr_master = m, kr_requested_at = now, kr_reason = []\<rparr>"

lemma should_request_accepted:
  assumes "shows_line X g r kr sn" "ShouldRequestKaizen sn p"
  shows "requestKaizen X g r now kr = (Inr (pending_on (sp_master sn) now), Some (pending_on (sp_master sn) now))"
  using assms
  by (auto simp: shows_line_def requestKaizen_def ShouldRequestKaizen_def pending_on_def Let_def
      split: stage.splits prod.splits if_splits option.splits)

lemma request_not_repeated:
  assumes "sp_kaizen_request sn = Some q" "kr_state q = KaizenRequestPending \<or> kr_master q = sp_master sn"
  shows "\<not> ShouldRequestKaizen sn p"
  using assms by (auto simp: ShouldRequestKaizen_def)

lemma answerKaizen_Inr:
  assumes "answerKaizen a kr = (Inr q', kr')"
  shows "\<exists>q. kr = Some q \<and> kr_state q = KaizenRequestPending \<and> kr' = Some q' \<and> kr_master q' = kr_master q
    \<and> kr_state q' = ka_state a \<and> ka_state a \<in> {KaizenRequestStarted, KaizenRequestDeclined} \<and> (ka_state a = KaizenRequestDeclined \<longleftrightarrow> ka_reason a \<noteq> [])"
  using assms by (auto simp: answerKaizen_def Let_def split: if_splits option.splits)

lemma answerKaizen_Inl: "answerKaizen a kr = (Inl e, kr') \<Longrightarrow> kr' = kr"
  by (auto simp: answerKaizen_def Let_def split: if_splits option.splits)

lemma answerKaizen_master: "kr = Some q \<Longrightarrow> \<exists>q'. snd (answerKaizen a kr) = Some q' \<and> kr_master q' = kr_master q"
  by (auto simp: answerKaizen_def Let_def)

text \<open>After a request on a master, whatever answers arrive, no snapshot on that master asks again.\<close>

lemma answers_keep_master:
  "\<exists>q'. foldl (\<lambda>kr a. snd (answerKaizen a kr)) (Some q) as = Some q' \<and> kr_master q' = kr_master q"
proof (induction as arbitrary: q)
  case (Cons a as)
  obtain q1 where "snd (answerKaizen a (Some q)) = Some q1" "kr_master q1 = kr_master q"
    using answerKaizen_master by blast
  then show ?case using Cons.IH [of q1] by simp
qed simp

lemma routeKaizen_roles:
  assumes "routeKaizen path method role = Inr h"
  shows "role = (if h = Request_Run then heijunkaRole else kaizenRole)"
  using assms by (auto simp: routeKaizen_def kaizen_gate_def split: if_splits sum.splits)

text \<open>An analysis is stored under a key of its own run: the run holds no separator, so two runs never share a key.\<close>

lemma run_char_no_slash: "run_char c \<Longrightarrow> c \<noteq> CHR ''/''"
  by (auto simp: run_char_def is_alnum_def char_class_defs)

lemma kaizenRunID_no_slash: "kaizenRunID s \<Longrightarrow> CHR ''/'' \<notin> set s"
  using run_char_no_slash by (auto simp: kaizenRunID_def run_char_def list_all_iff split: list.splits)

lemma KaizenAnalysisKey_inject: "KaizenAnalysisKey a = KaizenAnalysisKey b \<longleftrightarrow> a = b"
  by (simp add: KaizenAnalysisKey_def)

lemma publishKaizenAnalysis_key:
  assumes "publishKaizenAnalysis reports a os = (Inr k, os')"
  shows "k = KaizenAnalysisKey (kn_run a) \<and> CHR ''/'' \<notin> set (kn_run a)"
  using assms kaizenRunID_no_slash
  by (auto simp: publishKaizenAnalysis_def Let_def split: option.splits if_splits prod.splits)

text \<open>What heijunka publishes is what every station reads back.\<close>

lemma levels_published:
  assumes "routeHeijunkaLevels path ''POST'' role l db = (Inr l', db')"
  shows "l' = l \<and> 0 \<le> lv_agents l \<and> 0 \<le> lv_wip_limit l \<and> role = heijunkaRole \<and> routeHeijunkaLevels path2 ''GET'' role2 l2 db' = (Inr l, db')"
  using assms by (auto simp: routeHeijunkaLevels_def store_Levels_def SetLevels_def split: option.splits if_splits)

end
