(* ===== verification/Heijunka_Chores.thy ===== *)
theory Heijunka_Chores
  imports Heijunka_Worker
begin

text \<open>
  The two chores of a wake. A card that waits on a role nobody answers climbs to the king and is parked
  within three timeouts, whatever labels it carried. The reaper's calls are exactly those of a reference
  list over the claimed cards.
\<close>

subsection \<open>A tracker that does what \<open>bd\<close> documents\<close>

text \<open>
  \<open>bd label add\<close> and \<open>bd label remove\<close> change one label of one card, \<open>bd comments add\<close> none, and
  \<open>bd list --label\<close> lists the cards carrying the label with the time of their last update.
\<close>

definition needs_query :: "string \<Rightarrow> string list" where
  "needs_query role = [''list'', ''--label'', LabelNeedsPrefix @ role, ''--limit'', ''0'', ''--json'']"

definition lawful_bd :: "'s bd_tool \<Rightarrow> ('s \<Rightarrow> string \<Rightarrow> string set) \<Rightarrow> ('s \<Rightarrow> string \<Rightarrow> time) \<Rightarrow> bool" where
  "lawful_bd B labels updated \<longleftrightarrow>
     (\<forall>s cid l. \<exists>out s'. bt_run B [''label'', ''add'', cid, l] s = (Inr out, s') \<and> labels s' = (labels s)(cid := insert l (labels s cid)))
   \<and> (\<forall>s cid l. \<exists>out s'. bt_run B [''label'', ''remove'', cid, l] s = (Inr out, s') \<and> labels s' = (labels s)(cid := labels s cid - {l}))
   \<and> (\<forall>s cid note. \<exists>out s'. bt_run B [''comments'', ''add'', ''--'', cid, note] s = (Inr out, s') \<and> labels s' = labels s)
   \<and> (\<forall>s role. \<exists>out rows. bt_run B (needs_query role) s = (Inr out, s) \<and> bt_updated B out = Inr rows
        \<and> set rows = {(c, updated s c) | c. LabelNeedsPrefix @ role \<in> labels s c})"

definition need_roles :: "string list" where "need_roles = ''king'' # Roles"

text \<open>One action on the label table.\<close>

definition swapped :: "string \<Rightarrow> string \<Rightarrow> string \<Rightarrow> (string \<Rightarrow> string set) \<Rightarrow> string \<Rightarrow> string set" where
  "swapped cid new_label old_label L = L(cid := insert new_label (L cid) - {old_label})"

definition new_label_for :: "string \<Rightarrow> string" where
  "new_label_for role = (if na_kind (DecideStaleNeed role) = NeedPark then LabelGaveUp else LabelNeedsPrefix @ na_to (DecideStaleNeed role))"

definition need_effect :: "(string \<Rightarrow> string set) \<Rightarrow> stale_need \<Rightarrow> string \<Rightarrow> string set" where
  "need_effect L n = swapped (sd_id n) (new_label_for (sd_role n)) (LabelNeedsPrefix @ sd_role n) L"

lemma LabelGaveUp_neq [simp]: "LabelGaveUp \<noteq> LabelNeedsPrefix @ r" "LabelNeedsPrefix @ r \<noteq> LabelGaveUp"
  by (auto simp: LabelGaveUp_def LabelNeedsPrefix_def)

lemma new_label_other: "new_label_for role \<noteq> LabelNeedsPrefix @ role"
  by (auto simp: new_label_for_def DecideStaleNeed_def split: if_splits)

lemma relabel_lawful:
  assumes "lawful_bd B labels updated" "new_label \<noteq> old_label"
  shows "\<exists>s'. relabel B cid new_label old_label note s = (None, s') \<and> labels s' = swapped cid new_label old_label (labels s)"
proof -
  obtain o1 s1 where 1: "bt_run B [''label'', ''add'', cid, new_label] s = (Inr o1, s1)" "labels s1 = (labels s)(cid := insert new_label (labels s cid))"
    using assms(1) unfolding lawful_bd_def by metis
  obtain o2 s2 where 2: "bt_run B [''label'', ''remove'', cid, old_label] s1 = (Inr o2, s2)" "labels s2 = (labels s1)(cid := labels s1 cid - {old_label})"
    using assms(1) unfolding lawful_bd_def by metis
  obtain o3 s3 where 3: "bt_run B [''comments'', ''add'', ''--'', cid, note] s2 = (Inr o3, s3)" "labels s3 = labels s2"
    using assms(1) unfolding lawful_bd_def by metis
  show ?thesis using 1 2 3 by (simp add: relabel_def bd_def swapped_def)
qed

lemma apply_need_lawful:
  assumes "lawful_bd B labels updated"
  shows "\<exists>s'. apply_need (BeadsNeeds B) timeout n s = (None, s') \<and> labels s' = need_effect (labels s) n"
proof -
  let ?nl = "new_label_for (sd_role n)"
  have "apply_need (BeadsNeeds B) timeout n s = relabel B (sd_id n) ?nl (LabelNeedsPrefix @ sd_role n) (need_note timeout n) s"
    by (simp add: apply_need_def BeadsNeeds_def beads_park_def beads_move_def new_label_for_def Let_def)
  then show ?thesis
    using relabel_lawful [OF assms new_label_other] by (simp add: need_effect_def)
qed

lemma triage_loop_lawful:
  assumes "lawful_bd B labels updated"
  shows "\<exists>s'. triage_loop (BeadsNeeds B) timeout None ns s = (None, s') \<and> labels s' = foldl need_effect (labels s) ns"
proof (induction ns arbitrary: s)
  case (Cons n ns)
  obtain s1 where "apply_need (BeadsNeeds B) timeout n s = (None, s1)" "labels s1 = need_effect (labels s) n"
    using apply_need_lawful [OF assms] by blast
  then show ?case using Cons.IH [of s1] by simp
qed simp

text \<open>The needs on the table, and those of them not touched since \<open>cutoff\<close>.\<close>

definition needs_on :: "(string \<Rightarrow> string set) \<Rightarrow> (string \<times> string) set" where
  "needs_on L = {(c, r). r \<in> set need_roles \<and> LabelNeedsPrefix @ r \<in> L c}"

definition need_pair :: "stale_need \<Rightarrow> string \<times> string" where
  "need_pair n = (sd_id n, sd_role n)"

lemma stale_loop_lawful:
  assumes "lawful_bd B labels updated"
  shows "\<exists>ns. stale_loop B cutoff acc roles s = (Inr (acc @ ns), s)
    \<and> need_pair ` set ns = {(c, r). r \<in> set roles \<and> LabelNeedsPrefix @ r \<in> labels s c \<and> updated s c < cutoff}"
proof (induction roles arbitrary: acc)
  case (Cons role roles)
  obtain out rows where q: "bt_run B (needs_query role) s = (Inr out, s)" "bt_updated B out = Inr rows"
      and rows: "set rows = {(c, updated s c) | c. LabelNeedsPrefix @ role \<in> labels s c}"
    using assms unfolding lawful_bd_def by metis
  let ?new = "map (\<lambda>r. \<lparr>sd_id = fst r, sd_role = role\<rparr>) (filter (\<lambda>r. snd r < cutoff) rows)"
  obtain ns where ns: "stale_loop B cutoff (acc @ ?new) roles s = (Inr ((acc @ ?new) @ ns), s)"
      "need_pair ` set ns = {(c, r). r \<in> set roles \<and> LabelNeedsPrefix @ r \<in> labels s c \<and> updated s c < cutoff}"
    using Cons.IH [of "acc @ ?new"] by blast
  have new: "need_pair ` set ?new = {(c, r). r = role \<and> LabelNeedsPrefix @ r \<in> labels s c \<and> updated s c < cutoff}"
    by (force simp: need_pair_def rows)
  have "stale_loop B cutoff acc (role # roles) s = (Inr (acc @ (?new @ ns)), s)"
    using q ns(1) by (simp add: bd_def needs_query_def)
  moreover have "need_pair ` set (?new @ ns) = {(c, r). r \<in> set (role # roles) \<and> LabelNeedsPrefix @ r \<in> labels s c \<and> updated s c < cutoff}"
    unfolding set_append image_Un new ns(2) by auto
  ultimately show ?case by blast
qed simp

lemma Triage_lawful:
  assumes "lawful_bd B labels updated"
  shows "\<exists>ns s'. Triage (BeadsNeeds B) timeout now s = (None, s') \<and> labels s' = foldl need_effect (labels s) ns
    \<and> need_pair ` set ns = {(c, r) \<in> needs_on (labels s). updated s c < now - timeout}"
proof -
  obtain ns where ns: "stale_loop B (now - timeout) [] need_roles s = (Inr ns, s)"
      "need_pair ` set ns = {(c, r). r \<in> set need_roles \<and> LabelNeedsPrefix @ r \<in> labels s c \<and> updated s c < now - timeout}"
    using stale_loop_lawful [OF assms, of "now - timeout" "[]" need_roles s] by auto
  obtain s' where s': "triage_loop (BeadsNeeds B) timeout None ns s = (None, s')" "labels s' = foldl need_effect (labels s) ns"
    using triage_loop_lawful [OF assms] by blast
  have "Triage (BeadsNeeds B) timeout now s = (None, s')"
    using ns(1) s'(1) by (simp add: Triage_def BeadsNeeds_def beads_stale_def need_roles_def)
  moreover have "need_pair ` set ns = {(c, r) \<in> needs_on (labels s). updated s c < now - timeout}"
    unfolding ns(2) needs_on_def by auto
  ultimately show ?thesis using s'(2) by blast
qed

subsection \<open>The ladder\<close>

definition need_rank :: "string \<Rightarrow> nat" where
  "need_rank role = (if role = ''king'' then 1 else if role = ''viceroy'' then 2 else 3)"

lemma need_effect_needs:
  assumes "(c, r) \<in> needs_on (need_effect L n)"
  shows "(c, r) \<in> needs_on L \<and> (c, r) \<noteq> need_pair n \<or> need_rank r < need_rank (sd_role n)"
  using assms
  by (auto simp: needs_on_def need_effect_def swapped_def need_pair_def new_label_for_def DecideStaleNeed_def need_rank_def split: if_splits)

lemma ladder_round:
  assumes "\<forall>n\<in>set ns. need_rank (sd_role n) \<le> Suc k"
    and "\<forall>(c, r)\<in>needs_on L. need_rank r \<le> k \<or> (c, r) \<in> need_pair ` set ns"
  shows "\<forall>(c, r)\<in>needs_on (foldl need_effect L ns). need_rank r \<le> k"
  using assms
proof (induction ns arbitrary: L)
  case (Cons n ns)
  have "\<forall>(c, r)\<in>needs_on (need_effect L n). need_rank r \<le> k \<or> (c, r) \<in> need_pair ` set ns"
  proof (safe)
    fix c r assume cr: "(c, r) \<in> needs_on (need_effect L n)" "(c, r) \<notin> need_pair ` set ns"
    from need_effect_needs [OF cr(1)] show "need_rank r \<le> k"
      using Cons.prems cr(2) by fastforce
  qed
  then show ?case using Cons.IH [of "need_effect L n"] Cons.prems(1) by simp
qed auto

definition on_ladder :: "(string \<Rightarrow> string set) \<Rightarrow> string \<Rightarrow> bool" where
  "on_ladder L c \<longleftrightarrow> LabelGaveUp \<in> L c \<or> c \<in> fst ` needs_on L"

lemma need_roles_cases: "''king'' \<in> set need_roles" "''viceroy'' \<in> set need_roles"
  by (simp_all add: need_roles_def Roles_def)

lemma on_ladder_effect: "on_ladder L c \<Longrightarrow> on_ladder (need_effect L n) c"
  using need_roles_cases
  by (force simp: on_ladder_def needs_on_def image_iff need_effect_def swapped_def new_label_for_def DecideStaleNeed_def)

lemma on_ladder_foldl: "on_ladder L c \<Longrightarrow> on_ladder (foldl need_effect L ns) c"
  by (induction ns arbitrary: L) (simp_all add: on_ladder_effect)

lemma triage_round:
  assumes "lawful_bd B labels updated"
    and stale: "\<forall>(c, r)\<in>needs_on (labels s). updated s c < now - timeout"
    and bound: "\<forall>(c, r)\<in>needs_on (labels s). need_rank r \<le> Suc k"
  defines "s' \<equiv> snd (Triage (BeadsNeeds B) timeout now s)"
  shows "(\<forall>(c, r)\<in>needs_on (labels s'). need_rank r \<le> k) \<and> (\<forall>c. on_ladder (labels s) c \<longrightarrow> on_ladder (labels s') c)"
proof -
  obtain ns where L: "labels s' = foldl need_effect (labels s) ns"
      and "need_pair ` set ns = {(c, r) \<in> needs_on (labels s). updated s c < now - timeout}"
    using Triage_lawful [OF assms(1), of timeout now s] by (auto simp: s'_def)
  then have ns: "need_pair ` set ns = needs_on (labels s)" using stale by auto
  have "\<forall>n\<in>set ns. need_rank (sd_role n) \<le> Suc k"
    using bound ns by (auto simp: need_pair_def)
  then have "\<forall>(c, r)\<in>needs_on (labels s'). need_rank r \<le> k"
    unfolding L by (rule ladder_round) (use ns in auto)
  then show ?thesis using on_ladder_foldl L by simp
qed

lemma unanswered_parked:
  assumes bd: "lawful_bd B labels updated"
    and s1: "s1 = snd (Triage (BeadsNeeds B) timeout t0 s0)" and s2: "s2 = snd (Triage (BeadsNeeds B) timeout t1 s1)"
    and s3: "s3 = snd (Triage (BeadsNeeds B) timeout t2 s2)"
    and stale: "\<forall>(c, r)\<in>needs_on (labels s0). updated s0 c < t0 - timeout" "\<forall>(c, r)\<in>needs_on (labels s1). updated s1 c < t1 - timeout"
      "\<forall>(c, r)\<in>needs_on (labels s2). updated s2 c < t2 - timeout"
    and c: "(c, r) \<in> needs_on (labels s0)"
  shows "LabelGaveUp \<in> labels s3 c \<and> needs_on (labels s3) = {}"
proof -
  have "\<forall>(c, r)\<in>needs_on (labels s0). need_rank r \<le> Suc 2" by (auto simp: need_rank_def)
  moreover have "on_ladder (labels s0) c" using c by (force simp: on_ladder_def)
  ultimately have 1: "\<forall>(c, r)\<in>needs_on (labels s1). need_rank r \<le> Suc 1" "on_ladder (labels s1) c"
    using triage_round [OF bd stale(1), of 2] unfolding s1 by (auto simp: numeral_2_eq_2)
  then have 2: "\<forall>(c, r)\<in>needs_on (labels s2). need_rank r \<le> Suc 0" "on_ladder (labels s2) c"
    using triage_round [OF bd stale(2), of 1] unfolding s2 by auto
  then have 3: "\<forall>(c, r)\<in>needs_on (labels s3). need_rank r \<le> 0" "on_ladder (labels s3) c"
    using triage_round [OF bd stale(3), of 0] unfolding s3 by auto
  have "needs_on (labels s3) = {}" using 3(1) by (auto simp: need_rank_def split: if_splits)
  with 3(2) show ?thesis by (simp add: on_ladder_def)
qed

subsection \<open>The reaper's calls\<close>

datatype reap_call = Release_Call claimed_card string | Escalate_Call claimed_card string

text \<open>The tracker with a log of the calls that change it.\<close>

definition logging :: "'s reap_cards \<Rightarrow> ('s \<times> reap_call list) reap_cards" where
  "logging C =
     \<lparr>rc_claimed = (\<lambda>(s, calls). case rc_claimed C s of (r, s') \<Rightarrow> (r, (s', calls))),
      rc_release = (\<lambda>c note (s, calls). case rc_release C c note s of (r, s') \<Rightarrow> (r, (s', calls @ [Release_Call c note]))),
      rc_escalate = (\<lambda>c note (s, calls). case rc_escalate C c note s of (r, s') \<Rightarrow> (r, (s', calls @ [Escalate_Call c note]))),
      rc_record = (\<lambda>c detail (s, calls). (rc_record C c detail s, calls))\<rparr>"

definition reap_call_for :: "station_status list \<Rightarrow> claimed_card \<Rightarrow> reap_call" where
  "reap_call_for sts c =
     (if cc_reaps c < MaxReaps then Release_Call c (reap_note c (AbandonedReason c sts))
      else Escalate_Call c (reap_note c (AbandonedReason c sts)))"

lemma reap_card_logging:
  "reap_card (logging C) sts c (s, calls) = map_prod id (\<lambda>s'. (s', calls @ [reap_call_for sts c])) (reap_card C sts c s)"
  by (auto simp: reap_card_def logging_def reap_call_for_def Let_def split: prod.splits release_result.splits option.splits)

lemma reap_loop_logging:
  "reap_loop (logging C) sts cs (s, calls) =
     map_prod id (\<lambda>s'. (s', calls @ map (reap_call_for sts) (filter (\<lambda>c. \<not> reap_skips sts c) cs))) (reap_loop C sts cs s)"
  by (induction cs arbitrary: s calls) (simp_all add: reap_card_logging split: prod.splits)

lemma Reap_logging:
  assumes "rc_claimed C s = (Inr claimed, s1)"
  shows "Reap (logging C) sts (s, []) =
    map_prod id (\<lambda>s'. (s', map (reap_call_for sts) (filter (\<lambda>c. \<not> reap_skips sts c) claimed))) (Reap C sts s)"
proof -
  have "rc_claimed (logging C) (s, []) = (Inr claimed, (s1, []))" using assms by (simp add: logging_def)
  then show ?thesis using assms by (simp add: Reap_def reap_loop_logging)
qed

text \<open>When a claim counts as abandoned.\<close>

definition holder :: "claimed_card \<Rightarrow> station_status list \<Rightarrow> station_status option" where
  "holder c sts = find_first (\<lambda>s. ss_name s = cc_assignee c) sts"

definition works_on :: "station_status \<Rightarrow> claimed_card \<Rightarrow> bool" where
  "works_on s c \<longleftrightarrow> ss_alive s \<and> ss_state s = StateWorking \<and> ss_card s = cc_id c"

lemma AbandonedReason_iff:
  "AbandonedReason c sts \<noteq> [] \<longleftrightarrow>
     (case holder c sts of None \<Rightarrow> True | Some s \<Rightarrow> ss_last_seen s \<noteq> None \<and> \<not> works_on s c)"
  by (auto simp: AbandonedReason_def holder_def works_on_def split: option.splits)

lemma snapshot_working_not_abandoned:
  assumes "holder c (snapshot stations now l) = Some s" "works_on s c"
  shows "reap_skips (snapshot stations now l) c"
  using assms AbandonedReason_iff [of c "snapshot stations now l"] by (auto simp: reap_skips_def)

text \<open>\<open>Release\<close> unclaims only a card that still is as it was read.\<close>

lemma beads_release_moved:
  assumes "beads_read B (cc_id c) s = (Inr cur, s')" "cc_revision cur \<noteq> cc_revision c \<or> cc_assignee cur \<noteq> cc_assignee c"
  shows "beads_release B c note s = (ErrCardMoved, s')"
  using assms by (simp add: beads_release_def)

end
