(* ===== verification/Heijunka_Correct.thy ===== *)
theory Heijunka_Correct
  imports Heijunka
begin

text \<open>
  Levelling: the agent count \<open>Decide\<close> steers to, how it approaches it, and what \<open>AnalyzeFlow\<close> reports
  of a set of cards.
\<close>

subsection \<open>Levels settle\<close>

definition clamp :: "policy \<Rightarrow> int \<Rightarrow> int" where
  "clamp p t = min (max t (po_min_agents p)) (po_max_agents p)"

definition cards_target :: "snap \<Rightarrow> policy \<Rightarrow> int" where
  "cards_target s p = go_quot (sp_ready s + sp_in_progress s + po_cards_per_agent p - 1) (po_cards_per_agent p)"

definition queue_late :: "snap \<Rightarrow> policy \<Rightarrow> bool" where
  "queue_late s p \<longleftrightarrow> flow_wait (sp_flow s) StageQueued > po_queue_latency_target p"

text \<open>The level a line with an unchanging load ends at: the most agents the policy allows while its queue is
  late, otherwise one agent per \<open>CardsPerAgent\<close> cards.\<close>

definition settled_agents :: "snap \<Rightarrow> policy \<Rightarrow> int" where
  "settled_agents s p = (if queue_late s p then po_max_agents p else clamp p (cards_target s p))"

lemma policy_validD:
  assumes "policy_valid p"
  shows "0 \<le> po_min_agents p" "po_min_agents p \<le> po_max_agents p" "1 \<le> po_cards_per_agent p" "1 \<le> po_wip_per_agent p" "1 \<le> po_max_step p"
  using assms by (auto simp: policy_valid_def)

lemma agent_target_alt:
  "agent_target s p = clamp p (if queue_late s p then max (cards_target s p) (lv_agents (sp_current s) + 1) else cards_target s p)"
  by (simp add: agent_target_def clamp_def cards_target_def queue_late_def Let_def)

lemma clamp_bounds:
  "policy_valid p \<Longrightarrow> po_min_agents p \<le> clamp p t \<and> clamp p t \<le> po_max_agents p"
  by (auto simp: clamp_def dest: policy_validD(2))

lemma settled_bounds:
  "policy_valid p \<Longrightarrow> po_min_agents p \<le> settled_agents s p \<and> settled_agents s p \<le> po_max_agents p"
  by (auto simp: settled_agents_def clamp_bounds dest: policy_validD(2))

lemma Decide_levels:
  assumes "\<not> sp_stopped s"
  shows "lv_wip_limit (Decide s p) = lv_agents (Decide s p) * po_wip_per_agent p"
  using assms by (simp add: Decide_def Let_def)

definition toward :: "int \<Rightarrow> int \<Rightarrow> int \<Rightarrow> int" where
  "toward k t a = (if t > a then min t (a + k) else if t < a then max t (a - k) else a)"

lemma Decide_agents:
  assumes "\<not> sp_stopped s"
  shows "lv_agents (Decide s p) = toward (po_max_step p) (agent_target s p) (lv_agents (sp_current s))"
  using assms by (simp add: Decide_def Let_def toward_def)

lemma toward_closer: "1 \<le> k \<Longrightarrow> \<bar>t - toward k t a\<bar> \<le> max 0 (\<bar>t - a\<bar> - 1)"
  by (simp add: toward_def)

lemma toward_late: "1 \<le> k \<Longrightarrow> a < t \<Longrightarrow> t \<le> hi \<Longrightarrow> \<bar>hi - toward k t a\<bar> \<le> max 0 (\<bar>hi - a\<bar> - 1)"
  by (simp add: toward_def)

lemma clamp_late:
  assumes "policy_valid p"
  shows "a < po_max_agents p \<Longrightarrow> a < clamp p (max c (a + 1))" "po_max_agents p \<le> a \<Longrightarrow> clamp p (max c (a + 1)) = po_max_agents p"
  using policy_validD(2) [OF assms] by (simp_all add: clamp_def)

lemma Decide_closer:
  assumes "policy_valid p" "\<not> sp_stopped s"
  shows "\<bar>settled_agents s p - lv_agents (Decide s p)\<bar> \<le> max 0 (\<bar>settled_agents s p - lv_agents (sp_current s)\<bar> - 1)"
proof (cases "queue_late s p")
  case False
  then show ?thesis
    using toward_closer [OF policy_validD(5) [OF assms(1)]] by (simp add: Decide_agents [OF assms(2)] agent_target_alt settled_agents_def)
next
  case True
  let ?a = "lv_agents (sp_current s)" let ?t = "clamp p (max (cards_target s p) (?a + 1))"
  have "\<bar>po_max_agents p - toward (po_max_step p) ?t ?a\<bar> \<le> max 0 (\<bar>po_max_agents p - ?a\<bar> - 1)"
  proof (cases "?a < po_max_agents p")
    case True
    then show ?thesis
      using toward_late [OF policy_validD(5) [OF assms(1)] clamp_late(1) [OF assms(1)]] clamp_bounds [OF assms(1)] by blast
  next
    case False
    then have t: "?t = po_max_agents p" using clamp_late(2) [OF assms(1)] by simp
    show ?thesis unfolding t by (rule toward_closer [OF policy_validD(5) [OF assms(1)]])
  qed
  with True show ?thesis by (simp add: Decide_agents [OF assms(2)] agent_target_alt settled_agents_def)
qed

text \<open>The levels after \<open>n\<close> wakes that see the same load.\<close>

definition settle :: "snap \<Rightarrow> policy \<Rightarrow> nat \<Rightarrow> levels" where
  "settle s p n = ((\<lambda>l. Decide (s\<lparr>sp_current := l\<rparr>) p) ^^ n) (sp_current s)"

lemma settle_Suc: "settle s p (Suc n) = Decide (s\<lparr>sp_current := settle s p n\<rparr>) p"
  by (simp add: settle_def)

lemma settled_agents_current [simp]: "settled_agents (s\<lparr>sp_current := l\<rparr>) p = settled_agents s p"
  by (simp add: settled_agents_def queue_late_def cards_target_def)

lemma settle_distance:
  assumes "policy_valid p" "\<not> sp_stopped s"
  shows "\<bar>settled_agents s p - lv_agents (settle s p n)\<bar> \<le> max 0 (\<bar>settled_agents s p - lv_agents (sp_current s)\<bar> - int n)"
proof (induction n)
  case 0
  then show ?case by (simp add: settle_def)
next
  case (Suc n)
  have "\<bar>settled_agents s p - lv_agents (settle s p (Suc n))\<bar> \<le> max 0 (\<bar>settled_agents s p - lv_agents (settle s p n)\<bar> - 1)"
    using Decide_closer [of p "s\<lparr>sp_current := settle s p n\<rparr>"] assms by (simp add: settle_Suc)
  with Suc.IH show ?case by simp
qed

lemma settle_reaches:
  assumes "policy_valid p" "\<not> sp_stopped s" "0 < n" "nat \<bar>settled_agents s p - lv_agents (sp_current s)\<bar> \<le> n"
  shows "settle s p n = \<lparr>lv_agents = settled_agents s p, lv_wip_limit = settled_agents s p * po_wip_per_agent p\<rparr>"
proof -
  have a: "lv_agents (settle s p n) = settled_agents s p"
    using settle_distance [OF assms(1,2), of n] assms(4) by simp
  obtain m where n: "n = Suc m" using assms(3) by (cases n) auto
  have "lv_wip_limit (settle s p n) = lv_agents (settle s p n) * po_wip_per_agent p"
    using assms(2) by (simp add: n settle_Suc Decide_levels)
  with a show ?thesis by simp
qed

lemma toward_bounds:
  assumes "1 \<le> k"
  shows "\<bar>toward k t a - a\<bar> \<le> k" "lo \<le> t \<Longrightarrow> lo \<le> a \<Longrightarrow> lo \<le> toward k t a" "t \<le> hi \<Longrightarrow> a \<le> hi \<Longrightarrow> toward k t a \<le> hi"
  using assms by (auto simp: toward_def)

lemma Decide_bounded:
  assumes "policy_valid p" "\<not> sp_stopped s"
    and "po_min_agents p \<le> lv_agents (sp_current s)" "lv_agents (sp_current s) \<le> po_max_agents p"
  shows "po_min_agents p \<le> lv_agents (Decide s p) \<and> lv_agents (Decide s p) \<le> po_max_agents p
    \<and> \<bar>lv_agents (Decide s p) - lv_agents (sp_current s)\<bar> \<le> po_max_step p"
  unfolding Decide_agents [OF assms(2)] agent_target_alt
  using toward_bounds [OF policy_validD(5) [OF assms(1)]] clamp_bounds [OF assms(1)] assms(3,4) by blast

subsection \<open>What a flow report says\<close>

text \<open>The reference: every open card on a stage with its wait, and per stage the cards on it.\<close>

type_synonym wait_entry = "string \<times> string \<times> duration"  \<comment> \<open>stage, card, wait\<close>

definition waiting :: "time \<Rightarrow> flow_card list \<Rightarrow> wait_entry list" where
  "waiting now cards =
     concat (map (\<lambda>c. if fc_status c = ''closed'' then []
        else case cardStage c now of None \<Rightarrow> [] | Some (stage, since) \<Rightarrow> [(stage, fc_id c, max (time_sub now since) 0)]) cards)"

definition on_stage :: "string \<Rightarrow> wait_entry list \<Rightarrow> (string \<times> duration) list" where
  "on_stage stage ws = map snd (filter (\<lambda>w. fst w = stage) ws)"

definition stage_spec :: "wait_entry list \<Rightarrow> stage_flow \<Rightarrow> bool" where
  "stage_spec ws s \<longleftrightarrow>
     (let es = on_stage (sf_stage s) ws in
      es \<noteq> [] \<and> sf_wip s = int (length es) \<and> sf_total_wait s = sum_list (map snd es)
      \<and> (sf_oldest_id s, sf_oldest_wait s) \<in> set es \<and> (\<forall>e\<in>set es. snd e \<le> sf_oldest_wait s))"

definition stages_of :: "wait_entry list \<Rightarrow> stage_flow list" where
  "stages_of ws = foldl (\<lambda>ss (stage, cid, wait). add_wait stage cid wait ss) [] ws"

definition waits_fit :: "wait_entry list \<Rightarrow> bool" where
  "waits_fit ws \<longleftrightarrow> (\<forall>(stage, cid, wait)\<in>set ws. cid \<noteq> [] \<and> 0 \<le> wait) \<and> sum_list (map (snd \<circ> snd) ws) \<le> int64_max"

lemma fa_stages_fold:
  "fa_stages (foldl (flow_card_step now) a cards) = foldl (\<lambda>ss (stage, cid, wait). add_wait stage cid wait ss) (fa_stages a) (waiting now cards)"
  by (induction cards arbitrary: a) (auto simp: waiting_def flow_card_step_def Let_def split: option.splits)

lemma on_stage_snoc [simp]:
  "on_stage st (ws @ [w]) = on_stage st ws @ (if fst w = st then [snd w] else [])"
  by (simp add: on_stage_def)

lemma on_stage_Nil: "on_stage st ws = [] \<longleftrightarrow> st \<notin> fst ` set ws"
  by (auto simp: on_stage_def filter_empty_conv)

lemma on_stage_total: "waits_fit ws \<Longrightarrow> 0 \<le> sum_list (map snd (on_stage st ws)) \<and> sum_list (map snd (on_stage st ws)) \<le> sum_list (map (snd \<circ> snd) ws)"
proof (induction ws rule: rev_induct)
  case (snoc w ws)
  then have "waits_fit ws" "0 \<le> snd (snd w)" by (auto simp: waits_fit_def split: prod.splits)
  with snoc.IH show ?case by auto
qed (simp add: on_stage_def)

lemma waits_fit_snocD:
  "waits_fit (ws @ [(st, cid, wait)]) \<Longrightarrow> waits_fit ws \<and> cid \<noteq> [] \<and> 0 \<le> wait \<and> sum_list (map (snd \<circ> snd) ws) + wait \<le> int64_max"
  by (auto simp: waits_fit_def)

lemma stage_spec_other: "sf_stage s \<noteq> fst w \<Longrightarrow> stage_spec (ws @ [w]) s = stage_spec ws s"
  by (auto simp: stage_spec_def)

lemma stage_spec_new:
  assumes "on_stage st ws = []" "0 \<le> wait" "wait \<le> int64_max"
  shows "stage_spec (ws @ [(st, cid, wait)]) (bump cid wait \<lparr>sf_stage = st, sf_wip = 0, sf_total_wait = 0, sf_oldest_id = [], sf_oldest_wait = 0\<rparr>)"
proof -
  have "wrap64 wait = wait" using assms(2,3) by (simp add: wrap64_id int64_min_def)
  with assms(1) show ?thesis by (simp add: stage_spec_def bump_def Let_def)
qed

lemma bump_stage [simp]: "sf_stage (bump cid wait s) = sf_stage s"
  by (simp add: bump_def Let_def)

lemma stage_spec_bump:
  assumes spec: "stage_spec ws s" and fit: "waits_fit (ws @ [(sf_stage s, cid, wait)])"
  shows "stage_spec (ws @ [(sf_stage s, cid, wait)]) (bump cid wait s)"
proof -
  note new = waits_fit_snocD [OF fit]
  have "0 \<le> sf_total_wait s" "sf_total_wait s + wait \<le> int64_max"
    using spec on_stage_total [of ws "sf_stage s"] new by (auto simp: stage_spec_def Let_def)
  then have "wrap64 (sf_total_wait s + wait) = sf_total_wait s + wait"
    using new by (simp add: wrap64_id int64_min_def)
  moreover have "sf_oldest_id s \<noteq> []"
    using spec new by (auto simp: stage_spec_def Let_def waits_fit_def on_stage_def)
  ultimately show ?thesis using spec by (auto simp: stage_spec_def bump_def Let_def)
qed

lemma set_stage_add_wait: "sf_stage ` set (add_wait st cid wait ss) = insert st (sf_stage ` set ss)"
  by (induction ss) auto

lemma distinct_add_wait: "distinct (map sf_stage ss) \<Longrightarrow> distinct (map sf_stage (add_wait st cid wait ss))"
  using set_stage_add_wait by (induction ss) (auto simp: image_iff)

lemma add_wait_spec:
  assumes "\<forall>s\<in>set ss. stage_spec ws s" "distinct (map sf_stage ss)" "waits_fit (ws @ [(st, cid, wait)])" "st \<notin> sf_stage ` set ss \<Longrightarrow> on_stage st ws = []"
  shows "\<forall>s\<in>set (add_wait st cid wait ss). stage_spec (ws @ [(st, cid, wait)]) s"
  using assms
proof (induction ss)
  case Nil
  note fit = waits_fit_snocD [OF Nil.prems(3)]
  have "wait \<le> int64_max" using fit on_stage_total [of ws st] by linarith
  with fit Nil.prems(4) stage_spec_new show ?case by simp
next
  case (Cons s ss)
  show ?case
  proof (cases "sf_stage s = st")
    case True
    then have "\<forall>x\<in>set ss. sf_stage x \<noteq> st" using Cons.prems(2) by (auto simp: image_iff)
    then have "\<forall>x\<in>set ss. stage_spec (ws @ [(st, cid, wait)]) x"
      using Cons.prems(1) by (simp add: stage_spec_other)
    moreover have "stage_spec (ws @ [(st, cid, wait)]) (bump cid wait s)"
      using stage_spec_bump [of ws s cid wait] Cons.prems(1,3) True by simp
    ultimately show ?thesis using True by simp
  next
    case False
    with Cons show ?thesis by (auto simp: stage_spec_other)
  qed
qed

lemma stages_of_snoc: "stages_of (ws @ [(st, cid, wait)]) = add_wait st cid wait (stages_of ws)"
  by (simp add: stages_of_def)

lemma stages_of_correct:
  "waits_fit ws \<Longrightarrow> distinct (map sf_stage (stages_of ws)) \<and> sf_stage ` set (stages_of ws) = fst ` set ws
     \<and> (\<forall>s\<in>set (stages_of ws). stage_spec ws s)"
proof (induction ws rule: rev_induct)
  case (snoc w ws)
  obtain st cid wait where w: "w = (st, cid, wait)" by (cases w)
  have fit: "waits_fit (ws @ [(st, cid, wait)])" using snoc.prems w by simp
  have IH: "distinct (map sf_stage (stages_of ws))" "sf_stage ` set (stages_of ws) = fst ` set ws" "\<forall>s\<in>set (stages_of ws). stage_spec ws s"
    using snoc.IH waits_fit_snocD [OF fit] by auto
  have "\<forall>s\<in>set (add_wait st cid wait (stages_of ws)). stage_spec (ws @ [(st, cid, wait)]) s"
    using add_wait_spec [OF IH(3,1) fit] IH(2) by (simp add: on_stage_Nil)
  with IH show ?case by (simp add: w stages_of_snoc distinct_add_wait set_stage_add_wait)
qed (simp add: stages_of_def)

text \<open>Insertion sort under a strict order on stages with sums that fit.\<close>

definition stage_le :: "stage_flow \<Rightarrow> stage_flow \<Rightarrow> bool" where
  "stage_le a b \<longleftrightarrow> sf_total_wait a > sf_total_wait b \<or> (sf_total_wait a = sf_total_wait b \<and> sf_stage a \<le> sf_stage b)"

definition total_fits :: "stage_flow \<Rightarrow> bool" where
  "total_fits s \<longleftrightarrow> 0 \<le> sf_total_wait s \<and> sf_total_wait s \<le> int64_max"

lemma stage_less_iff: "total_fits a \<Longrightarrow> total_fits b \<Longrightarrow> stage_less a b \<longleftrightarrow> \<not> stage_le b a"
  by (subst stage_less_def, subst wrap64_id) (auto simp: stage_le_def total_fits_def int64_min_def int64_max_def)

lemma stage_le_trans: "stage_le a b \<Longrightarrow> stage_le b c \<Longrightarrow> stage_le a c"
  by (auto simp: stage_le_def)

lemma set_insert_stage [simp]: "set (insert_stage x ys) = insert x (set ys)"
  by (induction ys) auto

lemma sorted_insert_stage:
  "total_fits x \<Longrightarrow> \<forall>y\<in>set ys. total_fits y \<Longrightarrow> sorted_wrt stage_le ys \<Longrightarrow> sorted_wrt stage_le (insert_stage x ys)"
proof (induction ys)
  case (Cons y ys)
  then have IH: "sorted_wrt stage_le (insert_stage x ys)" by simp
  have fits: "total_fits x" "total_fits y" using Cons.prems by auto
  show ?case
  proof (cases "stage_less x y")
    case True
    then have "stage_le x y" using stage_less_iff [OF fits] by (auto simp: stage_le_def)
    with True Cons.prems(3) show ?thesis by (auto intro: stage_le_trans)
  next
    case False
    then have "stage_le y x" using stage_less_iff [OF fits] by simp
    with False IH Cons.prems(3) show ?thesis by simp
  qed
qed simp

lemma sort_stages_snoc: "sort_stages (ss @ [s]) = insert_stage s (sort_stages ss)"
  by (simp add: sort_stages_def)

lemma set_sort_stages [simp]: "set (sort_stages ss) = set ss"
  by (induction ss rule: rev_induct) (simp_all add: sort_stages_snoc, simp add: sort_stages_def)

lemma length_insert_stage [simp]: "length (insert_stage x ys) = Suc (length ys)"
  by (induction ys) auto

lemma length_sort_stages [simp]: "length (sort_stages ss) = length ss"
  by (induction ss rule: rev_induct) (simp_all add: sort_stages_snoc, simp add: sort_stages_def)

lemma sorted_sort_stages: "\<forall>s\<in>set ss. total_fits s \<Longrightarrow> sorted_wrt stage_le (sort_stages ss)"
  by (induction ss rule: rev_induct) (simp_all add: sort_stages_snoc sorted_insert_stage, simp add: sort_stages_def)

lemma distinct_sort_stages: "distinct (map sf_stage ss) \<Longrightarrow> distinct (map sf_stage (sort_stages ss))"
  by (rule card_distinct) (use distinct_card [of "map sf_stage ss"] in simp)

lemma find_first_sorted:
  assumes "sorted_wrt stage_le ss" "find_first P ss = Some b" "s \<in> set ss" "P s"
  shows "sf_total_wait s \<le> sf_total_wait b"
proof -
  obtain us vs where ss: "ss = us @ b # vs" and us: "\<forall>u\<in>set us. \<not> P u"
    using find_first_split [OF assms(2)] by blast
  have "s \<in> set (b # vs)" using assms(3,4) ss us by auto
  then show ?thesis using assms(1) ss by (auto simp: sorted_wrt_append stage_le_def)
qed

lemma AnalyzeFlow_stages: "fr_stages (AnalyzeFlow cards now) = sort_stages (stages_of (waiting now cards))"
  by (simp add: AnalyzeFlow_def Let_def fa_stages_fold stages_of_def)

lemma AnalyzeFlow_bottleneck:
  "fr_bottleneck (AnalyzeFlow cards now) = find_first (\<lambda>s. sf_stage s \<noteq> StageWorking) (fr_stages (AnalyzeFlow cards now))"
  by (simp add: AnalyzeFlow_def Let_def)

lemma stage_spec_fits: "waits_fit ws \<Longrightarrow> stage_spec ws s \<Longrightarrow> total_fits s"
  using on_stage_total [of ws "sf_stage s"] by (simp add: stage_spec_def total_fits_def waits_fit_def Let_def)

lemma AnalyzeFlow_correct:
  fixes cards now
  defines "ws \<equiv> waiting now cards" and "r \<equiv> AnalyzeFlow cards now"
  assumes fit: "waits_fit ws"
  shows "distinct (map sf_stage (fr_stages r))"
    and "sf_stage ` set (fr_stages r) = fst ` set ws"
    and "s \<in> set (fr_stages r) \<Longrightarrow> stage_spec ws s"
    and "sorted_wrt stage_le (fr_stages r)"
proof -
  note stages = stages_of_correct [OF fit]
  have "\<forall>s\<in>set (stages_of ws). total_fits s" using stages stage_spec_fits [OF fit] by blast
  then show "sorted_wrt stage_le (fr_stages r)"
    by (simp add: r_def AnalyzeFlow_stages sorted_sort_stages flip: ws_def)
  show "distinct (map sf_stage (fr_stages r))" "sf_stage ` set (fr_stages r) = fst ` set ws" "s \<in> set (fr_stages r) \<Longrightarrow> stage_spec ws s"
    using stages by (simp_all add: r_def AnalyzeFlow_stages distinct_sort_stages flip: ws_def)
qed

end
