(* ===== verification/Station_Watch.thy ===== *)
theory Station_Watch
  imports Station_Liveness
begin

text \<open>
  The alarm of the maker watch as a state machine: the watch with the alarms it has posted so far. Alarms
  and all-clears alternate whatever the channel does, and a check on a working channel leaves the watch in
  step with what it saw.
\<close>

definition alarm_posted :: "(string \<Rightarrow> string option) \<Rightarrow> station_status list \<Rightarrow> time \<Rightarrow> maker_watch \<Rightarrow> bool list" where
  "alarm_posted announce sts now w =
     (let (newest, alive) = lastMakerSeen (mw_started w) now sts
      in if alive = mw_alerted w \<and> announce (alert_text newest alive) = None then [alive] else [])"

definition watch_init :: "maker_watch \<times> bool list \<Rightarrow> bool" where
  "watch_init s \<longleftrightarrow> \<not> mw_alerted (fst s) \<and> snd s = []"

inductive watch_step :: "maker_watch \<times> bool list \<Rightarrow> maker_watch \<times> bool list \<Rightarrow> bool" where
  watch_check: "watch_step (w, posted) (snd (Check announce sts now w), posted @ alarm_posted announce sts now w)"

inductive_cases watch_stepE: "watch_step s t"

text \<open>First an alarm (\<open>False\<close>: no maker is alive), then an all-clear, and so on.\<close>

fun alternates :: "bool \<Rightarrow> bool list \<Rightarrow> bool" where
  "alternates b [] = True"
| "alternates b (x # xs) = (x = b \<and> alternates (\<not> b) xs)"

lemma alternates_snoc: "alternates b (xs @ [x]) \<longleftrightarrow> alternates b xs \<and> x = (if even (length xs) then b else \<not> b)"
  by (induction xs arbitrary: b) auto

lemma Check_alerted:
  "mw_alerted (snd (Check announce sts now w)) = (if alarm_posted announce sts now w = [] then mw_alerted w else \<not> mw_alerted w)"
  by (auto simp: Check_def alarm_posted_def Let_def split: prod.splits option.splits)

lemma alarm_posted_value: "alarm_posted announce sts now w = [] \<or> alarm_posted announce sts now w = [mw_alerted w]"
  by (auto simp: alarm_posted_def Let_def split: prod.splits)

definition watch_inv :: "maker_watch \<times> bool list \<Rightarrow> bool" where
  "watch_inv s \<longleftrightarrow> alternates False (snd s) \<and> mw_alerted (fst s) = odd (length (snd s))"

lemma watch_step_inv: "watch_inv s \<Longrightarrow> watch_step s t \<Longrightarrow> watch_inv t"
  by (elim watch_stepE)
    (use alarm_posted_value in \<open>fastforce simp: watch_inv_def Check_alerted alternates_snoc\<close>)

interpretation watch_run: invariant_system watch_init watch_step watch_inv
  by unfold_locales (simp add: watch_init_def watch_inv_def, erule (1) watch_step_inv)

lemma Check_in_step:
  assumes "\<And>text. announce text = None"
  shows "mw_alerted (snd (Check announce sts now w)) = (\<not> snd (lastMakerSeen (mw_started w) now sts))"
  using assms by (auto simp: Check_alerted alarm_posted_def Let_def split: prod.splits)

end
