(* ===== verification/Station_Example.thy ===== *)
theory Station_Example
  imports Controller_Correct Station_Kaizen Heijunka_Chores Heijunka_Correct Station_Watch
begin

text \<open>
  Concrete instances for the station's properties: a workload policy with one request under it, an engine
  that keeps its objects in a list, and a card tracker that keeps pairs of card and label and answers
  queries with the cards' names in a self-delimiting code.
\<close>

subsection \<open>A workload\<close>

definition st_rule :: workload_rule where
  "st_rule = \<lparr>wr_roles = [''maker''], wr_kinds = [''test''], wr_approval = ''auto'', wr_max_per_station = 1,
     wr_memory = ''8'', wr_cpus = [], wr_pids = 0, wr_ttl = ''9ns'', wr_expose = False\<rparr>"

definition st_policy :: workloads where
  "st_policy = \<lparr>wl_rules = [st_rule], wl_images = []\<rparr>"

definition st_caller :: caller where
  "st_caller = \<lparr>ca_name = ''m1'', ca_role = ''maker''\<rparr>"

definition st_spec :: workload_spec where
  "st_spec = \<lparr>ws_kind = ''test'', ws_image = [], ws_build = Some \<lparr>wb_commit = replicate 40 (CHR ''a''), wb_dockerfile = ''D''\<rparr>, ws_args = [], ws_env = [], ws_secrets = [], ws_volumes = [],
     ws_resources = \<lparr>rs_memory = ''4'', rs_cpus = [], rs_pids = 0\<rparr>, ws_ttl = ''5ns'', ws_expose = None, ws_purpose = ''try it''\<rparr>"

definition st_file :: workload_file where
  "st_file = snd (RequestWorkload st_policy (\<lambda>_. None) 10 st_caller st_spec empty_file)"

definition st_workload :: workload where
  "st_workload = hd (wf_workloads st_file)"

lemma st_policy_valid: "validateWorkloads st_policy = None"
  by code_simp

lemma st_request_granted: "fst (RequestWorkload st_policy (\<lambda>_. None) 10 st_caller st_spec empty_file) = Inr st_workload"
  by code_simp

lemma st_request: "RequestWorkload st_policy (\<lambda>_. None) 10 st_caller st_spec empty_file = (Inr st_workload, st_file)"
  using st_request_granted by (simp add: prod_eq_iff st_file_def)

lemma st_rule_for: "RuleFor st_policy (ca_role st_caller) (ws_kind st_spec) = Some st_rule"
  by code_simp

lemma st_file_reached: "reach wl_init wl_step (st_policy, st_file)"
proof (rule reach_step)
  show "reach wl_init wl_step (st_policy, empty_file)"
    by (rule reach_init) (simp add: wl_init_def st_policy_valid)
  show "wl_step (st_policy, empty_file) (st_policy, st_file)"
    using step_request [OF _ st_request] by (simp add: wl_step_def)
qed

lemma st_pending: "st_workload \<in> set (controller_pending 12 st_file)" "wk_state st_workload = WorkloadApproved" "wk_id st_workload = ''wl-1''"
  by code_simp+

subsection \<open>An engine\<close>

definition st_engine :: "(workload_file \<times> observed list) cengine" where
  "st_engine =
     \<lparr>ce_create = (\<lambda>x (f, obs). (None, (f, obs @ [\<lparr>ob_workload = ei_workload x, ob_running = True, ob_exit_code = 0, ob_since = 0\<rparr>]))),
      ce_list = (\<lambda>(f, obs). Inr obs), ce_logs = (\<lambda>i s. None),
      ce_remove = (\<lambda>i (f, obs). (None, (f, filter (\<lambda>ob. ob_workload ob \<noteq> i) obs)))\<rparr>"

lemma map_by_filter: "map_by k (filter (\<lambda>x. k x \<noteq> i) xs) = (map_by k xs)(i := None)"
  by (induction xs rule: rev_induct) auto

lemma st_engine_lawful: "lawful_engine st_engine (map_by ob_workload)"
  by (auto simp: lawful_engine_def st_engine_def map_by_filter)

definition st_stopped_file :: workload_file where
  "st_stopped_file = snd (StopWorkload 12 st_caller ''wl-1'' st_file)"

lemma st_stopped_reached: "reach wl_init wl_step (st_policy, st_stopped_file)"
proof (rule reach_step [OF st_file_reached])
  obtain out where "StopWorkload 12 st_caller ''wl-1'' st_file = (out, st_stopped_file)"
    by (metis st_stopped_file_def prod.collapse)
  then show "wl_step (st_policy, st_file) (st_policy, st_stopped_file)"
    using step_stop [of 12] by (simp add: wl_step_def)
qed

definition st_stopped :: workload where
  "st_stopped = hd (controller_pending 13 st_stopped_file)"

lemma st_stopped: "st_stopped \<in> set (controller_pending 13 st_stopped_file)" "wk_stopped st_stopped" "wk_id st_stopped = ''wl-1''"
  by code_simp+

subsection \<open>A tracker\<close>

definition encode_names :: "string list \<Rightarrow> string" where
  "encode_names ns = concat (map (\<lambda>n. concat (map (\<lambda>c. [CHR ''x'', c]) n) @ ''.'') ns)"

fun decode_names :: "string \<Rightarrow> string \<Rightarrow> string list" where
  "decode_names cur [] = []"
| "decode_names cur [d] = [cur]"
| "decode_names cur (d # c # r) = (if d = CHR ''x'' then decode_names (cur @ [c]) r else cur # decode_names [] (c # r))"

lemma decode_name: "decode_names cur (concat (map (\<lambda>c. [CHR ''x'', c]) n) @ CHR ''.'' # r) = (cur @ n) # decode_names [] r"
proof (induction n arbitrary: cur)
  case Nil
  then show ?case by (cases r) simp_all
qed simp

lemma decode_encode_names: "decode_names [] (encode_names ns) = ns"
  by (induction ns) (simp_all add: encode_names_def decode_name)

type_synonym card_labels = "(string \<times> string) list"

definition st_run :: "string list \<Rightarrow> card_labels \<Rightarrow> (string \<times> string + string) \<times> card_labels" where
  "st_run args s =
     (if take 2 args = [''label'', ''add''] then (Inr [], (args ! 2, args ! 3) # s)
      else if take 2 args = [''label'', ''remove''] then (Inr [], filter (\<lambda>p. p \<noteq> (args ! 2, args ! 3)) s)
      else if take 1 args = [''list''] then (Inr (encode_names (map fst (filter (\<lambda>p. snd p = args ! 2) s))), s)
      else (Inr [], s))"

definition st_bd :: "card_labels bd_tool" where
  "st_bd = \<lparr>bt_run = st_run, bt_updated = (\<lambda>out. Inr (map (\<lambda>n. (n, 0)) (decode_names [] out))), bt_ids = (\<lambda>out. Inr (decode_names [] out)),
     bt_shown = (\<lambda>_. Inr []), bt_comments = (\<lambda>_. Inr []), bt_flow = (\<lambda>_. Inr []), bt_beads = (\<lambda>_. Inr [])\<rparr>"

definition labels_of :: "card_labels \<Rightarrow> string \<Rightarrow> string set" where
  "labels_of s c = {l. (c, l) \<in> set s}"

lemma st_bd_lawful: "lawful_bd st_bd labels_of (\<lambda>_ _. 0)"
  by (auto simp: lawful_bd_def st_bd_def st_run_def labels_of_def needs_query_def decode_encode_names fun_eq_iff image_iff)

definition st_cards :: card_labels where
  "st_cards = [(''sw-1'', ''needs:kaizen''), (''sw-1'', ''line'')]"

end
