(* ===== verification/Station_Properties.thy ===== *)
theory Station_Properties
  imports Station_Example Line_Example
begin

text \<open>
  The properties of the running line: the workload store and its controller, the levels and chores of
  heijunka, the maker watch, with a witness for each property that has hypotheses.
\<close>

subsection \<open>Workloads\<close>

text \<open>C26. Under any sequence of requests, approvals, stops and controller reports the workload store keeps
  its records in order: identifiers are handed out once, every record's history starts as a request, follows
  the lifecycle and ends in its state, everything not denied is inside the rule of its role and kind, and
  what the controller sees was approved and expires its own lifetime after an approval.\<close>

theorem workload_store_audited:
  assumes "reach wl_init wl_step (pol, f)"
  shows "file_ok pol f"
  using workload_run.reach_inv [OF assms] by simp

theorem workload_store_audited_witness:
  "reach wl_init wl_step (st_policy, st_file) \<and> file_ok st_policy st_file \<and> wf_next st_file = 1"
proof -
  have "wf_next st_file = 1" by code_simp
  then show ?thesis using st_file_reached workload_store_audited [OF st_file_reached] by blast
qed

text \<open>C27. Nothing the controller is asked to keep alive outlives its rule: an approved, creating or running
  workload on the controller's list was approved, and now is before the approval plus the rule's lifetime.\<close>

theorem workload_lifetime_bounded:
  assumes "reach wl_init wl_step (pol, f)" "w \<in> set (controller_pending now f)"
    and "wk_state w \<in> {WorkloadApproved, WorkloadCreating, WorkloadRunning}"
  shows "\<exists>e r ttl. e \<in> set (wk_history w) \<and> we_state e = WorkloadApproved
     \<and> RuleFor pol (wk_role w) (ws_kind (wk_spec w)) = Some r \<and> TTLDuration r = Some ttl
     \<and> now < wk_expires w \<and> wk_expires w \<le> we_at e + ttl"
proof -
  have "file_ok pol f" using workload_run.reach_inv [OF assms(1)] by simp
  from pending_lifetime [OF this assms(2,3)] show ?thesis by blast
qed

theorem workload_lifetime_bounded_witness:
  "\<exists>e r ttl. st_workload \<in> set (controller_pending 12 st_file) \<and> e \<in> set (wk_history st_workload)
     \<and> RuleFor st_policy (wk_role st_workload) (ws_kind (wk_spec st_workload)) = Some r \<and> TTLDuration r = Some ttl
     \<and> 12 < wk_expires st_workload \<and> wk_expires st_workload \<le> we_at e + ttl"
  using workload_lifetime_bounded [OF st_file_reached st_pending(1)] st_pending(1,2) by auto

text \<open>C29. A granted request leaves its station within the rule's quota of live workloads.\<close>

theorem workload_quota_kept:
  assumes "RequestWorkload pol post now st spec f = (Inr w, f')"
    and "RuleFor pol (ca_role st) (ws_kind spec) = Some r" "0 < wr_max_per_station r"
  shows "int (live_of f' (ca_name st) r) \<le> wr_max_per_station r"
  by (rule RequestWorkload_quota [OF assms])

theorem workload_quota_kept_witness:
  "live_of st_file ''m1'' st_rule = 1 \<and> int (live_of st_file ''m1'' st_rule) \<le> wr_max_per_station st_rule"
proof -
  have "live_of st_file ''m1'' st_rule = 1" by code_simp
  then show ?thesis
    using workload_quota_kept [OF st_request st_rule_for] by (simp add: st_caller_def st_rule_def)
qed

text \<open>C28. One controller pass over serve and an engine that keeps its interface's promises retires every
  workload that was stopped or has expired: its engine object is gone and its record says removed.\<close>

theorem controller_pass_retires:
  assumes "lawful_engine E objs" "reach wl_init wl_step (pol, f)" "w \<in> set (controller_pending now f)"
    and "wk_stopped w \<or> wk_state w = WorkloadExpired" "Once (serve now sf) E g now (f, e) = (es, (f', e'))"
  shows "objs e' (wk_id w) = None \<and> (\<exists>v\<in>set (wf_workloads f'). wk_id v = wk_id w \<and> wk_state v = WorkloadRemoved)"
proof -
  have "file_ok pol f" using workload_run.reach_inv [OF assms(2)] by simp
  from Once_retires [OF assms(1) this assms(3-5)] show ?thesis by (simp add: in_state_def)
qed

theorem controller_pass_retires_witness:
  "\<exists>es f' e'. Once (serve 13 (\<lambda>_. [])) st_engine 0 13 (st_stopped_file, [\<lparr>ob_workload = ''wl-1'', ob_running = True, ob_exit_code = 0, ob_since = 11\<rparr>])
       = (es, (f', e'))
     \<and> map_by ob_workload e' ''wl-1'' = None \<and> (\<exists>v\<in>set (wf_workloads f'). wk_id v = ''wl-1'' \<and> wk_state v = WorkloadRemoved)"
proof -
  let ?e = "[\<lparr>ob_workload = ''wl-1'', ob_running = True, ob_exit_code = 0, ob_since = 11\<rparr>]"
  obtain es f' e' where o: "Once (serve 13 (\<lambda>_. [])) st_engine 0 13 (st_stopped_file, ?e) = (es, (f', e'))" by (metis prod.exhaust)
  show ?thesis
    using controller_pass_retires [OF st_engine_lawful st_stopped_reached st_stopped(1) _ o] o st_stopped(2,3) by auto
qed

subsection \<open>The maker watch\<close>

text \<open>Whatever the channel does, the watch's alarms and all-clears alternate, the first being an alarm,
  and the watch remembers an alarm exactly when it is the last thing it posted.\<close>

theorem maker_alarms_alternate:
  assumes "reach watch_init watch_step (w, posted)"
  shows "alternates False posted \<and> mw_alerted w = (posted \<noteq> [] \<and> \<not> last posted)"
proof -
  have inv: "alternates False posted" "mw_alerted w = odd (length posted)"
    using watch_run.reach_inv [OF assms] by (simp_all add: watch_inv_def)
  then show ?thesis
    by (cases posted rule: rev_cases) (auto simp: alternates_snoc)
qed

definition st_watch :: maker_watch where
  "st_watch = \<lparr>mw_started = 0, mw_alerted = False, mw_skewed = (\<lambda>_. False)\<rparr>"

theorem maker_alarms_alternate_witness:
  "\<exists>w posted. reach watch_init watch_step (w, posted) \<and> posted = [False] \<and> mw_alerted w"
proof -
  let ?ok = "\<lambda>_ :: string. None :: string option"
  have "reach watch_init watch_step (st_watch, [])"
    by (rule reach_init) (simp add: watch_init_def st_watch_def)
  then have "reach watch_init watch_step (snd (Check ?ok [] (10 ^ 12) st_watch), [] @ alarm_posted ?ok [] (10 ^ 12) st_watch)"
    by (rule reach_step) (rule watch_check)
  moreover have "alarm_posted ?ok [] (10 ^ 12) st_watch = [False]"
    by (simp add: alarm_posted_def lastMakerSeen_def st_watch_def time_sub_def MakerSilenceLimit_def MakerPollInterval_def second_def int64_min_def int64_max_def)
  ultimately have r: "reach watch_init watch_step (snd (Check ?ok [] (10 ^ 12) st_watch), [False])" by simp
  from maker_alarms_alternate [OF r] r show ?thesis by auto
qed

subsection \<open>Heijunka\<close>


definition st_snap :: snap where
  "st_snap = \<lparr>sp_ready = 5, sp_in_progress = 2, sp_stopped = False, sp_makers_alive = 3, sp_current = \<lparr>lv_agents = 1, lv_wip_limit = 1\<rparr>,
     sp_now = 9, sp_master = ex_master, sp_kaizen_idle = True, sp_kaizen_last_run = 0, sp_kaizen_request = None, sp_flow = AnalyzeFlow [] 9\<rparr>"


text \<open>The flow report is what the cards say: its stages are exactly those open cards wait on, each once;
  a stage's work in progress, total wait and oldest card are the count, the sum and the maximum over its
  cards; stages come in order of total wait, and the bottleneck is a stage other than working with the
  largest total. Waits must sum to less than a 64-bit duration and cards carry names.\<close>

theorem flow_report_meets_spec:
  assumes "waits_fit (waiting now cards)"
  shows "distinct (map sf_stage (fr_stages (AnalyzeFlow cards now)))
    \<and> sf_stage ` set (fr_stages (AnalyzeFlow cards now)) = fst ` set (waiting now cards)
    \<and> (\<forall>s\<in>set (fr_stages (AnalyzeFlow cards now)). stage_spec (waiting now cards) s)
    \<and> sorted_wrt (\<lambda>a b. sf_total_wait a \<ge> sf_total_wait b) (fr_stages (AnalyzeFlow cards now))
    \<and> (\<forall>b. fr_bottleneck (AnalyzeFlow cards now) = Some b \<longrightarrow> sf_stage b \<noteq> StageWorking
         \<and> (\<forall>s\<in>set (fr_stages (AnalyzeFlow cards now)). sf_stage s \<noteq> StageWorking \<longrightarrow> sf_total_wait s \<le> sf_total_wait b))"
proof (intro conjI allI impI ballI)
  note spec = AnalyzeFlow_correct [OF assms]
  show "distinct (map sf_stage (fr_stages (AnalyzeFlow cards now)))" by (rule spec(1))
  show "sf_stage ` set (fr_stages (AnalyzeFlow cards now)) = fst ` set (waiting now cards)" by (rule spec(2))
  show "stage_spec (waiting now cards) s" if "s \<in> set (fr_stages (AnalyzeFlow cards now))" for s by (rule spec(3) [OF that])
  show "sorted_wrt (\<lambda>a b. sf_total_wait a \<ge> sf_total_wait b) (fr_stages (AnalyzeFlow cards now))"
    by (rule sorted_wrt_mono_rel [OF _ spec(4)]) (auto simp: stage_le_def)
  fix b assume b: "fr_bottleneck (AnalyzeFlow cards now) = Some b"
  show "sf_stage b \<noteq> StageWorking" using b find_first_SomeD unfolding AnalyzeFlow_bottleneck by fastforce
  show "sf_total_wait s \<le> sf_total_wait b" if "s \<in> set (fr_stages (AnalyzeFlow cards now))" "sf_stage s \<noteq> StageWorking" for s
    by (rule find_first_sorted [OF spec(4) b [unfolded AnalyzeFlow_bottleneck]]) (use that in auto)
qed

definition st_card :: "string \<Rightarrow> string list \<Rightarrow> time \<Rightarrow> flow_card" where
  "st_card cid labels t = \<lparr>fc_id = cid, fc_status = ''open'', fc_labels = labels, fc_created = t, fc_started = 0, fc_updated = t, fc_closed = 0\<rparr>"

definition st_flow_cards :: "flow_card list" where
  "st_flow_cards = [st_card ''a'' [] 5, st_card ''b'' [''needs:king''] 1, st_card ''c'' [] 8]"

theorem flow_report_meets_spec_witness:
  "waits_fit (waiting 9 st_flow_cards) \<and> map_option sf_stage (fr_bottleneck (AnalyzeFlow st_flow_cards 9)) = Some ''needs:king''
   \<and> sf_stage ` set (fr_stages (AnalyzeFlow st_flow_cards 9)) = fst ` set (waiting 9 st_flow_cards)
   \<and> distinct (map sf_stage (fr_stages (AnalyzeFlow st_flow_cards 9)))"
proof -
  have "waits_fit (waiting 9 st_flow_cards)" by code_simp
  moreover have "map_option sf_stage (fr_bottleneck (AnalyzeFlow st_flow_cards 9)) = Some ''needs:king''" by code_simp
  ultimately show ?thesis using flow_report_meets_spec by blast
qed



text \<open>C32. The reaper touches abandoned claims only. Its calls are exactly those for the claimed cards it does
  not skip, in order; it releases a card only when the card has been released fewer than \<open>MaxReaps\<close> times,
  carries no \<open>needs:viceroy\<close>, and its holder either is no station or has sent a heartbeat and is not alive
  and working on it.\<close>

theorem reaper_takes_abandoned_only:
  assumes "rc_claimed C s = (Inr claimed, s1)" "Reap (logging C) sts (s, []) = (es, (s2, calls))"
  shows "calls = map (reap_call_for sts) (filter (\<lambda>c. \<not> reap_skips sts c) claimed)
    \<and> Reap C sts s = (es, s2)
    \<and> (\<forall>c why. Release_Call c why \<in> set calls \<longrightarrow>
         c \<in> set claimed \<and> cc_reaps c < MaxReaps \<and> ''needs:viceroy'' \<notin> set (cc_labels c)
         \<and> (\<forall>h. holder c sts = Some h \<longrightarrow> ss_last_seen h \<noteq> None \<and> \<not> (ss_alive h \<and> ss_state h = StateWorking \<and> ss_card h = cc_id c)))"
proof -
  have calls: "calls = map (reap_call_for sts) (filter (\<lambda>c. \<not> reap_skips sts c) claimed)" and R: "Reap C sts s = (es, s2)"
    using assms(2) unfolding Reap_logging [OF assms(1)] by (auto simp: map_prod_def split: prod.splits)
  have "c \<in> set claimed \<and> cc_reaps c < MaxReaps \<and> ''needs:viceroy'' \<notin> set (cc_labels c) \<and> AbandonedReason c sts \<noteq> []"
    if "Release_Call c why \<in> set calls" for c why
    using that unfolding calls by (auto simp: reap_call_for_def reap_skips_def LabelNeedsPrefix_def split: if_splits)
  moreover have "ss_last_seen h \<noteq> None \<and> \<not> (ss_alive h \<and> ss_state h = StateWorking \<and> ss_card h = cc_id c)"
    if "AbandonedReason c sts \<noteq> []" "holder c sts = Some h" for c h
    using that unfolding AbandonedReason_iff by (simp add: works_on_def)
  ultimately show ?thesis using calls R by blast
qed

definition st_claim :: claimed_card where
  "st_claim = \<lparr>cc_id = ''sw-1'', cc_assignee = ''m1'', cc_revision = ''r'', cc_labels = [''line''], cc_reaps = 0\<rparr>"

definition st_reap :: "unit reap_cards" where
  "st_reap = \<lparr>rc_claimed = (\<lambda>s. (Inr [st_claim], s)), rc_release = (\<lambda>c n s. (Released, s)), rc_escalate = (\<lambda>c n s. (None, s)), rc_record = (\<lambda>c d s. s)\<rparr>"

theorem reaper_takes_abandoned_only_witness:
  "\<exists>es calls. Reap (logging st_reap) [] ((), []) = (es, ((), calls)) \<and> length calls = 1"
proof -
  obtain es s2 calls where R: "Reap (logging st_reap) [] ((), []) = (es, (s2, calls))" by (metis prod.exhaust)
  have "rc_claimed st_reap () = (Inr [st_claim], ())" by (simp add: st_reap_def)
  from reaper_takes_abandoned_only [OF this R]
  have "calls = map (reap_call_for []) (filter (\<lambda>c. \<not> reap_skips [] c) [st_claim])" by blast
  moreover have "\<not> reap_skips [] st_claim" by (simp add: reap_skips_def AbandonedReason_def st_claim_def LabelNeedsPrefix_def)
  ultimately show ?thesis using R by auto
qed

text \<open>Heijunka and the station agree on Kaizen requests. When heijunka decides to ask on a snapshot that
  shows the line, the station accepts the request and records it as pending on that master; and after it,
  whatever answers arrive, heijunka does not ask again on any snapshot that shows the recorded request and
  the same master.\<close>

theorem kaizen_request_accepted_once:
  assumes "shows_line X g r kr sn" "ShouldRequestKaizen sn p"
  shows "requestKaizen X g r now kr = (Inr (pending_on (sp_master sn) now), Some (pending_on (sp_master sn) now))
    \<and> (\<forall>answers (sn' :: snap). sp_master sn' = sp_master sn
         \<and> sp_kaizen_request sn' = foldl (\<lambda>k a. snd (answerKaizen a k)) (snd (requestKaizen X g r now kr)) answers
         \<longrightarrow> \<not> ShouldRequestKaizen sn' p')"
proof (intro conjI allI impI)
  show req: "requestKaizen X g r now kr = (Inr (pending_on (sp_master sn) now), Some (pending_on (sp_master sn) now))"
    by (rule should_request_accepted [OF assms])
  fix answers and sn' :: snap
  assume sn': "sp_master sn' = sp_master sn
    \<and> sp_kaizen_request sn' = foldl (\<lambda>k a. snd (answerKaizen a k)) (snd (requestKaizen X g r now kr)) answers"
  obtain q where "sp_kaizen_request sn' = Some q" "kr_master q = sp_master sn'"
    using sn' answers_keep_master [of "pending_on (sp_master sn) now" answers] unfolding req by (auto simp: pending_on_def)
  then show "\<not> ShouldRequestKaizen sn' p'" using request_not_repeated by blast
qed

definition st_idle_snap :: snap where
  "st_idle_snap = st_snap\<lparr>sp_ready := 0, sp_in_progress := 0\<rparr>"

theorem kaizen_request_accepted_once_witness:
  "ShouldRequestKaizen st_idle_snap DefaultPolicy
   \<and> requestKaizen ex_ext ex_guard ex_repo 9 None = (Inr (pending_on ex_master 9), Some (pending_on ex_master 9))"
proof -
  have should: "ShouldRequestKaizen st_idle_snap DefaultPolicy"
    by (simp add: ShouldRequestKaizen_def st_idle_snap_def st_snap_def)
  have "ref_of ex_repo StopRef = None" "ref_of ex_repo ''refs/heads/master'' = Some ex_master"
    by (simp_all add: ex_repo_def StopRef_def CandidatePrefix_def)
  moreover have "repo_Ref (x_git ex_ext) ex_repo (g_ref ex_guard) = Inr ex_master"
    using calculation(2) by (simp add: repo_Ref_def resolve_def is_hash_def ex_guard_simps ex_obj)
  ultimately have "shows_line ex_ext ex_guard ex_repo None st_idle_snap"
    by (simp add: shows_line_def Stopped_def stopID_def RefExists_def st_idle_snap_def st_snap_def)
  from kaizen_request_accepted_once [OF this should] should show ?thesis by (simp add: st_idle_snap_def st_snap_def)
qed

end
