(* ===== verification/Repo_Transfer.thy ===== *)
theory Repo_Transfer
  imports Repo "HOL-Library.Multiset"
begin

text \<open>
  \<open>line/gitx/transfer.go\<close> and the reading half of \<open>bundle.go\<close>: copying an object with everything it
  reaches, pushing a commit, fetching by refspec from a repository or a bundle. The recursive copy keeps its
  call stack as a list of tasks; it is a partial function, since on objects that reach themselves the source
  would not return. Refspecs and the pack parser are go-git's and are arguments.
\<close>

subsection \<open>Copying\<close>

definition copy_children :: "git_object \<Rightarrow> oid list" where
  "copy_children x =
     (case x of
        Commit_Obj t ps m \<Rightarrow> ps @ [t]
      | Tree_Obj es \<Rightarrow> map (\<lambda>(n, m, h). h) (filter (\<lambda>(n, m, h). m \<noteq> Mode_Submodule) es)
      | Blob_Obj b \<Rightarrow> []
      | Tag_Obj t \<Rightarrow> [t])"

datatype copy_task = Visit oid | Store oid git_object

type_synonym object_store = "(oid \<times> git_object) list"

definition store_object :: "time \<Rightarrow> oid \<Rightarrow> git_object \<Rightarrow> repo \<Rightarrow> repo" where
  "store_object now h x r =
     (if obj r h = None then r\<lparr>rp_objects := (h, x) # rp_objects r, rp_loose := (rp_loose r)(h \<mapsto> now)\<rparr> else r)"

text \<open>The objects written before a failure stay: the result is the error, if any, and the repository.\<close>

partial_function (option) copy :: "object_store \<Rightarrow> time \<Rightarrow> copy_task list \<Rightarrow> repo \<Rightarrow> (git_error option \<times> repo) option" where
  [code]: "copy src now tasks dst =
     (case tasks of
        [] \<Rightarrow> Some (None, dst)
      | Store h x # ts \<Rightarrow> copy src now ts (store_object now h x dst)
      | Visit h # ts \<Rightarrow>
          (if obj dst h \<noteq> None then copy src now ts dst
           else case map_of src h of
                  None \<Rightarrow> Some (Some (Object_Not_Found h), dst)
                | Some x \<Rightarrow> copy src now (map Visit (copy_children x) @ Store h x # ts) dst))"

definition PushCommit :: "gogit \<Rightarrow> time \<Rightarrow> repo \<Rightarrow> repo \<Rightarrow> string \<Rightarrow> string \<Rightarrow> (git_error option \<times> repo) option" where
  "PushCommit G now src dst commit ref =
     (case parseHash commit of
        Inl e \<Rightarrow> Some (Some e, dst)
      | Inr h \<Rightarrow>
          (case copy (rp_objects src) now [Visit h] dst of
             None \<Rightarrow> None
           | Some (Some e, dst') \<Rightarrow> Some (Some e, dst')
           | Some (None, dst') \<Rightarrow>
               (case UpdateRef G dst' ref commit [] of
                  Inr dst'' \<Rightarrow> Some (None, dst'')
                | Inl e \<Rightarrow>
                    (if e = Ref_Moved \<and> repo_Ref G dst' ref = Inr commit then Some (None, dst') else Some (Some e, dst')))))"

subsection \<open>Fetching\<close>

record refspec_ops =
  rs_valid :: "string \<Rightarrow> bool"
  rs_match :: "string \<Rightarrow> string \<Rightarrow> bool"
  rs_dst :: "string \<Rightarrow> string \<Rightarrow> string"
  rs_wildcard :: "string \<Rightarrow> bool"
  rs_reverse_match :: "string \<Rightarrow> string \<Rightarrow> bool"

datatype fetch_error = Bad_Refspec string | No_Ref_Matching string | Fetch_Git git_error

fun wanted_refs :: "refspec_ops \<Rightarrow> (string \<times> oid) list \<Rightarrow> string list \<Rightarrow> (string \<rightharpoonup> oid) \<Rightarrow> fetch_error + (string \<rightharpoonup> oid)" where
  "wanted_refs R refs [] w = Inr w"
| "wanted_refs R refs (spec # specs) w =
     (if \<not> rs_valid R spec then Inl (Bad_Refspec spec)
      else let hits = filter (\<lambda>r. rs_match R spec (fst r)) refs in
           if hits = [] \<and> \<not> rs_wildcard R spec then Inl (No_Ref_Matching spec)
           else wanted_refs R refs specs (foldl (\<lambda>w r. w(rs_dst R spec (fst r) \<mapsto> snd r)) w hits))"

definition wanted_names :: "refspec_ops \<Rightarrow> (string \<times> oid) list \<Rightarrow> string list \<Rightarrow> string list" where
  "wanted_names R refs specs =
     sort (remdups (concat (map (\<lambda>spec. map (\<lambda>r. rs_dst R spec (fst r)) (filter (\<lambda>r. rs_match R spec (fst r)) refs)) specs)))"

fun copy_each :: "object_store \<Rightarrow> time \<Rightarrow> oid list \<Rightarrow> repo \<Rightarrow> (git_error option \<times> repo) option" where
  "copy_each src now [] dst = Some (None, dst)"
| "copy_each src now (h # hs) dst =
     (case copy src now [Visit h] dst of
        None \<Rightarrow> None
      | Some (Some e, dst') \<Rightarrow> Some (Some e, dst')
      | Some (None, dst') \<Rightarrow> copy_each src now hs dst')"

fun set_each :: "gogit \<Rightarrow> (string \<rightharpoonup> oid) \<Rightarrow> string list \<Rightarrow> repo \<Rightarrow> git_error option \<times> repo" where
  "set_each G w [] dst = (None, dst)"
| "set_each G w (n # ns) dst =
     (case setRef G dst n (the (w n)) of Inl e \<Rightarrow> (Some e, dst) | Inr dst' \<Rightarrow> set_each G w ns dst')"

definition stale_refs :: "refspec_ops \<Rightarrow> (string \<rightharpoonup> oid) \<Rightarrow> string list \<Rightarrow> repo \<Rightarrow> string list" where
  "stale_refs R w specs dst = filter (\<lambda>n. w n = None \<and> list_ex (\<lambda>spec. rs_reverse_match R spec n) specs) (map fst (rp_refs dst))"

definition fetchFrom :: "gogit \<Rightarrow> refspec_ops \<Rightarrow> time \<Rightarrow> (string \<times> oid) list \<Rightarrow> object_store \<Rightarrow> bool \<Rightarrow> string list \<Rightarrow> repo \<Rightarrow> (fetch_error option \<times> repo) option" where
  "fetchFrom G R now refs objects prune specs dst =
     (case wanted_refs R refs specs Map.empty of
        Inl e \<Rightarrow> Some (Some e, dst)
      | Inr w \<Rightarrow>
          (let names = wanted_names R refs specs in
           case copy_each objects now (map (\<lambda>n. the (w n)) names) dst of
             None \<Rightarrow> None
           | Some (Some e, dst1) \<Rightarrow> Some (Some (Fetch_Git e), dst1)
           | Some (None, dst1) \<Rightarrow>
               (case set_each G w names dst1 of
                  (Some e, dst2) \<Rightarrow> Some (Some (Fetch_Git e), dst2)
                | (None, dst2) \<Rightarrow> Some (None, if prune then foldl DeleteRef dst2 (stale_refs R w specs dst2) else dst2))))"

text \<open>A repository as a source: its refs with the branch its \<open>HEAD\<close> names; \<open>None\<close> when that is unborn.\<close>

definition repoSource :: "repo \<Rightarrow> oid option \<Rightarrow> (string \<times> oid) list" where
  "repoSource r head = (case head of None \<Rightarrow> rp_refs r | Some h \<Rightarrow> (''HEAD'', h) # rp_refs r)"

definition Fetch :: "gogit \<Rightarrow> refspec_ops \<Rightarrow> time \<Rightarrow> repo \<Rightarrow> oid option \<Rightarrow> bool \<Rightarrow> string list \<Rightarrow> repo \<Rightarrow> (fetch_error option \<times> repo) option" where
  "Fetch G R now src head prune specs dst = fetchFrom G R now (repoSource src head) (rp_objects src) prune specs dst"

subsection \<open>A copy returns\<close>

text \<open>Object ids are hashes of contents, so an object is older than whatever names it: some rank falls along
  every edge.\<close>

definition acyclic_objects :: "object_store \<Rightarrow> bool" where
  "acyclic_objects src \<longleftrightarrow> (\<exists>rank :: oid \<Rightarrow> nat. \<forall>h x c. map_of src h = Some x \<longrightarrow> c \<in> set (copy_children x) \<longrightarrow> rank c < rank h)"

fun task_weight :: "(oid \<Rightarrow> nat) \<Rightarrow> copy_task \<Rightarrow> nat" where
  "task_weight rank (Visit h) = Suc (rank h)"
| "task_weight rank (Store h x) = 0"

lemma copy_total_rank:
  fixes rank :: "oid \<Rightarrow> nat"
  assumes rank: "\<forall>h x c. map_of src h = Some x \<longrightarrow> c \<in> set (copy_children x) \<longrightarrow> rank c < rank h"
  shows "\<exists>res. copy src now tasks dst = Some res"
proof (induction "mset (map (task_weight rank) tasks)" arbitrary: tasks dst rule: wf_induct_rule [OF wf_mult [OF wf_less_than]])
  case (1 tasks)
  show ?case
  proof (cases tasks)
    case Nil
    then show ?thesis by (simp add: copy.simps)
  next
    case (Cons t ts)
    have smaller: "(mset (map (task_weight rank) ts), mset (map (task_weight rank) tasks)) \<in> mult less_than"
      by (simp add: Cons subset_implies_mult)
    show ?thesis
    proof (cases t)
      case (Store h x)
      then show ?thesis using 1 [OF smaller] by (simp add: Cons copy.simps [of _ _ "Store h x # ts"])
    next
      case (Visit h)
      show ?thesis
      proof (cases "obj dst h = None \<and> map_of src h \<noteq> None")
        case False
        then show ?thesis using 1 [OF smaller] by (auto simp: Cons Visit copy.simps [of _ _ "Visit h # ts"])
      next
        case True
        then obtain x where x: "map_of src h = Some x" by auto
        let ?new = "map Visit (copy_children x) @ Store h x # ts"
        have "\<forall>k\<in>#mset (map (task_weight rank) (map Visit (copy_children x) @ [Store h x])). \<exists>j\<in>#{#Suc (rank h)#}. (k, j) \<in> less_than"
          using rank x by auto
        then have "(mset (map (task_weight rank) ts) + mset (map (task_weight rank) (map Visit (copy_children x) @ [Store h x])),
            mset (map (task_weight rank) ts) + {#Suc (rank h)#}) \<in> mult less_than"
          by (intro one_step_implies_mult) auto
        then have "(mset (map (task_weight rank) ?new), mset (map (task_weight rank) tasks)) \<in> mult less_than"
          by (simp add: Cons Visit ac_simps)
        then obtain res where "copy src now ?new dst = Some res" using 1 by blast
        then show ?thesis using True x by (simp add: Cons Visit copy.simps [of _ _ "Visit h # ts"])
      qed
    qed
  qed
qed

lemma copy_total: "acyclic_objects src \<Longrightarrow> \<exists>res. copy src now tasks dst = Some res"
  unfolding acyclic_objects_def using copy_total_rank by blast

subsection \<open>A copy keeps the destination closed\<close>

text \<open>The comment of \<open>objectCopier\<close>: any object the destination holds has its whole closure there too.\<close>

definition closed_objects :: "repo \<Rightarrow> bool" where
  "closed_objects r \<longleftrightarrow> (\<forall>h x. obj r h = Some x \<longrightarrow> (\<forall>c\<in>set (copy_children x). obj r c \<noteq> None))"

definition covers :: "repo \<Rightarrow> copy_task list \<Rightarrow> oid \<Rightarrow> bool" where
  "covers dst us c \<longleftrightarrow> obj dst c \<noteq> None \<or> Visit c \<in> set us \<or> (\<exists>y. Store c y \<in> set us)"

definition tasks_ok :: "object_store \<Rightarrow> repo \<Rightarrow> copy_task list \<Rightarrow> bool" where
  "tasks_ok src dst tasks \<longleftrightarrow>
     (\<forall>us h x vs. tasks = us @ Store h x # vs \<longrightarrow> map_of src h = Some x \<and> (\<forall>c\<in>set (copy_children x). covers dst us c))"

lemma obj_store_object: "obj (store_object now h x dst) k = (if k = h \<and> obj dst h = None then Some x else obj dst k)"
  by (simp add: store_object_def)

lemma tasks_ok_tl:
  assumes "tasks_ok src dst (t # ts)" "\<And>us c. covers dst (t # us) c \<Longrightarrow> covers dst' us c"
  shows "tasks_ok src dst' ts"
  unfolding tasks_ok_def
proof (intro allI impI)
  fix us h x vs assume "ts = us @ Store h x # vs"
  then have "t # ts = (t # us) @ Store h x # vs" by simp
  then show "map_of src h = Some x \<and> (\<forall>c\<in>set (copy_children x). covers dst' us c)"
    using assms unfolding tasks_ok_def by blast
qed

lemma tasks_ok_expand:
  assumes ok: "tasks_ok src dst (Visit h # ts)" and x: "map_of src h = Some x"
  shows "tasks_ok src dst (map Visit (copy_children x) @ Store h x # ts)"
  unfolding tasks_ok_def
proof (intro allI impI)
  fix us h' x' vs assume eq: "map Visit (copy_children x) @ Store h x # ts = us @ Store h' x' # vs"
  then consider (here) "us = map Visit (copy_children x)" "h' = h" "x' = x"
    | (later) ws where "us = map Visit (copy_children x) @ Store h x # ws" "ts = ws @ Store h' x' # vs"
    by (auto simp: append_eq_append_conv2 Cons_eq_append_conv append_eq_Cons_conv map_eq_append_conv)
  then show "map_of src h' = Some x' \<and> (\<forall>c\<in>set (copy_children x'). covers dst us c)"
  proof cases
    case here
    then show ?thesis using x by (auto simp: covers_def)
  next
    case later
    then have "Visit h # ts = (Visit h # ws) @ Store h' x' # vs" by simp
    then have "map_of src h' = Some x' \<and> (\<forall>c\<in>set (copy_children x'). covers dst (Visit h # ws) c)"
      using ok unfolding tasks_ok_def by blast
    then show ?thesis using later(1) by (auto simp: covers_def)
  qed
qed

definition extends :: "object_store \<Rightarrow> repo \<Rightarrow> repo \<Rightarrow> bool" where
  "extends src dst dst' \<longleftrightarrow> rp_refs dst' = rp_refs dst
     \<and> (\<forall>h x. obj dst h = Some x \<longrightarrow> obj dst' h = Some x)
     \<and> (\<forall>h x. obj dst' h = Some x \<longrightarrow> obj dst h = Some x \<or> map_of src h = Some x)"

lemma extends_refl [simp]: "extends src dst dst"
  by (simp add: extends_def)

lemma extends_trans: "extends src a b \<Longrightarrow> extends src b c \<Longrightarrow> extends src a c"
  unfolding extends_def by metis

lemma extends_store: "map_of src h = Some x \<Longrightarrow> extends src dst (store_object now h x dst)"
  by (auto simp: extends_def obj_store_object) (auto simp: store_object_def)

definition copy_post :: "object_store \<Rightarrow> copy_task list \<Rightarrow> repo \<Rightarrow> git_error option \<times> repo \<Rightarrow> bool" where
  "copy_post src tasks dst res \<longleftrightarrow>
     (closed_objects dst \<longrightarrow> tasks_ok src dst tasks \<longrightarrow>
        closed_objects (snd res) \<and> extends src dst (snd res)
        \<and> (fst res = None \<longrightarrow> (\<forall>h. (Visit h \<in> set tasks \<or> (\<exists>x. Store h x \<in> set tasks)) \<longrightarrow> obj (snd res) h \<noteq> None)))"

lemma store_closed:
  assumes "closed_objects dst" "tasks_ok src dst (Store h x # ts)"
  shows "closed_objects (store_object now h x dst)" "tasks_ok src (store_object now h x dst) ts" "map_of src h = Some x"
proof -
  have h: "map_of src h = Some x \<and> (\<forall>c\<in>set (copy_children x). covers dst [] c)"
    using assms(2) unfolding tasks_ok_def by blast
  then show "map_of src h = Some x" by simp
  show "closed_objects (store_object now h x dst)"
    using assms(1) h unfolding closed_objects_def obj_store_object covers_def by (auto split: if_splits)
  show "tasks_ok src (store_object now h x dst) ts"
    by (rule tasks_ok_tl [OF assms(2)]) (auto simp: covers_def obj_store_object split: if_splits)
qed

lemma copy_post_store:
  assumes "copy_post src ts (store_object now h x dst) res"
  shows "copy_post src (Store h x # ts) dst res"
  unfolding copy_post_def
proof (intro impI)
  let ?d = "store_object now h x dst"
  assume c: "closed_objects dst" "tasks_ok src dst (Store h x # ts)"
  note s = store_closed(1,2) [OF c, of now] store_closed(3) [OF c]
  have r: "closed_objects (snd res)" "extends src ?d (snd res)"
      "fst res = None \<longrightarrow> (\<forall>k. (Visit k \<in> set ts \<or> (\<exists>y. Store k y \<in> set ts)) \<longrightarrow> obj (snd res) k \<noteq> None)"
    using assms s(1,2) unfolding copy_post_def by blast+
  have "obj ?d h \<noteq> None" by (simp add: obj_store_object)
  then have "obj (snd res) h \<noteq> None" using r(2) unfolding extends_def by blast
  then show "closed_objects (snd res) \<and> extends src dst (snd res)
    \<and> (fst res = None \<longrightarrow> (\<forall>k. (Visit k \<in> set (Store h x # ts) \<or> (\<exists>y. Store k y \<in> set (Store h x # ts))) \<longrightarrow> obj (snd res) k \<noteq> None))"
    using r extends_trans [OF extends_store [OF s(3)] r(2)] by auto
qed

lemma copy_post_skip:
  assumes "copy_post src ts dst res" "obj dst h \<noteq> None"
  shows "copy_post src (Visit h # ts) dst res"
  unfolding copy_post_def
proof (intro impI)
  assume c: "closed_objects dst" "tasks_ok src dst (Visit h # ts)"
  have "tasks_ok src dst ts" by (rule tasks_ok_tl [OF c(2)]) (use assms(2) in \<open>auto simp: covers_def\<close>)
  then have r: "closed_objects (snd res)" "extends src dst (snd res)"
      "fst res = None \<longrightarrow> (\<forall>k. (Visit k \<in> set ts \<or> (\<exists>y. Store k y \<in> set ts)) \<longrightarrow> obj (snd res) k \<noteq> None)"
    using assms(1) c(1) unfolding copy_post_def by blast+
  moreover have "obj (snd res) h \<noteq> None" using r(2) assms(2) unfolding extends_def by blast
  ultimately show "closed_objects (snd res) \<and> extends src dst (snd res)
    \<and> (fst res = None \<longrightarrow> (\<forall>k. (Visit k \<in> set (Visit h # ts) \<or> (\<exists>y. Store k y \<in> set (Visit h # ts))) \<longrightarrow> obj (snd res) k \<noteq> None))"
    by auto
qed

lemma copy_post_expand:
  assumes "copy_post src (map Visit (copy_children x) @ Store h x # ts) dst res" "map_of src h = Some x"
  shows "copy_post src (Visit h # ts) dst res"
  using assms tasks_ok_expand [of src dst h ts x] unfolding copy_post_def by auto

definition copy_body :: "(object_store \<Rightarrow> time \<Rightarrow> copy_task list \<Rightarrow> repo \<Rightarrow> (git_error option \<times> repo) option) \<Rightarrow> object_store \<Rightarrow> time \<Rightarrow> copy_task list \<Rightarrow> repo
    \<Rightarrow> (git_error option \<times> repo) option" where
  "copy_body f src now tasks dst =
     (case tasks of
        [] \<Rightarrow> Some (None, dst)
      | Store h x # ts \<Rightarrow> f src now ts (store_object now h x dst)
      | Visit h # ts \<Rightarrow>
          (if obj dst h \<noteq> None then f src now ts dst
           else case map_of src h of
                  None \<Rightarrow> Some (Some (Object_Not_Found h), dst)
                | Some x \<Rightarrow> f src now (map Visit (copy_children x) @ Store h x # ts) dst))"

lemma copy_body_post:
  assumes IH: "\<And>src now tasks dst res. f src now tasks dst = Some res \<Longrightarrow> copy_post src tasks dst res"
    and body: "copy_body f src now tasks dst = Some res"
  shows "copy_post src tasks dst res"
proof (cases tasks)
  case Nil
  then show ?thesis using body by (auto simp: copy_post_def copy_body_def)
next
  case (Cons t ts)
  show ?thesis
  proof (cases t)
    case (Store h x)
    then have "f src now ts (store_object now h x dst) = Some res" using body Cons by (simp add: copy_body_def)
    then show ?thesis unfolding Cons Store by (rule copy_post_store [OF IH])
  next
    case (Visit h)
    consider (has) "obj dst h \<noteq> None" | (missing) "obj dst h = None" "map_of src h = None"
      | (go) x where "obj dst h = None" "map_of src h = Some x" by (cases "map_of src h") auto
    then show ?thesis
    proof cases
      case has
      then have "f src now ts dst = Some res" using body Cons Visit by (simp add: copy_body_def)
      from copy_post_skip [OF IH [OF this] has] show ?thesis unfolding Cons Visit .
    next
      case missing
      then have "res = (Some (Object_Not_Found h), dst)" using body Cons Visit by (simp add: copy_body_def)
      then show ?thesis by (simp add: copy_post_def)
    next
      case go
      then have "f src now (map Visit (copy_children x) @ Store h x # ts) dst = Some res"
        using body Cons Visit by (simp add: copy_body_def)
      from copy_post_expand [OF IH [OF this] go(2)] show ?thesis unfolding Cons Visit .
    qed
  qed
qed

lemma copy_correct:
  assumes "copy src now tasks dst = Some res"
  shows "copy_post src tasks dst res"
  by (rule copy.raw_induct [OF _ assms, where P = "\<lambda>src now tasks dst res. copy_post src tasks dst res"])
    (rule copy_body_post [unfolded copy_body_def])

lemma copy_one:
  assumes "copy src now [Visit h] dst = Some (err, dst')" "closed_objects dst"
  shows "closed_objects dst'" "extends src dst dst'" "err = None \<Longrightarrow> obj dst' h \<noteq> None"
proof -
  have "tasks_ok src dst [Visit h]" by (auto simp: tasks_ok_def Cons_eq_append_conv)
  then show "closed_objects dst'" "extends src dst dst'" "err = None \<Longrightarrow> obj dst' h \<noteq> None"
    using copy_correct [OF assms(1)] assms(2) by (auto simp: copy_post_def)
qed

text \<open>What a commit needs is everything reached from it.\<close>

inductive needs_object :: "repo \<Rightarrow> oid \<Rightarrow> oid \<Rightarrow> bool" for r where
  needs_self: "needs_object r h h"
| needs_child: "needs_object r h k \<Longrightarrow> obj r k = Some x \<Longrightarrow> c \<in> set (copy_children x) \<Longrightarrow> needs_object r h c"

lemma closed_complete:
  assumes "closed_objects r" "obj r h \<noteq> None" "needs_object r h k"
  shows "obj r k \<noteq> None"
  using assms(3,1,2)
proof (induction rule: needs_object.induct)
  case (needs_child h k x c)
  then show ?case unfolding closed_objects_def by blast
qed

subsection \<open>A push\<close>

lemma closed_objects_refs [simp]: "closed_objects (r\<lparr>rp_refs := refs\<rparr>) = closed_objects r"
  by (simp add: closed_objects_def)

lemma closed_objects_cong: "rp_objects r = rp_objects r' \<Longrightarrow> closed_objects r = closed_objects r'"
  by (simp add: closed_objects_def)

lemma UpdateRef_objects: "UpdateRef G r k v old = Inr r' \<Longrightarrow> rp_objects r' = rp_objects r"
  by (auto simp: UpdateRef_Inr setRef_Inr)

lemma PushCommit_total:
  assumes "acyclic_objects (rp_objects src)"
  shows "\<exists>res. PushCommit G now src dst commit ref = Some res"
proof (cases "parseHash commit")
  case (Inr h)
  obtain err dst' where "copy (rp_objects src) now [Visit h] dst = Some (err, dst')"
    using copy_total [OF assms, of now "[Visit h]" dst] by auto
  with Inr show ?thesis by (auto simp: PushCommit_def split: option.splits sum.splits)
qed (simp add: PushCommit_def)

lemma PushCommit_cases:
  assumes "PushCommit G now src dst commit ref = Some (err, dst')"
  obtains (bad_id) e where "parseHash commit = Inl e" "err = Some e" "dst' = dst"
    | (copy_failed) h e where "parseHash commit = Inr h" "err = Some e" "copy (rp_objects src) now [Visit h] dst = Some (Some e, dst')"
    | (pushed) h dst1 where "parseHash commit = Inr h" "err = None" "copy (rp_objects src) now [Visit h] dst = Some (None, dst1)"
        "UpdateRef G dst1 ref commit [] = Inr dst'"
    | (there) h where "parseHash commit = Inr h" "err = None" "copy (rp_objects src) now [Visit h] dst = Some (None, dst')"
        "repo_Ref G dst' ref = Inr commit"
    | (refused) h e where "parseHash commit = Inr h" "err = Some e" "copy (rp_objects src) now [Visit h] dst = Some (None, dst')"
  using assms by (auto simp: PushCommit_def split: sum.splits option.splits prod.splits if_splits)

lemma PushCommit_objects:
  assumes "PushCommit G now src dst commit ref = Some (err, dst')" "closed_objects dst"
  shows "closed_objects dst' \<and> (\<forall>h x. obj dst h = Some x \<longrightarrow> obj dst' h = Some x)
    \<and> (\<forall>k. k \<noteq> ref \<longrightarrow> ref_of dst' k = ref_of dst k)"
  using assms(1)
proof (cases rule: PushCommit_cases)
  case (pushed h dst1)
  note c = copy_one [OF pushed(3) assms(2)]
  have "rp_objects dst' = rp_objects dst1" "\<forall>k. k \<noteq> ref \<longrightarrow> ref_of dst' k = ref_of dst1 k"
    using pushed(4) UpdateRef_objects git_refs.cas_other by blast+
  then show ?thesis using c closed_objects_cong [of dst' dst1] by (simp add: extends_def)
qed (use assms(2) copy_one in \<open>auto simp: extends_def\<close>)

lemma PushCommit_succeeds:
  assumes "PushCommit G now src dst commit ref = Some (None, dst')" "closed_objects dst"
  shows "is_hash commit \<and> obj dst' (new_hash commit) \<noteq> None
    \<and> (ref_of dst' ref = Some (new_hash commit) \<or> repo_Ref G dst' ref = Inr commit)"
  using assms(1)
proof (cases rule: PushCommit_cases)
  case (pushed h dst1)
  then show ?thesis
    using copy_one [OF pushed(3) assms(2)] UpdateRef_objects [OF pushed(4)] git_refs.cas_set [OF pushed(4)]
    by (auto simp: parseHash_def split: if_splits)
next
  case (there h)
  then show ?thesis using copy_one [OF there(3) assms(2)] by (auto simp: parseHash_def split: if_splits)
qed simp_all

end
