(* ===== verification/Repo_History.thy ===== *)
theory Repo_History
  imports Repo_Transfer
begin

text \<open>
  The history queries of \<open>line/gitx/git.go\<close> and the bundle header of \<open>bundle.go\<close>. Walking commits is
  go-git's: \<open>hi_walk\<close> answers the commits met from one, skipping those given, and \<open>hi_ancestor\<close> whether
  one is an ancestor of another; what the source relies on of them is the predicate \<open>lawful_history\<close>.
\<close>

record history =
  hi_walk :: "object_store \<Rightarrow> oid \<Rightarrow> oid list \<Rightarrow> git_error + oid list"
  hi_ancestor :: "object_store \<Rightarrow> oid \<Rightarrow> oid \<Rightarrow> git_error + bool"

definition CommitsSince :: "gogit \<Rightarrow> history \<Rightarrow> repo \<Rightarrow> string \<Rightarrow> string \<Rightarrow> git_error + oid list" where
  "CommitsSince G W r base tip =
     (case resolveCommit G r base of
        Inl e \<Rightarrow> Inl e
      | Inr (b, _) \<Rightarrow>
          (case hi_walk W (rp_objects r) b [] of
             Inl e \<Rightarrow> Inl e
           | Inr known \<Rightarrow>
               (case resolveCommit G r tip of
                  Inl e \<Rightarrow> Inl e
                | Inr (t, _) \<Rightarrow> hi_walk W (rp_objects r) t known)))"

definition IsAncestor :: "gogit \<Rightarrow> history \<Rightarrow> repo \<Rightarrow> string \<Rightarrow> string \<Rightarrow> git_error + bool" where
  "IsAncestor G W r commit descendant =
     (case resolveCommit G r commit of
        Inl e \<Rightarrow> Inl e
      | Inr (a, _) \<Rightarrow>
          (case resolveCommit G r descendant of Inl e \<Rightarrow> Inl e | Inr (d, _) \<Rightarrow> hi_ancestor W (rp_objects r) a d))"

fun reachable_loop :: "gogit \<Rightarrow> history \<Rightarrow> repo \<Rightarrow> oid \<Rightarrow> string list \<Rightarrow> git_error + bool" where
  "reachable_loop G W r target [] = Inr False"
| "reachable_loop G W r target (n # ns) =
     (case ref_of r n of
        None \<Rightarrow> Inl (Ref_Not_Found n)
      | Some h \<Rightarrow>
          (case resolveCommit G r h of
             Inl e \<Rightarrow> reachable_loop G W r target ns
           | Inr (tip, _) \<Rightarrow>
               (if tip = target then Inr True
                else case hi_ancestor W (rp_objects r) target tip of
                       Inl e \<Rightarrow> Inl e
                     | Inr True \<Rightarrow> Inr True
                     | Inr False \<Rightarrow> reachable_loop G W r target ns)))"

definition ReachableFromRefs :: "gogit \<Rightarrow> history \<Rightarrow> repo \<Rightarrow> string \<Rightarrow> string \<Rightarrow> git_error + bool" where
  "ReachableFromRefs G W r commit pre =
     (case commit_object r (new_hash commit) of
        Inl e \<Rightarrow> Inl e
      | Inr (target, _) \<Rightarrow> reachable_loop G W r target (RefNames r pre))"

definition SetRef :: "gogit \<Rightarrow> repo \<Rightarrow> string \<Rightarrow> string \<Rightarrow> git_error + repo" where
  "SetRef G r ref new_value = setRef G r ref new_value"

subsection \<open>Bundles\<close>

definition bundleSignature :: string where "bundleSignature = ''# v2 git bundle''"

datatype bundle_error = Not_A_Bundle | Bundle_Truncated | Bad_Prerequisite string | Bad_Ref_Line string
  | Missing_Prerequisite oid | Bad_Pack string | Bundle_Fetch fetch_error

text \<open>\<open>br.ReadString\<close>: up to and including a newline, \<open>None\<close> at the end of the input without one.\<close>

definition read_line :: "string \<Rightarrow> (string \<times> string) option" where
  "read_line s = (if newline \<in> set s then Some (takeWhile (\<lambda>c. c \<noteq> newline) s, tl (dropWhile (\<lambda>c. c \<noteq> newline) s)) else None)"

lemma read_line_shorter: "read_line s = Some (l, rest) \<Longrightarrow> length rest < length s"
proof -
  assume "read_line s = Some (l, rest)"
  then have "newline \<in> set s" "rest = tl (dropWhile (\<lambda>c. c \<noteq> newline) s)" by (auto simp: read_line_def split: if_splits)
  moreover from this(1) have "s \<noteq> []" by auto
  ultimately show ?thesis using length_dropWhile_le [of "\<lambda>c. c \<noteq> newline" s] by (cases s) auto
qed

definition cut_space :: "string \<Rightarrow> string \<times> string" where
  "cut_space l = (takeWhile (\<lambda>c. c \<noteq> CHR '' '') l, drop 1 (dropWhile (\<lambda>c. c \<noteq> CHR '' '') l))"

function header_lines :: "gogit \<Rightarrow> oid list \<Rightarrow> (string \<times> oid) list \<Rightarrow> string \<Rightarrow> bundle_error + (oid list \<times> (string \<times> oid) list \<times> string)" where
  "header_lines G pres refs s =
     (case read_line s of
        None \<Rightarrow> Inl Bundle_Truncated
      | Some (l, rest) \<Rightarrow>
          (if l = [] then Inr (pres, refs, rest)
           else let (oid_text, name) = cut_space l in
                if has_prefix oid_text ''-'' then
                  (if \<not> is_hash (drop 1 oid_text) then Inl (Bad_Prerequisite l)
                   else header_lines G (pres @ [new_hash (drop 1 oid_text)]) refs rest)
                else if \<not> is_hash oid_text \<or> \<not> gg_valid_ref G name then Inl (Bad_Ref_Line l)
                else header_lines G pres (refs @ [(name, new_hash oid_text)]) rest))"
  by pat_completeness auto
termination
  by (relation "measure (\<lambda>(G, pres, refs, s). length s)") (auto dest: read_line_shorter)

definition readBundleHeader :: "gogit \<Rightarrow> string \<Rightarrow> bundle_error + (oid list \<times> (string \<times> oid) list \<times> string)" where
  "readBundleHeader G s =
     (case read_line s of
        None \<Rightarrow> Inl Not_A_Bundle
      | Some (l, rest) \<Rightarrow> (if l \<noteq> bundleSignature then Inl Not_A_Bundle else header_lines G [] [] rest))"

fun first_missing :: "gogit \<Rightarrow> history \<Rightarrow> repo \<Rightarrow> string \<Rightarrow> oid list \<Rightarrow> oid option" where
  "first_missing G W r within [] = None"
| "first_missing G W r within (p # ps) =
     (case ReachableFromRefs G W r p within of Inr True \<Rightarrow> first_missing G W r within ps | _ \<Rightarrow> Some p)"

text \<open>\<open>unpack\<close> is go-git's pack parser, which may read delta bases from the destination.\<close>

definition FetchBundle :: "gogit \<Rightarrow> history \<Rightarrow> refspec_ops \<Rightarrow> (object_store \<Rightarrow> string \<Rightarrow> string + object_store) \<Rightarrow> time \<Rightarrow> string \<Rightarrow> string \<Rightarrow> bool \<Rightarrow> string list \<Rightarrow> repo
    \<Rightarrow> (bundle_error option \<times> repo) option" where
  "FetchBundle G W R unpack now bundle within prune specs dst =
     (case readBundleHeader G bundle of
        Inl e \<Rightarrow> Some (Some e, dst)
      | Inr (pres, refs, pack) \<Rightarrow>
          (case first_missing G W dst within pres of
             Some p \<Rightarrow> Some (Some (Missing_Prerequisite p), dst)
           | None \<Rightarrow>
               (case unpack (rp_objects dst) pack of
                  Inl e \<Rightarrow> Some (Some (Bad_Pack e), dst)
                | Inr objects \<Rightarrow> map_option (map_prod (map_option Bundle_Fetch) id) (fetchFrom G R now refs objects prune specs dst))))"

subsection \<open>Commits since a base\<close>

text \<open>Ancestry of commits, and what a walk promises.\<close>

inductive ancestor :: "object_store \<Rightarrow> oid \<Rightarrow> oid \<Rightarrow> bool" for objs where
  ancestor_self: "ancestor objs c c"
| ancestor_parent: "ancestor objs p d \<Longrightarrow> map_of objs p = Some (Commit_Obj t ps m) \<Longrightarrow> q \<in> set ps \<Longrightarrow> ancestor objs q d"

inductive walked :: "object_store \<Rightarrow> oid set \<Rightarrow> oid \<Rightarrow> oid \<Rightarrow> bool" for objs seen tip where
  walked_tip: "tip \<notin> seen \<Longrightarrow> walked objs seen tip tip"
| walked_parent: "walked objs seen tip p \<Longrightarrow> map_of objs p = Some (Commit_Obj t ps m) \<Longrightarrow> q \<in> set ps \<Longrightarrow> q \<notin> seen \<Longrightarrow> walked objs seen tip q"

definition lawful_history :: "history \<Rightarrow> bool" where
  "lawful_history W \<longleftrightarrow>
     (\<forall>objs c seen l. hi_walk W objs c seen = Inr l \<longrightarrow> set l = {k. walked objs (set seen) c k})
   \<and> (\<forall>objs a d b. hi_ancestor W objs a d = Inr b \<longrightarrow> b = ancestor objs a d)"

lemma ancestor_trans: "ancestor objs b c \<Longrightarrow> ancestor objs a b \<Longrightarrow> ancestor objs a c"
  by (rotate_tac, induction rule: ancestor.induct) (auto intro: ancestor_parent)

lemma walked_ancestor: "walked objs seen tip k \<Longrightarrow> ancestor objs k tip \<and> k \<notin> seen"
  by (induction rule: walked.induct) (auto intro: ancestor.intros)

text \<open>Skipping what is known loses nothing when the known commits are closed under parents.\<close>

lemma ancestor_walked:
  assumes closed: "\<And>p t ps m. p \<in> seen \<Longrightarrow> map_of objs p = Some (Commit_Obj t ps m) \<Longrightarrow> set ps \<subseteq> seen"
    and "ancestor objs k tip"
  shows "k \<in> seen \<or> walked objs seen tip k"
  using assms(2)
proof (induction rule: ancestor.induct)
  case (ancestor_self c)
  then show ?case using walked_tip by auto
next
  case (ancestor_parent p d t ps m q)
  then show ?case using closed walked_parent by blast
qed

lemma walk_empty_seen: "walked objs {} tip k \<longleftrightarrow> ancestor objs k tip"
  using walked_ancestor ancestor_walked [of "{}" objs k tip] by blast

lemma CommitsSince_correct:
  assumes "lawful_history W" "CommitsSince G W r base tip = Inr l"
    and "resolveCommit G r base = Inr (b, x)" "resolveCommit G r tip = Inr (t, y)"
  shows "set l = {k. ancestor (rp_objects r) k t \<and> \<not> ancestor (rp_objects r) k b}"
proof -
  let ?o = "rp_objects r"
  obtain known where k: "hi_walk W ?o b [] = Inr known" "hi_walk W ?o t known = Inr l"
    using assms(2-4) by (auto simp: CommitsSince_def split: sum.splits)
  have "set known = {k. walked ?o {} b k}" using assms(1) k(1) unfolding lawful_history_def by fastforce
  then have known: "set known = {k. ancestor ?o k b}" by (simp add: walk_empty_seen)
  have l: "set l = {k. walked ?o (set known) t k}" using assms(1) k(2) unfolding lawful_history_def by blast
  have closed: "set ps \<subseteq> set known" if "p \<in> set known" "map_of ?o p = Some (Commit_Obj t ps m)" for p t ps m
    using that ancestor_parent [of ?o p b t ps m] by (auto simp: known)
  have "walked ?o (set known) t k \<longleftrightarrow> ancestor ?o k t \<and> k \<notin> set known" for k
    using walked_ancestor [of ?o "set known" t k] ancestor_walked [of "set known" ?o k t, OF closed] by auto
  then show ?thesis by (simp add: l known)
qed

lemma resolveCommit_tuple: "resolveCommit G r v = Inr c \<Longrightarrow> \<exists>h rest. c = (h, rest)"
  by (cases c) auto

end
