(* ===== verification/Tail_Buffer.thy ===== *)
theory Tail_Buffer
  imports Go_Prelude
begin

text \<open>
  The two buffers that keep the end of a run's output: the ring of \<open>line/witness/evidence.go\<close> and the slice
  of \<open>line/maker/runner.go\<close>. Both interpret one interface, keeping the last bytes written; the ring also
  marks that it dropped some. The ring's overwriting loop is a partial function: it would not return on a ring
  without room at its start index, which the invariant excludes.
\<close>

definition last_n :: "nat \<Rightarrow> string \<Rightarrow> string" where
  "last_n n s = drop (length s - n) s"

lemma length_last_n [simp]: "length (last_n n s) = min n (length s)"
  by (simp add: last_n_def)

lemma last_n_short: "length s \<le> n \<Longrightarrow> last_n n s = s"
  by (simp add: last_n_def)

lemma last_n_append: "last_n n (last_n n s @ p) = last_n n (s @ p)"
  by (cases "length s \<le> n") (simp_all add: last_n_def add.commute)

lemma last_n_long: "n \<le> length p \<Longrightarrow> last_n n (s @ p) = last_n n p"
  by (simp add: last_n_def)

subsection \<open>The interface\<close>

fun put_all :: "(string \<Rightarrow> 'b \<Rightarrow> 'b option) \<Rightarrow> string list \<Rightarrow> 'b \<Rightarrow> 'b option" where
  "put_all f [] b = Some b"
| "put_all f (p # ps) b = Option.bind (f p b) (put_all f ps)"

locale tail_keeper =
  fixes fresh :: "'b"
    and put :: "string \<Rightarrow> 'b \<Rightarrow> 'b option"
    and kept :: "'b \<Rightarrow> string"
    and ok :: "'b \<Rightarrow> bool"
    and limit :: nat
  assumes ok_fresh: "ok fresh"
    and kept_fresh: "kept fresh = []"
    and put_ok: "ok b \<Longrightarrow> \<exists>b'. put p b = Some b' \<and> ok b' \<and> kept b' = last_n limit (kept b @ p)"
begin

lemma put_all_kept:
  "ok b \<Longrightarrow> \<exists>b'. put_all put ps b = Some b' \<and> ok b' \<and> kept b' = (if ps = [] then kept b else last_n limit (kept b @ concat ps))"
proof (induction ps arbitrary: b)
  case (Cons p ps)
  obtain b1 where b1: "put p b = Some b1" "ok b1" "kept b1 = last_n limit (kept b @ p)" using put_ok [OF Cons.prems] by blast
  obtain b2 where "put_all put ps b1 = Some b2" "ok b2" "kept b2 = (if ps = [] then kept b1 else last_n limit (kept b1 @ concat ps))"
    using Cons.IH [OF b1(2)] by blast
  then show ?case using b1 last_n_append [of limit "kept b @ p" "concat ps"] by (auto split: if_splits)
qed simp

lemma put_all_fresh: "\<exists>b'. put_all put ps fresh = Some b' \<and> kept b' = last_n limit (concat ps)"
proof -
  obtain b' where "put_all put ps fresh = Some b'" "kept b' = (if ps = [] then kept fresh else last_n limit (kept fresh @ concat ps))"
    using put_all_kept [OF ok_fresh] by blast
  then show ?thesis by (auto simp: kept_fresh last_n_def split: if_splits)
qed

end

text \<open>A buffer that also tells whether it dropped anything.\<close>

locale marked_tail_keeper = tail_keeper fresh put kept ok limit
  for fresh :: "'b" and put and kept and ok and limit +
  fixes lost :: "'b \<Rightarrow> bool"
  assumes lost_fresh: "\<not> lost fresh"
    and put_lost: "ok b \<Longrightarrow> put p b = Some b' \<Longrightarrow> lost b' = (lost b \<or> limit < length (kept b @ p))"
    and kept_le: "ok b \<Longrightarrow> length (kept b) \<le> limit"
    and kept_full: "ok b \<Longrightarrow> lost b \<Longrightarrow> length (kept b) = limit"
begin

lemma put_all_lost:
  "ok b \<Longrightarrow> put_all put ps b = Some b' \<Longrightarrow> lost b' = (lost b \<or> limit < length (kept b @ concat ps))"
proof (induction ps arbitrary: b)
  case Nil
  then show ?case using kept_le [of b] by auto
next
  case (Cons p ps)
  obtain b1 where b1: "put p b = Some b1" "ok b1" "kept b1 = last_n limit (kept b @ p)" using put_ok [OF Cons.prems(1)] by blast
  have "put_all put ps b1 = Some b'" using Cons.prems(2) b1(1) by simp
  then have "lost b' = (lost b1 \<or> limit < length (kept b1 @ concat ps))" by (rule Cons.IH [OF b1(2)])
  moreover have "lost b1 = (lost b \<or> limit < length (kept b @ p))" by (rule put_lost [OF Cons.prems(1) b1(1)])
  moreover have "length (kept b1) = min limit (length (kept b @ p))" using b1(3) by simp
  ultimately show ?case using kept_full [OF Cons.prems(1)] by auto
qed

lemma put_all_lost_fresh: "put_all put ps fresh = Some b' \<Longrightarrow> lost b' \<longleftrightarrow> limit < length (concat ps)"
  using put_all_lost [OF ok_fresh] by (auto simp: kept_fresh lost_fresh)

end

subsection \<open>The ring\<close>

record ring =
  rb_buf :: string
  rb_start :: nat
  rb_dropped :: bool

definition new_ring :: ring where
  "new_ring = \<lparr>rb_buf = [], rb_start = 0, rb_dropped = False\<rparr>"

partial_function (option) overwrite :: "nat \<Rightarrow> string \<Rightarrow> ring \<Rightarrow> ring option" where
  [code]: "overwrite limit p b =
     (if p = [] then Some b
      else let c = min (length (rb_buf b) - rb_start b) (length p) in
           overwrite limit (drop c p)
             \<lparr>rb_buf = take (rb_start b) (rb_buf b) @ take c p @ drop (rb_start b + c) (rb_buf b),
              rb_start = (rb_start b + c) mod limit, rb_dropped = True\<rparr>)"

definition ring_write :: "nat \<Rightarrow> string \<Rightarrow> ring \<Rightarrow> ring option" where
  "ring_write limit p b =
     (if length p \<ge> limit then
        Some \<lparr>rb_buf = drop (length p - limit) p, rb_start = 0,
              rb_dropped = (rb_dropped b \<or> length p > limit \<or> rb_buf b \<noteq> [])\<rparr>
      else let room = limit - length (rb_buf b); n = min room (length p)
           in overwrite limit (drop n p) (b\<lparr>rb_buf := rb_buf b @ take n p\<rparr>))"

definition truncatedPrefix :: string where "truncatedPrefix = ''[truncated]'' @ [newline]"

definition ring_content :: "ring \<Rightarrow> string" where
  "ring_content b = drop (rb_start b) (rb_buf b) @ take (rb_start b) (rb_buf b)"

definition ring_result :: "ring \<Rightarrow> string" where
  "ring_result b = (if rb_dropped b then truncatedPrefix else []) @ drop (rb_start b) (rb_buf b) @ take (rb_start b) (rb_buf b)"

definition ring_ok :: "nat \<Rightarrow> ring \<Rightarrow> bool" where
  "ring_ok limit b \<longleftrightarrow> length (rb_buf b) \<le> limit \<and> rb_start b < limit
     \<and> (length (rb_buf b) < limit \<longrightarrow> rb_start b = 0 \<and> \<not> rb_dropped b)"

lemma overwrite_step:
  assumes "length buf = limit" "start < limit" "c = min (limit - start) (length p)"
  defines "b' \<equiv> \<lparr>rb_buf = take start buf @ take c p @ drop (start + c) buf, rb_start = (start + c) mod limit, rb_dropped = True\<rparr>"
  shows "ring_ok limit b'" "length (rb_buf b') = limit"
    and "ring_content b' = drop c (drop start buf @ take start buf) @ take c p"
proof -
  show "length (rb_buf b') = limit" using assms by (simp add: b'_def)
  then show "ring_ok limit b'" using assms(1,2) by (simp add: ring_ok_def b'_def)
  show "ring_content b' = drop c (drop start buf @ take start buf) @ take c p"
  proof (cases "start + c < limit")
    case True
    then show ?thesis using assms by (simp add: ring_content_def add.commute)
  next
    case False
    then have "start + c = limit" using assms(2,3) by simp
    then show ?thesis using assms by (simp add: ring_content_def)
  qed
qed

lemma overwrite_correct:
  assumes "ring_ok limit b" "length (rb_buf b) = limit" "p \<noteq> []"
  shows "\<exists>b'. overwrite limit p b = Some b' \<and> ring_ok limit b' \<and> length (rb_buf b') = limit \<and> rb_dropped b'
    \<and> ring_content b' = last_n limit (ring_content b @ p)"
  using assms
proof (induction "length p" arbitrary: p b rule: less_induct)
  case less
  let ?c = "min (limit - rb_start b) (length p)"
  let ?b = "\<lparr>rb_buf = take (rb_start b) (rb_buf b) @ take ?c p @ drop (rb_start b + ?c) (rb_buf b), rb_start = (rb_start b + ?c) mod limit, rb_dropped = True\<rparr>"
  have s: "rb_start b < limit" using less.prems(1) by (simp add: ring_ok_def)
  note step = overwrite_step [OF less.prems(2) s refl, of p]
  have ov: "overwrite limit p b = overwrite limit (drop ?c p) ?b"
    using less.prems(2,3) by (subst overwrite.simps) (simp add: Let_def)
  have content: "ring_content ?b = last_n limit (ring_content b @ take ?c p)"
    using step(3) less.prems(2) s by (simp add: ring_content_def last_n_def)
  show ?case
  proof (cases "drop ?c p = []")
    case True
    then have "overwrite limit p b = Some ?b" using ov by (simp add: overwrite.simps)
    then show ?thesis using step(1,2) content True by (intro exI [of _ ?b]) simp
  next
    case False
    have "length (drop ?c p) < length p" using s less.prems(3) by simp
    from less.hyps [OF this step(1,2) False] obtain b' where b': "overwrite limit (drop ?c p) ?b = Some b'" "ring_ok limit b'"
        "length (rb_buf b') = limit" "rb_dropped b'" "ring_content b' = last_n limit (ring_content ?b @ drop ?c p)" by blast
    have "ring_content b' = last_n limit (ring_content b @ p)"
      using b'(5) unfolding content last_n_append by simp
    then show ?thesis using b' ov by auto
  qed
qed

lemma ring_content_fresh_part: "rb_start b = 0 \<Longrightarrow> ring_content b = rb_buf b"
  by (simp add: ring_content_def)

lemma length_ring_content [simp]: "length (ring_content b) = length (rb_buf b)"
  by (simp add: ring_content_def)

lemma ring_write_correct:
  assumes "ring_ok limit b"
  shows "\<exists>b'. ring_write limit p b = Some b' \<and> ring_ok limit b' \<and> ring_content b' = last_n limit (ring_content b @ p)
    \<and> rb_dropped b' = (rb_dropped b \<or> limit < length (ring_content b @ p))"
proof -
  have pos: "0 < limit" using assms by (simp add: ring_ok_def)
  consider (big) "limit \<le> length p" | (fits) "length p < limit" "length (rb_buf b) + length p \<le> limit"
    | (over) "length p < limit" "limit < length (rb_buf b) + length p" by linarith
  then show ?thesis
  proof cases
    case big
    let ?b = "\<lparr>rb_buf = last_n limit p, rb_start = 0, rb_dropped = rb_dropped b \<or> length p > limit \<or> rb_buf b \<noteq> []\<rparr>"
    have "ring_write limit p b = Some ?b" using big by (simp add: ring_write_def last_n_def)
    moreover have "ring_ok limit ?b" using big pos by (simp add: ring_ok_def)
    moreover have "ring_content ?b = last_n limit (ring_content b @ p)" using big by (simp add: ring_content_def last_n_long)
    moreover have "rb_dropped ?b = (rb_dropped b \<or> limit < length (ring_content b @ p))"
      using big by (cases "rb_buf b") auto
    ultimately show ?thesis by blast
  next
    case fits
    let ?b = "b\<lparr>rb_buf := rb_buf b @ p\<rparr>"
    have w: "ring_write limit p b = Some ?b" using fits by (simp add: ring_write_def Let_def overwrite.simps)
    have start: "rb_start b = 0 \<or> p = []" using assms fits by (cases p) (auto simp: ring_ok_def)
    have "ring_ok limit ?b" using assms fits start by (auto simp: ring_ok_def)
    moreover have "ring_content ?b = ring_content b @ p" using start by (auto simp: ring_content_def)
    ultimately show ?thesis using w fits by (intro exI [of _ ?b]) (simp add: last_n_short)
  next
    case over
    let ?n = "limit - length (rb_buf b)"
    let ?b = "b\<lparr>rb_buf := rb_buf b @ take ?n p\<rparr>"
    have n: "min ?n (length p) = ?n" "?n < length p" using assms over by (auto simp: ring_ok_def)
    have w: "ring_write limit p b = overwrite limit (drop ?n p) ?b" using over n by (simp add: ring_write_def Let_def)
    have start: "rb_start b = 0 \<or> ?n = 0" using assms by (auto simp: ring_ok_def)
    have full: "length (rb_buf ?b) = limit" "ring_ok limit ?b" using assms n start by (auto simp: ring_ok_def)
    have "ring_content ?b = ring_content b @ take ?n p" using start by (auto simp: ring_content_def)
    moreover obtain b' where "overwrite limit (drop ?n p) ?b = Some b'" "ring_ok limit b'" "rb_dropped b'"
        "ring_content b' = last_n limit (ring_content ?b @ drop ?n p)"
      using overwrite_correct [OF full(2,1), of "drop ?n p"] n(2) by auto
    ultimately show ?thesis using w over by (intro exI [of _ b']) simp
  qed
qed

text \<open>\<open>maxEvidence\<close> bounds one check log.\<close>

definition maxEvidence :: nat where "maxEvidence = 4 * 1024 * 1024"

interpretation evidence_ring: marked_tail_keeper new_ring "ring_write maxEvidence" ring_content "ring_ok maxEvidence" maxEvidence rb_dropped
proof unfold_locales
  show "ring_ok maxEvidence new_ring" by (simp add: ring_ok_def new_ring_def maxEvidence_def)
  show "ring_content new_ring = []" "\<not> rb_dropped new_ring" by (simp_all add: ring_content_def new_ring_def)
  fix b b' p assume b: "ring_ok maxEvidence b"
  then show "\<exists>b'. ring_write maxEvidence p b = Some b' \<and> ring_ok maxEvidence b' \<and> ring_content b' = last_n maxEvidence (ring_content b @ p)"
    using ring_write_correct by blast
  show "rb_dropped b' = (rb_dropped b \<or> maxEvidence < length (ring_content b @ p))" if "ring_write maxEvidence p b = Some b'"
    using ring_write_correct [OF b, of p] that by auto
  show "length (ring_content b) \<le> maxEvidence" using b by (simp add: ring_ok_def)
  show "length (ring_content b) = maxEvidence" if "rb_dropped b"
    using b that by (auto simp: ring_ok_def)
qed

subsection \<open>The maker's slice\<close>

definition failureTailBytes :: nat where "failureTailBytes = 2000"

definition tail_write :: "nat \<Rightarrow> string \<Rightarrow> string \<Rightarrow> string" where
  "tail_write limit p buf = (let b = buf @ p in if length b > limit then drop (length b - limit) b else b)"

interpretation maker_tail: tail_keeper "[]" "\<lambda>p b. Some (tail_write failureTailBytes p b)" "\<lambda>b. b" "\<lambda>b. length b \<le> failureTailBytes" failureTailBytes
  by unfold_locales (auto simp: tail_write_def Let_def last_n_def)

end
