(* ===== verification/Witness.thy ===== *)
theory Witness
  imports Repo_History Tail_Buffer Guard
begin

text \<open>
  \<open>line/witness\<close>: attesting a commit by running the constitution's checks on a clean checkout and signing the
  outcome (\<open>witness.go\<close>), submitting it to the merge guard (\<open>merge.go\<close>), and the check logs
  (\<open>evidence.go\<close>). The state is the cache repository with the flag of the first sweep, and a world \<open>'s\<close> the
  checks run in; the check runner, the files of a checkout and the nonces are arguments. Publishing a report
  only logs its failure and is not modelled. \<open>None\<close> is a copy that does not return.
\<close>

record witness =
  wi_key :: string
  wi_role :: string
  wi_agent :: string
  wi_constitution :: constitution
  wi_digest :: string
  wi_cold :: bool

record attest_result =
  ar_commit :: string
  ar_passed :: bool
  ar_statement :: statement
  ar_envelope :: envelope

datatype witness_error =
    No_Required_Checks | Bad_Revision string | Bad_Commit_Id string | W_Git git_error | W_Fetch fetch_error | W_Bundle bundle_error
  | Not_In string string | Not_Reachable string string | Check_Timed_Out string duration | Check_Cancelled string string
  | Check_Run_Failed string string | Checkout_Failed string

subsection \<open>Running the checks\<close>

text \<open>How one check run ends: with an exit code, its evidence and its output; cut by its own timeout; cut with
  the whole request; or not at all.\<close>

datatype check_outcome = Ran int string string | Cut_By_Timeout | Cut_By_Caller string | Runner_Error string

type_synonym 's check_runner = "string \<Rightarrow> string \<Rightarrow> 's \<Rightarrow> check_outcome \<times> 's"

definition checkEnv :: string where
  "checkEnv = ''export GOFLAGS='' @ [CHR 0x22] @ ''${GOFLAGS:+$GOFLAGS }-json -mod=readonly'' @ [CHR 0x22] @ ''; ''"

definition coldCheckEnv :: string where
  "coldCheckEnv = checkEnv @ ''export GOMODCACHE='' @ [CHR 0x22] @ ''$(mktemp -d)'' @ [CHR 0x22] @ '' GOCACHE='' @ [CHR 0x22] @ ''$(mktemp -d)''
     @ [CHR 0x22] @ ''; ''"

definition run_timeout :: "witness \<Rightarrow> duration" where
  "run_timeout w = (if wi_cold w then ColdTimeoutDuration (cn_checks (wi_constitution w)) else TimeoutDuration (cn_checks (wi_constitution w)))"

definition run_prefix :: "witness \<Rightarrow> string" where
  "run_prefix w = (if wi_cold w then coldCheckEnv else checkEnv)"

definition skipped_result :: "check \<Rightarrow> check_result" where
  "skipped_result k = \<lparr>cr_name = ck_name k, cr_command = ck_command k, cr_exit_code = 0, cr_evidence_id = [], cr_skipped = SkippedDocsOnly\<rparr>"

definition ran_result :: "check \<Rightarrow> int \<Rightarrow> string \<Rightarrow> check_result" where
  "ran_result k code ev = \<lparr>cr_name = ck_name k, cr_command = ck_command k, cr_exit_code = code, cr_evidence_id = ev, cr_skipped = []\<rparr>"

fun run_checks :: "'s check_runner \<Rightarrow> string \<Rightarrow> string \<Rightarrow> duration \<Rightarrow> bool \<Rightarrow> check_result list \<Rightarrow> check list \<Rightarrow> 's
    \<Rightarrow> (witness_error + check_result list \<times> bool) \<times> 's" where
  "run_checks run dir env timeout docs acc [] s = (Inr (acc, True), s)"
| "run_checks run dir env timeout docs acc (k # ks) s =
     (if docs \<and> ck_skip_for_docs_only k then run_checks run dir env timeout docs (acc @ [skipped_result k]) ks s
      else case run dir (env @ ck_command k) s of
             (Cut_By_Timeout, s') \<Rightarrow> (Inl (Check_Timed_Out (ck_name k) timeout), s')
           | (Cut_By_Caller e, s') \<Rightarrow> (Inl (Check_Cancelled (ck_name k) e), s')
           | (Runner_Error e, s') \<Rightarrow> (Inl (Check_Run_Failed (ck_name k) e), s')
           | (Ran code ev out, s') \<Rightarrow>
               (if code \<noteq> 0 then (Inr (acc @ [ran_result k code ev], False), s')
                else run_checks run dir env timeout docs (acc @ [ran_result k code ev]) ks s'))"

definition checks_predicate_of :: "witness \<Rightarrow> check_result list \<Rightarrow> time \<Rightarrow> checks_predicate" where
  "checks_predicate_of w results finished =
     \<lparr>pr_role = wi_role w, pr_agent_id = wi_agent w, pr_constitution = wi_digest w,
      pr_runner = runner_ID (cn_runner (wi_constitution w)), pr_checks = results, pr_finished_at = finished\<rparr>"

definition witness_run :: "lib \<Rightarrow> witness \<Rightarrow> 's check_runner \<Rightarrow> time \<Rightarrow> string \<Rightarrow> string \<Rightarrow> string \<Rightarrow> bool \<Rightarrow> 's \<Rightarrow> (witness_error + attest_result) \<times> 's" where
  "witness_run L w run finished commit tree dir docs s =
     (case run_checks run dir (run_prefix w) (run_timeout w) docs [] (cs_required (cn_checks (wi_constitution w))) s of
        (Inl e, s') \<Rightarrow> (Inl e, s')
      | (Inr (results, passed), s') \<Rightarrow>
          (let st = NewStatement commit tree (checks_predicate_of w results finished)
           in (Inr \<lparr>ar_commit = commit, ar_passed = passed, ar_statement = st, ar_envelope = SignStatement L (wi_key w) st\<rparr>, s')))"

subsection \<open>Preparing a checkout\<close>

definition unreferencedGrace :: duration where "unreferencedGrace = 14 * 24 * hour"
definition lineHeadsPrefix :: string where "lineHeadsPrefix = ''refs/line/heads/''"

definition deleteRefs :: "repo \<Rightarrow> string \<Rightarrow> repo" where
  "deleteRefs r pre = foldl DeleteRef r (RefNames r pre)"

record cache =
  ca_repo :: repo
  ca_swept :: bool

definition sweepStaleRefs :: "cache \<Rightarrow> cache" where
  "sweepStaleRefs c =
     (if ca_swept c then c
      else \<lparr>ca_repo = deleteRefs (deleteRefs (ca_repo c) ''refs/bundle/'') ''refs/witness/'', ca_swept = True\<rparr>)"

type_synonym fetcher = "repo \<Rightarrow> ((witness_error + string) \<times> repo) option"

record checkout_io =
  co_nonce :: string                          \<comment> \<open>eight random bytes in hex\<close>
  co_dir :: "string + string"                 \<comment> \<open>the temporary directory, or why there is none\<close>
  co_files :: "string \<Rightarrow> string option"   \<comment> \<open>writing the commit's files and their modes\<close>

definition empty_repo :: repo where
  "empty_repo = \<lparr>rp_objects = [], rp_loose = Map.empty, rp_refs = []\<rparr>"

definition CheckoutDetached :: "time \<Rightarrow> repo \<Rightarrow> checkout_io \<Rightarrow> string \<Rightarrow> (string option) option" where
  "CheckoutDetached now src io commit =
     (case parseHash commit of
        Inl e \<Rightarrow> Some (Some ''bad id'')
      | Inr h \<Rightarrow>
          (case copy (rp_objects src) now [Visit h] empty_repo of
             None \<Rightarrow> None
           | Some (Some e, r) \<Rightarrow> Some (Some ''copy failed'')
           | Some (None, r) \<Rightarrow> Some (co_files io commit)))"

definition checkout_ref :: "checkout_io \<Rightarrow> string \<Rightarrow> string" where
  "checkout_ref io commit = ''refs/witness/'' @ commit @ ''/'' @ co_nonce io"

definition checkout :: "gogit \<Rightarrow> time \<Rightarrow> checkout_io \<Rightarrow> string \<Rightarrow> repo \<Rightarrow> ((witness_error + string) \<times> repo) option" where
  "checkout G now io commit r =
     (case SetRef G r (checkout_ref io commit) commit of
        Inl e \<Rightarrow> Some (Inl (W_Git e), r)
      | Inr r1 \<Rightarrow>
          (case co_dir io of
             Inl e \<Rightarrow> Some (Inl (Checkout_Failed e), r1)
           | Inr dir \<Rightarrow>
               (case CheckoutDetached now r1 io commit of
                  None \<Rightarrow> None
                | Some (Some e) \<Rightarrow> Some (Inl (Checkout_Failed e), DeleteRef r1 (checkout_ref io commit))
                | Some None \<Rightarrow> Some (Inr dir, r1))))"

record prepared =
  pp_commit :: string
  pp_tree :: string
  pp_dir :: string
  pp_docs :: bool

definition prepare_checkout :: "gogit \<Rightarrow> checks \<Rightarrow> time \<Rightarrow> checkout_io \<Rightarrow> string \<Rightarrow> repo \<Rightarrow> ((witness_error + prepared) \<times> repo) option" where
  "prepare_checkout G ck now io commit r =
     (case repo_Tree G r commit of
        Inl e \<Rightarrow> Some (Inl (W_Git e), r)
      | Inr tree \<Rightarrow>
          (case FirstParentChange G r commit of
             Inl e \<Rightarrow> Some (Inl (W_Git e), r)
           | Inr (paths, has_parent) \<Rightarrow>
               map_option (\<lambda>(res, r').
                   (map_sum id (\<lambda>dir. \<lparr>pp_commit = commit, pp_tree = tree, pp_dir = dir, pp_docs = (has_parent \<and> DocsOnly ck paths)\<rparr>) res, r'))
                 (checkout G now io commit r)))"

definition prepare :: "gogit \<Rightarrow> checks \<Rightarrow> time \<Rightarrow> checkout_io \<Rightarrow> fetcher \<Rightarrow> cache \<Rightarrow> ((witness_error + prepared) \<times> cache) option" where
  "prepare G ck now io fetch c =
     (let c1 = sweepStaleRefs c in
      case PruneUnreachable now unreferencedGrace (ca_repo c1) of
        Inl e \<Rightarrow> Some (Inl (W_Git e), c1)
      | Inr r2 \<Rightarrow>
          (case fetch r2 of
             None \<Rightarrow> None
           | Some (Inl e, r3) \<Rightarrow> Some (Inl e, c1\<lparr>ca_repo := r3\<rparr>)
           | Some (Inr commit, r3) \<Rightarrow> map_option (map_prod id (\<lambda>r. c1\<lparr>ca_repo := r\<rparr>)) (prepare_checkout G ck now io commit r3)))"

definition attest_with :: "lib \<Rightarrow> gogit \<Rightarrow> witness \<Rightarrow> 's check_runner \<Rightarrow> time \<Rightarrow> time \<Rightarrow> checkout_io \<Rightarrow> fetcher \<Rightarrow> cache \<times> 's
    \<Rightarrow> ((witness_error + attest_result) \<times> (cache \<times> 's)) option" where
  "attest_with L G w run now finished io fetch cs =
     (if cs_required (cn_checks (wi_constitution w)) = [] then Some (Inl No_Required_Checks, cs)
      else case prepare G (cn_checks (wi_constitution w)) now io fetch (fst cs) of
             None \<Rightarrow> None
           | Some (Inl e, c) \<Rightarrow> Some (Inl e, (c, snd cs))
           | Some (Inr p, c) \<Rightarrow>
               (case witness_run L w run finished (pp_commit p) (pp_tree p) (pp_dir p) (pp_docs p) (snd cs) of
                  (res, s') \<Rightarrow> Some (res, (c\<lparr>ca_repo := DeleteRef (ca_repo c) (checkout_ref io (pp_commit p))\<rparr>, s'))))"

subsection \<open>Where a commit comes from\<close>

definition checkFullHex :: "string \<Rightarrow> witness_error option" where
  "checkFullHex commit = fail_if (\<not> full_hex commit) (Bad_Commit_Id commit)"

definition seed :: "gogit \<Rightarrow> refspec_ops \<Rightarrow> time \<Rightarrow> repo \<Rightarrow> oid option \<Rightarrow> repo \<Rightarrow> (fetch_error option \<times> repo) option" where
  "seed G R now upstream head r = Fetch G R now upstream head True [''+refs/heads/*:'' @ lineHeadsPrefix @ ''*''] r"

text \<open>The commit must be the full id it was asked for, and a ref under \<open>pre\<close> must reach it.\<close>

definition known_under :: "gogit \<Rightarrow> history \<Rightarrow> string \<Rightarrow> string \<Rightarrow> string \<Rightarrow> repo \<Rightarrow> witness_error + string" where
  "known_under G W place pre commit r =
     (if repo_Commit G r commit \<noteq> Inr commit then Inl (Not_In commit place)
      else case ReachableFromRefs G W r commit pre of
             Inl e \<Rightarrow> Inl (W_Git e)
           | Inr False \<Rightarrow> Inl (Not_Reachable commit place)
           | Inr True \<Rightarrow> Inr commit)"

definition line_fetch :: "gogit \<Rightarrow> history \<Rightarrow> refspec_ops \<Rightarrow> time \<Rightarrow> repo \<Rightarrow> oid option \<Rightarrow> string \<Rightarrow> fetcher" where
  "line_fetch G W R now upstream head commit r =
     (case seed G R now upstream head r of
        None \<Rightarrow> None
      | Some (Some e, r1) \<Rightarrow> Some (Inl (W_Fetch e), r1)
      | Some (None, r1) \<Rightarrow> Some (known_under G W ''the line'' lineHeadsPrefix commit r1, r1))"

definition bundle_prefix :: "string \<Rightarrow> string" where
  "bundle_prefix nonce = ''refs/bundle/'' @ nonce @ ''/''"

definition bundle_fetch :: "gogit \<Rightarrow> history \<Rightarrow> refspec_ops \<Rightarrow> (object_store \<Rightarrow> string \<Rightarrow> string + object_store) \<Rightarrow> time \<Rightarrow> repo \<Rightarrow> oid option \<Rightarrow> string \<Rightarrow> string \<Rightarrow> string \<Rightarrow> fetcher" where
  "bundle_fetch G W R unpack now upstream head nonce bundle commit r =
     (case seed G R now upstream head r of
        None \<Rightarrow> None
      | Some (Some e, r1) \<Rightarrow> Some (Inl (W_Fetch e), r1)
      | Some (None, r1) \<Rightarrow>
          (case FetchBundle G W R unpack now bundle lineHeadsPrefix False [''+refs/sweatshop/*:'' @ bundle_prefix nonce @ ''*''] r1 of
             None \<Rightarrow> None
           | Some (Some e, r2) \<Rightarrow> Some (Inl (W_Bundle e), deleteRefs r2 (bundle_prefix nonce))
           | Some (None, r2) \<Rightarrow>
               Some (known_under G W ''the bundle'' (bundle_prefix nonce) commit r2, deleteRefs r2 (bundle_prefix nonce))))"

definition AttestLine :: "lib \<Rightarrow> gogit \<Rightarrow> history \<Rightarrow> refspec_ops \<Rightarrow> witness \<Rightarrow> 's check_runner \<Rightarrow> time \<Rightarrow> time \<Rightarrow> checkout_io \<Rightarrow> repo \<Rightarrow> oid option \<Rightarrow> string \<Rightarrow> cache \<times> 's
    \<Rightarrow> ((witness_error + attest_result) \<times> (cache \<times> 's)) option" where
  "AttestLine L G W R w run now finished io upstream head commit cs =
     (case checkFullHex commit of
        Some e \<Rightarrow> Some (Inl e, cs)
      | None \<Rightarrow> attest_with L G w run now finished io (line_fetch G W R now upstream head commit) cs)"

definition AttestBundle :: "lib \<Rightarrow> gogit \<Rightarrow> history \<Rightarrow> refspec_ops \<Rightarrow> (object_store \<Rightarrow> string \<Rightarrow> string + object_store) \<Rightarrow> witness \<Rightarrow> 's check_runner \<Rightarrow> time \<Rightarrow> time
    \<Rightarrow> checkout_io \<Rightarrow> repo \<Rightarrow> oid option \<Rightarrow> string \<Rightarrow> string \<Rightarrow> string \<Rightarrow> cache \<times> 's \<Rightarrow> ((witness_error + attest_result) \<times> (cache \<times> 's)) option" where
  "AttestBundle L G W R unpack w run now finished io upstream head nonce bundle commit cs =
     (case checkFullHex commit of
        Some e \<Rightarrow> Some (Inl e, cs)
      | None \<Rightarrow> attest_with L G w run now finished io (bundle_fetch G W R unpack now upstream head nonce bundle commit) cs)"

subsection \<open>Submitting to the guard\<close>

record merge_result =
  mr_attestation :: attest_result
  mr_guard :: result

datatype merge_error = Push_Failed git_error | Guard_Failed guard_error

definition pushAndMerge :: "ext \<Rightarrow> guard \<Rightarrow> time \<Rightarrow> repo \<Rightarrow> attest_result \<Rightarrow> repo \<Rightarrow> ((merge_result \<times> merge_error option) \<times> repo) option" where
  "pushAndMerge X g now cache_repo a remote =
     (if \<not> ar_passed a
      then Some ((\<lparr>mr_attestation = a, mr_guard = rejection ReasonChecksFailed Witness_Checks_Failed (ar_commit a)\<rparr>, None), remote)
      else case PushCommit (x_git X) now cache_repo remote (ar_commit a) (CandidatePrefix @ ar_commit a) of
             None \<Rightarrow> None
           | Some (Some e, remote1) \<Rightarrow> Some ((\<lparr>mr_attestation = a, mr_guard = zero_result\<rparr>, Some (Push_Failed e)), remote1)
           | Some (None, remote1) \<Rightarrow>
               (case Merge X g now remote1 (ar_commit a) (ar_envelope a) of
                  ((res, err), remote2) \<Rightarrow> Some ((\<lparr>mr_attestation = a, mr_guard = res\<rparr>, map_option Guard_Failed err), remote2)))"

subsection \<open>Check logs\<close>

definition evidenceID :: "string \<Rightarrow> bool" where
  "evidenceID s \<longleftrightarrow> length s = 19 \<and> has_prefix s ''ev_'' \<and> list_all is_hex (drop 3 s)"

definition ReadEvidence :: "(string \<rightharpoonup> string) \<Rightarrow> string \<Rightarrow> string \<Rightarrow> string + string" where
  "ReadEvidence files dir eid =
     (if \<not> evidenceID eid then Inl (''invalid evidence id '' @ eid)
      else case files (dir @ ''/'' @ eid @ ''.log'') of None \<Rightarrow> Inl ''no such file'' | Some t \<Rightarrow> Inr t)"

end
