(* ===== verification/Witness_Correct.thy ===== *)
theory Witness_Correct
  imports Witness Guard_Spec
begin

text \<open>
  The witness and the guard agree: what the witness signs, a guard with the same constitution that trusts its
  key accepts as evidence, and its verdict on the checks is the guard's own. A run that was cut short is never
  signed.
\<close>

subsection \<open>The results of a run\<close>

definition good_result :: "bool \<Rightarrow> check \<Rightarrow> check_result \<Rightarrow> bool" where
  "good_result docs k r \<longleftrightarrow>
     (if docs \<and> ck_skip_for_docs_only k then r = skipped_result k else (\<exists>ev. r = ran_result k 0 ev))"

lemma result_names [simp]: "cr_name (skipped_result k) = ck_name k" "cr_name (ran_result k c e) = ck_name k"
  by (simp_all add: skipped_result_def ran_result_def)

lemma good_result_name: "good_result docs k r \<Longrightarrow> cr_name r = ck_name k"
  by (auto simp: good_result_def split: if_splits)

lemma run_checks_results:
  "run_checks run dir env timeout docs acc ks s = (Inr (results, passed), s') \<Longrightarrow>
     (passed \<and> (\<exists>rs. results = acc @ rs \<and> list_all2 (good_result docs) ks rs))
   \<or> (\<not> passed \<and> (\<exists>ds k ts rs code ev. ks = ds @ k # ts \<and> results = acc @ rs @ [ran_result k code ev] \<and> code \<noteq> 0
        \<and> list_all2 (good_result docs) ds rs))"
proof (induction ks arbitrary: acc s)
  case (Cons k ks)
  have step: ?case if S: "run_checks run dir env timeout docs (acc @ [r]) ks s1 = (Inr (results, passed), s')" and G: "good_result docs k r" for r s1
  proof (cases passed)
    case True
    then obtain rs where "results = (acc @ [r]) @ rs" "list_all2 (good_result docs) ks rs" using Cons.IH [OF S] by blast
    then have "results = acc @ (r # rs) \<and> list_all2 (good_result docs) (k # ks) (r # rs)" using G by simp
    then show ?thesis using True by blast
  next
    case False
    then obtain ds k' ts rs code ev where *: "ks = ds @ k' # ts" "results = (acc @ [r]) @ rs @ [ran_result k' code ev]" "code \<noteq> 0"
        "list_all2 (good_result docs) ds rs" using Cons.IH [OF S] by blast
    then have "k # ks = (k # ds) @ k' # ts \<and> results = acc @ (r # rs) @ [ran_result k' code ev] \<and> code \<noteq> 0
      \<and> list_all2 (good_result docs) (k # ds) (r # rs)" using G by simp
    then show ?thesis using False by blast
  qed
  show ?case
  proof (cases "docs \<and> ck_skip_for_docs_only k")
    case True
    then show ?thesis using Cons.prems step [of "skipped_result k" s] by (simp add: good_result_def)
  next
    case False
    obtain o1 s1 where o1: "run dir (env @ ck_command k) s = (o1, s1)" by fastforce
    then obtain code ev out where ran: "o1 = Ran code ev out" using Cons.prems False by (cases o1) auto
    show ?thesis
    proof (cases "code = 0")
      case True
      have "good_result docs k (ran_result k 0 ev)" using False by (auto simp: good_result_def)
      moreover have "run_checks run dir env timeout docs (acc @ [ran_result k 0 ev]) ks s1 = (Inr (results, passed), s')"
        using Cons.prems False o1 ran True by auto
      ultimately show ?thesis by (rule step [rotated])
    next
      case False
      then have "\<not> passed \<and> k # ks = [] @ k # ks \<and> results = acc @ [] @ [ran_result k code ev] \<and> code \<noteq> 0 \<and> list_all2 (good_result docs) [] []"
        using Cons.prems \<open>\<not> (docs \<and> ck_skip_for_docs_only k)\<close> o1 ran by auto
      then show ?thesis by blast
    qed
  qed
qed simp

lemma good_results_names: "list_all2 (good_result docs) ks rs \<Longrightarrow> map cr_name rs = map ck_name ks"
  by (induction rule: list_all2_induct) (auto simp: good_result_name)

lemma passed_check_passes:
  assumes "list_all2 (good_result docs) ks rs" "distinct (map ck_name ks)" "k \<in> set ks" "docs \<longrightarrow> docs'"
  shows "check_passes rs docs' k"
proof -
  obtain i where i: "i < length ks" "ks ! i = k" using assms(3) by (auto simp: in_set_conv_nth)
  then have r: "good_result docs k (rs ! i)" "i < length rs" using assms(1) by (auto simp: list_all2_conv_all_nth)
  have "distinct (map cr_name rs)" using assms(2) good_results_names [OF assms(1)] by simp
  then have "map_by cr_name rs (cr_name (rs ! i)) = Some (rs ! i)" using r(2) by (intro map_by_distinct) auto
  then show ?thesis
    using r(1) assms(4) good_result_name [OF r(1)]
    by (auto simp: check_passes_def good_result_def skipped_result_def ran_result_def SkippedDocsOnly_def split: if_splits)
qed

lemma failed_check_fails:
  "\<not> check_passes (rs @ [ran_result k code ev]) docs' k" if "code \<noteq> 0"
  using that by (simp add: check_passes_def) (simp add: ran_result_def)

subsection \<open>The guard's view\<close>

text \<open>A guard set up with the witness's constitution that trusts its key for its role.\<close>

definition trusts_witness :: "ext \<Rightarrow> guard \<Rightarrow> witness \<Rightarrow> bool" where
  "trusts_witness X g w \<longleftrightarrow>
     g_constitution g = wi_constitution w \<and> g_digest g = wi_digest w \<and> signs_verify (x_lib X) (wi_key w)
     \<and> distinct (map ck_name (cs_required (cn_checks (wi_constitution w))))
     \<and> (\<exists>trusted roles. TrustedKeys (x_lib X) (wi_constitution w) = Inr trusted \<and> KeyRoles (x_lib X) (wi_constitution w) = Inr roles
          \<and> trusted (KeyID (x_lib X) (lib_public (x_lib X) (wi_key w))) = Some (lib_public (x_lib X) (wi_key w))
          \<and> key_permits (roles (KeyID (x_lib X) (lib_public (x_lib X) (wi_key w)))) (wi_role w))"

definition json_roundtrips :: "ext \<Rightarrow> attest_result \<Rightarrow> bool" where
  "json_roundtrips X a \<longleftrightarrow> lib_unmarshal (x_lib X) (lib_marshal (x_lib X) (ar_statement a)) = Some (ar_statement a)"

lemma witness_run_Inr:
  assumes "witness_run L w run fin commit tree dir docs s = (Inr a, s')"
  shows "\<exists>results. run_checks run dir (run_prefix w) (run_timeout w) docs [] (cs_required (cn_checks (wi_constitution w))) s = (Inr (results, ar_passed a), s')
    \<and> ar_commit a = commit \<and> ar_statement a = NewStatement commit tree (checks_predicate_of w results fin)
    \<and> ar_envelope a = SignStatement L (wi_key w) (ar_statement a)"
  using assms by (auto simp: witness_run_def Let_def split: prod.splits sum.splits)

lemma witness_trusted:
  assumes "witness_run (x_lib X) w run fin commit tree dir docs s = (Inr a, s')" "trusts_witness X g w" "json_roundtrips X a"
  shows "trusted_statement X g (ar_envelope a) s0 k0 \<longleftrightarrow> s0 = ar_statement a \<and> k0 = KeyID (x_lib X) (lib_public (x_lib X) (wi_key w))"
proof -
  obtain results where a: "ar_statement a = NewStatement commit tree (checks_predicate_of w results fin)"
      "ar_envelope a = SignStatement (x_lib X) (wi_key w) (ar_statement a)"
    using witness_run_Inr [OF assms(1)] by blast
  obtain trusted roles where t: "TrustedKeys (x_lib X) (wi_constitution w) = Inr trusted" "KeyRoles (x_lib X) (wi_constitution w) = Inr roles"
      "trusted (KeyID (x_lib X) (lib_public (x_lib X) (wi_key w))) = Some (lib_public (x_lib X) (wi_key w))"
      "key_permits (roles (KeyID (x_lib X) (lib_public (x_lib X) (wi_key w)))) (wi_role w)"
    using assms(2) unfolding trusts_witness_def by blast
  have "VerifyStatement (x_lib X) (ar_envelope a) trusted = Inr (ar_statement a, KeyID (x_lib X) (lib_public (x_lib X) (wi_key w)))"
    unfolding a(2) using assms(2,3) t(3) a(1)
    by (intro VerifyStatement_SignStatement) (auto simp: trusts_witness_def json_roundtrips_def NewStatement_def)
  moreover have "pr_role (st_predicate (ar_statement a)) = wi_role w" "pr_constitution (st_predicate (ar_statement a)) = wi_digest w"
      "pr_runner (st_predicate (ar_statement a)) = runner_ID (cn_runner (wi_constitution w))"
    unfolding a(1) by (simp_all add: NewStatement_def checks_predicate_of_def)
  ultimately show ?thesis using t assms(2) by (auto simp: trusted_statement_def trusts_witness_def)
qed

lemma witness_verdict:
  assumes "witness_run L w run fin commit tree dir docs s = (Inr a, s')"
    and "distinct (map ck_name (cs_required (cn_checks (wi_constitution w))))" "docs \<longrightarrow> docs'"
  shows "ar_passed a \<longleftrightarrow> (\<forall>q\<in>set (cs_required (cn_checks (wi_constitution w))). check_passes (pr_checks (st_predicate (ar_statement a))) docs' q)"
proof -
  obtain results where r: "run_checks run dir (run_prefix w) (run_timeout w) docs [] (cs_required (cn_checks (wi_constitution w))) s = (Inr (results, ar_passed a), s')"
      "ar_statement a = NewStatement commit tree (checks_predicate_of w results fin)"
    using witness_run_Inr [OF assms(1)] by blast
  have p: "pr_checks (st_predicate (ar_statement a)) = results" unfolding r(2) by (simp add: NewStatement_def checks_predicate_of_def)
  show ?thesis
  proof (cases "ar_passed a")
    case True
    then have "list_all2 (good_result docs) (cs_required (cn_checks (wi_constitution w))) results"
      using run_checks_results [OF r(1)] by auto
    then show ?thesis using passed_check_passes assms(2,3) True p by blast
  next
    case False
    then obtain ds k ts rs code ev where "cs_required (cn_checks (wi_constitution w)) = ds @ k # ts" "results = rs @ [ran_result k code ev]" "code \<noteq> 0"
      using run_checks_results [OF r(1)] by auto
    then show ?thesis using failed_check_fails False p by auto
  qed
qed

text \<open>What the guard still asks of the repository.\<close>

definition landable :: "ext \<Rightarrow> guard \<Rightarrow> repo \<Rightarrow> string \<Rightarrow> string \<Rightarrow> oid \<Rightarrow> bool" where
  "landable X g r role commit base \<longleftrightarrow>
     length commit = 40 \<and> list_all is_hex commit \<and> repo_Commit (x_git X) r commit = Inr commit
     \<and> (\<exists>paths. ChangedPaths (x_git X) r base commit = Inr paths \<and> (\<forall>p\<in>set paths. \<not> path_forbidden (g_constitution g) role p))
     \<and> line_open_for X r commit
     \<and> ref_of r (g_ref g) = Some base
     \<and> (\<exists>rest. repo_Parents (x_git X) r commit = Inr (base # rest))
     \<and> (\<exists>blobs. ChangedBlobs (x_git X) r base commit = Inr blobs
          \<and> (\<forall>b\<in>set blobs. blob_problem (gd_blobs (cn_guards (g_constitution g))) b = None))"

lemma skipped_only_docs:
  assumes "run_checks run dir env timeout docs [] ks s = (Inr (results, passed), s')" "list_ex (\<lambda>c. cr_skipped c \<noteq> []) results"
  shows "docs"
proof (rule ccontr)
  assume nd: "\<not> docs"
  have "cr_skipped r = []" if rs: "list_all2 (good_result docs) xs rs" and r: "r \<in> set rs" for xs rs r
  proof -
    obtain i where "i < length rs" "rs ! i = r" using r by (auto simp: in_set_conv_nth)
    then have "good_result docs (xs ! i) r" using rs by (auto simp: list_all2_conv_all_nth)
    then show ?thesis using nd by (auto simp: good_result_def ran_result_def)
  qed
  then show False using run_checks_results [OF assms(1)] assms(2) by (fastforce simp: list_ex_iff ran_result_def)
qed

lemma witness_guard_agree:
  assumes run: "witness_run (x_lib X) w run fin commit tree dir docs s = (Inr a, s')"
    and trust: "trusts_witness X g w" "json_roundtrips X a" and docs: "docs \<longrightarrow> docs_change X g r commit" and c: "commit \<noteq> []"
  shows "may_merge X g r commit (ar_envelope a) base \<longleftrightarrow> ar_passed a \<and> landable X g r (wi_role w) commit base"
proof -
  obtain results where r: "run_checks run dir (run_prefix w) (run_timeout w) docs [] (cs_required (cn_checks (wi_constitution w))) s = (Inr (results, ar_passed a), s')"
      "ar_statement a = NewStatement commit tree (checks_predicate_of w results fin)"
    using witness_run_Inr [OF run] by blast
  have st: "st_commit (ar_statement a) = Inr commit" "pr_role (st_predicate (ar_statement a)) = wi_role w" "pr_checks (st_predicate (ar_statement a)) = results"
    unfolding r(2) using c by (simp_all add: NewStatement_commit) (simp_all add: NewStatement_def checks_predicate_of_def)
  have "list_ex (\<lambda>c. cr_skipped c \<noteq> []) results \<longrightarrow> (\<exists>d. FirstParentChange (x_git X) r commit = Inr d)"
    using skipped_only_docs [OF r(1)] docs by (auto simp: docs_change_def)
  moreover have "g_constitution g = wi_constitution w" "distinct (map ck_name (cs_required (cn_checks (wi_constitution w))))"
    using trust(1) by (auto simp: trusts_witness_def)
  ultimately show ?thesis
    using witness_verdict [OF run _ docs] st
    by (simp add: may_merge_def landable_def witness_trusted [OF run trust]) blast
qed

end
