(* ===== verification/Container.thy ===== *)
theory Container
  imports Go_Text Go_Time
begin

text \<open>
  Containers as the engines of \<open>line/station/succession.go\<close> and \<open>line/maker/runner.go\<close> start them: the specification,
  the flags and the environment handed to a docker-compatible program, and the refusals before it is run.
  The host's environment is an argument; the environment of a container is the list of its variables in the
  order the map iteration yields them.
\<close>

record mount =
  mo_host :: string
  mo_container :: string
  mo_read_only :: bool

record container_spec =
  ct_image :: string
  ct_name :: string
  ct_env :: "(string \<times> string) list"
  ct_mounts :: "mount list"
  ct_args :: "string list"
  ct_network :: string
  ct_memory :: string
  ct_cpus :: string
  ct_pids :: int

datatype container_error = Bad_Variable string | Bad_Name string | Bad_Mount string string | Bad_Image string

fun bad_variable :: "(string \<times> string) list \<Rightarrow> string option" where
  "bad_variable [] = None"
| "bad_variable ((k, v) # es) =
     (if k = [] \<or> CHR ''='' \<in> set k \<or> CHR 0x00 \<in> set k then Some k else bad_variable es)"

definition limit_flags :: "string \<Rightarrow> string \<Rightarrow> string \<Rightarrow> int \<Rightarrow> string list" where
  "limit_flags network memory cpus pids =
     (if network \<noteq> [] then [''--network'', network] else [])
     @ (if memory \<noteq> [] then [''--memory'', memory] else [])
     @ (if pids > 0 then [''--pids-limit'', show_int pids] else [])
     @ (if cpus \<noteq> [] then [''--cpus'', cpus] else [])"

definition ContainerRunFlags :: "string list \<Rightarrow> string \<Rightarrow> string \<Rightarrow> string \<Rightarrow> int \<Rightarrow> (string \<times> string) list
    \<Rightarrow> container_error + (string list \<times> string list)" where
  "ContainerRunFlags host network memory cpus pids env =
     (case bad_variable env of
        Some k \<Rightarrow> Inl (Bad_Variable k)
      | None \<Rightarrow>
          (let ks = sort (map fst env) in
           Inr (limit_flags network memory cpus pids @ concat (map (\<lambda>k. [''-e'', k]) ks),
                host @ map (\<lambda>k. k @ ''='' @ the (map_of env k)) ks)))"

definition mount_flag :: "mount \<Rightarrow> string" where
  "mount_flag m = mo_host m @ '':'' @ mo_container m @ (if mo_read_only m then '':ro'' else [])"

fun docker_mounts :: "(mount \<Rightarrow> bool) \<Rightarrow> mount list \<Rightarrow> container_error + string list" where
  "docker_mounts bad [] = Inr []"
| "docker_mounts bad (m # ms) =
     (if bad m then Inl (Bad_Mount (mo_host m) (mo_container m))
      else case docker_mounts bad ms of Inl e \<Rightarrow> Inl e | Inr vs \<Rightarrow> Inr (''-v'' # mount_flag m # vs))"

text \<open>\<open>DockerEngine.Run\<close>: the arguments of the program and its environment.\<close>

definition maker_mount_bad :: "mount \<Rightarrow> bool" where
  "maker_mount_bad m \<longleftrightarrow> CHR '':'' \<in> set (mo_host m) \<or> CHR '':'' \<in> set (mo_container m) \<or> mo_host m = [] \<or> mo_container m = []"

definition docker_run_args :: "string list \<Rightarrow> container_spec \<Rightarrow> container_error + (string list \<times> string list)" where
  "docker_run_args host ct =
     (if has_prefix (ct_name ct) ''-'' then Inl (Bad_Name (ct_name ct))
      else case ContainerRunFlags host (ct_network ct) (ct_memory ct) (ct_cpus ct) (ct_pids ct) (ct_env ct) of
             Inl e \<Rightarrow> Inl e
           | Inr (flags, environ) \<Rightarrow>
               (case docker_mounts maker_mount_bad (ct_mounts ct) of
                  Inl e \<Rightarrow> Inl e
                | Inr vs \<Rightarrow>
                    (if ct_image ct = [] \<or> has_prefix (ct_image ct) ''-'' then Inl (Bad_Image (ct_image ct))
                     else Inr ([''run'', ''--rm'', ''--cap-drop=ALL'', ''--security-opt=no-new-privileges'']
                               @ (if ct_name ct \<noteq> [] then [''--name'', ct_name ct] else [])
                               @ flags @ vs @ [ct_image ct] @ ct_args ct, environ))))"

text \<open>
  \<open>DockerEngine.Run\<close>: whatever ended the program, the named container is removed before the answer. The
  program's end is its exit code (negative for a signal) or an error to start it.
\<close>

datatype cli_end = Cli_Done | Cli_Exit int string | Cli_Failed string

definition docker_Run :: "string list \<Rightarrow> (string list \<Rightarrow> string list \<Rightarrow> 's \<Rightarrow> cli_end \<times> 's) \<Rightarrow> (string \<Rightarrow> 's \<Rightarrow> 's) \<Rightarrow> container_spec \<Rightarrow> 's
    \<Rightarrow> (int \<times> (container_error + string) option) \<times> 's" where
  "docker_Run host cli rm ct s =
     (case docker_run_args host ct of
        Inl e \<Rightarrow> ((-1, Some (Inl e)), s)
      | Inr (args, environ) \<Rightarrow>
          (let (x, s1) = cli args environ s; s2 = (if ct_name ct \<noteq> [] then rm (ct_name ct) s1 else s1) in
           (case x of
              Cli_Done \<Rightarrow> (0, None)
            | Cli_Exit code e \<Rightarrow> (if code \<ge> 0 then (code, None) else (-1, Some (Inr e)))
            | Cli_Failed e \<Rightarrow> (-1, Some (Inr e)), s2)))"

text \<open>\<open>CLIEngine.Start\<close>.\<close>

definition is_abs :: "string \<Rightarrow> bool" where
  "is_abs p \<longleftrightarrow> has_prefix p ''/''"

definition viceroy_mount_bad :: "mount \<Rightarrow> bool" where
  "viceroy_mount_bad m \<longleftrightarrow> \<not> is_abs (mo_host m) \<or> \<not> is_abs (mo_container m) \<or> CHR '':'' \<in> set (mo_host m @ mo_container m)"

definition cli_start_args :: "string list \<Rightarrow> container_spec \<Rightarrow> container_error + (string list \<times> string list)" where
  "cli_start_args host ct =
     (if ct_name ct = [] \<or> has_prefix (ct_name ct) ''-'' then Inl (Bad_Name (ct_name ct))
      else if ct_image ct = [] \<or> has_prefix (ct_image ct) ''-'' then Inl (Bad_Image (ct_image ct))
      else case ContainerRunFlags host (ct_network ct) (ct_memory ct) (ct_cpus ct) (ct_pids ct) (ct_env ct) of
             Inl e \<Rightarrow> Inl e
           | Inr (flags, environ) \<Rightarrow>
               (case docker_mounts viceroy_mount_bad (ct_mounts ct) of
                  Inl e \<Rightarrow> Inl e
                | Inr vs \<Rightarrow>
                    Inr ([''run'', ''-d'', ''--cap-drop=ALL'', ''--security-opt=no-new-privileges'', ''--name'', ct_name ct]
                         @ flags @ vs @ [ct_image ct], environ)))"

subsection \<open>Secrets stay out of the process table\<close>

text \<open>Values of variables decide the environment only, never the arguments.\<close>

lemma bad_variable_names: "map fst env = map fst env' \<Longrightarrow> bad_variable env = bad_variable env'"
proof (induction env arbitrary: env')
  case (Cons e es)
  then obtain e' es' where "env' = e' # es'" by (cases env') auto
  with Cons show ?case by (cases e; cases e') auto
qed simp

lemma args_ignore_values:
  assumes "map fst env = map fst env'"
  shows "map_sum id fst (docker_run_args host (ct\<lparr>ct_env := env\<rparr>)) = map_sum id fst (docker_run_args host (ct\<lparr>ct_env := env'\<rparr>))"
  using assms bad_variable_names [OF assms]
  by (auto simp: docker_run_args_def ContainerRunFlags_def Let_def split: option.splits sum.splits)

end
