(* ===== verification/Maker.thy ===== *)
theory Maker
  imports Repo_History Tail_Buffer Heijunka_Worker Container "HOL-Library.Product_Lexorder"
begin

text \<open>
  \<open>line/maker/runner.go\<close>: a maker's turn, from picking a card to settling it by what landed on the line's
  master, and the adapter to \<open>bd\<close>. The tracker, the container engine and the line's repository act on a world
  \<open>'s\<close>. Log lines are not modelled; the guide embedded in the prompt and the repository's walks are
  arguments.
\<close>

record bead =
  be_id :: string
  be_title :: string
  be_description :: string
  be_priority :: int
  be_labels :: "string list"

subsection \<open>Picking\<close>

definition GaveUpLabel :: string where "GaveUpLabel = LabelGaveUp"
definition DefaultMaxAttempts :: int where "DefaultMaxAttempts = 3"
definition DefaultTimeout :: duration where "DefaultTimeout = 2 * hour"
definition EngineErrorExit :: int where "EngineErrorExit = 125"
definition settleTries :: nat where "settleTries = 3"

definition andon_card :: "bead \<Rightarrow> bool" where
  "andon_card b \<longleftrightarrow> ''andon'' \<in> set (be_labels b)"

definition pick_skips :: "bool \<Rightarrow> bead \<Rightarrow> bool" where
  "pick_skips stopped b \<longleftrightarrow> GaveUpLabel \<in> set (be_labels b) \<or> (stopped \<and> \<not> andon_card b)"

definition pick_key :: "bead \<Rightarrow> bool \<times> int \<times> string" where
  "pick_key b = (\<not> andon_card b, be_priority b, be_id b)"

definition Pick :: "bead list \<Rightarrow> bool \<Rightarrow> bead option" where
  "Pick beads stopped =
     (case sort_key pick_key (filter (\<lambda>b. \<not> pick_skips stopped b) beads) of [] \<Rightarrow> None | b # bs \<Rightarrow> Some b)"

definition maker_idle_reason :: "bead list \<Rightarrow> bool \<Rightarrow> string \<Rightarrow> string" where
  "maker_idle_reason ready stopped label =
     (if ready = [] then ''no ready cards labelled '' @ label
      else if stopped \<and> \<not> list_ex andon_card ready
      then ''andon cord pulled and none of '' @ show_nat (length ready) @ '' ready cards is an andon card''
      else ''all '' @ show_nat (length ready) @ '' ready cards are labelled '' @ GaveUpLabel)"

fun event_line :: "string list \<Rightarrow> string" where
  "event_line [] = []"
| "event_line (l # ls) =
     (case cut_prefix (trim_space l) ''event: '' of
        None \<Rightarrow> event_line ls
      | Some ev \<Rightarrow> (if ev \<noteq> [] then trim_space ev else event_line ls))"

definition AndonEvent :: "bead \<Rightarrow> string" where
  "AndonEvent b = (if \<not> andon_card b then [] else event_line (split_char newline (be_description b)))"

subsection \<open>Landing\<close>

datatype landed_error = Bad_Pre_Run_Master string | Landed_Git git_error

fun any_names :: "gogit \<Rightarrow> repo \<Rightarrow> string \<Rightarrow> oid list \<Rightarrow> landed_error + bool" where
  "any_names G r bead_id [] = Inr False"
| "any_names G r bead_id (c # cs) =
     (case Trailer G r c ''Bead'' of
        Inl e \<Rightarrow> Inl (Landed_Git e)
      | Inr beads \<Rightarrow> (if bead_id \<in> set beads then Inr True else any_names G r bead_id cs))"

definition Landed :: "gogit \<Rightarrow> history \<Rightarrow> repo \<Rightarrow> string \<Rightarrow> string \<Rightarrow> landed_error + bool" where
  "Landed G W r bead_id pre =
     (if \<not> full_hex pre then Inl (Bad_Pre_Run_Master pre)
      else case CommitsSince G W r pre ''refs/heads/master'' of
             Inl e \<Rightarrow> Inl (Landed_Git e)
           | Inr added \<Rightarrow> any_names G r bead_id added)"

fun check_trailers :: "gogit \<Rightarrow> repo \<Rightarrow> string \<Rightarrow> (string \<times> string) list \<Rightarrow> string option" where
  "check_trailers G r rv [] = None"
| "check_trailers G r rv ((k, v) # ws) =
     (case Trailer G r rv k of
        Inl e \<Rightarrow> Some ''trailers''
      | Inr values \<Rightarrow>
          (if v \<in> set values then check_trailers G r rv ws
           else Some (rv @ '' lacks the trailer `'' @ k @ '': '' @ v
             @ ''`: put it in the commit message's last paragraph, with nothing after that paragraph, and amend'')))"

definition CheckTrailers :: "gogit \<Rightarrow> repo \<Rightarrow> string \<Rightarrow> string \<Rightarrow> string \<Rightarrow> string option" where
  "CheckTrailers G r rv bead_id event =
     check_trailers G r rv ((''Bead'', bead_id) # (if event \<noteq> [] then [(FixTrailer, event)] else []))"

subsection \<open>The world of a maker\<close>

record 's beads =
  bs_ready :: "string \<Rightarrow> 's \<Rightarrow> (string + bead list) \<times> 's"
  bs_claim :: "string \<Rightarrow> string \<Rightarrow> 's \<Rightarrow> string option \<times> 's"
  bs_close :: "string \<Rightarrow> string \<Rightarrow> 's \<Rightarrow> string option \<times> 's"
  bs_release :: "string \<Rightarrow> string \<Rightarrow> 's \<Rightarrow> string option \<times> 's"
  bs_comment_count :: "string \<Rightarrow> 's \<Rightarrow> (string + int) \<times> 's"
  bs_give_up :: "string \<Rightarrow> string \<Rightarrow> bool \<Rightarrow> 's \<Rightarrow> string option \<times> 's"
  bs_claimed :: "string \<Rightarrow> 's \<Rightarrow> (string + bead list) \<times> 's"

text \<open>
  A run of the container: its exit code, its error, whether the timeout's deadline had passed, the cause when
  the maker itself is ending, what the cord's polls answered before the run's context ended, and what the
  container wrote, in chunks. While it runs, \<open>me_run\<close> also sends the card's working heartbeats; \<open>me_pause\<close> is
  what happens elsewhere while the maker waits, between tries and between cards.
\<close>

record run_outcome =
  ro_code :: int
  ro_err :: "string option"
  ro_deadline :: bool
  ro_interrupted :: "string option"
  ro_polls :: "(git_error + bool) list"
  ro_output :: "string list"

record 's maker_env =
  me_beads :: "'s beads"
  me_remote :: "'s \<Rightarrow> repo"
  me_run :: "container_spec \<Rightarrow> bool \<Rightarrow> string \<Rightarrow> 's \<Rightarrow> run_outcome \<times> 's"  \<comment> \<open>whether the cord is watched, the card\<close>
  me_beat :: "heartbeat \<Rightarrow> 's \<Rightarrow> 's"
  me_pause :: "'s \<Rightarrow> 's"

record maker =
  mk_agent :: string
  mk_station :: string
  mk_label :: string
  mk_token :: string
  mk_token_file :: "string + string"
  mk_url :: string
  mk_station_url :: string
  mk_creds :: "(string \<times> string) list"
  mk_prompt_for :: "(bead \<Rightarrow> string) option"
  mk_guide :: string
  mk_remote_dir :: string
  mk_image :: string
  mk_network :: string
  mk_memory :: string
  mk_cpus :: string
  mk_pids :: int
  mk_timeout :: duration
  mk_max_attempts :: int
  mk_commit :: string

record maker_state =
  ms_attempts :: "string \<rightharpoonup> int"
  ms_last_landed :: bool

definition maxAttempts :: "maker \<Rightarrow> int" where
  "maxAttempts m = (if mk_max_attempts m > 0 then mk_max_attempts m else DefaultMaxAttempts)"

definition idle_beat :: "maker \<Rightarrow> string \<Rightarrow> heartbeat" where
  "idle_beat m why = \<lparr>hb_state = StateIdle, hb_card = [], hb_commit = mk_commit m, hb_idle_reason = why, hb_clock = None,
     hb_last_run = None, hb_next_run = None\<rparr>"

subsection \<open>Settling\<close>

text \<open>\<open>settleStep\<close>: up to the given number of tries; the last error is returned.\<close>

fun settle_tries :: "('s \<Rightarrow> 's) \<Rightarrow> nat \<Rightarrow> ('s \<Rightarrow> ('e + 'a) \<times> 's) \<Rightarrow> 's \<Rightarrow> ('e + 'a) \<times> 's" where
  "settle_tries pause 0 f s = f s"
| "settle_tries pause (Suc n) f s =
     (case f s of (Inr x, s') \<Rightarrow> (Inr x, s') | (Inl e, s') \<Rightarrow> settle_tries pause n f (pause s'))"

definition settleStep :: "('s \<Rightarrow> 's) \<Rightarrow> string \<Rightarrow> string \<Rightarrow> ('s \<Rightarrow> (string + 'a) \<times> 's) \<Rightarrow> 's \<Rightarrow> (string + 'a) \<times> 's" where
  "settleStep pause cid what f s =
     map_prod (map_sum (\<lambda>e. cid @ '': '' @ what @ '': '' @ e) id) id (settle_tries pause (settleTries - 1) f s)"

definition unit_call :: "('s \<Rightarrow> string option \<times> 's) \<Rightarrow> 's \<Rightarrow> (string + unit) \<times> 's" where
  "unit_call f s = (case f s of (None, s') \<Rightarrow> (Inr (), s') | (Some e, s') \<Rightarrow> (Inl e, s'))"

definition escalateUnsettled :: "'s beads \<Rightarrow> string \<Rightarrow> string \<Rightarrow> 's \<Rightarrow> string list \<times> 's" where
  "escalateUnsettled B cid cause s =
     (case bs_give_up B cid (''could not settle after the run: '' @ cause) True s of
        (None, s') \<Rightarrow> ([cause], s')
      | (Some e, s') \<Rightarrow> ([cause, cid @ '': escalate unsettled card: '' @ e], s'))"

definition landed_text :: "landed_error \<Rightarrow> string" where
  "landed_text e = (case e of Bad_Pre_Run_Master pre \<Rightarrow> ''bad pre-run master '' @ go_quote pre | Landed_Git g \<Rightarrow> ''read repository'')"

definition tail_of :: "string list \<Rightarrow> string" where
  "tail_of chunks = trim_space (foldl (\<lambda>buf p. tail_write failureTailBytes p buf) [] chunks)"

definition missingReportTail :: "string + int \<Rightarrow> string + int \<Rightarrow> string \<Rightarrow> string" where
  "missingReportTail before after out =
     (case (before, after) of
        (Inr b, Inr a) \<Rightarrow>
          (if a > b then []
           else if out = [] then ''; the maker left no failure report and no output''
           else ''; the maker left no failure report. Tail of its output:'' @ [newline] @ out)
      | _ \<Rightarrow>
          (if out = [] then ''; the maker left no failure report and no output''
           else ''; the maker left no failure report. Tail of its output:'' @ [newline] @ out))"

text \<open>What a run means for the card: its note, whether it counts as an attempt, and the error returned.\<close>

fun cancelWhenCordPulled :: "('e + bool) list \<Rightarrow> bool" where
  "cancelWhenCordPulled [] = False"
| "cancelWhenCordPulled (p # ps) = (case p of Inl e \<Rightarrow> cancelWhenCordPulled ps | Inr pulled \<Rightarrow> pulled \<or> cancelWhenCordPulled ps)"

definition run_verdict :: "string \<Rightarrow> duration \<Rightarrow> bool \<Rightarrow> run_outcome \<Rightarrow> string \<times> bool \<times> string option" where
  "run_verdict cid timeout watched ro =
     (let code = ''(exit '' @ show_int (ro_code ro) @ '')'' in
      if ro_deadline ro \<and> ro_interrupted ro = None
      then (''maker run timed out after '' @ duration_string timeout @ '' without landing '' @ code, True, ro_err ro)
      else case ro_interrupted ro of
             Some cause \<Rightarrow> (''maker run interrupted by '' @ cause @ '' without landing '' @ code, False, ro_err ro)
           | None \<Rightarrow>
               (if watched \<and> cancelWhenCordPulled (ro_polls ro) then (''maker run stopped: andon cord pulled '' @ code, False, ro_err ro)
                else case ro_err ro of
                       Some e \<Rightarrow> (''maker run ended without landing: container engine error: '' @ e, False, Some e)
                     | None \<Rightarrow>
                         (if ro_code ro = EngineErrorExit
                          then (''maker run ended without landing: container engine error '' @ code, False,
                                Some (cid @ '': container engine failed '' @ code))
                          else (''maker run ended without landing '' @ code, True, None))))"

definition count_attempt :: "maker \<Rightarrow> string \<Rightarrow> bool \<Rightarrow> string \<Rightarrow> (string \<rightharpoonup> int) \<Rightarrow> string \<times> bool \<times> (string \<rightharpoonup> int)" where
  "count_attempt m cid counts why attempts =
     (if \<not> counts then (why, False, attempts)
      else let n = (case attempts cid of None \<Rightarrow> 0 | Some k \<Rightarrow> k) + 1;
               why1 = why @ '' [attempt '' @ show_int n @ ''/'' @ show_int (maxAttempts m) @ '']'';
               over = n \<ge> maxAttempts m
           in (if over then why1 @ ''; giving up: labelled '' @ GaveUpLabel else why1, over, attempts(cid \<mapsto> n)))"

record settlement =
  sm_bead :: bead
  sm_pre :: string
  sm_why :: string
  sm_counts :: bool
  sm_give_up :: bool
  sm_run_err :: "string option"
  sm_before :: "string + int"
  sm_tail :: string

definition errs_of :: "string option \<Rightarrow> string list" where
  "errs_of e = (case e of None \<Rightarrow> [] | Some x \<Rightarrow> [x])"

definition settle_unlanded :: "('s \<Rightarrow> 's) \<Rightarrow> 's beads \<Rightarrow> settlement \<Rightarrow> maker_state \<Rightarrow> 's \<Rightarrow> (string list \<times> maker_state) \<times> 's" where
  "settle_unlanded pause B x ms s =
     (let cid = be_id (sm_bead x);
          (why, s1) = (if sm_counts x
             then (case bs_comment_count B cid s of (after, s1) \<Rightarrow> (sm_why x @ missingReportTail (sm_before x) after (sm_tail x), s1))
             else (sm_why x, s))
      in case settleStep pause cid ''release'' (unit_call (bs_release B cid why)) s1 of
           (Inl e, s2) \<Rightarrow> (case escalateUnsettled B cid e s2 of (es, s3) \<Rightarrow> ((errs_of (sm_run_err x) @ es, ms), s3))
         | (Inr _, s2) \<Rightarrow>
             (if sm_give_up x then
                (case bs_give_up B cid why (andon_card (sm_bead x)) s2 of
                   (e, s3) \<Rightarrow> ((errs_of (sm_run_err x) @ errs_of e, ms\<lparr>ms_attempts := (ms_attempts ms)(cid := None)\<rparr>), s3))
              else ((errs_of (sm_run_err x), ms), s2)))"

definition settle :: "gogit \<Rightarrow> history \<Rightarrow> 's maker_env \<Rightarrow> settlement \<Rightarrow> maker_state \<Rightarrow> 's \<Rightarrow> (string list \<times> maker_state) \<times> 's" where
  "settle G W E x ms s =
     (let B = me_beads E; cid = be_id (sm_bead x); pause = me_pause E in
      case settleStep pause cid ''read line master'' (\<lambda>s. (map_sum landed_text id (Landed G W (me_remote E s) cid (sm_pre x)), s)) s of
        (Inl e, s1) \<Rightarrow> (case escalateUnsettled B cid e s1 of (es, s2) \<Rightarrow> ((errs_of (sm_run_err x) @ es, ms), s2))
      | (Inr True, s1) \<Rightarrow>
          (case settleStep pause cid ''close'' (unit_call (bs_close B cid ''landed via line'')) s1 of
             (Inr _, s2) \<Rightarrow> ((errs_of (sm_run_err x), ms\<lparr>ms_last_landed := True\<rparr>), s2)
           | (Inl e, s2) \<Rightarrow>
               (case escalateUnsettled B cid e s2 of (es, s3) \<Rightarrow> ((errs_of (sm_run_err x) @ es, ms\<lparr>ms_last_landed := True\<rparr>), s3)))
      | (Inr False, s1) \<Rightarrow> settle_unlanded pause B x ms s1)"

subsection \<open>The prompt\<close>

definition maxSubmissions :: nat where "maxSubmissions = 3"

definition indent :: "string \<Rightarrow> string \<Rightarrow> string" where
  "indent s pre = join [newline] (map ((@) pre) (split_char newline s))"

definition protocol_intro :: "string \<Rightarrow> string list" where
  "protocol_intro role =
     [''Line protocol:'',
      [],
      ''1. Work in /work, a clone of the line's master (origin is /line/remote.git).'',
      ''   Keep the change small and focused on this card, and follow the code'',
      ''   quality guide at the end of this prompt. Read CLAUDE.md for the'',
      ''   project's conventions, but skip its beads/bd instructions: the host'',
      ''   tracks the card, and bd is not available here. You may read the line's'',
      ''   cards for more context: `sweatshop line cards show <id>` (description,'',
      ''   comments, dependencies, parent) and'',
      ''   `sweatshop line cards list [--parent ID] [--label L] [--status S]`.'',
      ''   Read the cards this one depends on or descends from when it refers to'',
      ''   them or leaves something unclear. Reading is optional.'',
      ''   Before starting, run `sweatshop line cards list --label needs:'' @ role @ ''`: cards'',
      ''   labelled so are questions addressed to you. Answer each you can by'',
      ''   commenting (`sweatshop line cards comment <id>`, text on stdin); you may'',
      ''   decline, and the asker decides how to proceed. Otherwise you cannot write'',
      ''   cards.'',
      ''2. Run `just ci` and make it pass before submitting.'',
      ''3. Commit with these trailers as the last paragraph of the commit message,'',
      ''   with nothing after them (no Co-Authored-By paragraph):'',
      []]"

definition protocol_rest :: "bead \<Rightarrow> string list" where
  "protocol_rest b =
     [[],
      ''4. Submit with `sweatshop line merge` (it checks HEAD and asks the merge guard'',
      ''   to land it). It exits 0 only when the commit merged.'',
      ''   - On status base_moved: `git fetch origin && git rebase origin/master`,'',
      ''     re-run `just ci`, and submit again.'',
      ''   - On checks_failed (or any failing check): read the evidence it prints,'',
      ''     fix the problem, commit, and submit again.'',
      ''   Submit at most '' @ show_nat maxSubmissions @ '' times in total.'',
      ''5. Never edit files outside the repository in /work. Never try to reach the'',
      ''   line by any other means than `sweatshop line` (no pushing, no other hosts).'',
      ''6. Stop when the commit merged or after '' @ show_nat maxSubmissions @ '' failed submissions. Before you'',
      ''   stop without a merge, post a failure report on your card:'',
      ''   `sweatshop line cards comment '' @ be_id b @ ''` with the text on stdin. Say why you gave up:'',
      ''   what you tried, what failed (quote the evidence), and what the next worker'',
      ''   should do differently. Without a report the runner can only attach the'',
      ''   tail of your output. End your output with exactly one summary line:'',
      ''   RESULT: merged <sha>'',
      ''   or'',
      ''   RESULT: gave-up <reason>'']"

definition upper_first :: "string \<Rightarrow> string" where
  "upper_first s = (case s of [] \<Rightarrow> [] | c # cs \<Rightarrow> (if is_lower c then char_of (of_char c - 32 :: nat) else c) # cs)"

text \<open>\<open>guide\<close> is the embedded guide of the role; \<open>None\<close> is the panic of an empty role.\<close>

definition RolePrompt :: "(string \<Rightarrow> string) \<Rightarrow> string \<Rightarrow> string \<Rightarrow> bead \<Rightarrow> string \<Rightarrow> string option" where
  "RolePrompt guide role mandate b event =
     (if role = [] then None
      else let trailers = ''Bead: '' @ be_id b @ (if event \<noteq> [] then newline # ''Andon-Event: '' @ event else []) in
        Some (''You are a '' @ upper_first role @ '' station on an assembly line. Your card:'' @ [newline, newline]
          @ ''ID: '' @ be_id b @ newline # ''Title: '' @ be_title b @ [newline, newline]
          @ trim_space (be_description b) @ [newline, newline]
          @ (if mandate \<noteq> [] then trim_space mandate @ [newline, newline] else [])
          @ (if event \<noteq> []
             then ''This is an andon card: the line is stopped because master fails a check. ''
               @ ''While it is stopped only fix commits carrying `Andon-Event: '' @ event @ ''` can merge. ''
               @ ''Fix master (or revert the breaking change) and nothing else.'' @ [newline, newline]
             else [])
          @ join [newline] (protocol_intro role) @ newline # indent trailers ''   ''
          @ newline # join [newline] (protocol_rest b) @ [newline]
          @ newline # ''Code quality guide (applies to every change you make):'' @ [newline, newline] @ guide role @ [newline]))"

definition Prompt :: "(string \<Rightarrow> string) \<Rightarrow> bead \<Rightarrow> string \<Rightarrow> string option" where
  "Prompt guide b event = RolePrompt guide ''maker'' [] b event"

subsection \<open>One card\<close>

definition credentialVars :: "string list" where
  "credentialVars = [''CLAUDE_CODE_OAUTH_TOKEN'', ''ANTHROPIC_API_KEY'']"

definition HostCreds :: "(string \<rightharpoonup> string) \<Rightarrow> (string \<times> string) list" where
  "HostCreds lookup = concat (map (\<lambda>k. case lookup k of None \<Rightarrow> [] | Some v \<Rightarrow> (if v \<noteq> [] then [(k, v)] else [])) credentialVars)"

definition name_char :: "char \<Rightarrow> bool" where
  "name_char c \<longleftrightarrow> is_lower c \<or> is_upper c \<or> is_digit c \<or> c \<in> set ''_.-''"

definition safe_name :: "string \<Rightarrow> string" where
  "safe_name s = map (\<lambda>c. if name_char c then c else CHR ''_'') s"

definition put_env :: "string \<Rightarrow> string \<Rightarrow> (string \<times> string) list \<Rightarrow> (string \<times> string) list" where
  "put_env k v es = filter (\<lambda>e. fst e \<noteq> k) es @ [(k, v)]"

definition maker_environment :: "maker \<Rightarrow> string \<Rightarrow> bead \<Rightarrow> (string \<times> string) list" where
  "maker_environment m token b =
     (let prompt = (case mk_prompt_for m of None \<Rightarrow> the (Prompt (\<lambda>_. mk_guide m) b (AndonEvent b)) | Some f \<Rightarrow> f b);
          env = fold (\<lambda>(k, v). put_env k v)
            [(''SWEATSHOP_LINE_URL'', if mk_url m = [] then mk_station_url m else mk_url m),
             (''SWEATSHOP_LINE_TOKEN'', token), (''SWEATSHOP_BEAD'', be_id b), (''SWEATSHOP_AGENT_ID'', mk_agent m),
             (''SWEATSHOP_PROMPT'', prompt)] (mk_creds m)
      in if AndonEvent b \<noteq> [] then put_env ''SWEATSHOP_ANDON_EVENT'' (AndonEvent b) env else env)"

definition maker_spec :: "maker \<Rightarrow> string \<Rightarrow> bead \<Rightarrow> container_spec" where
  "maker_spec m token b =
     \<lparr>ct_image = mk_image m, ct_name = safe_name (''sweatshop-'' @ mk_station m @ ''-'' @ be_id b),
      ct_env = maker_environment m token b,
      ct_mounts = [\<lparr>mo_host = mk_remote_dir m, mo_container = ''/line/remote.git'', mo_read_only = True\<rparr>],
      ct_args = [], ct_network = mk_network m, ct_memory = mk_memory m, ct_cpus = mk_cpus m, ct_pids = mk_pids m\<rparr>"

fun release_each :: "'s beads \<Rightarrow> bead list \<Rightarrow> 's \<Rightarrow> 's" where
  "release_each B [] s = s"
| "release_each B (b # bs) s =
     (if GaveUpLabel \<in> set (be_labels b) then release_each B bs s
      else release_each B bs (snd (bs_release B (be_id b) ''maker restarted; run did not settle'' s)))"

definition releaseStranded :: "'s beads \<Rightarrow> string \<Rightarrow> 's \<Rightarrow> 's" where
  "releaseStranded B agent s =
     (case bs_claimed B agent s of (Inl e, s') \<Rightarrow> s' | (Inr stranded, s') \<Rightarrow> release_each B stranded s')"

definition maker_token :: "maker \<Rightarrow> string + string" where
  "maker_token m =
     (if mk_token m \<noteq> [] then Inr (mk_token m)
      else case mk_token_file m of
             Inl e \<Rightarrow> Inl (''station '' @ mk_station m @ '' token: '' @ e)
           | Inr t \<Rightarrow> Inr (trim_space t))"

text \<open>The run of a claimed card and its settling.\<close>

definition work_card :: "gogit \<Rightarrow> history \<Rightarrow> 's maker_env \<Rightarrow> maker \<Rightarrow> bead \<Rightarrow> string \<Rightarrow> string \<Rightarrow> maker_state \<Rightarrow> 's
    \<Rightarrow> (string list \<times> maker_state) \<times> 's" where
  "work_card G W E m b token pre ms s =
     (let cid = be_id b; watched = \<not> andon_card b;
          timeout = (if mk_timeout m \<le> 0 then DefaultTimeout else mk_timeout m);
          (before, s1) = bs_comment_count (me_beads E) cid s;
          (ro, s2) = me_run E (maker_spec m token b) watched cid s1;
          (why, counts, run_err) = run_verdict cid timeout watched ro;
          (why1, give_up, attempts) = count_attempt m cid counts why (ms_attempts ms)
      in settle G W E
           \<lparr>sm_bead = b, sm_pre = pre, sm_why = why1, sm_counts = counts, sm_give_up = give_up, sm_run_err = run_err,
            sm_before = before, sm_tail = tail_of (ro_output ro)\<rparr> (ms\<lparr>ms_attempts := attempts\<rparr>) s2)"

definition maker_Once :: "gogit \<Rightarrow> history \<Rightarrow> 's maker_env \<Rightarrow> maker \<Rightarrow> maker_state \<Rightarrow> 's \<Rightarrow> ((bool \<times> string list) \<times> maker_state) \<times> 's" where
  "maker_Once G W E m ms s =
     (let B = me_beads E; label = (if mk_label m = [] then LabelLine else mk_label m);
          s1 = releaseStranded B (mk_agent m) (me_beat E (idle_beat m []) s)
      in case bs_ready B label s1 of
           (Inl e, s2) \<Rightarrow> (((False, [''ready beads: '' @ e]), ms), s2)
         | (Inr ready, s2) \<Rightarrow>
             (let stopped = RefExists (me_remote E s2) StopRef; ms1 = ms\<lparr>ms_last_landed := False\<rparr> in
              case Pick ready stopped of
                None \<Rightarrow> (((False, []), ms1), me_beat E (idle_beat m (maker_idle_reason ready stopped label)) s2)
              | Some b \<Rightarrow>
                  (case maker_token m of
                     Inl e \<Rightarrow> (((False, [e]), ms1), s2)
                   | Inr token \<Rightarrow>
                       (case repo_Ref G (me_remote E s2) ''refs/heads/master'' of
                          Inl e \<Rightarrow> (((False, [''read line master'']), ms1), s2)
                        | Inr pre \<Rightarrow>
                            (case bs_claim B (be_id b) (mk_agent m) s2 of
                               (Some e, s3) \<Rightarrow> (((False, [''claim '' @ be_id b @ '': '' @ e]), ms1), s3)
                             | (None, s3) \<Rightarrow>
                                 (case work_card G W E m b token pre ms1 s3 of
                                    ((errs, ms2), s4) \<Rightarrow> (((True, errs), ms2), s4)))))))"

text \<open>\<open>Loop\<close>: until the context ends, which \<open>ended\<close> reads in the world.\<close>

partial_function (option) maker_Loop :: "gogit \<Rightarrow> history \<Rightarrow> 's maker_env \<Rightarrow> ('s \<Rightarrow> bool) \<Rightarrow> maker \<Rightarrow> maker_state \<Rightarrow> 's \<Rightarrow> (maker_state \<times> 's) option" where
  "maker_Loop G W E ended m ms s =
     (case maker_Once G W E m ms s of
        (((worked, errs), ms1), s1) \<Rightarrow>
          (if ended s1 then Some (ms1, s1)
           else if worked \<and> errs = [] \<and> ms_last_landed ms1 then maker_Loop G W E ended m ms1 s1
           else let s2 = me_pause E s1 in if ended s2 then Some (ms1, s2) else maker_Loop G W E ended m ms1 s2))"

subsection \<open>The tracker behind the maker\<close>

text \<open>\<open>BeadsCLI\<close>: \<open>bd\<close> in a directory, with the decoders of its answers.\<close>

record 's maker_tool =
  mt_bd :: "'s bd_tool"
  mt_parse :: "string \<Rightarrow> string + bead list"
  mt_raw :: "string \<Rightarrow> string + string list"
  mt_actor :: string

definition maker_bd :: "'s maker_tool \<Rightarrow> string \<Rightarrow> string list \<Rightarrow> 's \<Rightarrow> (string + string) \<times> 's" where
  "maker_bd T actor args = bd (mt_bd T) (if actor \<noteq> [] then args @ [''--actor'', actor] else args)"

definition checkID :: "string \<Rightarrow> string option" where
  "checkID cid = fail_if (cid = [] \<or> has_prefix cid ''-'') (''bad bead id '' @ go_quote cid)"

definition checked :: "string \<Rightarrow> ('s \<Rightarrow> (string + 'a) \<times> 's) \<Rightarrow> 's \<Rightarrow> (string + 'a) \<times> 's" where
  "checked cid f s = (case checkID cid of Some e \<Rightarrow> (Inl e, s) | None \<Rightarrow> f s)"

definition only_err :: "('s \<Rightarrow> (string + 'a) \<times> 's) \<Rightarrow> 's \<Rightarrow> string option \<times> 's" where
  "only_err f s = call_err (f s) (\<lambda>s. (None, s))"

definition parse_cards :: "'s maker_tool \<Rightarrow> string \<Rightarrow> string + bead list" where
  "parse_cards T out = map_sum (\<lambda>e. ''parse ready cards: '' @ e) id (mt_parse T out)"

definition cli_ready :: "'s maker_tool \<Rightarrow> time \<Rightarrow> string \<Rightarrow> 's \<Rightarrow> (string + bead list) \<times> 's" where
  "cli_ready T now label s =
     call (maker_bd T [] [''ready'', ''--label'', label, ''--exclude-label'', GaveUpLabel, ''--limit'', ''0'', ''--json''] s)
       (\<lambda>out s. (map_sum id (filter (\<lambda>b. \<not> IsDeferred (be_labels b) now)) (parse_cards T out), s))"

definition cli_claim :: "'s maker_tool \<Rightarrow> string \<Rightarrow> string \<Rightarrow> 's \<Rightarrow> string option \<times> 's" where
  "cli_claim T cid agent = only_err (checked cid (maker_bd T agent [''update'', cid, ''--claim'']))"

definition cli_close :: "'s maker_tool \<Rightarrow> string \<Rightarrow> string \<Rightarrow> 's \<Rightarrow> string option \<times> 's" where
  "cli_close T cid reason = only_err (checked cid (maker_bd T (mt_actor T) [''close'', cid, ''--reason'', reason]))"

definition cli_claimed :: "'s maker_tool \<Rightarrow> string \<Rightarrow> 's \<Rightarrow> (string + bead list) \<times> 's" where
  "cli_claimed T agent s =
     call (maker_bd T (mt_actor T) [''list'', ''--status'', ''in_progress'', ''--assignee'', agent, ''--limit'', ''0'', ''--json''] s)
       (\<lambda>out s. (parse_cards T out, s))"

definition cli_release :: "'s maker_tool \<Rightarrow> string \<Rightarrow> string \<Rightarrow> 's \<Rightarrow> string option \<times> 's" where
  "cli_release T cid why = only_err (checked cid (maker_bd T (mt_actor T) [''unclaim'', cid, ''--reason'', why]))"

definition cli_comment_count :: "'s maker_tool \<Rightarrow> string \<Rightarrow> 's \<Rightarrow> (string + int) \<times> 's" where
  "cli_comment_count T cid = checked cid (\<lambda>s.
     call (maker_bd T (mt_actor T) [''comments'', cid, ''--json''] s) (\<lambda>out s.
       (case mt_raw T out of
          Inl e \<Rightarrow> Inl (''parse comments of '' @ cid @ '': '' @ e)
        | Inr comments \<Rightarrow> Inr (int (length comments)), s)))"

fun label_each :: "'s maker_tool \<Rightarrow> string \<Rightarrow> string list \<Rightarrow> 's \<Rightarrow> (string + unit) \<times> 's" where
  "label_each T cid [] s = (Inr (), s)"
| "label_each T cid (l # ls) s = call (maker_bd T (mt_actor T) [''label'', ''add'', cid, l] s) (\<lambda>_ s. label_each T cid ls s)"

definition cli_give_up :: "'s maker_tool \<Rightarrow> string \<Rightarrow> string \<Rightarrow> bool \<Rightarrow> 's \<Rightarrow> string option \<times> 's" where
  "cli_give_up T cid reason to_king = only_err (checked cid (\<lambda>s.
     if trim_space reason = [] then (Inl ''give up: reason is required'', s)
     else call (maker_bd T (mt_actor T) [''comments'', ''add'', ''--'', cid, ''gave up: '' @ reason] s) (\<lambda>_ s.
            label_each T cid (GaveUpLabel # (if to_king then [LabelNeedsPrefix @ ''king''] else [])) s)))"

definition BeadsCLI :: "'s maker_tool \<Rightarrow> time \<Rightarrow> 's beads" where
  "BeadsCLI T now =
     \<lparr>bs_ready = cli_ready T now, bs_claim = cli_claim T, bs_close = cli_close T, bs_release = cli_release T,
      bs_comment_count = cli_comment_count T, bs_give_up = cli_give_up T, bs_claimed = cli_claimed T\<rparr>"

end
