(* ===== verification/Maker_Correct.thy ===== *)
theory Maker_Correct
  imports Maker
begin

text \<open>
  What a maker's turn promises: the card it picks, and what it does to the tracker. The tracker's calls are
  recorded by a wrapper around any tracker, so that a statement about the record holds whatever the tracker,
  the engine and the line do.
\<close>

subsection \<open>The card it picks\<close>

lemma Pick_best:
  "Pick bs stopped = Some b \<longleftrightarrow>
     (\<exists>rest. sort_key pick_key (filter (\<lambda>b. \<not> pick_skips stopped b) bs) = b # rest)"
  by (auto simp: Pick_def split: list.splits)

lemma Pick_eligible: "Pick bs stopped = Some b \<Longrightarrow> b \<in> set bs \<and> \<not> pick_skips stopped b"
proof -
  assume "Pick bs stopped = Some b"
  then obtain rest where "sort_key pick_key (filter (\<lambda>b. \<not> pick_skips stopped b) bs) = b # rest" by (auto simp: Pick_best)
  then have "set (b # rest) = {x \<in> set bs. \<not> pick_skips stopped x}" by (metis set_filter set_sort)
  then show ?thesis by auto
qed

lemma Pick_least: "Pick bs stopped = Some b \<Longrightarrow> c \<in> set bs \<Longrightarrow> \<not> pick_skips stopped c \<Longrightarrow> pick_key b \<le> pick_key c"
proof -
  assume "Pick bs stopped = Some b" and c: "c \<in> set bs" "\<not> pick_skips stopped c"
  then obtain rest where rest: "sort_key pick_key (filter (\<lambda>b. \<not> pick_skips stopped b) bs) = b # rest" by (auto simp: Pick_best)
  then have "set (b # rest) = {x \<in> set bs. \<not> pick_skips stopped x}" by (metis set_filter set_sort)
  with c have "c \<in> set (b # rest)" by auto
  moreover have "sorted (map pick_key (b # rest))" using rest by (metis sorted_sort_key)
  ultimately show ?thesis by auto
qed

lemma Pick_None: "Pick bs stopped = None \<longleftrightarrow> (\<forall>b \<in> set bs. pick_skips stopped b)"
proof -
  have "Pick bs stopped = None \<longleftrightarrow> sort_key pick_key (filter (\<lambda>b. \<not> pick_skips stopped b) bs) = []"
    by (simp add: Pick_def split: list.splits)
  also have "\<dots> \<longleftrightarrow> filter (\<lambda>b. \<not> pick_skips stopped b) bs = []" by (metis set_empty set_sort)
  finally show ?thesis by (simp add: filter_empty_conv)
qed

subsection \<open>Landing\<close>

lemma any_names_True: "any_names G r cid cs = Inr True \<Longrightarrow> \<exists>c \<in> set cs. \<exists>vs. Trailer G r c ''Bead'' = Inr vs \<and> cid \<in> set vs"
  by (induction cs) (auto split: sum.splits if_splits)

definition carries :: "gogit \<Rightarrow> repo \<Rightarrow> oid \<Rightarrow> string \<Rightarrow> bool" where
  "carries G r c cid \<longleftrightarrow> (case Trailer G r c ''Bead'' of Inl e \<Rightarrow> False | Inr vs \<Rightarrow> cid \<in> set vs)"

text \<open>A commit that came to master after \<open>pre\<close> names the card.\<close>

definition lands :: "gogit \<Rightarrow> repo \<Rightarrow> string \<Rightarrow> string \<Rightarrow> bool" where
  "lands G r cid pre \<longleftrightarrow>
     (\<exists>b x t y c. resolveCommit G r pre = Inr (b, x) \<and> resolveCommit G r ''refs/heads/master'' = Inr (t, y)
        \<and> ancestor (rp_objects r) c t \<and> \<not> ancestor (rp_objects r) c b \<and> carries G r c cid)"

lemma CommitsSince_resolves:
  assumes "CommitsSince G W r base tip = Inr l"
  obtains b x t y where "resolveCommit G r base = Inr (b, x)" "resolveCommit G r tip = Inr (t, y)"
  using assms by (auto simp: CommitsSince_def split: sum.splits)

lemma Landed_lands:
  assumes "lawful_history W" "Landed G W r cid pre = Inr True"
  shows "lands G r cid pre"
proof -
  obtain added where added: "CommitsSince G W r pre ''refs/heads/master'' = Inr added" "any_names G r cid added = Inr True"
    using assms(2) by (auto simp: Landed_def split: if_splits sum.splits)
  obtain b x t y where *: "resolveCommit G r pre = Inr (b, x)" "resolveCommit G r ''refs/heads/master'' = Inr (t, y)"
    using CommitsSince_resolves [OF added(1)] .
  obtain c vs where c: "c \<in> set added" "Trailer G r c ''Bead'' = Inr vs" "cid \<in> set vs" using any_names_True [OF added(2)] by blast
  then show ?thesis using CommitsSince_correct [OF assms(1) added(1) *] *
    by (cases x; cases y) (auto simp: lands_def carries_def)
qed

subsection \<open>What a turn does to the tracker\<close>

datatype tracker_call = C_Claim string | C_Close string | C_Release string | C_GiveUp string bool

definition log_call :: "tracker_call \<Rightarrow> ('s \<Rightarrow> 'a \<times> 's) \<Rightarrow> 's \<times> tracker_call list \<Rightarrow> 'a \<times> ('s \<times> tracker_call list)" where
  "log_call c f w = (case f (fst w) of (x, s) \<Rightarrow> (x, (s, snd w @ [c])))"

definition unlogged :: "('s \<Rightarrow> 'a \<times> 's) \<Rightarrow> 's \<times> tracker_call list \<Rightarrow> 'a \<times> ('s \<times> tracker_call list)" where
  "unlogged f w = (case f (fst w) of (x, s) \<Rightarrow> (x, (s, snd w)))"

definition logged_beads :: "'s beads \<Rightarrow> ('s \<times> tracker_call list) beads" where
  "logged_beads B =
     \<lparr>bs_ready = \<lambda>label. unlogged (bs_ready B label),
      bs_claim = \<lambda>cid agent. log_call (C_Claim cid) (bs_claim B cid agent),
      bs_close = \<lambda>cid why. log_call (C_Close cid) (bs_close B cid why),
      bs_release = \<lambda>cid why. log_call (C_Release cid) (bs_release B cid why),
      bs_comment_count = \<lambda>cid. unlogged (bs_comment_count B cid),
      bs_give_up = \<lambda>cid why king. log_call (C_GiveUp cid king) (bs_give_up B cid why king),
      bs_claimed = \<lambda>agent. unlogged (bs_claimed B agent)\<rparr>"

definition logged :: "'s maker_env \<Rightarrow> ('s \<times> tracker_call list) maker_env" where
  "logged E =
     \<lparr>me_beads = logged_beads (me_beads E), me_remote = \<lambda>w. me_remote E (fst w),
      me_run = \<lambda>ct watched cid. unlogged (me_run E ct watched cid), me_beat = \<lambda>hb w. (me_beat E hb (fst w), snd w),
      me_pause = \<lambda>w. (me_pause E (fst w), snd w)\<rparr>"

lemma logged_beads_simps [simp]:
  "bs_ready (logged_beads B) label = unlogged (bs_ready B label)"
  "bs_claim (logged_beads B) cid agent = log_call (C_Claim cid) (bs_claim B cid agent)"
  "bs_close (logged_beads B) cid why = log_call (C_Close cid) (bs_close B cid why)"
  "bs_release (logged_beads B) cid why = log_call (C_Release cid) (bs_release B cid why)"
  "bs_comment_count (logged_beads B) cid = unlogged (bs_comment_count B cid)"
  "bs_give_up (logged_beads B) cid why king = log_call (C_GiveUp cid king) (bs_give_up B cid why king)"
  "bs_claimed (logged_beads B) agent = unlogged (bs_claimed B agent)"
  by (simp_all add: logged_beads_def)

lemma logged_simps [simp]:
  "me_beads (logged E) = logged_beads (me_beads E)"
  "me_remote (logged E) w = me_remote E (fst w)"
  "me_run (logged E) ct watched cid = unlogged (me_run E ct watched cid)"
  "me_beat (logged E) hb w = (me_beat E hb (fst w), snd w)"
  "me_pause (logged E) = (\<lambda>w. (me_pause E (fst w), snd w))"
  by (simp_all add: logged_def)

lemma unlogged_apply [simp]: "unlogged f (s, l) = (fst (f s), (snd (f s), l))"
  by (simp add: unlogged_def split: prod.splits)

lemma log_call_apply [simp]: "log_call c f (s, l) = (fst (f s), (snd (f s), l @ [c]))"
  by (simp add: log_call_def split: prod.splits)

text \<open>The calls a settled card may see: at most three tries of each step, and an escalation when they all fail.\<close>

inductive settles :: "string \<Rightarrow> tracker_call list \<Rightarrow> bool" where
  settles_unread: "settles cid [C_GiveUp cid True]"
| settles_close: "1 \<le> k \<Longrightarrow> k \<le> settleTries \<Longrightarrow> settles cid (replicate k (C_Close cid))"
| settles_close_failed: "settles cid (replicate settleTries (C_Close cid) @ [C_GiveUp cid True])"
| settles_release: "1 \<le> k \<Longrightarrow> k \<le> settleTries \<Longrightarrow> settles cid (replicate k (C_Release cid))"
| settles_give_up: "1 \<le> k \<Longrightarrow> k \<le> settleTries \<Longrightarrow> settles cid (replicate k (C_Release cid) @ [C_GiveUp cid king])"

inductive_simps settles_iff: "settles cid l"

lemma settle_tries_logged:
  fixes f :: "'s \<Rightarrow> string option \<times> 's"
  assumes "settle_tries (\<lambda>w. (pause (fst w), snd w)) n (unit_call (log_call c f)) (s, l) = (x, (s', l'))"
  shows "\<exists>k. 1 \<le> k \<and> k \<le> Suc n \<and> l' = l @ replicate k c \<and> (\<forall>e. x = Inl e \<longrightarrow> k = Suc n)"
  using assms
proof (induction n arbitrary: s l)
  case 0
  then show ?case by (auto simp: unit_call_def log_call_def split: prod.splits option.splits intro!: exI [of _ 1])
next
  case (Suc n)
  obtain r s1 where r: "f s = (r, s1)" by (cases "f s")
  show ?case
  proof (cases r)
    case None
    with Suc.prems r show ?thesis by (auto simp: unit_call_def log_call_def intro!: exI [of _ 1])
  next
    case (Some e)
    with r have "unit_call (log_call c f) (s, l) = (Inl e, (s1, l @ [c]))" by (simp add: unit_call_def log_call_def)
    with Suc.prems have "settle_tries (\<lambda>w. (pause (fst w), snd w)) n (unit_call (log_call c f)) (pause s1, l @ [c]) = (x, (s', l'))"
      by simp
    from Suc.IH [OF this] obtain k where "1 \<le> k" "k \<le> Suc n" "l' = (l @ [c]) @ replicate k c" "\<forall>e. x = Inl e \<longrightarrow> k = Suc n" by blast
    then show ?thesis by (intro exI [of _ "Suc k"]) auto
  qed
qed

lemma settle_tries_read:
  fixes g :: "'s \<Rightarrow> 'e + 'a"
  assumes "settle_tries (\<lambda>w. (pause (fst w), snd w)) n (\<lambda>w. (g (fst w), w)) (s, l) = (x, (s', l'))"
  shows "l' = l \<and> (\<exists>s0. g s0 = x)"
  using assms
proof (induction n arbitrary: s)
  case (Suc n)
  show ?case
  proof (cases "g s")
    case (Inl e)
    with Suc.prems have "settle_tries (\<lambda>w. (pause (fst w), snd w)) n (\<lambda>w. (g (fst w), w)) (pause s, l) = (x, (s', l'))" by simp
    then show ?thesis by (rule Suc.IH)
  next
    case (Inr y)
    with Suc.prems show ?thesis by auto
  qed
qed auto

lemma settleStep_logged:
  fixes f :: "'s \<Rightarrow> string option \<times> 's"
  assumes "settleStep (\<lambda>w. (pause (fst w), snd w)) cid what (unit_call (log_call c f)) (s, l) = (x, (s', l'))"
  obtains k where "1 \<le> k" "k \<le> settleTries" "l' = l @ replicate k c" "\<And>e. x = Inl e \<Longrightarrow> k = settleTries"
proof -
  obtain y where y: "settle_tries (\<lambda>w. (pause (fst w), snd w)) (settleTries - 1) (unit_call (log_call c f)) (s, l) = (y, (s', l'))"
    and x: "x = map_sum (\<lambda>e. cid @ '': '' @ what @ '': '' @ e) id y"
    using assms by (auto simp: settleStep_def map_prod_def split: prod.splits)
  from settle_tries_logged [OF y] obtain k where "1 \<le> k" "k \<le> Suc (settleTries - 1)" "l' = l @ replicate k c"
    "\<forall>e. y = Inl e \<longrightarrow> k = Suc (settleTries - 1)" by blast
  moreover have "Suc (settleTries - 1) = settleTries" by (simp add: settleTries_def)
  ultimately show thesis using that [of k] x by (cases y) auto
qed

lemma settleStep_read:
  fixes g :: "'s \<Rightarrow> string + 'a"
  assumes "settleStep (\<lambda>w. (pause (fst w), snd w)) cid what (\<lambda>w. (g (fst w), w)) (s, l) = (x, (s', l'))"
  shows "l' = l \<and> (\<forall>v. x = Inr v \<longrightarrow> (\<exists>s0. g s0 = Inr v))"
proof -
  obtain y where y: "settle_tries (\<lambda>w. (pause (fst w), snd w)) (settleTries - 1) (\<lambda>w. (g (fst w), w)) (s, l) = (y, (s', l'))"
    and x: "x = map_sum (\<lambda>e. cid @ '': '' @ what @ '': '' @ e) id y"
    using assms by (auto simp: settleStep_def map_prod_def split: prod.splits)
  with settle_tries_read [OF y] show ?thesis by (cases y) auto
qed

lemma escalate_logged:
  assumes "escalateUnsettled (logged_beads B) cid cause (s, l) = (x, (s', l'))"
  shows "l' = l @ [C_GiveUp cid True]"
  using assms by (auto simp: escalateUnsettled_def split: prod.splits option.splits)

lemma settle_unlanded_logged:
  assumes "settle_unlanded (\<lambda>w. (pause (fst w), snd w)) (logged_beads B) x ms (s, l) = (r, (s', l'))"
  shows "\<exists>calls. l' = l @ calls \<and> settles (be_id (sm_bead x)) calls \<and> (\<forall>c. C_Close c \<notin> set calls)"
proof -
  let ?cid = "be_id (sm_bead x)" and ?pause = "\<lambda>w. (pause (fst w), snd w)"
  obtain why s1 where 1: "(if sm_counts x
             then (case bs_comment_count (logged_beads B) ?cid (s, l) of (after, s1) \<Rightarrow> (sm_why x @ missingReportTail (sm_before x) after (sm_tail x), s1))
             else (sm_why x, (s, l))) = (why, (s1, l))"
    by (cases "sm_counts x"; cases "bs_comment_count B ?cid s") auto
  obtain y s2 l2 where 2: "settleStep ?pause ?cid ''release'' (unit_call (bs_release (logged_beads B) ?cid why)) (s1, l) = (y, (s2, l2))"
    by (rule prod_cases3)
  then have released: "settleStep ?pause ?cid ''release'' (unit_call (log_call (C_Release ?cid) (bs_release B ?cid why))) (s1, l) = (y, (s2, l2))"
    by simp
  obtain k where k: "1 \<le> k" "k \<le> settleTries" "l2 = l @ replicate k (C_Release ?cid)"
    using settleStep_logged [OF released] by blast
  have l': "l' = l2 \<or> (\<exists>king. l' = l2 @ [C_GiveUp ?cid king])"
  proof (cases y)
    case (Inl e)
    obtain es s3 l3 where "escalateUnsettled (logged_beads B) ?cid e (s2, l2) = (es, (s3, l3))" by (rule prod_cases3)
    with assms 2 Inl escalate_logged [OF this] show ?thesis by (auto simp: settle_unlanded_def Let_def 1 simp del: logged_beads_simps)
  next
    case (Inr u)
    with assms 2 show ?thesis 
      by (cases "sm_give_up x") (auto simp: settle_unlanded_def Let_def 1 released)
  qed
  show ?thesis
  proof (cases "l' = l2")
    case True
    with k show ?thesis by (intro exI [of _ "replicate k (C_Release ?cid)"]) (auto intro: settles_release)
  next
    case False
    with l' obtain king where "l' = l2 @ [C_GiveUp ?cid king]" by blast
    with k show ?thesis by (intro exI [of _ "replicate k (C_Release ?cid) @ [C_GiveUp ?cid king]"]) (auto intro: settles_give_up)
  qed
qed

text \<open>Settling a card: what is recorded, and that closing it follows a reading of master that landed it.\<close>

lemma settle_logged:
  assumes "settle G W (logged E) x ms (s, l) = (r, (s', l'))"
  shows "\<exists>calls. l' = l @ calls \<and> settles (be_id (sm_bead x)) calls
    \<and> (\<forall>c. C_Close c \<in> set calls \<longrightarrow> c = be_id (sm_bead x) \<and> (\<exists>s0. Landed G W (me_remote E s0) c (sm_pre x) = Inr True))"
proof -
  let ?cid = "be_id (sm_bead x)" and ?pause = "\<lambda>w. (me_pause E (fst w), snd w)"
  let ?read = "\<lambda>s. map_sum landed_text id (Landed G W (me_remote E s) ?cid (sm_pre x))"
  obtain y s1 l1 where 1: "settleStep ?pause ?cid ''read line master'' (\<lambda>w. (?read (fst w), w)) (s, l) = (y, (s1, l1))"
    by (rule prod_cases3)
  from settleStep_read [OF this] have l1: "l1 = l" and seen: "\<And>v. y = Inr v \<Longrightarrow> \<exists>s0. ?read s0 = Inr v" by blast+
  consider (unread) e where "y = Inl e" | (landed) "y = Inr True" | (absent) "y = Inr False" by (metis sum.exhaust)
  then show ?thesis
  proof cases
    case unread
    obtain es s3 l3 where "escalateUnsettled (logged_beads (me_beads E)) ?cid e (s1, l1) = (es, (s3, l3))" by (rule prod_cases3)
    with assms 1 l1 unread escalate_logged [OF this] have "l' = l @ [C_GiveUp ?cid True]" by (simp add: settle_def Let_def)
    then show ?thesis by (intro exI [of _ "[C_GiveUp ?cid True]"]) (auto intro: settles_unread)
  next
    case landed
    obtain s0 where "?read s0 = Inr True" using seen [OF landed] by blast
    then have s0: "Landed G W (me_remote E s0) ?cid (sm_pre x) = Inr True" by (cases "Landed G W (me_remote E s0) ?cid (sm_pre x)") auto
    obtain z s2 l2 where 2: "settleStep ?pause ?cid ''close'' (unit_call (bs_close (logged_beads (me_beads E)) ?cid ''landed via line'')) (s1, l) = (z, (s2, l2))"
      by (rule prod_cases3)
    then have close: "settleStep ?pause ?cid ''close'' (unit_call (log_call (C_Close ?cid) (bs_close (me_beads E) ?cid ''landed via line''))) (s1, l) = (z, (s2, l2))"
      by simp
    obtain k where k: "1 \<le> k" "k \<le> settleTries" "l2 = l @ replicate k (C_Close ?cid)" "\<And>e. z = Inl e \<Longrightarrow> k = settleTries"
      using settleStep_logged [OF close] by blast
    have "l' = l2 \<or> (\<exists>e. z = Inl e) \<and> l' = l2 @ [C_GiveUp ?cid True]"
    proof (cases z)
      case (Inl e)
      obtain es s3 l3 where "escalateUnsettled (logged_beads (me_beads E)) ?cid e (s2, l2) = (es, (s3, l3))" by (rule prod_cases3)
      with assms 1 close l1 landed Inl escalate_logged [OF this] show ?thesis by (simp add: settle_def Let_def)
    next
      case (Inr u)
      with assms 1 close l1 landed show ?thesis by (simp add: settle_def Let_def)
    qed
    then show ?thesis
    proof
      assume "l' = l2"
      with k s0 show ?thesis by (intro exI [of _ "replicate k (C_Close ?cid)"]) (auto intro: settles_close)
    next
      assume "(\<exists>e. z = Inl e) \<and> l' = l2 @ [C_GiveUp ?cid True]"
      with k s0 show ?thesis
        by (intro exI [of _ "replicate settleTries (C_Close ?cid) @ [C_GiveUp ?cid True]"]) (auto intro: settles_close_failed)
    qed
  next
    case absent
    with assms 1 l1 have "settle_unlanded ?pause (logged_beads (me_beads E)) x ms (s1, l) = (r, (s', l'))"
      by (simp add: settle_def Let_def)
    from settle_unlanded_logged [OF this] show ?thesis by blast
  qed
qed

lemma release_each_logged:
  "release_each (logged_beads B) bs (s, l) = (s', l') \<Longrightarrow> \<exists>ids. l' = l @ map C_Release ids \<and> set ids \<subseteq> be_id ` set bs"
proof (induction bs arbitrary: s l)
  case (Cons b bs)
  show ?case
  proof (cases "GaveUpLabel \<in> set (be_labels b)")
    case True
    with Cons show ?thesis by fastforce
  next
    case False
    obtain e s1 where "bs_release B (be_id b) ''maker restarted; run did not settle'' s = (e, s1)" by fastforce
    with Cons.prems False have "release_each (logged_beads B) bs (s1, l @ [C_Release (be_id b)]) = (s', l')"
      by simp
    from Cons.IH [OF this] obtain ids where "l' = (l @ [C_Release (be_id b)]) @ map C_Release ids" "set ids \<subseteq> be_id ` set bs" by blast
    then show ?thesis by (intro exI [of _ "be_id b # ids"]) auto
  qed
qed simp

lemma releaseStranded_logged:
  "releaseStranded (logged_beads B) agent (s, l) = (s', l') \<Longrightarrow> \<exists>ids. l' = l @ map C_Release ids"
  by (auto simp: releaseStranded_def split: prod.splits sum.splits dest!: release_each_logged)

lemma work_card_logged:
  assumes "work_card G W (logged E) m b token pre ms (s, l) = (r, (s', l'))"
  shows "\<exists>calls. l' = l @ calls \<and> settles (be_id b) calls
    \<and> (\<forall>c. C_Close c \<in> set calls \<longrightarrow> c = be_id b \<and> (\<exists>s0. Landed G W (me_remote E s0) c pre = Inr True))"
proof -
  obtain n s1 where 1: "bs_comment_count (me_beads E) (be_id b) s = (n, s1)" by fastforce
  obtain ro s2 where 2: "me_run E (maker_spec m token b) (\<not> andon_card b) (be_id b) s1 = (ro, s2)" by fastforce
  obtain x ms' where "settle G W (logged E) x ms' (s2, l) = (r, (s', l'))" "sm_bead x = b" "sm_pre x = pre"
    using assms 1 2 by (auto simp: work_card_def Let_def split: prod.splits)
  with settle_logged show ?thesis by metis
qed

text \<open>The record of a whole turn.\<close>

lemma Once_logged:
  assumes "maker_Once G W (logged E) m ms (s, []) = (((worked, errs), ms'), (s', log))"
  shows "\<exists>ids. (\<not> worked \<and> (log = map C_Release ids \<or> (\<exists>b :: bead. log = map C_Release ids @ [C_Claim (be_id b)] \<and> errs \<noteq> [])))
    \<or> (worked \<and> (\<exists>(b :: bead) pre s1 calls. log = map C_Release ids @ C_Claim (be_id b) # calls \<and> settles (be_id b) calls
         \<and> repo_Ref G (me_remote E s1) ''refs/heads/master'' = Inr pre
         \<and> (\<forall>c. C_Close c \<in> set calls \<longrightarrow> c = be_id b \<and> (\<exists>s0. Landed G W (me_remote E s0) c pre = Inr True))))"
proof -
  let ?B = "logged_beads (me_beads E)"
  define label where "label = (if mk_label m = [] then LabelLine else mk_label m)"
  obtain s1 l1 where 1: "releaseStranded ?B (mk_agent m) (me_beat E (idle_beat m []) s, []) = (s1, l1)" by fastforce
  then obtain ids where ids: "l1 = map C_Release ids" using releaseStranded_logged by fastforce
  obtain y s2 where 2: "bs_ready (me_beads E) label s1 = (y, s2)" by fastforce
  note step = assms [unfolded maker_Once_def Let_def, folded label_def]
  show ?thesis
  proof (cases y)
    case (Inl e)
    with step 1 2 ids show ?thesis by auto
  next
    case (Inr ready)
    let ?stopped = "RefExists (me_remote E s2) StopRef"
    show ?thesis
    proof (cases "Pick ready ?stopped")
      case None
      with Inr step 1 2 ids show ?thesis by auto
    next
      case (Some b)
      show ?thesis
      proof (cases "maker_token m")
        case (Inl e)
        with Some \<open>y = Inr ready\<close> step 1 2 ids show ?thesis by auto
      next
        case (Inr token)
        show ?thesis
        proof (cases "repo_Ref G (me_remote E s2) ''refs/heads/master''")
          case (Inl e)
          with Inr Some \<open>y = Inr ready\<close> step 1 2 ids show ?thesis by auto
        next
          case pre: (Inr pre)
          obtain e s3 where 3: "bs_claim (me_beads E) (be_id b) (mk_agent m) s2 = (e, s3)" by fastforce
          show ?thesis
          proof (cases e)
            case (Some err)
            with pre Inr \<open>Pick ready ?stopped = Some b\<close> \<open>y = Inr ready\<close> step 1 2 3 ids
            have "\<not> worked" "log = map C_Release ids @ [C_Claim (be_id b)]" "errs \<noteq> []" by auto
            then show ?thesis by (intro exI [of _ ids]) blast
          next
            case None
            obtain r s4 l4 where r: "work_card G W (logged E) m b token pre (ms\<lparr>ms_last_landed := False\<rparr>) (s3, l1 @ [C_Claim (be_id b)]) = (r, (s4, l4))"
              by (rule prod_cases3)
            have "worked \<and> l4 = log"
              using None pre Inr \<open>Pick ready ?stopped = Some b\<close> \<open>y = Inr ready\<close> step 1 2 3 r by (cases r) simp
            with work_card_logged [OF r] ids obtain calls where calls: "worked" "log = map C_Release ids @ C_Claim (be_id b) # calls" "settles (be_id b) calls"
              "\<forall>c. C_Close c \<in> set calls \<longrightarrow> c = be_id b \<and> (\<exists>s0. Landed G W (me_remote E s0) c pre = Inr True)" by auto
            show ?thesis using calls pre by (intro exI [of _ ids] disjI2 conjI exI [of _ b] exI [of _ pre] exI [of _ s2] exI [of _ calls]) auto
          qed
        qed
      qed
    qed
  qed
qed

end
