(* ===== verification/Bundle.thy ===== *)
theory Bundle
  imports Repo_History
begin

text \<open>
  Writing a bundle (\<open>CreateBundle\<close> of \<open>line/gitx/bundle.go\<close>): which objects it must carry above a base, and its
  text. The recursive walks keep their call stacks as task lists. The pack encoder and parser are go-git's and
  are arguments; what the source relies on of them is \<open>lawful_pack\<close>. The theory ends with the round trip: what
  one repository bundles, another that holds the base fetches.
\<close>

subsection \<open>Selecting objects\<close>

datatype tree_task = In_Tree oid | In_Blob oid

fun task_id :: "tree_task \<Rightarrow> oid" where
  "task_id (In_Tree h) = h"
| "task_id (In_Blob h) = h"

fun entry_tasks :: "(string \<times> entry_mode \<times> oid) list \<Rightarrow> tree_task list" where
  "entry_tasks [] = []"
| "entry_tasks ((n, m, h) # es) =
     (if m = Mode_Submodule then entry_tasks es
      else if m = Mode_Dir then In_Tree h # entry_tasks es
      else In_Blob h # entry_tasks es)"

definition tree_entries :: "object_store \<Rightarrow> oid \<Rightarrow> (string \<times> entry_mode \<times> oid) list option" where
  "tree_entries objs h = (case map_of objs h of Some (Tree_Obj es) \<Rightarrow> Some es | _ \<Rightarrow> None)"

definition commit_links :: "object_store \<Rightarrow> oid \<Rightarrow> (oid \<times> oid list) option" where
  "commit_links objs h = (case map_of objs h of Some (Commit_Obj t ps m) \<Rightarrow> Some (t, ps) | _ \<Rightarrow> None)"

lemma tree_entries_Some: "tree_entries objs h = Some es \<longleftrightarrow> map_of objs h = Some (Tree_Obj es)"
  by (auto simp: tree_entries_def split: option.splits git_object.splits)

lemma commit_links_Some: "commit_links objs h = Some (t, ps) \<longleftrightarrow> (\<exists>m. map_of objs h = Some (Commit_Obj t ps m))"
  by (auto simp: commit_links_def split: option.splits git_object.splits)

lemma in_store: "map_of objs h = Some x \<Longrightarrow> h \<in> set (map fst objs)"
  by (metis domI dom_map_of_conv_image_fst set_map)

lemma fewer_left: "h \<in> set (map fst objs) \<Longrightarrow> h \<notin> set seen \<Longrightarrow> set seen \<subseteq> set seen' \<Longrightarrow> h \<in> set seen' \<Longrightarrow>
    card (set (map fst objs) - set seen') < card (set (map fst objs) - set seen)"
  by (intro psubset_card_mono) auto

lemma not_more_left: "set seen \<subseteq> set seen' \<Longrightarrow> card (set (map fst objs) - set seen') \<le> card (set (map fst objs) - set seen)"
  by (intro card_mono) auto

text \<open>The closure of the base's tree, which the receiver has.\<close>

function have_closure :: "object_store \<Rightarrow> tree_task list \<Rightarrow> oid list \<Rightarrow> git_error + oid list" where
  "have_closure objs [] have_ids = Inr have_ids"
| "have_closure objs (In_Blob h # ts) have_ids = have_closure objs ts (h # have_ids)"
| "have_closure objs (In_Tree h # ts) have_ids =
     (if h \<in> set have_ids then have_closure objs ts have_ids
      else case tree_entries objs h of
             None \<Rightarrow> Inl (Object_Not_Found h)
           | Some es \<Rightarrow> have_closure objs (entry_tasks es @ ts) (h # have_ids))"
  by pat_completeness auto
termination
proof (relation "(\<lambda>(objs, ts, seen). card (set (map fst objs) - set seen)) <*mlex*> measure (\<lambda>(objs, ts, seen). length ts)", goal_cases)
  case 1
  show ?case by (rule wf_mlex) simp
next
  case (2 objs h ts seen)
  show ?case using not_more_left [of seen "h # seen" objs] by (intro mlex_leq) auto
next
  case (3 objs h ts seen)
  show ?case by (rule mlex_leq) auto
next
  case (4 objs h ts seen es)
  then show ?case using fewer_left [of h objs seen "h # seen"] in_store [of objs h] by (intro mlex_less) (auto simp: tree_entries_Some)
qed

text \<open>What the bundle carries: \<open>have_ids\<close> is skipped, the objects found so far are the set of seen ones.\<close>

datatype bundle_task = Sel_Commit oid | Sel_In tree_task

fun select_id :: "bundle_task \<Rightarrow> oid" where
  "select_id (Sel_Commit h) = h"
| "select_id (Sel_In t) = task_id t"

function select_objects :: "object_store \<Rightarrow> oid list \<Rightarrow> bundle_task list \<Rightarrow> oid list \<Rightarrow> git_error + oid list" where
  "select_objects objs have_ids [] sel = Inr sel"
| "select_objects objs have_ids (Sel_In (In_Blob h) # ts) sel =
     select_objects objs have_ids ts (if h \<in> set have_ids \<or> h \<in> set sel then sel else sel @ [h])"
| "select_objects objs have_ids (Sel_In (In_Tree h) # ts) sel =
     (if h \<in> set have_ids \<or> h \<in> set sel then select_objects objs have_ids ts sel
      else case tree_entries objs h of
             None \<Rightarrow> Inl (Object_Not_Found h)
           | Some es \<Rightarrow> select_objects objs have_ids (map Sel_In (entry_tasks es) @ ts) (sel @ [h]))"
| "select_objects objs have_ids (Sel_Commit h # ts) sel =
     (case commit_links objs h of
        None \<Rightarrow> Inl (Object_Not_Found h)
      | Some (t, ps) \<Rightarrow>
          (if h \<in> set have_ids \<or> h \<in> set sel then select_objects objs have_ids ts sel
           else select_objects objs have_ids (Sel_In (In_Tree t) # map Sel_Commit ps @ ts) (sel @ [h])))"
  by pat_completeness auto
termination
proof (relation "(\<lambda>(objs, have_ids, ts, sel). card (set (map fst objs) - set sel)) <*mlex*> measure (\<lambda>(objs, have_ids, ts, sel). length ts)", goal_cases)
  case 1
  show ?case by (rule wf_mlex) simp
next
  case (2 objs have_ids h ts sel)
  show ?case by (rule mlex_leq) (auto intro!: card_mono)
next
  case (3 objs have_ids h ts sel)
  show ?case by (rule mlex_leq) auto
next
  case (4 objs have_ids h ts sel es)
  then show ?case using fewer_left [of h objs sel "sel @ [h]"] in_store [of objs h] by (intro mlex_less) (auto simp: tree_entries_Some)
next
  case (5 objs have_ids h ts sel c t ps)
  show ?case by (rule mlex_leq) auto
next
  case (6 objs have_ids h ts sel c t ps)
  then obtain m where "map_of objs h = Some (Commit_Obj t ps m)" by (auto simp: commit_links_Some)
  then show ?case using 6 fewer_left [of h objs sel "sel @ [h]"] in_store [of objs h] by (intro mlex_less) auto
qed

text \<open>\<open>reachableFrom\<close>: the target among a commit's ancestors; parents that are missing end their line.\<close>

function reachableFrom :: "object_store \<Rightarrow> oid \<Rightarrow> oid list \<Rightarrow> oid list \<Rightarrow> bool" where
  "reachableFrom objs target [] seen = False"
| "reachableFrom objs target (h # stack) seen =
     (if h = target then True
      else if h \<in> set seen then reachableFrom objs target stack seen
      else case commit_links objs h of
             None \<Rightarrow> reachableFrom objs target stack seen
           | Some (t, ps) \<Rightarrow> reachableFrom objs target (filter (\<lambda>p. commit_links objs p \<noteq> None) ps @ stack) (h # seen))"
  by pat_completeness auto
termination
proof (relation "(\<lambda>(objs, target, stack, seen). card (set (map fst objs) - set seen)) <*mlex*> measure (\<lambda>(objs, target, stack, seen). length stack)", goal_cases)
  case 1
  show ?case by (rule wf_mlex) simp
next
  case (4 objs target h stack seen c t ps)
  then obtain m where "map_of objs h = Some (Commit_Obj t ps m)" by (auto simp: commit_links_Some)
  then show ?case using 4 fewer_left [of h objs seen "h # seen"] in_store [of objs h] by (intro mlex_less) auto
qed (auto intro: mlex_leq)

subsection \<open>The bundle\<close>

datatype create_error = Nothing_To_Bundle | Select_Git git_error | Pack_Failed string

text \<open>The pack encoder answers the bytes for the selected objects.\<close>

type_synonym pack_encoder = "object_store \<Rightarrow> oid list \<Rightarrow> string + string"

definition bundle_text :: "oid option \<Rightarrow> oid \<Rightarrow> string \<Rightarrow> string \<Rightarrow> string" where
  "bundle_text base tip ref pack =
     bundleSignature @ [newline] @ (case base of None \<Rightarrow> [] | Some b \<Rightarrow> CHR ''-'' # b @ [newline])
     @ tip @ CHR '' '' # ref @ [newline, newline] @ pack"

definition write_bundle :: "pack_encoder \<Rightarrow> object_store \<Rightarrow> oid list \<Rightarrow> oid option \<Rightarrow> oid \<Rightarrow> string \<Rightarrow> create_error + string" where
  "write_bundle encode objs have_ids base tip ref =
     (case select_objects objs have_ids [Sel_Commit tip] [] of
        Inl e \<Rightarrow> Inl (Select_Git e)
      | Inr sel \<Rightarrow>
          (case encode objs sel of Inl e \<Rightarrow> Inl (Pack_Failed e) | Inr pack \<Rightarrow> Inr (bundle_text base tip ref pack)))"

definition CreateBundle :: "gogit \<Rightarrow> pack_encoder \<Rightarrow> repo \<Rightarrow> string \<Rightarrow> string \<Rightarrow> string \<Rightarrow> create_error + string" where
  "CreateBundle G encode r ref commit base =
     (case resolveCommit G r commit of
        Inl e \<Rightarrow> Inl (Select_Git e)
      | Inr (tip, _) \<Rightarrow>
          (if base = [] then write_bundle encode (rp_objects r) [] None tip ref
           else case resolveCommit G r base of
                  Inl e \<Rightarrow> Inl (Select_Git e)
                | Inr (b, t, _) \<Rightarrow>
                    (if reachableFrom (rp_objects r) tip [b] [] then Inl Nothing_To_Bundle
                     else case have_closure (rp_objects r) [In_Tree t] [b] of
                            Inl e \<Rightarrow> Inl (Select_Git e)
                          | Inr have_ids \<Rightarrow> write_bundle encode (rp_objects r) have_ids (Some b) tip ref)))"

subsection \<open>Nothing to bundle\<close>

text \<open>The walk's invariant: what was seen and is not the target hands its parents on.\<close>

definition walk_ok :: "object_store \<Rightarrow> oid \<Rightarrow> oid list \<Rightarrow> oid list \<Rightarrow> bool" where
  "walk_ok objs target stack seen \<longleftrightarrow>
     (\<forall>h\<in>set seen. h \<noteq> target \<and> (\<forall>t ps m. map_of objs h = Some (Commit_Obj t ps m) \<longrightarrow>
        (\<forall>p\<in>set ps. commit_links objs p \<noteq> None \<longrightarrow> p \<in> set seen \<union> set stack)))"

lemma walk_done:
  assumes "walk_ok objs target [] seen" "ancestor objs k h" "h \<in> set seen" "commit_links objs k \<noteq> None"
  shows "k \<in> set seen"
  using assms(2-4)
proof (induction rule: ancestor.induct)
  case (ancestor_parent p d t ps m q)
  then have "p \<in> set seen" by (simp add: commit_links_def)
  then show ?case using assms(1) ancestor_parent unfolding walk_ok_def by fastforce
qed

lemma reachableFrom_walk:
  "walk_ok objs target stack seen \<Longrightarrow> commit_links objs target \<noteq> None \<Longrightarrow> \<forall>h\<in>set stack. commit_links objs h \<noteq> None \<Longrightarrow>
     reachableFrom objs target stack seen \<longleftrightarrow> (\<exists>h\<in>set stack \<union> set seen. ancestor objs target h)"
proof (induction objs target stack seen rule: reachableFrom.induct)
  case (1 objs target seen)
  then show ?case using walk_done [OF 1(1) _ _ 1(2)] by (auto simp: walk_ok_def)
next
  case (2 objs target h stack seen)
  show ?case
  proof (cases "h = target")
    case True
    then show ?thesis using ancestor_self by auto
  next
    case ne: False
    show ?thesis
    proof (cases "h \<in> set seen")
      case True
      moreover have "walk_ok objs target stack seen" using 2(4) True unfolding walk_ok_def by fastforce
      ultimately show ?thesis using 2(1) [OF ne True] 2(5,6) ne by auto
    next
      case False
      obtain t ps where c: "commit_links objs h = Some (t, ps)" using 2(6) by force
      then obtain m where m: "map_of objs h = Some (Commit_Obj t ps m)" by (auto simp: commit_links_Some)
      let ?stack = "filter (\<lambda>p. commit_links objs p \<noteq> None) ps @ stack"
      have "walk_ok objs target ?stack (h # seen)" using 2(4) ne m unfolding walk_ok_def by fastforce
      moreover have "\<forall>h\<in>set ?stack. commit_links objs h \<noteq> None" using 2(6) by auto
      ultimately have IH: "reachableFrom objs target ?stack (h # seen) \<longleftrightarrow> (\<exists>k\<in>set ?stack \<union> set (h # seen). ancestor objs target k)"
        using 2(3) [OF ne False c refl] 2(5) by blast
      have up: "ancestor objs target h" if "p \<in> set ps" "ancestor objs target p" for p
        using ancestor_trans [OF _ that(2)] ancestor_parent [OF ancestor_self m that(1)] by blast
      show ?thesis using IH ne False c up by auto
    qed
  qed
qed

text \<open>A bundle is refused as empty exactly when the commit is the base or one of its ancestors.\<close>

lemma reachableFrom_ancestor:
  assumes "commit_links objs tip \<noteq> None" "commit_links objs b \<noteq> None"
  shows "reachableFrom objs tip [b] [] \<longleftrightarrow> ancestor objs tip b"
  using reachableFrom_walk [of objs tip "[b]" "[]"] assms by (simp add: walk_ok_def)

subsection \<open>What the bundle carries\<close>

text \<open>Everything reached from an object through the objects of a store.\<close>

inductive store_needs :: "object_store \<Rightarrow> oid \<Rightarrow> oid \<Rightarrow> bool" for objs where
  store_self: "store_needs objs h h"
| store_child: "store_needs objs h k \<Longrightarrow> map_of objs k = Some x \<Longrightarrow> c \<in> set (copy_children x) \<Longrightarrow> store_needs objs h c"

lemma store_needs_trans: "store_needs objs k c \<Longrightarrow> store_needs objs h k \<Longrightarrow> store_needs objs h c"
  by (induction rule: store_needs.induct) (auto intro: store_child)

lemma entry_tasks_ids: "task_id ` set (entry_tasks es) = set (copy_children (Tree_Obj es))"
  by (induction es rule: entry_tasks.induct) (auto simp: copy_children_def)

lemma entry_tasks_blob: "In_Blob h \<in> set (entry_tasks es) \<Longrightarrow> \<exists>n m. (n, m, h) \<in> set es \<and> m \<noteq> Mode_Dir \<and> m \<noteq> Mode_Submodule"
  by (induction es rule: entry_tasks.induct) (auto split: if_splits)

lemma have_closure_sub:
  "have_closure objs ts have_ids = Inr H \<Longrightarrow> set have_ids \<union> task_id ` set ts \<subseteq> {k. store_needs objs b k} \<Longrightarrow> set H \<subseteq> {k. store_needs objs b k}"
proof (induction objs ts have_ids rule: have_closure.induct)
  case (3 objs h ts have_ids)
  show ?case
  proof (cases "h \<in> set have_ids")
    case True
    then show ?thesis using 3 by auto
  next
    case False
    obtain es where es: "tree_entries objs h = Some es" using 3(3) False by (auto split: option.splits)
    then have "store_needs objs b c" if "c \<in> task_id ` set (entry_tasks es)" for c
      using that 3(4) store_child [of objs b h "Tree_Obj es" c] by (auto simp: entry_tasks_ids tree_entries_Some)
    then have "set (h # have_ids) \<union> task_id ` set (entry_tasks es @ ts) \<subseteq> {k. store_needs objs b k}" using 3(4) by auto
    then show ?thesis using 3(2) [OF False es] 3(3) False es by simp
  qed
qed auto

text \<open>A store whose tree entries have the kind of object their mode says; submodules name nothing in it.\<close>

definition modes_right :: "object_store \<Rightarrow> bool" where
  "modes_right objs \<longleftrightarrow>
     (\<forall>h es n m k x. map_of objs h = Some (Tree_Obj es) \<longrightarrow> (n, m, k) \<in> set es \<longrightarrow> m \<noteq> Mode_Dir \<longrightarrow> m \<noteq> Mode_Submodule
        \<longrightarrow> map_of objs k = Some x \<longrightarrow> copy_children x = [])"

definition blobs_leaf :: "object_store \<Rightarrow> bundle_task list \<Rightarrow> bool" where
  "blobs_leaf objs ts \<longleftrightarrow> (\<forall>h x. Sel_In (In_Blob h) \<in> set ts \<longrightarrow> map_of objs h = Some x \<longrightarrow> copy_children x = [])"

definition carried :: "object_store \<Rightarrow> oid list \<Rightarrow> bundle_task list \<Rightarrow> oid list \<Rightarrow> bool" where
  "carried objs have_ids ts sel \<longleftrightarrow>
     (\<forall>h\<in>set sel. \<forall>x. map_of objs h = Some x \<longrightarrow> set (copy_children x) \<subseteq> set have_ids \<union> set sel \<union> select_id ` set ts)"

lemma carried_skip: "carried objs have_ids (t # ts) sel \<Longrightarrow> select_id t \<in> set have_ids \<union> set sel \<Longrightarrow> carried objs have_ids ts sel"
  unfolding carried_def by fastforce

lemma carried_step:
  assumes "carried objs have_ids (t # ts) sel" "\<And>x. map_of objs (select_id t) = Some x \<Longrightarrow> set (copy_children x) \<subseteq> select_id ` set new"
  shows "carried objs have_ids (new @ ts) (sel @ [select_id t])"
  unfolding carried_def
proof (intro ballI allI impI)
  fix k y assume k: "k \<in> set (sel @ [select_id t])" "map_of objs k = Some y"
  show "set (copy_children y) \<subseteq> set have_ids \<union> set (sel @ [select_id t]) \<union> select_id ` set (new @ ts)"
  proof (cases "k = select_id t")
    case True
    then show ?thesis using assms(2) k(2) by auto
  next
    case False
    then have "set (copy_children y) \<subseteq> set have_ids \<union> set sel \<union> select_id ` set (t # ts)"
      using assms(1) k unfolding carried_def by auto
    then show ?thesis by auto
  qed
qed

lemma select_ids_In [simp]: "select_id ` Sel_In ` A = task_id ` A"
  by (auto simp: image_iff)

lemma entries_leaf:
  assumes "modes_right objs" "map_of objs h = Some (Tree_Obj es)" "blobs_leaf objs ts"
  shows "blobs_leaf objs (map Sel_In (entry_tasks es) @ ts)"
  unfolding blobs_leaf_def
proof (intro allI impI)
  fix k x assume k: "Sel_In (In_Blob k) \<in> set (map Sel_In (entry_tasks es) @ ts)" "map_of objs k = Some x"
  show "copy_children x = []"
  proof (cases "In_Blob k \<in> set (entry_tasks es)")
    case True
    then obtain n m where "(n, m, k) \<in> set es" "m \<noteq> Mode_Dir" "m \<noteq> Mode_Submodule" using entry_tasks_blob by blast
    then show ?thesis using assms(1,2) k(2) unfolding modes_right_def by blast
  next
    case False
    then show ?thesis using assms(3) k unfolding blobs_leaf_def by auto
  qed
qed

lemma select_objects_carried:
  "select_objects objs have_ids ts sel = Inr sel' \<Longrightarrow> modes_right objs \<Longrightarrow> blobs_leaf objs ts \<Longrightarrow> carried objs have_ids ts sel \<Longrightarrow>
     carried objs have_ids [] sel' \<and> set sel \<union> select_id ` set ts \<subseteq> set sel' \<union> set have_ids"
proof (induction objs have_ids ts sel rule: select_objects.induct)
  case (1 objs have_ids sel)
  then show ?case by (simp add: carried_def)
next
  case (2 objs have_ids h ts sel)
  let ?sel = "if h \<in> set have_ids \<or> h \<in> set sel then sel else sel @ [h]"
  have "copy_children x = []" if "map_of objs h = Some x" for x using 2(4) that by (auto simp: blobs_leaf_def)
  then have "carried objs have_ids ts ?sel"
    using carried_skip [OF 2(5)] carried_step [OF 2(5), of "[]"] by auto
  moreover have "blobs_leaf objs ts" using 2(4) by (auto simp: blobs_leaf_def)
  ultimately have "carried objs have_ids [] sel' \<and> set ?sel \<union> select_id ` set ts \<subseteq> set sel' \<union> set have_ids" using 2(1) 2(2,3) by simp
  then show ?case by (auto split: if_splits)
next
  case (3 objs have_ids h ts sel)
  show ?case
  proof (cases "h \<in> set have_ids \<or> h \<in> set sel")
    case True
    moreover have "carried objs have_ids ts sel" using carried_skip [OF 3(6)] True by simp
    moreover have "blobs_leaf objs ts" using 3(5) by (auto simp: blobs_leaf_def)
    ultimately show ?thesis using 3(1) [OF True] 3(3,4) by auto
  next
    case False
    then obtain es where es: "tree_entries objs h = Some es" using 3(3) by (auto split: option.splits)
    then have m: "map_of objs h = Some (Tree_Obj es)" by (simp add: tree_entries_Some)
    have "blobs_leaf objs ts" using 3(5) by (auto simp: blobs_leaf_def)
    then have "blobs_leaf objs (map Sel_In (entry_tasks es) @ ts)" using entries_leaf [OF 3(4) m] by blast
    moreover have "carried objs have_ids (map Sel_In (entry_tasks es) @ ts) (sel @ [h])"
      using carried_step [OF 3(6), of "map Sel_In (entry_tasks es)"] m by (simp add: entry_tasks_ids)
    ultimately have "carried objs have_ids [] sel' \<and> set (sel @ [h]) \<union> select_id ` set (map Sel_In (entry_tasks es) @ ts) \<subseteq> set sel' \<union> set have_ids"
      using 3(2) [OF False es] 3(3,4) False es by simp
    then show ?thesis by (auto simp: image_Un)
  qed
next
  case (4 objs have_ids h ts sel)
  obtain t ps where c: "commit_links objs h = Some (t, ps)" using 4(3) by (cases "commit_links objs h") auto
  then obtain msg where m: "map_of objs h = Some (Commit_Obj t ps msg)" by (auto simp: commit_links_Some)
  have leaf: "blobs_leaf objs ts" using 4(5) by (auto simp: blobs_leaf_def)
  show ?case
  proof (cases "h \<in> set have_ids \<or> h \<in> set sel")
    case True
    moreover have "carried objs have_ids ts sel" using carried_skip [OF 4(6)] True by simp
    ultimately show ?thesis using 4(1) [OF c refl True] 4(3,4) leaf c by auto
  next
    case False
    let ?ts = "Sel_In (In_Tree t) # map Sel_Commit ps @ ts"
    have "blobs_leaf objs ?ts" using leaf by (auto simp: blobs_leaf_def)
    moreover have "carried objs have_ids ?ts (sel @ [h])"
      using carried_step [OF 4(6), of "Sel_In (In_Tree t) # map Sel_Commit ps"] m by (simp add: copy_children_def image_image)
    ultimately have "carried objs have_ids [] sel' \<and> set (sel @ [h]) \<union> select_id ` set ?ts \<subseteq> set sel' \<union> set have_ids"
      using 4(2) [OF c refl False] 4(3,4) c False by simp
    then show ?thesis by auto
  qed
qed

subsection \<open>The header\<close>

lemma read_line_append: "newline \<notin> set l \<Longrightarrow> read_line (l @ newline # rest) = Some (l, rest)"
  by (induction l) (auto simp: read_line_def)

lemma cut_space_append: "CHR '' '' \<notin> set l \<Longrightarrow> cut_space (l @ CHR '' '' # rest) = (l, rest)"
  by (induction l) (auto simp: cut_space_def)

lemma cut_space_none: "CHR '' '' \<notin> set l \<Longrightarrow> cut_space l = (l, [])"
  by (induction l) (auto simp: cut_space_def)

definition full_id :: "oid \<Rightarrow> bool" where
  "full_id h \<longleftrightarrow> length h = 40 \<and> list_all is_hex h"

lemma full_id_chars: "full_id h \<Longrightarrow> c \<in> {newline, CHR '' '', CHR ''-''} \<Longrightarrow> c \<notin> set h"
  by (auto simp: full_id_def list_all_iff is_hex_def is_digit_def in_range_def)

lemma full_id_hash: "full_id h \<Longrightarrow> is_hash h \<and> new_hash h = h \<and> h \<noteq> [] \<and> \<not> has_prefix h ''-''"
  using full_id_chars [of h "CHR ''-''"] is_hash_lower [of h] full_hex_new_hash [of h]
  by (cases h) (auto simp: full_id_def has_prefix_def)

lemma bundle_header:
  assumes "full_id tip" "pred_option full_id base" "newline \<notin> set ref" "gg_valid_ref G ref"
  shows "readBundleHeader G (bundle_text base tip ref pack)
    = Inr ((case base of None \<Rightarrow> [] | Some b \<Rightarrow> [b]), [(ref, tip)], pack)"
proof -
  note tip = full_id_hash [OF assms(1)] full_id_chars [OF assms(1)]
  let ?rest = "tip @ CHR '' '' # ref @ [newline, newline] @ pack"
  have last: "header_lines G pres [] ?rest = Inr (pres, [(ref, tip)], pack)" for pres
  proof -
    have "read_line ?rest = Some (tip @ CHR '' '' # ref, newline # pack)"
      using read_line_append [of "tip @ CHR '' '' # ref" "newline # pack"] tip(2) assms(3) by auto
    moreover have "cut_space (tip @ CHR '' '' # ref) = (tip, ref)" using tip(2) by (intro cut_space_append) auto
    moreover have "read_line (newline # pack) = Some ([], pack)" using read_line_append [of "[]" pack] by simp
    ultimately show ?thesis
      using tip(1) assms(4) by (subst header_lines.simps) (simp add: header_lines.simps [of G pres "[(ref, tip)]" "newline # pack"])
  qed
  have sig: "newline \<notin> set bundleSignature" by (simp add: bundleSignature_def)
  show ?thesis
  proof (cases base)
    case None
    have "read_line (bundle_text base tip ref pack) = Some (bundleSignature, ?rest)"
      using read_line_append [OF sig, of ?rest] by (simp add: bundle_text_def None)
    then show ?thesis using last by (simp add: readBundleHeader_def None)
  next
    case (Some b)
    then have b: "full_id b" using assms(2) by simp
    note b' = full_id_hash [OF b] full_id_chars [OF b]
    let ?line = "CHR ''-'' # b @ newline # ?rest"
    have "read_line (bundle_text base tip ref pack) = Some (bundleSignature, ?line)"
      using read_line_append [OF sig, of ?line] by (simp add: bundle_text_def Some)
    moreover have "read_line ?line = Some (CHR ''-'' # b, ?rest)"
      using read_line_append [of "CHR ''-'' # b" ?rest] b'(2) by auto
    moreover have "cut_space (CHR ''-'' # b) = (CHR ''-'' # b, [])" using b'(2) by (intro cut_space_none) auto
    moreover have "has_prefix (CHR ''-'' # b) ''-''" by (simp add: has_prefix_def)
    ultimately show ?thesis
      using last [of "[b]"] b'(1) by (simp add: readBundleHeader_def Some header_lines.simps [of G "[]" "[]" ?line])
  qed
qed

subsection \<open>When a copy fails\<close>

definition missing_for :: "object_store \<Rightarrow> copy_task list \<Rightarrow> repo \<Rightarrow> bool" where
  "missing_for src tasks dst \<longleftrightarrow> (\<exists>h k. Visit h \<in> set tasks \<and> store_needs src h k \<and> map_of src k = None \<and> obj dst k = None)"

lemma copy_body_error:
  assumes IH: "\<And>src now tasks dst res. f src now tasks dst = Some res \<Longrightarrow> fst res \<noteq> None \<Longrightarrow> missing_for src tasks dst"
    and body: "copy_body f src now tasks dst = Some res" "fst res \<noteq> None"
  shows "missing_for src tasks dst"
proof (cases tasks)
  case Nil
  then show ?thesis using body by (auto simp: copy_body_def)
next
  case (Cons t ts)
  show ?thesis
  proof (cases t)
    case (Store h x)
    then have "f src now ts (store_object now h x dst) = Some res" using body Cons by (simp add: copy_body_def)
    from IH [OF this body(2)] show ?thesis by (auto simp: missing_for_def Cons obj_store_object split: if_splits)
  next
    case (Visit h)
    consider (has) "obj dst h \<noteq> None" | (missing) "obj dst h = None" "map_of src h = None"
      | (go) x where "obj dst h = None" "map_of src h = Some x" by (cases "map_of src h") auto
    then show ?thesis
    proof cases
      case has
      then have "f src now ts dst = Some res" using body Cons Visit by (simp add: copy_body_def)
      from IH [OF this body(2)] show ?thesis by (auto simp: missing_for_def Cons)
    next
      case missing
      then show ?thesis using store_self [of src h] by (auto simp: missing_for_def Cons Visit)
    next
      case go
      then have "f src now (map Visit (copy_children x) @ Store h x # ts) dst = Some res"
        using body Cons Visit by (simp add: copy_body_def)
      from IH [OF this body(2)] obtain g k where
        g: "Visit g \<in> set (map Visit (copy_children x) @ Store h x # ts)" "store_needs src g k" "map_of src k = None" "obj dst k = None"
        by (auto simp: missing_for_def)
      then consider "g \<in> set (copy_children x)" | "Visit g \<in> set ts" by auto
      then show ?thesis
      proof cases
        case 1
        then have "store_needs src h k" using store_needs_trans [OF g(2)] store_child [OF store_self go(2)] by blast
        then show ?thesis using g(3,4) by (auto simp: missing_for_def Cons Visit)
      next
        case 2
        then show ?thesis using g by (auto simp: missing_for_def Cons)
      qed
    qed
  qed
qed

lemma copy_error:
  assumes "copy src now tasks dst = Some res" "fst res \<noteq> None"
  shows "missing_for src tasks dst"
proof -
  have "fst res \<noteq> None \<longrightarrow> missing_for src tasks dst"
    by (rule copy.raw_induct [OF _ assms(1), where P = "\<lambda>src now tasks dst res. fst res \<noteq> None \<longrightarrow> missing_for src tasks dst"])
      (use copy_body_error [unfolded copy_body_def] in blast)
  with assms(2) show ?thesis by blast
qed

lemma copy_all:
  assumes "acyclic_objects src" "\<And>k. store_needs src h k \<Longrightarrow> map_of src k = None \<Longrightarrow> obj dst k \<noteq> None"
  shows "\<exists>dst'. copy src now [Visit h] dst = Some (None, dst')"
proof -
  obtain err dst' where c: "copy src now [Visit h] dst = Some (err, dst')" using copy_total [OF assms(1)] by (metis prod.exhaust)
  have "err = None" using copy_error [OF c] assms(2) by (cases err) (fastforce simp: missing_for_def)+
  with c show ?thesis by blast
qed

subsection \<open>The round trip\<close>

text \<open>What go-git's pack writer and parser promise for one sending and one receiving store: the pack holds exactly
  the selected objects, all of which the sender has.\<close>

definition lawful_pack :: "pack_encoder \<Rightarrow> (object_store \<Rightarrow> string \<Rightarrow> string + object_store) \<Rightarrow> object_store \<Rightarrow> object_store \<Rightarrow> bool" where
  "lawful_pack encode unpack objs dst_objs \<longleftrightarrow>
     (\<forall>sel pack. encode objs sel = Inr pack \<longrightarrow>
        (\<forall>h\<in>set sel. map_of objs h \<noteq> None)
        \<and> (\<exists>store. unpack dst_objs pack = Inr store \<and> (\<forall>h. map_of store h = (if h \<in> set sel then map_of objs h else None))))"

text \<open>Object ids are hashes of contents, so two repositories agree on the ids they share.\<close>

definition agree :: "object_store \<Rightarrow> object_store \<Rightarrow> bool" where
  "agree objs objs' \<longleftrightarrow> (\<forall>h x y. map_of objs h = Some x \<longrightarrow> map_of objs' h = Some y \<longrightarrow> x = y)"

lemma needs_in_closed:
  assumes "closed_objects dst" "agree objs (rp_objects dst)" "obj dst b \<noteq> None" "store_needs objs b k"
  shows "obj dst k \<noteq> None"
  using assms(4,3)
proof induction
  case (store_child h k x c)
  then obtain y where "obj dst k = Some y" by auto
  with store_child assms(1,2) show ?case unfolding agree_def closed_objects_def by metis
qed

lemma sub_store_needs:
  assumes "\<forall>h. map_of store h = (if h \<in> S then map_of objs h else None)" "store_needs store tip k"
  shows "store_needs objs tip k"
  using assms(2) by induction (auto simp: assms(1) intro: store_self store_child split: if_splits)

lemma sub_store_acyclic:
  assumes "\<forall>h. map_of store h = (if h \<in> S then map_of objs h else None)" "acyclic_objects objs"
  shows "acyclic_objects store"
  using assms unfolding acyclic_objects_def by (metis option.distinct(1))

text \<open>What a selection leaves out of the bundle, the base holds.\<close>

lemma selection_complete:
  assumes sel: "select_objects objs H [Sel_Commit tip] [] = Inr sel" and modes: "modes_right objs"
    and H: "set H \<subseteq> B" and store: "\<forall>h. map_of store h = (if h \<in> set sel then map_of objs h else None)" "\<forall>h\<in>set sel. map_of objs h \<noteq> None"
    and k: "store_needs store tip k" "map_of store k = None"
  shows "k \<in> B"
proof -
  have c: "carried objs H [] sel" "tip \<in> set sel \<union> set H"
    using select_objects_carried [OF sel modes] by (auto simp: blobs_leaf_def carried_def)
  have "k \<in> set sel \<union> set H" using k(1) c(2)
  proof induction
    case (store_child h j x d)
    then have "j \<in> set sel" "map_of objs j = Some x" using store(1) by (auto split: if_splits)
    then show ?case using store_child(3) c(1) unfolding carried_def by auto
  qed
  then show ?thesis using k(2) store H by auto
qed

lemma write_bundle_Inr:
  assumes "write_bundle encode objs H base tip ref = Inr text"
  obtains sel pack where "select_objects objs H [Sel_Commit tip] [] = Inr sel" "encode objs sel = Inr pack" "text = bundle_text base tip ref pack"
  using assms by (auto simp: write_bundle_def split: sum.splits)

lemma CreateBundle_Inr:
  assumes "CreateBundle G encode src ref commit base = Inr text"
  obtains tip x H bs where "resolveCommit G src commit = Inr (tip, x)" "write_bundle encode (rp_objects src) H bs tip ref = Inr text"
    "base = [] \<longrightarrow> bs = None \<and> H = []"
    "base \<noteq> [] \<longrightarrow> (\<exists>b y. resolveCommit G src base = Inr (b, y) \<and> bs = Some b \<and> set H \<subseteq> {k. store_needs (rp_objects src) b k})"
proof (cases "base = []")
  case True
  with assms that [of _ _ "[]" None] show thesis by (auto simp: CreateBundle_def split: sum.splits)
next
  case False
  with assms obtain tip x b t y H where *: "resolveCommit G src commit = Inr (tip, x)" "resolveCommit G src base = Inr (b, t, y)"
    "have_closure (rp_objects src) [In_Tree t] [b] = Inr H" "write_bundle encode (rp_objects src) H (Some b) tip ref = Inr text"
    by (auto simp: CreateBundle_def split: sum.splits if_splits prod.splits)
  have "\<exists>ps m. obj src b = Some (Commit_Obj t ps m)"
    using *(2) by (auto simp: resolveCommit_def commit_object_def split: sum.splits option.splits git_object.splits)
  then have "store_needs (rp_objects src) b t" using store_child [OF store_self] by (fastforce simp: copy_children_def)
  then have "set H \<subseteq> {k. store_needs (rp_objects src) b k}" using have_closure_sub [OF *(3), of b] store_self by auto
  with False * that [of tip x H "Some b"] show thesis by auto
qed

lemma fetch_one_ref:
  assumes "rs_valid R spec" "rs_match R spec ref" "rs_dst R spec ref = name" "gg_valid_ref G name" "full_id tip"
    and "copy objects now [Visit tip] dst = Some (None, dst1)" "obj dst1 tip \<noteq> None"
  shows "fetchFrom G R now [(ref, tip)] objects False [spec] dst
    = Some (None, dst1\<lparr>rp_refs := AList.update name tip (rp_refs dst1)\<rparr>)"
proof -
  have "wanted_refs R [(ref, tip)] [spec] Map.empty = Inr [name \<mapsto> tip]" using assms(1-3) by (simp add: Let_def)
  moreover have "wanted_names R [(ref, tip)] [spec] = [name]" using assms(2,3) by (simp add: wanted_names_def)
  moreover have "setRef G dst1 name tip = Inr (dst1\<lparr>rp_refs := AList.update name tip (rp_refs dst1)\<rparr>)"
    using assms(4,7) full_id_hash [OF assms(5)] by (simp add: setRef_def parseHash_def)
  ultimately show ?thesis using assms(6) by (simp add: fetchFrom_def Let_def)
qed

lemma first_missing_one: "ReachableFromRefs G W dst p within = Inr True \<Longrightarrow> first_missing G W dst within [p] = None"
  by simp

lemma bundle_fetched:
  assumes created: "CreateBundle G encode src ref commit base = Inr text"
    and pack: "lawful_pack encode unpack (rp_objects src) (rp_objects dst)"
    and src: "modes_right (rp_objects src)" "acyclic_objects (rp_objects src)" "\<forall>h x. obj src h = Some x \<longrightarrow> full_id h"
    and dst: "closed_objects dst" "agree (rp_objects src) (rp_objects dst)"
    and base: "base \<noteq> [] \<longrightarrow> (\<exists>b y. resolveCommit G src base = Inr (b, y) \<and> ReachableFromRefs G W dst b within = Inr True)"
    and ref: "newline \<notin> set ref" "gg_valid_ref G ref" "rs_valid R spec" "rs_match R spec ref" "gg_valid_ref G (rs_dst R spec ref)"
  shows "\<exists>tip x dst'. resolveCommit G src commit = Inr (tip, x)
    \<and> FetchBundle G W R unpack now text within False [spec] dst = Some (None, dst')
    \<and> ref_of dst' (rs_dst R spec ref) = Some tip \<and> closed_objects dst'
    \<and> (\<forall>k. store_needs (rp_objects src) tip k \<longrightarrow> obj dst' k \<noteq> None)
    \<and> (\<forall>h x. obj dst h = Some x \<longrightarrow> obj dst' h = Some x)"
proof -
  obtain tip x H bs where c: "resolveCommit G src commit = Inr (tip, x)" "write_bundle encode (rp_objects src) H bs tip ref = Inr text"
      "base = [] \<longrightarrow> bs = None \<and> H = []"
      "base \<noteq> [] \<longrightarrow> (\<exists>b y. resolveCommit G src base = Inr (b, y) \<and> bs = Some b \<and> set H \<subseteq> {k. store_needs (rp_objects src) b k})"
    using CreateBundle_Inr [OF created] .
  obtain sel p where s: "select_objects (rp_objects src) H [Sel_Commit tip] [] = Inr sel" "encode (rp_objects src) sel = Inr p"
      "text = bundle_text bs tip ref p" using write_bundle_Inr [OF c(2)] .
  obtain store where store: "unpack (rp_objects dst) p = Inr store" "\<forall>h. map_of store h = (if h \<in> set sel then map_of (rp_objects src) h else None)"
      "\<forall>h\<in>set sel. map_of (rp_objects src) h \<noteq> None"
    using pack s(2) unfolding lawful_pack_def by blast
  have resolved: "full_id h" if "resolveCommit G src r = Inr (h, z)" for r h z
    using that src(3) by (auto simp: resolveCommit_def commit_object_def split: sum.splits option.splits git_object.splits)
  let ?B = "{k. obj dst k \<noteq> None}"
  have known: "set H \<subseteq> ?B \<and> pred_option full_id bs \<and> first_missing G W dst within (case bs of None \<Rightarrow> [] | Some b \<Rightarrow> [b]) = None"
  proof (cases "base = []")
    case True
    with c(3) show ?thesis by simp
  next
    case False
    then obtain b y where b: "resolveCommit G src base = Inr (b, y)" "bs = Some b" "set H \<subseteq> {k. store_needs (rp_objects src) b k}"
        "ReachableFromRefs G W dst b within = Inr True" using c(4) base by fastforce
    have "new_hash b = b" using full_id_hash resolved [OF b(1)] by blast
    then have "obj dst b \<noteq> None"
      using b(4) by (auto simp: ReachableFromRefs_def commit_object_def split: sum.splits option.splits)
    then have "set H \<subseteq> ?B" using b(3) needs_in_closed [OF dst] by blast
    then show ?thesis using b(2) first_missing_one [OF b(4)] resolved [OF b(1)] by simp
  qed
  have tip: "full_id tip" using resolved c(1) by (cases x) auto
  have "obj dst k \<noteq> None" if "store_needs store tip k" "map_of store k = None" for k
    using selection_complete [OF s(1) src(1) _ store(2,3) that, of ?B] known by blast
  then obtain dst1 where dst1: "copy store now [Visit tip] dst = Some (None, dst1)"
    using copy_all [OF sub_store_acyclic [OF store(2) src(2)]] by blast
  note copied = copy_one [OF dst1 dst(1)]
  let ?dst' = "dst1\<lparr>rp_refs := AList.update (rs_dst R spec ref) tip (rp_refs dst1)\<rparr>"
  have there: "obj dst1 tip \<noteq> None" using copied(3) by simp
  have "FetchBundle G W R unpack now text within False [spec] dst = Some (None, ?dst')"
    using bundle_header [OF tip _ ref(1,2), of bs p] known store(1) fetch_one_ref [OF ref(3,4) refl ref(5) tip dst1 there]
    by (simp add: FetchBundle_def s(3))
  moreover have "agree (rp_objects src) (rp_objects dst1)"
    using dst(2) copied(2) store(2) unfolding agree_def extends_def by (metis option.distinct(1) option.inject)
  then have "obj dst1 k \<noteq> None" if "store_needs (rp_objects src) tip k" for k
    using needs_in_closed [OF copied(1) _ there that] by blast
  moreover have "\<forall>h x. obj dst h = Some x \<longrightarrow> obj dst1 h = Some x" using copied(2) by (simp add: extends_def)
  ultimately show ?thesis using c(1) copied(1) by (intro exI [of _ tip] exI [of _ x] exI [of _ ?dst']) (auto simp: update_conv')
qed

end
