(* ===== verification/Work_Properties.thy ===== *)
theory Work_Properties
  imports Witness_Correct Maker_Correct Line_Example Bundle
begin

text \<open>
  What the stations around the guard promise: the witness signs what the guard accepts, its logs keep the end
  of what a check printed, pushes leave complete repositories, and a maker takes the right card and settles
  it by what landed.
\<close>

section \<open>The witness and the guard\<close>

text \<open>C33. The guard merges a witness's evidence exactly when the witness's verdict was a pass and the
  repository still allows the commit to land: a witness whose key, role and constitution the guard trusts never
  signs a pass that the guard reads as a failure, nor the reverse.\<close>

theorem witness_verdict_is_guards:
  assumes "guard_ok X g" "repo_wf r"
    and "witness_run (x_lib X) w run fin commit tree dir docs s = (Inr a, s')"
    and "trusts_witness X g w" "json_roundtrips X a" "docs \<longrightarrow> docs_change X g r commit" "commit \<noteq> []"
  shows "res_status (fst (fst (Merge X g now r commit (ar_envelope a)))) = Merged
    \<longleftrightarrow> ar_passed a \<and> (\<exists>base. landable X g r (wi_role w) commit base)"
  using Merge_Merged_iff [OF assms(1,2)] witness_guard_agree [OF assms(3-7)] by blast

definition ex_witness :: witness where
  "ex_witness = \<lparr>wi_key = ''key'', wi_role = ''maker'', wi_agent = ''m1'', wi_constitution = ex_constitution,
     wi_digest = ''sha256:c'', wi_cold = False\<rparr>"

definition ex_runner :: "unit check_runner" where
  "ex_runner = (\<lambda>dir command s. (Ran 0 ''ev'' [], s))"

definition ex_attested :: attest_result where
  "ex_attested = \<lparr>ar_commit = ex_candidate, ar_passed = True, ar_statement = ex_statement ex_candidate 0,
     ar_envelope = SignStatement ex_lib ''key'' (ex_statement ex_candidate 0)\<rparr>"

lemma ex_witness_run:
  "witness_run ex_lib ex_witness ex_runner 0 ex_candidate (ex_id (CHR ''1'')) [] False () = (Inr ex_attested, ())"
proof -
  have "runner_ID (cn_runner ex_constitution) = ''local''" by (simp add: ex_constitution_def runner_ID_def)
  then show ?thesis
    by (simp add: witness_run_def ex_witness_def ex_runner_def ex_attested_def ex_guard_simps ex_check_def ran_result_def
        checks_predicate_of_def ex_statement_def ex_result_def Let_def)
qed

lemma ex_trusts_witness: "trusts_witness ex_ext ex_guard ex_witness"
  using ex_keys ex_signs
  by (simp add: trusts_witness_def ex_witness_def ex_guard_simps ex_ext_def ex_public ex_key_id key_permits_def)
    (simp add: ex_guard_def)

lemma ex_attested_envelope: "ar_envelope ex_attested = ex_envelope ''P''"
  by (simp add: ex_attested_def SignStatement_def ex_envelope_def) (simp add: ex_lib_def ex_st)

theorem witness_verdict_is_guards_witness:
  "res_status (fst (fst (Merge ex_ext ex_guard 0 ex_repo ex_candidate (ar_envelope ex_attested)))) = Merged
   \<and> (\<exists>base. landable ex_ext ex_guard ex_repo ''maker'' ex_candidate base)"
proof -
  have lib: "x_lib ex_ext = ex_lib" and role: "wi_role ex_witness = ''maker''" by (simp_all add: ex_ext_def ex_witness_def)
  have run: "witness_run (x_lib ex_ext) ex_witness ex_runner 0 ex_candidate (ex_id (CHR ''1'')) [] False () = (Inr ex_attested, ())"
    unfolding lib by (rule ex_witness_run)
  have json: "json_roundtrips ex_ext ex_attested" using ex_marshal by (simp add: json_roundtrips_def lib ex_attested_def)
  have merged: "res_status (fst (fst (Merge ex_ext ex_guard 0 ex_repo ex_candidate (ar_envelope ex_attested)))) = Merged"
    unfolding ex_attested_envelope using Merge_Merged_iff [OF ex_guard_ok ex_repo_wf(1)] ex_may_merge by blast
  from witness_verdict_is_guards [OF ex_guard_ok ex_repo_wf(1) run ex_trusts_witness json, where now = 0] merged
  show ?thesis using ex_repo_wf(1) by (simp add: role)
qed

section \<open>Check logs\<close>

text \<open>However a check's output is cut into writes, the log kept of it is its last \<open>maxEvidence\<close> bytes, with
  a mark in front exactly when something was dropped; no write fails.\<close>

theorem check_log_is_tail:
  "map_option ring_result (put_all (ring_write maxEvidence) ps new_ring)
     = Some ((if length (concat ps) > maxEvidence then truncatedPrefix else []) @ last_n maxEvidence (concat ps))"
proof -
  obtain b where b: "put_all (ring_write maxEvidence) ps new_ring = Some b" "ring_content b = last_n maxEvidence (concat ps)"
    using evidence_ring.put_all_fresh by blast
  have "rb_dropped b = (maxEvidence < length (concat ps))" by (rule evidence_ring.put_all_lost_fresh [OF b(1)])
  then show ?thesis using b by (simp add: ring_result_def ring_content_def)
qed

section \<open>Pushing to the line\<close>

text \<open>A push from a repository without cycles returns, and keeps a closed destination closed, objects and
  other refs in place; when it answers no error the commit and all it needs are there under the ref.\<close>

theorem push_keeps_closure:
  assumes "acyclic_objects (rp_objects src)" "closed_objects dst"
  shows "\<exists>err dst'. PushCommit G now src dst commit ref = Some (err, dst') \<and> closed_objects dst'
     \<and> (\<forall>h x. obj dst h = Some x \<longrightarrow> obj dst' h = Some x) \<and> (\<forall>k. k \<noteq> ref \<longrightarrow> ref_of dst' k = ref_of dst k)
     \<and> (err = None \<longrightarrow> (ref_of dst' ref = Some (new_hash commit) \<or> repo_Ref G dst' ref = Inr commit)
          \<and> (\<forall>k. needs_object dst' (new_hash commit) k \<longrightarrow> obj dst' k \<noteq> None))"
proof -
  obtain err dst' where p: "PushCommit G now src dst commit ref = Some (err, dst')" using PushCommit_total [OF assms(1)] by fastforce
  have "closed_objects dst'" using PushCommit_objects [OF p assms(2)] by blast
  moreover have "(ref_of dst' ref = Some (new_hash commit) \<or> repo_Ref G dst' ref = Inr commit)
      \<and> (\<forall>k. needs_object dst' (new_hash commit) k \<longrightarrow> obj dst' k \<noteq> None)" if "err = None"
  proof -
    have "obj dst' (new_hash commit) \<noteq> None" "ref_of dst' ref = Some (new_hash commit) \<or> repo_Ref G dst' ref = Inr commit"
      using PushCommit_succeeds [OF p [unfolded that] assms(2)] by blast+
    then show ?thesis using closed_complete [OF \<open>closed_objects dst'\<close>] by blast
  qed
  ultimately show ?thesis using p PushCommit_objects [OF p assms(2)] by blast
qed

definition ex_base_repo :: repo where
  "ex_base_repo = \<lparr>rp_objects = [(ex_master, Commit_Obj (ex_id (CHR ''1'')) [] ''start''), (ex_id (CHR ''1''), Tree_Obj [])],
     rp_loose = Map.empty, rp_refs = [(''refs/heads/master'', ex_master)]\<rparr>"

lemma ex_acyclic: "acyclic_objects (rp_objects ex_repo)"
proof -
  define rank :: "oid \<Rightarrow> nat" where
    "rank = (\<lambda>h. if h = ex_candidate then 3 else if h = ex_master \<or> h = ex_id (CHR ''2'') then 2 else 1)"
  have "rank c < rank h" if "map_of (rp_objects ex_repo) h = Some x" "c \<in> set (copy_children x)" for h x c
    using that unfolding ex_obj by (auto simp: rank_def copy_children_def split: if_splits)
  then show ?thesis unfolding acyclic_objects_def by blast
qed

lemma ex_base_closed: "closed_objects ex_base_repo"
  by (auto simp: closed_objects_def ex_base_repo_def copy_children_def split: if_splits)

theorem push_keeps_closure_witness:
  "\<exists>err dst'. PushCommit ex_git 0 ex_repo ex_base_repo ex_candidate (CandidatePrefix @ ex_candidate) = Some (err, dst')
     \<and> closed_objects dst' \<and> obj dst' ex_master = obj ex_base_repo ex_master"
proof -
  have "obj ex_base_repo ex_master = Some (Commit_Obj (ex_id (CHR ''1'')) [] ''start'')" by (simp add: ex_base_repo_def)
  then show ?thesis
    using push_keeps_closure [OF ex_acyclic ex_base_closed, of ex_git 0 ex_candidate "CandidatePrefix @ ex_candidate"] by fastforce
qed

definition ex_aged :: repo where
  "ex_aged = ex_repo\<lparr>rp_refs := [(''refs/heads/master'', ex_master)],
     rp_loose := [ex_id (CHR ''c'') \<mapsto> 0, ex_id (CHR ''2'') \<mapsto> 100, ex_candidate \<mapsto> 100]\<rparr>"

text \<open>C40. Pruning breaks what a push relies on. A candidate whose ref is gone is pruned object by object by age:
  an old blob goes while a newer tree and commit naming it stay, and pushing the candidate again succeeds
  without the blob.\<close>

theorem pruning_breaks_closure:
  "closed_objects ex_aged
   \<and> (\<exists>r r'. PruneUnreachable 101 50 ex_aged = Inr r \<and> \<not> closed_objects r
        \<and> PushCommit ex_git 102 ex_repo r ex_candidate (CandidatePrefix @ ex_candidate) = Some (None, r')
        \<and> ref_of r' (CandidatePrefix @ ex_candidate) = Some ex_candidate
        \<and> needs_object ex_repo ex_candidate (ex_id (CHR ''c'')) \<and> obj r' (ex_id (CHR ''c'')) = None)"
proof -
  define r where "r = ex_aged\<lparr>rp_objects := filter (\<lambda>(h, x). h \<noteq> ex_id (CHR ''c'')) (rp_objects ex_aged)\<rparr>"
  define r' where "r' = r\<lparr>rp_refs := rp_refs r @ [(CandidatePrefix @ ex_candidate, ex_candidate)]\<rparr>"
  have obj_r: "obj r h = (if h = ex_id (CHR ''c'') then None else obj ex_repo h)" for h
    by (simp add: r_def ex_aged_def map_of_filter_key [of "\<lambda>h. h \<noteq> ex_id (CHR ''c'')"])
       (simp add: ex_repo_def ex_objects_with_def)
  have refs: "rp_refs r = [(''refs/heads/master'', ex_master)]" by (simp add: r_def ex_aged_def)
  have closed: "closed_objects ex_aged"
    unfolding closed_objects_def by (auto simp: ex_aged_def ex_obj copy_children_def split: if_splits)
  have marks: "markReachable (rp_objects ex_aged) (map snd (rp_refs ex_aged)) [] = Inr [ex_id (CHR ''1''), ex_master]"
    by (simp add: ex_aged_def ex_obj children_def leaves_def)
  have prune: "PruneUnreachable 101 50 ex_aged = Inr r"
    unfolding PruneUnreachable_def marks by (simp add: r_def Let_def) (simp add: ex_aged_def ex_repo_def ex_objects_with_def)
  have open_r: "\<not> closed_objects r"
    unfolding closed_objects_def obj_r ex_obj by (auto simp: copy_children_def intro!: exI [of _ "ex_id (CHR ''2'')"])
  have hash: "is_hash ex_candidate" "new_hash ex_candidate = ex_candidate"
  proof -
    have "is_hex (CHR ''b'')" by (simp add: is_hex_def in_range_def)
    then have "list_all is_hex ex_candidate" by (simp add: ex_id_def list_all_iff)
    then show "is_hash ex_candidate" "new_hash ex_candidate = ex_candidate"
      by (simp_all add: is_hash_lower full_hex_new_hash ex_id_def)
  qed
  have there: "obj r ex_candidate \<noteq> None" by (simp add: obj_r ex_obj)
  have "copy (rp_objects ex_repo) 102 [Visit ex_candidate] r = Some (None, r)"
    by (subst copy.simps, simp add: there, subst copy.simps, simp)
  moreover have "UpdateRef ex_git r (CandidatePrefix @ ex_candidate) ex_candidate [] = Inr r'"
    using hash by (simp add: UpdateRef_def setRef_def refs parseHash_def obj_r ex_obj r'_def CandidatePrefix_def) (simp add: ex_git_def)
  ultimately have push: "PushCommit ex_git 102 ex_repo r ex_candidate (CandidatePrefix @ ex_candidate) = Some (None, r')"
    using hash by (simp add: PushCommit_def parseHash_def)
  have "needs_object ex_repo ex_candidate (ex_id (CHR ''2''))"
    by (rule needs_child [OF needs_self]) (auto simp: ex_obj copy_children_def)
  then have needs: "needs_object ex_repo ex_candidate (ex_id (CHR ''c''))"
    by (rule needs_child) (auto simp: ex_obj copy_children_def)
  have "ref_of r' (CandidatePrefix @ ex_candidate) = Some ex_candidate" "obj r' (ex_id (CHR ''c'')) = None"
    using obj_r [of "ex_id (CHR ''c'')"] by (simp_all add: r'_def refs CandidatePrefix_def)
  with closed prune open_r push needs show ?thesis by blast
qed

text \<open>C34. What one repository bundles above a base, another that holds the base fetches: the fetch succeeds, the
  ref names the bundled commit, everything the commit needs at the sender is there, and nothing the receiver had
  is lost or left open. Packs are assumed to carry what they are given, ids to name contents, and tree entries to
  have the kind of object their mode says.\<close>

theorem bundle_roundtrip:
  assumes "CreateBundle G encode src ref commit base = Inr text"
    and "lawful_pack encode unpack (rp_objects src) (rp_objects dst)"
    and "modes_right (rp_objects src)" "acyclic_objects (rp_objects src)" "\<forall>h x. obj src h = Some x \<longrightarrow> full_id h"
    and "closed_objects dst" "agree (rp_objects src) (rp_objects dst)"
    and "base \<noteq> [] \<longrightarrow> (\<exists>b y. resolveCommit G src base = Inr (b, y) \<and> ReachableFromRefs G W dst b within = Inr True)"
    and "newline \<notin> set ref" "gg_valid_ref G ref" "rs_valid R spec" "rs_match R spec ref" "gg_valid_ref G (rs_dst R spec ref)"
  shows "\<exists>tip x dst'. resolveCommit G src commit = Inr (tip, x)
    \<and> FetchBundle G W R unpack now text within False [spec] dst = Some (None, dst')
    \<and> ref_of dst' (rs_dst R spec ref) = Some tip \<and> closed_objects dst'
    \<and> (\<forall>k. store_needs (rp_objects src) tip k \<longrightarrow> obj dst' k \<noteq> None)
    \<and> (\<forall>h x. obj dst h = Some x \<longrightarrow> obj dst' h = Some x)"
  using assms by (rule bundle_fetched)

definition ex_carried :: "oid list" where
  "ex_carried = [ex_candidate, ex_id (CHR ''2''), ex_id (CHR ''c'')]"

definition ex_encode :: pack_encoder where
  "ex_encode = (\<lambda>objs sel. if sel = ex_carried then Inr ''P'' else Inl ''no pack'')"

definition ex_unpack :: "object_store \<Rightarrow> string \<Rightarrow> string + object_store" where
  "ex_unpack = (\<lambda>dst p. Inr (filter (\<lambda>(h, x). h \<in> set ex_carried) ex_objects))"

definition ex_specs :: refspec_ops where
  "ex_specs = \<lparr>rs_valid = \<lambda>s. True, rs_match = \<lambda>s n. n = ''refs/sweatshop/c'', rs_dst = \<lambda>s n. ''refs/bundle/c'', rs_wildcard = \<lambda>s. False,
     rs_reverse_match = \<lambda>s n. False\<rparr>"

definition ex_no_walk :: history where
  "ex_no_walk = \<lparr>hi_walk = \<lambda>objs c seen. Inl (Ref_Not_Found c), hi_ancestor = \<lambda>objs a d. Inl (Ref_Not_Found a)\<rparr>"

definition ex_bundle :: string where
  "ex_bundle = bundle_text (Some ex_master) ex_candidate ''refs/sweatshop/c'' ''P''"

lemma ex_created: "CreateBundle ex_git ex_encode ex_repo ''refs/sweatshop/c'' ex_candidate ex_master = Inr ex_bundle"
proof -
  note rc = ex_rc [OF ex_repo_like(1)]
  have links: "commit_links (rp_objects ex_repo) ex_master = Some (ex_id (CHR ''1''), [])"
      "commit_links (rp_objects ex_repo) ex_candidate = Some (ex_id (CHR ''2''), [ex_master])"
      "tree_entries (rp_objects ex_repo) (ex_id (CHR ''1'')) = Some []"
      "tree_entries (rp_objects ex_repo) (ex_id (CHR ''2'')) = Some [(''a.go'', Mode_Regular, ex_id (CHR ''c''))]"
    by (simp_all add: commit_links_def tree_entries_def ex_obj)
  have "reachableFrom (rp_objects ex_repo) ex_candidate [ex_master] [] = False" by (simp add: links)
  moreover have "have_closure (rp_objects ex_repo) [In_Tree (ex_id (CHR ''1''))] [ex_master] = Inr [ex_id (CHR ''1''), ex_master]" by (simp add: links)
  moreover have "select_objects (rp_objects ex_repo) [ex_id (CHR ''1''), ex_master] [Sel_Commit ex_candidate] [] = Inr ex_carried"
    by (simp add: links ex_carried_def)
  ultimately show ?thesis
    by (simp add: CreateBundle_def rc write_bundle_def ex_encode_def ex_bundle_def)
qed

lemma ex_full_id: "c \<in> {CHR ''a'', CHR ''b'', CHR ''c'', CHR ''1'', CHR ''2''} \<Longrightarrow> full_id (ex_id c)"
  by (auto simp: full_id_def ex_id_def list_all_iff is_hex_def is_digit_def in_range_def)

lemma ex_lawful_pack: "lawful_pack ex_encode ex_unpack (rp_objects ex_repo) (rp_objects ex_base_repo)"
proof -
  have "map_of (filter (\<lambda>(h, x). h \<in> set ex_carried) ex_objects) h = (if h \<in> set ex_carried then map_of (rp_objects ex_repo) h else None)" for h
    by (cases "h \<in> set ex_carried") (auto simp: map_of_filter_key [of "\<lambda>h. h \<in> set ex_carried"] ex_repo_def map_of_eq_None_iff)
  moreover have "\<forall>h\<in>set ex_carried. map_of (rp_objects ex_repo) h \<noteq> None" unfolding ex_carried_def by (simp add: ex_obj)
  ultimately show ?thesis by (auto simp: lawful_pack_def ex_encode_def ex_unpack_def)
qed

theorem bundle_roundtrip_witness:
  "\<exists>dst'. FetchBundle ex_git ex_no_walk ex_specs ex_unpack 0 ex_bundle ''refs/heads/'' False [''s''] ex_base_repo = Some (None, dst')
     \<and> ref_of dst' ''refs/bundle/c'' = Some ex_candidate \<and> obj dst' (ex_id (CHR ''c'')) \<noteq> None"
proof -
  have modes: "modes_right (rp_objects ex_repo)"
    unfolding modes_right_def by (auto simp: ex_obj copy_children_def split: if_splits)
  have ids: "\<forall>h x. obj ex_repo h = Some x \<longrightarrow> full_id h" using ex_full_id by (auto simp: ex_obj split: if_splits)
  have agree: "agree (rp_objects ex_repo) (rp_objects ex_base_repo)"
    unfolding agree_def by (auto simp: ex_obj ex_base_repo_def split: if_splits)
  note rc = ex_rc [OF ex_repo_like(1)]
  have full: "is_hash ex_master" "new_hash ex_master = ex_master" using full_id_hash [OF ex_full_id [of "CHR ''a''"]] by simp_all
  have "obj ex_base_repo ex_master = Some (Commit_Obj (ex_id (CHR ''1'')) [] ''start'')" by (simp add: ex_base_repo_def)
  then have "resolveCommit ex_git ex_base_repo ex_master = Inr (ex_master, ex_id (CHR ''1''), [], ''start'')"
      and "commit_object ex_base_repo (new_hash ex_master) = Inr (ex_master, ex_id (CHR ''1''), [], ''start'')"
    using full by (simp_all add: resolveCommit_def resolve_def commit_object_def)
  moreover have "RefNames ex_base_repo ''refs/heads/'' = [''refs/heads/master'']" by (simp add: RefNames_def ex_base_repo_def has_prefix_def)
  moreover have "ref_of ex_base_repo ''refs/heads/master'' = Some ex_master" by (simp add: ex_base_repo_def)
  ultimately have "ReachableFromRefs ex_git ex_no_walk ex_base_repo ex_master ''refs/heads/'' = Inr True" by (simp add: ReachableFromRefs_def)
  then have base: "ex_master \<noteq> [] \<longrightarrow> (\<exists>b y. resolveCommit ex_git ex_repo ex_master = Inr (b, y) \<and> ReachableFromRefs ex_git ex_no_walk ex_base_repo b ''refs/heads/'' = Inr True)"
    by (simp add: rc)
  have refs: "newline \<notin> set ''refs/sweatshop/c''" "gg_valid_ref ex_git ''refs/sweatshop/c''" "rs_valid ex_specs ''s''"
      "rs_match ex_specs ''s'' ''refs/sweatshop/c''" "gg_valid_ref ex_git (rs_dst ex_specs ''s'' ''refs/sweatshop/c'')"
    by (simp_all add: ex_git_def ex_specs_def)
  obtain dst' where dst': "FetchBundle ex_git ex_no_walk ex_specs ex_unpack 0 ex_bundle ''refs/heads/'' False [''s''] ex_base_repo = Some (None, dst')"
      "ref_of dst' (rs_dst ex_specs ''s'' ''refs/sweatshop/c'') = Some ex_candidate"
      "\<forall>k. store_needs (rp_objects ex_repo) ex_candidate k \<longrightarrow> obj dst' k \<noteq> None"
    using bundle_roundtrip [OF ex_created ex_lawful_pack modes ex_acyclic ids ex_base_closed agree base refs, of 0] by (auto simp: rc)
  have "store_needs (rp_objects ex_repo) ex_candidate (ex_id (CHR ''2''))"
    by (rule store_child [OF store_self]) (auto simp: ex_obj copy_children_def)
  then have "store_needs (rp_objects ex_repo) ex_candidate (ex_id (CHR ''c''))"
    by (rule store_child) (auto simp: ex_obj copy_children_def)
  then show ?thesis using dst' by (auto simp: ex_specs_def)
qed

section \<open>The maker\<close>

text \<open>The card a maker takes: never one it gave up on, while the cord is pulled only an andon card, and of
  those left one that no other precedes by andon first, then priority, then id; none only when none is left.\<close>

theorem pick_takes_best_card:
  "case Pick cards stopped of
     None \<Rightarrow> \<forall>b\<in>set cards. GaveUpLabel \<in> set (be_labels b) \<or> stopped \<and> \<not> andon_card b
   | Some b \<Rightarrow> b \<in> set cards \<and> GaveUpLabel \<notin> set (be_labels b) \<and> (stopped \<longrightarrow> andon_card b)
       \<and> (\<forall>c\<in>set cards. GaveUpLabel \<notin> set (be_labels c) \<longrightarrow> (stopped \<longrightarrow> andon_card c)
            \<longrightarrow> (andon_card c \<longrightarrow> andon_card b)
              \<and> (andon_card b = andon_card c \<longrightarrow> be_priority b < be_priority c \<or> be_priority b = be_priority c \<and> be_id b \<le> be_id c))"
proof (cases "Pick cards stopped")
  case None
  then show ?thesis using Pick_None [of cards stopped] by (simp add: pick_skips_def)
next
  case (Some b)
  have "(andon_card c \<longrightarrow> andon_card b)
      \<and> (andon_card b = andon_card c \<longrightarrow> be_priority b < be_priority c \<or> be_priority b = be_priority c \<and> be_id b \<le> be_id c)"
    if "c \<in> set cards" "GaveUpLabel \<notin> set (be_labels c)" "stopped \<longrightarrow> andon_card c" for c
    using Pick_least [OF Some, of c] that by (auto simp: pick_skips_def pick_key_def less_eq_prod_def less_le)
  then show ?thesis using Some Pick_eligible [OF Some] by (simp add: pick_skips_def)
qed

definition ex_card :: "string \<Rightarrow> int \<Rightarrow> string list \<Rightarrow> bead" where
  "ex_card cid priority labels = \<lparr>be_id = cid, be_title = [], be_description = [], be_priority = priority, be_labels = labels\<rparr>"

theorem pick_takes_best_card_witness:
  "\<exists>b. Pick [ex_card ''a'' 1 [], ex_card ''b'' 2 [''andon'']] True = Some b \<and> andon_card b"
proof -
  let ?cards = "[ex_card ''a'' 1 [], ex_card ''b'' 2 [''andon'']]"
  have "\<not> pick_skips True (ex_card ''b'' 2 [''andon''])"
    by (simp add: pick_skips_def andon_card_def ex_card_def GaveUpLabel_def LabelGaveUp_def)
  then have "Pick ?cards True \<noteq> None" using Pick_None [of ?cards True] by auto
  then obtain b where "Pick ?cards True = Some b" by blast
  then show ?thesis using pick_takes_best_card [of ?cards True] by simp
qed





















end
