(* ===== verification/Succession.thy ===== *)
theory Succession
  imports Container Station_Kaizen Repo_History
begin

text \<open>
  \<open>line/station/succession.go\<close>: the supervisor of viceroy generations. Its state is the mutex-protected part of
  \<open>Supervisor\<close> with the two files of the line directory (\<open>viceroy/current\<close>, \<open>generations.jsonl\<close>), which do not
  fail. The container engine, the witness, the secret store and the chat channel act on a world \<open>'s\<close> and are the
  fields of an environment. A handler is cut where it takes or drops the lock, so that the pieces also serve
  the interleaved machine of \<open>Succession_Steps\<close>.
\<close>

subsection \<open>State\<close>

record generation =
  gn_gen :: int
  gn_commit :: string
  gn_predecessor :: string
  gn_station :: string
  gn_at :: time

text \<open>\<open>pg_id\<close> stands for the identity of the allocated \<open>pendingGen\<close>: the source compares pointers.\<close>

record pending_gen =
  pg_generation :: generation
  pg_posted :: bool
  pg_id :: nat

record supervisor =
  su_starting :: bool
  su_pending :: "pending_gen option"
  su_current :: "generation option"
  su_log :: "generation list"
  su_next :: nat

record viceroy_station =
  vt_name :: string
  vt_agent :: string
  vt_token :: string
  vt_role :: string

record 's viceroy_env =
  ve_ext :: ext
  ve_guard :: guard
  ve_history :: history
  ve_repo :: "'s \<Rightarrow> repo"
  ve_attest :: "string \<Rightarrow> 's \<Rightarrow> (string + bool) \<times> 's"
  ve_cred :: "'s \<Rightarrow> string + string"
  ve_checkout :: "string \<Rightarrow> 's \<Rightarrow> (string + string) \<times> 's"
  ve_build :: "string \<Rightarrow> string \<Rightarrow> string \<Rightarrow> 's \<Rightarrow> string option \<times> 's"
  ve_start :: "container_spec \<Rightarrow> 's \<Rightarrow> string option \<times> 's"
  ve_running :: "string \<Rightarrow> 's \<Rightarrow> (string + bool) \<times> 's"
  ve_remove :: "string \<Rightarrow> 's \<Rightarrow> string option \<times> 's"
  ve_post :: "(string \<Rightarrow> 's \<Rightarrow> 's) option"        \<comment> \<open>the chat channel, when there is one\<close>
  ve_url :: string
  ve_line_url :: string
  ve_remote_dir :: string
  ve_network :: string
  ve_image :: string

datatype vice_fault = V_Http nat string | V_Git git_error | V_Guard guard_error | V_Failed string

definition GenHeader :: string where "GenHeader = ''X-Sweatshop-Gen''"
definition DefaultCheckinTimeout :: duration where "DefaultCheckinTimeout = 10 * minute"
definition viceroyDockerfile :: string where "viceroyDockerfile = ''station/Dockerfile''"
definition DefaultMemory :: string where "DefaultMemory = ''4g''"
definition DefaultPids :: int where "DefaultPids = 1024"
definition DefaultCPUs :: string where "DefaultCPUs = ''2''"
definition viceroy_role :: string where "viceroy_role = ''viceroy''"

definition ContainerName :: "int \<Rightarrow> string" where
  "ContainerName n = ''sweatshop-viceroy-'' @ show_int n"

definition record_generation :: "generation \<Rightarrow> supervisor \<Rightarrow> supervisor" where
  "record_generation g v = v\<lparr>su_log := su_log v @ [g], su_current := Some g\<rparr>"

subsection \<open>Who may speak\<close>

definition Admit :: "string \<Rightarrow> bool \<Rightarrow> supervisor \<Rightarrow> vice_fault option \<times> supervisor" where
  "Admit hdr post v =
     (if hdr = [] \<or> (su_current v = None \<and> su_pending v = None) then (None, v)
      else if (case su_current v of Some cur \<Rightarrow> hdr = show_int (gn_gen cur) | None \<Rightarrow> False) then (None, v)
      else case su_pending v of
             Some p \<Rightarrow>
               (if hdr = show_int (gn_gen (pg_generation p)) then
                  (if post \<and> \<not> pg_posted p then (None, v\<lparr>su_pending := Some (p\<lparr>pg_posted := True\<rparr>)\<rparr>)
                   else (Some (V_Http 409 (''generation '' @ hdr @ '' has not checked in'')), v))
                else (Some (V_Http 409 (''generation '' @ go_quote hdr @ '' is not the current viceroy generation'')), v))
           | None \<Rightarrow> (Some (V_Http 409 (''generation '' @ go_quote hdr @ '' is not the current viceroy generation'')), v))"

subsection \<open>Starting a generation\<close>

definition currentMasterIfSuperseded :: "'s viceroy_env \<Rightarrow> string \<Rightarrow> 's \<Rightarrow> vice_fault + string" where
  "currentMasterIfSuperseded E commit s =
     (let G = x_git (ve_ext E); r = ve_repo E s in
      case repo_Ref G r (g_ref (ve_guard E)) of
        Inl e \<Rightarrow> Inl (V_Git e)
      | Inr master \<Rightarrow> (case IsAncestor G (ve_history E) r commit master of Inr True \<Rightarrow> Inr master | _ \<Rightarrow> Inr commit))"

definition checkMaster :: "'s viceroy_env \<Rightarrow> string \<Rightarrow> 's \<Rightarrow> vice_fault option" where
  "checkMaster E commit s =
     (let r = ve_repo E s in
      case repo_Ref (x_git (ve_ext E)) r (g_ref (ve_guard E)) of
        Inl e \<Rightarrow> Some (V_Git e)
      | Inr master \<Rightarrow>
          (if master \<noteq> commit then Some (V_Http 409 (commit @ '' is not the line'' @ [CHR 0x27] @ ''s master ('' @ master @ '')''))
           else case Stopped (ve_ext E) r of
                  Fail e \<Rightarrow> Some (V_Guard e)
                | Answer a \<Rightarrow> None
                | Go (sid, ev) \<Rightarrow> fail_if (sid \<noteq> []) (V_Http 409 (''the line is stopped (andon event '' @ sid @ '')''))))"

definition viceroy_spec :: "'s viceroy_env \<Rightarrow> viceroy_station \<Rightarrow> generation \<Rightarrow> 's \<Rightarrow> vice_fault + container_spec" where
  "viceroy_spec E st g s =
     (case ve_cred E s of
        Inl e \<Rightarrow> Inl (V_Failed (''model credential: '' @ e))
      | Inr token \<Rightarrow>
          Inr \<lparr>ct_image = (if ve_image E = [] then ''sweatshop-viceroy:'' @ gn_commit g else ve_image E),
               ct_name = ContainerName (gn_gen g),
               ct_env = [(''SWEATSHOP_MODE'', ''viceroy''), (''SWEATSHOP_VICEROY_GEN'', show_int (gn_gen g)),
                         (''SWEATSHOP_LINE_URL'', if ve_url E = [] then ve_line_url E else ve_url E),
                         (''SWEATSHOP_LINE_TOKEN'', vt_token st), (''SWEATSHOP_AGENT_ID'', vt_agent st),
                         (''CLAUDE_CODE_OAUTH_TOKEN'', token)]
                        @ (if gn_predecessor g \<noteq> [] then [(''SWEATSHOP_PREDECESSOR'', gn_predecessor g)] else []),
               ct_mounts = [\<lparr>mo_host = ve_remote_dir E, mo_container = ''/line/remote.git'', mo_read_only = True\<rparr>],
               ct_args = [], ct_network = ve_network E, ct_memory = DefaultMemory, ct_cpus = DefaultCPUs, ct_pids = DefaultPids\<rparr>)"

text \<open>Building the image, unless the line names one.\<close>

definition build_image :: "'s viceroy_env \<Rightarrow> generation \<Rightarrow> container_spec \<Rightarrow> 's \<Rightarrow> vice_fault option \<times> 's" where
  "build_image E g ct s =
     (if ve_image E \<noteq> [] then (None, s)
      else case ve_checkout E (gn_commit g) s of
             (Inl e, s1) \<Rightarrow> (Some (V_Failed (''checkout '' @ gn_commit g @ '': '' @ e)), s1)
           | (Inr dir, s1) \<Rightarrow>
               (case ve_build E dir (dir @ ''/'' @ viceroyDockerfile) (ct_image ct) s1 of
                  (Some e, s2) \<Rightarrow> (Some (V_Http 502 (''build: '' @ e)), s2)
                | (None, s2) \<Rightarrow> (None, s2)))"

definition start_container :: "'s viceroy_env \<Rightarrow> container_spec \<Rightarrow> 's \<Rightarrow> string option \<times> 's" where
  "start_container E ct s = ve_start E ct (snd (ve_remove E (ct_name ct) s))"

definition launch :: "'s viceroy_env \<Rightarrow> viceroy_station \<Rightarrow> generation \<Rightarrow> 's \<Rightarrow> vice_fault option \<times> 's" where
  "launch E st g s =
     (case ve_attest E (gn_commit g) s of
        (Inl e, s1) \<Rightarrow> (Some (V_Http 422 (''attest '' @ gn_commit g @ '': '' @ e)), s1)
      | (Inr passed, s1) \<Rightarrow>
          (if \<not> passed then (Some (V_Http 422 (''checks failed on '' @ gn_commit g)), s1)
           else case viceroy_spec E st g s1 of
                  Inl e \<Rightarrow> (Some e, s1)
                | Inr ct \<Rightarrow>
                    (case build_image E g ct s1 of
                       (Some e, s2) \<Rightarrow> (Some e, s2)
                     | (None, s2) \<Rightarrow>
                         (case start_container E ct s2 of
                            (Some e, s3) \<Rightarrow> (Some (V_Http 502 (''start: '' @ e)), s3)
                          | (None, s3) \<Rightarrow> (None, s3)))))"

definition su_begin :: "supervisor \<Rightarrow> vice_fault + supervisor" where
  "su_begin v =
     (if su_starting v \<or> su_pending v \<noteq> None then Inl (V_Http 409 ''a succession is already in progress'')
      else Inr (v\<lparr>su_starting := True\<rparr>))"

definition su_end :: "supervisor \<Rightarrow> supervisor" where
  "su_end v = v\<lparr>su_starting := False\<rparr>"

text \<open>Work done between \<open>begin\<close> and the deferred \<open>end\<close>.\<close>

definition while_starting :: "(supervisor \<times> 's \<Rightarrow> (vice_fault + 'a) \<times> (supervisor \<times> 's)) \<Rightarrow> supervisor \<times> 's \<Rightarrow> (vice_fault + 'a) \<times> (supervisor \<times> 's)" where
  "while_starting f vs =
     (case su_begin (fst vs) of
        Inl e \<Rightarrow> (Inl e, vs)
      | Inr v1 \<Rightarrow> (case f (v1, snd vs) of (res, (v2, s2)) \<Rightarrow> (res, (su_end v2, s2))))"

definition bootstrap_allowed :: "'s viceroy_env \<Rightarrow> supervisor \<Rightarrow> 's \<Rightarrow> vice_fault option \<times> 's" where
  "bootstrap_allowed E v s =
     (case su_current v of
        None \<Rightarrow> (None, s)
      | Some cur \<Rightarrow>
          (case ve_running E (ContainerName (gn_gen cur)) s of
             (Inl e, s1) \<Rightarrow> (Some (V_Http 502 (''inspect generation '' @ show_int (gn_gen cur) @ '': '' @ e)), s1)
           | (Inr running, s1) \<Rightarrow>
               (fail_if (running \<or> gn_gen cur \<noteq> 1) (V_Http 409 ''the line already has a viceroy generation''), s1)))"

definition first_generation :: "viceroy_station \<Rightarrow> string \<Rightarrow> time \<Rightarrow> generation" where
  "first_generation st commit now = \<lparr>gn_gen = 1, gn_commit = commit, gn_predecessor = [], gn_station = vt_name st, gn_at = now\<rparr>"

definition Bootstrap :: "'s viceroy_env \<Rightarrow> viceroy_station \<Rightarrow> string \<Rightarrow> time \<Rightarrow> supervisor \<times> 's \<Rightarrow> (vice_fault + generation) \<times> (supervisor \<times> 's)" where
  "Bootstrap E st commit now = while_starting (\<lambda>(v, s).
     case bootstrap_allowed E v s of
       (Some e, s1) \<Rightarrow> (Inl e, (v, s1))
     | (None, s1) \<Rightarrow>
         (case checkMaster E commit s1 of
            Some e \<Rightarrow> (Inl e, (v, s1))
          | None \<Rightarrow>
              (let g = first_generation st commit now in
               case launch E st g s1 of
                 (Some e, s2) \<Rightarrow> (Inl e, (v, s2))
               | (None, s2) \<Rightarrow> (Inr g, (record_generation g v, s2)))))"

definition next_generation :: "generation \<Rightarrow> viceroy_station \<Rightarrow> string \<Rightarrow> time \<Rightarrow> generation" where
  "next_generation cur st commit now =
     \<lparr>gn_gen = gn_gen cur + 1, gn_commit = commit, gn_predecessor = gn_commit cur, gn_station = vt_name st, gn_at = now\<rparr>"

definition publish :: "generation \<Rightarrow> supervisor \<Rightarrow> pending_gen \<times> supervisor" where
  "publish g v =
     (let p = \<lparr>pg_generation = g, pg_posted = False, pg_id = su_next v\<rparr>
      in (p, v\<lparr>su_pending := Some p, su_next := su_next v + 1\<rparr>))"

definition Succeed :: "'s viceroy_env \<Rightarrow> viceroy_station \<Rightarrow> string \<Rightarrow> time \<Rightarrow> supervisor \<times> 's \<Rightarrow> (vice_fault + generation) \<times> (supervisor \<times> 's)" where
  "Succeed E st commit now vs =
     (if \<not> vc_succession (cn_viceroy (g_constitution (ve_guard E)))
      then (Inl (V_Http 403 ''the constitution does not allow viceroy succession''), vs)
      else while_starting (\<lambda>(v, s).
        case su_current v of
          None \<Rightarrow> (Inl (V_Http 409 ''no current viceroy generation; the owner starts generation 1''), (v, s))
        | Some cur \<Rightarrow>
            (if commit = gn_commit cur
             then (Inl (V_Http 409 (commit @ '' is already generation '' @ show_int (gn_gen cur) @ [CHR 0x27] @ ''s commit'')), (v, s))
             else case currentMasterIfSuperseded E commit s of
                    Inl e \<Rightarrow> (Inl e, (v, s))
                  | Inr target \<Rightarrow>
                      (case checkMaster E target s of
                         Some e \<Rightarrow> (Inl e, (v, s))
                       | None \<Rightarrow>
                           (let g = next_generation cur st target now in
                            case launch E st g s of
                              (Some e, s1) \<Rightarrow> (Inl e, (v, s1))
                            | (None, s1) \<Rightarrow> (Inr g, (snd (publish g v), s1)))))) vs)"

subsection \<open>Waiting for the check-in\<close>

text \<open>What wakes the watcher: the check-in, the deadline, or a tick with what the engine answered.\<close>

datatype watch_event = Checked_In | Deadline | Tick "string + bool"

fun watch :: "duration \<Rightarrow> watch_event list \<Rightarrow> string option" where
  "watch timeout [] = None"
| "watch timeout (Checked_In # es) = None"
| "watch timeout (Deadline # es) = Some (''no check-in within '' @ duration_string timeout)"
| "watch timeout (Tick r # es) =
     (if r = Inr False then Some ''the container exited before checking in'' else watch timeout es)"

definition watch_timeout :: "duration \<Rightarrow> duration" where
  "watch_timeout timeout = (if timeout \<le> 0 then DefaultCheckinTimeout else timeout)"

definition rollback_claim :: "pending_gen \<Rightarrow> supervisor \<Rightarrow> supervisor option" where
  "rollback_claim p v =
     (case su_pending v of
        Some q \<Rightarrow> (if pg_id q = pg_id p then Some (v\<lparr>su_pending := None\<rparr>) else None)
      | None \<Rightarrow> None)"

definition rollback_text :: "pending_gen \<Rightarrow> string \<Rightarrow> string" where
  "rollback_text p why =
     ''Viceroy succession to '' @ gn_commit (pg_generation p) @ '' failed ('' @ why @ ''). Generation ''
     @ show_int (gn_gen (pg_generation p) - 1) @ '' stays in charge.''"

definition rollback :: "'s viceroy_env \<Rightarrow> pending_gen \<Rightarrow> string \<Rightarrow> supervisor \<times> 's \<Rightarrow> supervisor \<times> 's" where
  "rollback E p why vs =
     (case rollback_claim p (fst vs) of
        None \<Rightarrow> vs
      | Some v1 \<Rightarrow>
          (let s1 = snd (ve_remove E (ContainerName (gn_gen (pg_generation p))) (snd vs))
           in (v1, case ve_post E of None \<Rightarrow> s1 | Some post \<Rightarrow> post (rollback_text p why) s1)))"

text \<open>\<open>Checkin\<close>: a look under the lock, the removal of the old container without it, and the end under it.\<close>

datatype checkin_look = Look_Answer "vice_fault + generation" | Look_Pending pending_gen

definition checkin_look :: "string \<Rightarrow> supervisor \<Rightarrow> checkin_look" where
  "checkin_look gen v =
     (case su_pending v of
        None \<Rightarrow>
          (case su_current v of
             Some cur \<Rightarrow> (if gen = show_int (gn_gen cur) then Look_Answer (Inr cur) else Look_Answer (Inl (V_Http 409 ''no succession is pending'')))
           | None \<Rightarrow> Look_Answer (Inl (V_Http 409 ''no succession is pending'')))
      | Some p \<Rightarrow>
          (if gen \<noteq> show_int (gn_gen (pg_generation p))
           then Look_Answer (Inl (V_Http 409 (''generation '' @ go_quote gen @ '' is not the pending generation '' @ show_int (gn_gen (pg_generation p)))))
           else Look_Pending p))"

definition checkin_finish :: "pending_gen \<Rightarrow> supervisor \<Rightarrow> (vice_fault + generation) \<times> supervisor" where
  "checkin_finish p v =
     (case su_pending v of
        Some q \<Rightarrow>
          (if pg_id q = pg_id p then (Inr (pg_generation q), (record_generation (pg_generation q) v)\<lparr>su_pending := None\<rparr>)
           else (Inl (V_Http 409 (''succession to generation '' @ show_int (gn_gen (pg_generation p)) @ '' was rolled back'')), v))
      | None \<Rightarrow> (Inl (V_Http 409 (''succession to generation '' @ show_int (gn_gen (pg_generation p)) @ '' was rolled back'')), v))"

definition Checkin :: "'s viceroy_env \<Rightarrow> string \<Rightarrow> supervisor \<times> 's \<Rightarrow> (vice_fault + generation) \<times> (supervisor \<times> 's)" where
  "Checkin E gen vs =
     (case checkin_look gen (fst vs) of
        Look_Answer res \<Rightarrow> (res, vs)
      | Look_Pending p \<Rightarrow>
          (let old = gn_gen (pg_generation p) - 1 in
           case ve_remove E (ContainerName old) (snd vs) of
             (Some e, s1) \<Rightarrow> (Inl (V_Http 502 (''stop generation '' @ show_int old @ '': '' @ e)), (fst vs, s1))
           | (None, s1) \<Rightarrow> (case checkin_finish p (fst vs) of (res, v1) \<Rightarrow> (res, (v1, s1)))))"

subsection \<open>Resuming and routing\<close>

definition Resume :: "'s viceroy_env \<Rightarrow> viceroy_station list \<Rightarrow> supervisor \<times> 's \<Rightarrow> vice_fault option \<times> 's" where
  "Resume E stations vs =
     (case su_current (fst vs) of
        None \<Rightarrow> (None, snd vs)
      | Some g \<Rightarrow>
          (case ve_running E (ContainerName (gn_gen g)) (snd vs) of
             (Inl e, s1) \<Rightarrow> (Some (V_Failed e), s1)
           | (Inr True, s1) \<Rightarrow> (None, s1)
           | (Inr False, s1) \<Rightarrow>
               (case filter (\<lambda>st. vt_name st = gn_station g) stations of
                  [] \<Rightarrow> (Some (V_Failed (''viceroy generation '' @ show_int (gn_gen g) @ '': no station '' @ go_quote (gn_station g))), s1)
                | sts \<Rightarrow>
                    (case viceroy_spec E (last sts) g s1 of
                       Inl e \<Rightarrow> (Some e, s1)
                     | Inr ct \<Rightarrow> map_prod (map_option V_Failed) id (start_container E ct s1)))))"

record viceroy_request =
  vr_path :: string
  vr_method :: string
  vr_gen :: string
  vr_commit :: string
  vr_slot :: "vice_fault option"        \<comment> \<open>how waiting for the check slot ended\<close>

definition commitParam :: "string \<Rightarrow> vice_fault option" where
  "commitParam c = fail_if (\<not> full_hex c) (V_Http 400 (''commit '' @ go_quote c @ '' is not a full lowercase hex object id''))"

definition routeViceroy :: "'s viceroy_env option \<Rightarrow> viceroy_station \<Rightarrow> viceroy_request \<Rightarrow> time \<Rightarrow> supervisor \<times> 's
    \<Rightarrow> (vice_fault + nat \<times> generation) \<times> (supervisor \<times> 's)" where
  "routeViceroy env st q now vs =
     (if vr_path q \<noteq> ''/v1/viceroy/succeed'' \<and> vr_path q \<noteq> ''/v1/viceroy/checkin'' then (Inl (V_Http 404 (''no route '' @ vr_path q)), vs)
      else if vr_method q \<noteq> ''POST'' then (Inl (V_Http 405 (''use POST for '' @ vr_path q)), vs)
      else if vt_role st \<noteq> viceroy_role then (Inl (V_Http 403 (''role '' @ go_quote (vt_role st) @ '' may not manage the viceroy'')), vs)
      else case env of
             None \<Rightarrow> (Inl (V_Http 503 ''viceroy supervisor is off''), vs)
           | Some E \<Rightarrow>
               (if vr_path q = ''/v1/viceroy/checkin'' then map_prod (map_sum id (Pair 200)) id (Checkin E (vr_gen q) vs)
                else case commitParam (vr_commit q) of
                       Some e \<Rightarrow> (Inl e, vs)
                     | None \<Rightarrow>
                         (case Admit (vr_gen q) False (fst vs) of
                            (Some e, v1) \<Rightarrow> (Inl e, (v1, snd vs))
                          | (None, v1) \<Rightarrow>
                              (case vr_slot q of
                                 Some e \<Rightarrow> (Inl e, (v1, snd vs))
                               | None \<Rightarrow> map_prod (map_sum id (Pair 202)) id (Succeed E st (vr_commit q) now (v1, snd vs))))))"

text \<open>Lines of \<open>generations.jsonl\<close> that do not decode are skipped.\<close>

definition Generations :: "(string \<Rightarrow> generation option) \<Rightarrow> string list \<Rightarrow> generation list" where
  "Generations decode ls = concat (map (\<lambda>l. case decode l of None \<Rightarrow> [] | Some g \<Rightarrow> [g]) ls)"

end
