(* ===== verification/Succession_Steps.thy ===== *)
theory Succession_Steps
  imports Succession
begin

text \<open>
  The supervisor under interleaving: the handlers of \<open>Succession\<close> cut where they take and drop the lock, the
  watchers, and the engine as the set of generations whose containers run. The decisions of a handler that read
  the line are left open, so every commit may be the next generation's. Containers may also exit on their own,
  and serve may restart: what it held in memory is gone, and \<open>Resume\<close> starts the current generation.
\<close>

datatype launch_phase = Deciding | Started | Launched

record machine =
  mc_sup :: supervisor
  mc_running :: "int list"
  mc_launch :: "(generation \<times> launch_phase) option"
  mc_boot :: "(generation \<times> launch_phase) option"
  mc_looked :: "pending_gen list"        \<comment> \<open>check-ins that have seen the pending generation\<close>
  mc_removed :: "pending_gen list"       \<comment> \<open>check-ins that have removed the old container\<close>
  mc_watching :: "pending_gen list"
  mc_rolling :: "pending_gen list"       \<comment> \<open>rollbacks that have yet to remove the new container\<close>

definition machine_start :: machine where
  "machine_start = \<lparr>mc_sup = \<lparr>su_starting = False, su_pending = None, su_current = None, su_log = [], su_next = 0\<rparr>,
     mc_running = [], mc_launch = None, mc_boot = None, mc_looked = [], mc_removed = [], mc_watching = [], mc_rolling = []\<rparr>"

definition stop_container :: "int \<Rightarrow> machine \<Rightarrow> machine" where
  "stop_container n m = m\<lparr>mc_running := removeAll n (mc_running m)\<rparr>"

definition run_container :: "int \<Rightarrow> machine \<Rightarrow> machine" where
  "run_container n m = m\<lparr>mc_running := n # removeAll n (mc_running m)\<rparr>"

definition restart :: "machine \<Rightarrow> machine" where
  "restart m =
     (let m1 = machine_start\<lparr>mc_sup := (mc_sup m)\<lparr>su_starting := False, su_pending := None\<rparr>, mc_running := mc_running m\<rparr>
      in case su_current (mc_sup m) of None \<Rightarrow> m1 | Some cur \<Rightarrow> run_container (gn_gen cur) m1)"

datatype machine_step =
    Boot_Begin viceroy_station string time | Boot_Start | Boot_Record | Boot_Fail
  | Succeed_Begin viceroy_station string time | Launch_Start | Launch_Publish | Launch_End
  | Checkin_Look string | Checkin_Remove pending_gen | Checkin_Finish pending_gen
  | Rollback_Claim pending_gen | Rollback_Remove pending_gen | Restart

text \<open>One step, when it is enabled.\<close>

fun exec :: "machine_step \<Rightarrow> machine \<Rightarrow> machine option" where
  "exec (Boot_Begin st commit now) m =
     (case su_begin (mc_sup m) of
        Inl e \<Rightarrow> None
      | Inr v \<Rightarrow>
          (if (case su_current v of None \<Rightarrow> True | Some cur \<Rightarrow> gn_gen cur = 1 \<and> gn_gen cur \<notin> set (mc_running m))
           then Some (m\<lparr>mc_sup := v, mc_boot := Some (first_generation st commit now, Deciding)\<rparr>) else None))"
| "exec Boot_Start m =
     (case mc_boot m of
        Some (g, Deciding) \<Rightarrow> Some ((run_container (gn_gen g) m)\<lparr>mc_boot := Some (g, Started)\<rparr>)
      | _ \<Rightarrow> None)"
| "exec Boot_Record m =
     (case mc_boot m of
        Some (g, Started) \<Rightarrow> Some (m\<lparr>mc_sup := su_end (record_generation g (mc_sup m)), mc_boot := None\<rparr>)
      | _ \<Rightarrow> None)"
| "exec Boot_Fail m =
     (case mc_boot m of
        Some (g, Deciding) \<Rightarrow> Some (m\<lparr>mc_sup := su_end (mc_sup m), mc_boot := None\<rparr>)
      | _ \<Rightarrow> None)"
| "exec (Succeed_Begin st commit now) m =
     (case su_begin (mc_sup m) of
        Inl e \<Rightarrow> None
      | Inr v \<Rightarrow>
          (case su_current v of
             None \<Rightarrow> None
           | Some cur \<Rightarrow> Some (m\<lparr>mc_sup := v, mc_launch := Some (next_generation cur st commit now, Deciding)\<rparr>)))"
| "exec Launch_Start m =
     (case mc_launch m of
        Some (g, Deciding) \<Rightarrow> Some ((run_container (gn_gen g) m)\<lparr>mc_launch := Some (g, Started)\<rparr>)
      | _ \<Rightarrow> None)"
| "exec Launch_Publish m =
     (case mc_launch m of
        Some (g, Started) \<Rightarrow>
          (case publish g (mc_sup m) of
             (p, v) \<Rightarrow> Some (m\<lparr>mc_sup := v, mc_launch := Some (g, Launched), mc_watching := p # mc_watching m\<rparr>))
      | _ \<Rightarrow> None)"
| "exec Launch_End m =
     (case mc_launch m of
        None \<Rightarrow> None
      | Some (g, ph) \<Rightarrow> (if ph = Started then None else Some (m\<lparr>mc_sup := su_end (mc_sup m), mc_launch := None\<rparr>)))"
| "exec (Checkin_Look gen) m =
     (case checkin_look gen (mc_sup m) of Look_Answer _ \<Rightarrow> None | Look_Pending p \<Rightarrow> Some (m\<lparr>mc_looked := p # mc_looked m\<rparr>))"
| "exec (Checkin_Remove p) m =
     (if p \<in> set (mc_looked m)
      then Some ((stop_container (gn_gen (pg_generation p) - 1) m)\<lparr>mc_looked := remove1 p (mc_looked m), mc_removed := p # mc_removed m\<rparr>)
      else None)"
| "exec (Checkin_Finish p) m =
     (if p \<in> set (mc_removed m)
      then Some (m\<lparr>mc_sup := snd (checkin_finish p (mc_sup m)), mc_removed := remove1 p (mc_removed m)\<rparr>)
      else None)"
| "exec (Rollback_Claim p) m =
     (if p \<in> set (mc_watching m)
      then map_option (\<lambda>v. m\<lparr>mc_sup := v, mc_watching := remove1 p (mc_watching m), mc_rolling := p # mc_rolling m\<rparr>) (rollback_claim p (mc_sup m))
      else None)"
| "exec (Rollback_Remove p) m =
     (if p \<in> set (mc_rolling m)
      then Some ((stop_container (gn_gen (pg_generation p)) m)\<lparr>mc_rolling := remove1 p (mc_rolling m)\<rparr>) else None)"
| "exec Restart m = Some (restart m)"

inductive machine_moves :: "machine \<Rightarrow> machine \<Rightarrow> bool" where
  machine_exec: "exec a m = Some m' \<Longrightarrow> machine_moves m m'"
| machine_exit: "machine_moves m (stop_container n m)"

fun exec_all :: "machine_step list \<Rightarrow> machine \<Rightarrow> machine option" where
  "exec_all [] m = Some m"
| "exec_all (a # as) m = Option.bind (exec a m) (exec_all as)"

lemma exec_all_reach: "exec_all as m = Some m' \<Longrightarrow> reach ((=) machine_start) machine_moves m \<Longrightarrow> reach ((=) machine_start) machine_moves m'"
proof (induction as arbitrary: m)
  case (Cons a as)
  then obtain m1 where m1: "exec a m = Some m1" "exec_all as m1 = Some m'" by (cases "exec a m") auto
  then show ?case using Cons.IH [OF m1(2)] reach_step [OF Cons.prems(2) machine_exec [OF m1(1)]] by blast
qed simp

subsection \<open>The record of generations\<close>

text \<open>Each entry follows the one before it, or replaces generation 1.\<close>

definition follows :: "generation \<Rightarrow> generation \<Rightarrow> bool" where
  "follows g h \<longleftrightarrow> (gn_gen h = gn_gen g + 1 \<and> gn_predecessor h = gn_commit g) \<or> (gn_gen g = 1 \<and> gn_gen h = 1)"

definition log_ok :: "generation list \<Rightarrow> bool" where
  "log_ok gs \<longleftrightarrow> (gs \<noteq> [] \<longrightarrow> gn_gen (hd gs) = 1) \<and> successively follows gs"

definition sup_ok :: "supervisor \<Rightarrow> bool" where
  "sup_ok v \<longleftrightarrow>
     log_ok (su_log v) \<and> su_current v = (if su_log v = [] then None else Some (last (su_log v)))
     \<and> (\<forall>p. su_pending v = Some p \<longrightarrow> (\<exists>cur. su_current v = Some cur \<and> gn_gen (pg_generation p) = gn_gen cur + 1
          \<and> gn_predecessor (pg_generation p) = gn_commit cur))"

text \<open>A handler between \<open>begin\<close> and the publishing of its generation holds the right to the next number.\<close>

definition launching_ok :: "supervisor \<Rightarrow> (generation \<times> launch_phase) option \<Rightarrow> bool" where
  "launching_ok v l \<longleftrightarrow>
     (case l of
        None \<Rightarrow> True
      | Some (g, ph) \<Rightarrow> su_starting v \<and> (ph \<noteq> Launched \<longrightarrow> su_pending v = None \<and> (\<exists>cur. su_current v = Some cur \<and> gn_gen g = gn_gen cur + 1
          \<and> gn_predecessor g = gn_commit cur)))"

definition booting_ok :: "supervisor \<Rightarrow> (generation \<times> launch_phase) option \<Rightarrow> bool" where
  "booting_ok v l \<longleftrightarrow>
     (case l of
        None \<Rightarrow> True
      | Some (g, ph) \<Rightarrow> su_starting v \<and> su_pending v = None \<and> gn_gen g = 1 \<and> (\<forall>cur. su_current v = Some cur \<longrightarrow> gn_gen cur = 1))"

definition machine_ok :: "machine \<Rightarrow> bool" where
  "machine_ok m \<longleftrightarrow>
     sup_ok (mc_sup m) \<and> launching_ok (mc_sup m) (mc_launch m) \<and> booting_ok (mc_sup m) (mc_boot m)
     \<and> (mc_launch m = None \<or> mc_boot m = None)"

lemma log_ok_snoc: "log_ok gs \<Longrightarrow> (if gs = [] then gn_gen g = 1 else follows (last gs) g) \<Longrightarrow> log_ok (gs @ [g])"
  using successively_append_iff [of follows gs "[g]"] by (cases "gs = []") (auto simp: log_ok_def)

lemma sup_ok_record:
  assumes "sup_ok v" "case su_current v of None \<Rightarrow> gn_gen g = 1 | Some cur \<Rightarrow> follows cur g"
  shows "sup_ok ((record_generation g v)\<lparr>su_pending := None\<rparr>)"
proof -
  have "log_ok (su_log v @ [g])" by (rule log_ok_snoc) (use assms in \<open>auto simp: sup_ok_def split: if_splits\<close>)
  then show ?thesis by (simp add: sup_ok_def record_generation_def)
qed

lemma sup_ok_flags [simp]: "sup_ok (v\<lparr>su_starting := b\<rparr>) = sup_ok v" "sup_ok v \<Longrightarrow> sup_ok (v\<lparr>su_pending := None\<rparr>)"
  by (auto simp: sup_ok_def)

lemma su_begin_Inr: "su_begin v = Inr w \<longleftrightarrow> \<not> su_starting v \<and> su_pending v = None \<and> w = v\<lparr>su_starting := True\<rparr>"
  by (auto simp: su_begin_def)

lemma stop_container_simps [simp]:
  "mc_sup (stop_container n m) = mc_sup m" "mc_launch (stop_container n m) = mc_launch m" "mc_boot (stop_container n m) = mc_boot m"
  "mc_sup (run_container n m) = mc_sup m" "mc_launch (run_container n m) = mc_launch m" "mc_boot (run_container n m) = mc_boot m"
  by (simp_all add: stop_container_def run_container_def)

lemma idle_ok:
  assumes "machine_ok m" "\<not> su_starting (mc_sup m)"
  shows "mc_launch m = None" "mc_boot m = None"
  using assms by (auto simp: machine_ok_def launching_ok_def booting_ok_def split: option.splits)

lemma pending_ok_record:
  assumes "machine_ok m" "su_pending (mc_sup m) = Some q"
  shows "sup_ok ((record_generation (pg_generation q) (mc_sup m))\<lparr>su_pending := None\<rparr>)"
    "mc_boot m = None" "mc_launch m = None \<or> (\<exists>g. mc_launch m = Some (g, Launched) \<and> su_starting (mc_sup m))"
proof -
  have "sup_ok (mc_sup m)" using assms(1) by (simp add: machine_ok_def)
  moreover then have "case su_current (mc_sup m) of None \<Rightarrow> gn_gen (pg_generation q) = 1 | Some cur \<Rightarrow> follows cur (pg_generation q)"
    using assms(2) by (auto simp: sup_ok_def follows_def split: option.splits)
  ultimately show "sup_ok ((record_generation (pg_generation q) (mc_sup m))\<lparr>su_pending := None\<rparr>)" by (rule sup_ok_record)
  show "mc_boot m = None" "mc_launch m = None \<or> (\<exists>g. mc_launch m = Some (g, Launched) \<and> su_starting (mc_sup m))"
    using assms by (auto simp: machine_ok_def launching_ok_def booting_ok_def split: option.splits)
qed

lemma checkin_finish_ok:
  assumes "machine_ok m"
  shows "machine_ok (m\<lparr>mc_sup := snd (checkin_finish p (mc_sup m)), mc_removed := xs\<rparr>)"
proof (cases "\<exists>q. su_pending (mc_sup m) = Some q \<and> pg_id q = pg_id p")
  case True
  then obtain q where q: "su_pending (mc_sup m) = Some q" "pg_id q = pg_id p" by blast
  then show ?thesis using pending_ok_record [OF assms q(1)]
    by (auto simp: machine_ok_def checkin_finish_def launching_ok_def booting_ok_def record_generation_def)
next
  case False
  then show ?thesis using assms by (auto simp: machine_ok_def checkin_finish_def split: option.splits)
qed

lemma rollback_claim_ok:
  assumes "machine_ok m" "rollback_claim p (mc_sup m) = Some v"
  shows "machine_ok (m\<lparr>mc_sup := v, mc_watching := xs, mc_rolling := ys\<rparr>)"
  using assms
  by (auto simp: machine_ok_def rollback_claim_def launching_ok_def booting_ok_def split: option.splits if_splits)

lemma boot_begin_ok:
  assumes "machine_ok m" "exec (Boot_Begin st commit now) m = Some m'"
  shows "machine_ok m'"
  using assms
  by (auto simp: machine_ok_def su_begin_Inr launching_ok_def booting_ok_def first_generation_def split: sum.splits if_splits option.splits)

lemma succeed_begin_ok:
  assumes "machine_ok m" "exec (Succeed_Begin st commit now) m = Some m'"
  shows "machine_ok m'"
  using assms
  by (auto simp: machine_ok_def su_begin_Inr launching_ok_def booting_ok_def next_generation_def split: sum.splits if_splits option.splits)

lemma boot_record_ok:
  assumes "machine_ok m" "mc_boot m = Some (g, Started)"
  shows "machine_ok (m\<lparr>mc_sup := su_end (record_generation g (mc_sup m)), mc_boot := None\<rparr>)"
proof -
  have v: "sup_ok (mc_sup m)" "su_pending (mc_sup m) = None" "mc_launch m = None" "gn_gen g = 1"
      "\<And>cur. su_current (mc_sup m) = Some cur \<Longrightarrow> gn_gen cur = 1"
    using assms by (auto simp: machine_ok_def booting_ok_def)
  have "sup_ok ((record_generation g (mc_sup m))\<lparr>su_pending := None\<rparr>)"
    by (rule sup_ok_record) (use v in \<open>auto simp: follows_def split: option.splits\<close>)
  then have "sup_ok (record_generation g (mc_sup m))" using v(2) by (simp add: record_generation_def sup_ok_def)
  then show ?thesis using v by (simp add: machine_ok_def su_end_def launching_ok_def booting_ok_def)
qed

lemma launch_publish_ok:
  assumes "machine_ok m" "mc_launch m = Some (g, Started)"
  shows "machine_ok (m\<lparr>mc_sup := snd (publish g (mc_sup m)), mc_launch := Some (g, Launched), mc_watching := xs\<rparr>)"
  using assms by (auto simp: machine_ok_def publish_def Let_def launching_ok_def booting_ok_def sup_ok_def)

lemma restart_ok: "machine_ok m \<Longrightarrow> machine_ok (restart m)"
  by (auto simp: machine_ok_def restart_def machine_start_def Let_def launching_ok_def booting_ok_def split: option.splits)

lemma exec_ok: "exec a m = Some m' \<Longrightarrow> machine_ok m \<Longrightarrow> machine_ok m'"
proof (cases a)
  case Boot_Begin
  assume "exec a m = Some m'" "machine_ok m"
  then show ?thesis using boot_begin_ok Boot_Begin by blast
next
  case Succeed_Begin
  assume "exec a m = Some m'" "machine_ok m"
  then show ?thesis using succeed_begin_ok Succeed_Begin by blast
next
  case Boot_Record
  assume "exec a m = Some m'" "machine_ok m"
  then show ?thesis using Boot_Record boot_record_ok by (auto split: option.splits prod.splits launch_phase.splits)
next
  case Launch_Publish
  assume "exec a m = Some m'" "machine_ok m"
  then show ?thesis using Launch_Publish launch_publish_ok [of m] by (force split: option.splits prod.splits launch_phase.splits)
next
  case Checkin_Finish
  assume "exec a m = Some m'" "machine_ok m"
  then show ?thesis using Checkin_Finish checkin_finish_ok by (auto split: if_splits)
next
  case Rollback_Claim
  assume "exec a m = Some m'" "machine_ok m"
  then show ?thesis using Rollback_Claim rollback_claim_ok by (auto split: if_splits)
next
  case Restart
  assume "exec a m = Some m'" "machine_ok m"
  then show ?thesis using Restart restart_ok by auto
qed (auto simp: machine_ok_def launching_ok_def booting_ok_def su_end_def
    split: option.splits prod.splits launch_phase.splits if_splits checkin_look.splits)

interpretation machine_run: invariant_system "(=) machine_start" machine_moves machine_ok
proof (unfold_locales, goal_cases)
  case (1 s)
  then show ?case by (auto simp: machine_start_def machine_ok_def sup_ok_def log_ok_def launching_ok_def booting_ok_def)
next
  case (2 s t)
  from 2(2) show ?case
  proof cases
    case (machine_exec a)
    then show ?thesis using exec_ok 2(1) by blast
  next
    case (machine_exit n)
    then show ?thesis using 2(1) by (simp add: machine_ok_def)
  qed
qed

end
