(* ===== verification/Succession_Properties.thy ===== *)
theory Succession_Properties
  imports Succession_Steps Line_Example
begin

text \<open>
  What the supervisor of viceroy generations guarantees, and where its handlers get in each other's way.
\<close>

subsection \<open>What a succession needs\<close>






definition sx_station :: viceroy_station where
  "sx_station = \<lparr>vt_name = ''viceroy'', vt_agent = ''v1'', vt_token = ''t'', vt_role = viceroy_role\<rparr>"







subsection \<open>The line of generations\<close>

text \<open>Two generations, then a succession whose check-in and whose deadline meet.\<close>

definition sx_first :: "machine_step list" where
  "sx_first = [Boot_Begin sx_station ''c1'' 1, Boot_Start, Boot_Record,
     Succeed_Begin sx_station ''c2'' 2, Launch_Start, Launch_Publish, Launch_End]"

definition sx_gen :: "int \<Rightarrow> generation" where
  "sx_gen n = \<lparr>gn_gen = n, gn_commit = CHR ''c'' # show_int n, gn_predecessor = (if n = 1 then [] else CHR ''c'' # show_int (n - 1)),
     gn_station = ''viceroy'', gn_at = n\<rparr>"

definition sx_pending :: "int \<Rightarrow> pending_gen" where
  "sx_pending n = \<lparr>pg_generation = sx_gen n, pg_posted = False, pg_id = nat (n - 2)\<rparr>"

definition sx_second :: "machine_step list" where
  "sx_second = [Checkin_Look ''2'', Checkin_Remove (sx_pending 2), Checkin_Finish (sx_pending 2),
     Succeed_Begin sx_station ''c3'' 3, Launch_Start, Launch_Publish, Launch_End]"

definition sx_clash :: "machine_step list" where
  "sx_clash = [Checkin_Look ''3'', Checkin_Remove (sx_pending 3), Rollback_Claim (sx_pending 3),
     Checkin_Finish (sx_pending 3), Rollback_Remove (sx_pending 3)]"



text \<open>C39. A check-in and a rollback can each remove the other's container. When generation 3 checks in while its
  deadline passes, the check-in removes generation 2's container, the rollback claims the succession, the check-in
  is refused, and the rollback removes generation 3's container: generation 2 is recorded as in charge, no
  container runs, no handler is left to start one, and starting afresh is refused to the owner.\<close>

theorem checkin_and_rollback_leave_no_viceroy:
  "case exec_all (sx_first @ sx_second @ sx_clash) machine_start of
       None \<Rightarrow> False
     | Some m \<Rightarrow>
         reach ((=) machine_start) machine_moves m
         \<and> map_option gn_gen (su_current (mc_sup m)) = Some 2 \<and> su_pending (mc_sup m) = None \<and> \<not> su_starting (mc_sup m)
         \<and> mc_running m = [] \<and> mc_launch m = None \<and> mc_boot m = None
         \<and> mc_looked m = [] \<and> mc_removed m = [] \<and> mc_rolling m = []
         \<and> exec (Boot_Begin sx_station ''c4'' 4) m = None"
proof -
  have "case exec_all (sx_first @ sx_second @ sx_clash) machine_start of
       None \<Rightarrow> False
     | Some m \<Rightarrow>
         map_option gn_gen (su_current (mc_sup m)) = Some 2 \<and> su_pending (mc_sup m) = None \<and> \<not> su_starting (mc_sup m)
         \<and> mc_running m = [] \<and> mc_launch m = None \<and> mc_boot m = None
         \<and> mc_looked m = [] \<and> mc_removed m = [] \<and> mc_rolling m = []
         \<and> exec (Boot_Begin sx_station ''c4'' 4) m = None"
    by code_simp
  then show ?thesis using exec_all_reach [OF _ reach_init [of "(=) machine_start"]] by (auto split: option.splits)
qed

end
