(* ===== verification/Andon_Correct.thy ===== *)
theory Andon_Correct
  imports Andon Witness_Correct
begin

text \<open>
  The watcher between the witness and the guard: what it must have seen before it touches the cord, whatever the
  station answers; and, over the guard itself, that a failing master stops the line and a passing newer one
  starts it again. Then the cards: an event has one.
\<close>

subsection \<open>What a step asks the station\<close>

datatype station_call =
    Read_Status "string + watched_status" | Attested string "string + attest_reply" | Listed string "string + string list"
  | Pulled envelope | Cleared_By envelope

definition note_reply :: "('a \<Rightarrow> station_call) \<Rightarrow> ('s \<Rightarrow> 'a \<times> 's) \<Rightarrow> 's \<times> station_call list \<Rightarrow> 'a \<times> ('s \<times> station_call list)" where
  "note_reply c f w = (case f (fst w) of (x, s) \<Rightarrow> (x, (s, snd w @ [c x])))"

definition noted_api :: "'s andon_api \<Rightarrow> ('s \<times> station_call list) andon_api" where
  "noted_api A =
     \<lparr>an_status = note_reply Read_Status (an_status A), an_attest = \<lambda>m. note_reply (Attested m) (an_attest A m),
      an_pull = \<lambda>env. note_reply (\<lambda>_. Pulled env) (an_pull A env), an_clear = \<lambda>env. note_reply (\<lambda>_. Cleared_By env) (an_clear A env),
      an_passing = \<lambda>m. note_reply (Listed m) (an_passing A m)\<rparr>"

text \<open>Cards that act on the first part of a state, and on the second.\<close>

definition on_fst :: "('s \<Rightarrow> 'a \<times> 's) \<Rightarrow> 's \<times> 't \<Rightarrow> 'a \<times> ('s \<times> 't)" where
  "on_fst f w = (case f (fst w) of (x, s) \<Rightarrow> (x, (s, snd w)))"

definition on_snd :: "('t \<Rightarrow> 'a \<times> 't) \<Rightarrow> 's \<times> 't \<Rightarrow> 'a \<times> ('s \<times> 't)" where
  "on_snd f w = (case f (snd w) of (x, t) \<Rightarrow> (x, (fst w, t)))"

definition cards_fst :: "'s andon_cards \<Rightarrow> ('s \<times> 't) andon_cards" where
  "cards_fst C =
     \<lparr>ac_raise = \<lambda>event ev m. on_fst (ac_raise C event ev m), ac_flake = \<lambda>f. on_fst (ac_flake C f),
      ac_resolve = map_option (\<lambda>g event m. on_fst (g event m)) (ac_resolve C),
      ac_triage = map_option (\<lambda>g cid ev m. on_fst (g cid ev m)) (ac_triage C)\<rparr>"

definition cards_snd :: "'t andon_cards \<Rightarrow> ('s \<times> 't) andon_cards" where
  "cards_snd C =
     \<lparr>ac_raise = \<lambda>event ev m. on_snd (ac_raise C event ev m), ac_flake = \<lambda>f. on_snd (ac_flake C f),
      ac_resolve = map_option (\<lambda>g event m. on_snd (g event m)) (ac_resolve C),
      ac_triage = map_option (\<lambda>g cid ev m. on_snd (g cid ev m)) (ac_triage C)\<rparr>"

text \<open>The records of calls that end in a pull or a clear.\<close>

definition confirmed_failure :: "station_call list \<Rightarrow> envelope \<Rightarrow> bool" where
  "confirmed_failure cs env \<longleftrightarrow>
     (\<exists>st a b. cs = [Read_Status (Inr st), Attested (wt_master st) (Inr a), Listed (wt_master st) (Inr []),
                    Attested (wt_master st) (Inr b), Pulled env]
        \<and> \<not> at_passed a \<and> \<not> at_passed b \<and> at_envelope b = Some env)"

definition earned_clear :: "station_call list \<Rightarrow> envelope \<Rightarrow> bool" where
  "earned_clear cs env \<longleftrightarrow>
     (\<exists>st a. wt_event st \<noteq> [] \<and> at_passed a \<and> at_envelope a = Some env
        \<and> (cs = [Read_Status (Inr st), Attested (wt_master st) (Inr a), Cleared_By env]
           \<or> (\<exists>b. \<not> at_passed b \<and> cs = [Read_Status (Inr st), Attested (wt_master st) (Inr b), Listed (wt_master st) (Inr []),
                Attested (wt_master st) (Inr a), Cleared_By env])))"

lemma noted_simps [simp]:
  "an_status (noted_api A) = note_reply Read_Status (an_status A)"
  "an_attest (noted_api A) m = note_reply (Attested m) (an_attest A m)"
  "an_pull (noted_api A) env = note_reply (\<lambda>_. Pulled env) (an_pull A env)"
  "an_clear (noted_api A) env = note_reply (\<lambda>_. Cleared_By env) (an_clear A env)"
  "an_passing (noted_api A) m = note_reply (Listed m) (an_passing A m)"
  by (simp_all add: noted_api_def)

lemma ensureCard_calls: "ensureCard (cards_fst C) event ev m (w, (s, cs)) = (es, (w', (s', cs'))) \<Longrightarrow> cs' = cs"
  by (auto simp: ensureCard_def triageCard_def cards_fst_def on_fst_def split: prod.splits sum.splits option.splits if_splits)

lemma resolveCards_calls: "resolveCards (cards_fst C) event m (s, cs) = (s', cs') \<Longrightarrow> cs' = cs"
  by (auto simp: resolveCards_def cards_fst_def on_fst_def split: prod.splits option.splits)

lemma pull_step_calls:
  assumes "pull_step (noted_api A) (cards_fst C) st a (w, (s, cs)) = (es, (w', (s', cs')))"
  shows "cs' = cs @ [Pulled (snd a)]"
  using assms
  by (auto simp: pull_step_def note_reply_def split: prod.splits sum.splits if_splits dest!: ensureCard_calls)

lemma clear_step_calls:
  assumes "clear_step (noted_api A) (cards_fst C) st env (w, (s, cs)) = (es, (w', (s', cs')))"
  shows "cs' = cs @ [Cleared_By env]"
  using assms
  by (auto simp: clear_step_def note_reply_def split: prod.splits sum.splits if_splits dest!: ensureCard_calls)
    (metis resolveCards_calls)+

lemma verdict_step_calls:
  assumes "verdict_step (noted_api A) (cards_fst C) st a passed (w, (s, cs)) = (es, (w', (s', cs')))"
  shows "cs' = cs \<or> (\<not> passed \<and> cs' = cs @ [Pulled (snd a)])
    \<or> (passed \<and> wt_event st \<noteq> [] \<and> at_passed (fst a) \<and> cs' = cs @ [Cleared_By (snd a)])"
  using assms
  by (auto simp: verdict_step_def Let_def split: if_splits dest: pull_step_calls clear_step_calls ensureCard_calls)

lemma attest_envelope_calls:
  assumes "attest_envelope (noted_api A) m (s, cs) = (r, (s', cs'))"
  shows "\<exists>rep. cs' = cs @ [Attested m rep] \<and> (\<forall>a. r = Inr a \<longrightarrow> rep = Inr (fst a) \<and> at_envelope (fst a) = Some (snd a))"
  using assms by (auto simp: attest_envelope_def note_reply_def split: prod.splits sum.splits option.splits)

lemma confirmFailure_calls:
  assumes "confirmFailure (noted_api A) m a (s, cs) = (r, (s', cs'))" "\<not> at_passed (fst a)"
  shows "case r of
      Inl e \<Rightarrow> (\<exists>d. cs' = cs @ d \<and> Pulled env \<notin> set d \<and> Cleared_By env \<notin> set d)
    | Inr (b, None) \<Rightarrow> cs' = cs @ [Listed m (Inr []), Attested m (Inr (fst b))] \<and> \<not> at_passed (fst b) \<and> at_envelope (fst b) = Some (snd b)
    | Inr (b, Some fl) \<Rightarrow>
        (b = a \<and> (\<exists>key keys. cs' = cs @ [Listed m (Inr (key # keys))]))
        \<or> (cs' = cs @ [Listed m (Inr []), Attested m (Inr (fst b))] \<and> at_passed (fst b) \<and> at_envelope (fst b) = Some (snd b))"
  using assms
  by (auto simp: confirmFailure_def note_reply_def Let_def split: prod.splits sum.splits option.splits list.splits if_splits
      dest!: attest_envelope_calls)

text \<open>What was seen before the verdict on a failed first attestation.\<close>

lemma failed_step_calls:
  assumes step: "failed_step (noted_api A) (cards_fst C) st a (w, (s, cs)) = (es, (w', (s', cs')))" and failed: "\<not> at_passed (fst a)"
    and cs: "cs = [Read_Status (Inr st), Attested (wt_master st) (Inr (fst a))]"
  shows "(Pulled env \<in> set cs' \<longrightarrow> confirmed_failure cs' env) \<and> (Cleared_By env \<in> set cs' \<longrightarrow> earned_clear cs' env)"
proof -
  let ?m = "wt_master st"
  obtain r1 s1 c1 where cf: "confirmFailure (noted_api A) ?m a (s, cs) = (r1, (s1, c1))" by (metis prod_cases3)
  note calls = confirmFailure_calls [OF cf failed]
  consider (err) e where "r1 = Inl e" | (fails) b where "r1 = Inr (b, None)" | (flaky) b fl where "r1 = Inr (b, Some fl)"
    by (metis old.prod.exhaust old.sum.exhaust option.exhaust)
  then show ?thesis
  proof cases
    case err
    then have "cs' = c1" using step cf by (simp add: failed_step_def)
    then show ?thesis using calls [of env] err cs by auto
  next
    case fails
    then have "verdict_step (noted_api A) (cards_fst C) st b False (w, (s1, c1)) = (es, (w', (s', cs')))"
      using step cf by (simp add: failed_step_def)
    from verdict_step_calls [OF this] show ?thesis using calls fails failed cs by (auto simp: confirmed_failure_def)
  next
    case flaky
    obtain r2 s2 where fk: "ac_flake C fl s1 = (r2, s2)" by fastforce
    then have fk': "ac_flake (cards_fst C) fl (s1, c1) = (r2, (s2, c1))" by (simp add: cards_fst_def on_fst_def)
    show ?thesis
    proof (cases r2)
      case (Inl e)
      then have "cs' = c1" using step cf flaky fk' by (simp add: failed_step_def)
      then show ?thesis using calls flaky cs by auto
    next
      case (Inr cid)
      then have "verdict_step (noted_api A) (cards_fst C) st b True (w, (s2, c1)) = (es, (w', (s', cs')))"
        using step cf flaky fk' by (simp add: failed_step_def)
      from verdict_step_calls [OF this] show ?thesis using calls flaky failed cs by (auto simp: earned_clear_def)
    qed
  qed
qed

lemma andon_Step_calls:
  assumes "andon_Step (noted_api A) (cards_fst C) (w, (s, [])) = (es, (w', (s', cs)))"
  shows "(Pulled env \<in> set cs \<longrightarrow> confirmed_failure cs env) \<and> (Cleared_By env \<in> set cs \<longrightarrow> earned_clear cs env)"
proof (cases "\<exists>st s1. an_status A s = (Inr st, s1) \<and> wt_master st \<noteq> [] \<and> wt_master st \<noteq> wa_last w")
  case False
  then show ?thesis using assms
    by (auto simp: andon_Step_def note_reply_def split: if_splits prod.splits sum.splits dest!: ensureCard_calls)
next
  case True
  then obtain st s1 where st: "an_status A s = (Inr st, s1)" "wt_master st \<noteq> []" "wt_master st \<noteq> wa_last w" by blast
  let ?m = "wt_master st" and ?c1 = "[Read_Status (Inr st)]"
  obtain r2 s2 c2 where at: "attest_envelope (noted_api A) ?m (s1, ?c1) = (r2, (s2, c2))" by (metis prod_cases3)
  obtain rep where c2: "c2 = ?c1 @ [Attested ?m rep]" "\<And>a. r2 = Inr a \<Longrightarrow> rep = Inr (fst a) \<and> at_envelope (fst a) = Some (snd a)"
    using attest_envelope_calls [OF at] by blast
  show ?thesis
  proof (cases r2)
    case (Inl e)
    then show ?thesis using assms st at c2(1)
      by (auto simp: andon_Step_def note_reply_def split: if_splits prod.splits dest!: ensureCard_calls)
  next
    case (Inr a)
    note a = c2(2) [OF Inr]
    show ?thesis
    proof (cases "at_passed (fst a)")
      case True
      then have "verdict_step (noted_api A) (cards_fst C) st a True (w, (s2, c2)) = (es, (w', (s', cs)))"
        using assms st at Inr by (simp add: andon_Step_def note_reply_def)
      from verdict_step_calls [OF this] show ?thesis using True a c2(1) by (auto simp: earned_clear_def)
    next
      case False
      then have "failed_step (noted_api A) (cards_fst C) st a (w, (s2, c2)) = (es, (w', (s', cs)))"
        using assms st at Inr by (simp add: andon_Step_def note_reply_def)
      from failed_step_calls [OF this False] show ?thesis using a c2(1) by simp
    qed
  qed
qed

subsection \<open>The watcher over the guard\<close>

text \<open>The status route as far as the watcher reads it, and the routes that pull and clear. \<open>'c\<close> is the rest of
  the world: the witness, the run history and the cards.\<close>

definition serve_status :: "ext \<Rightarrow> guard \<Rightarrow> repo \<Rightarrow> guard_error + watched_status" where
  "serve_status X g r =
     (case repo_Ref (x_git X) r (g_ref g) of
        Inl e \<Rightarrow> Inl (GE_Git e)
      | Inr master \<Rightarrow>
          (case Stopped X r of
             Fail e \<Rightarrow> Inl e
           | Answer a \<Rightarrow> Inr \<lparr>wt_master = master, wt_event = [], wt_andon = None\<rparr>
           | Go (sid, ev) \<Rightarrow> Inr \<lparr>wt_master = master, wt_event = sid, wt_andon = ev\<rparr>))"

definition guard_reply :: "(guard_error \<Rightarrow> string) \<Rightarrow> 'c \<Rightarrow> (result \<times> guard_error option) \<times> repo \<Rightarrow> (string + result) \<times> (repo \<times> 'c)" where
  "guard_reply show_err c out =
     (case out of ((res, None), r) \<Rightarrow> (Inr res, (r, c)) | ((res, Some e), r) \<Rightarrow> (Inl (show_err e), (r, c)))"

definition line_api :: "ext \<Rightarrow> guard \<Rightarrow> time \<Rightarrow> (guard_error \<Rightarrow> string) \<Rightarrow> (string \<Rightarrow> 'c \<Rightarrow> (string + attest_reply) \<times> 'c)
    \<Rightarrow> (string \<Rightarrow> 'c \<Rightarrow> (string + string list) \<times> 'c) \<Rightarrow> (repo \<times> 'c) andon_api" where
  "line_api X g now show_err att runs =
     \<lparr>an_status = \<lambda>w. (map_sum show_err id (serve_status X g (fst w)), w),
      an_attest = \<lambda>m. on_snd (att m),
      an_pull = \<lambda>env w. guard_reply show_err (snd w) (Pull X g now (fst w) env),
      an_clear = \<lambda>env w. guard_reply show_err (snd w) (Clear X g (fst w) env),
      an_passing = \<lambda>m. on_snd (runs m)\<rparr>"

definition reply_of :: "attest_result \<Rightarrow> attest_reply" where
  "reply_of a = \<lparr>at_commit = ar_commit a, at_passed = ar_passed a, at_statement = ar_statement a, at_envelope = Some (ar_envelope a)\<rparr>"

lemma reply_of_simps [simp]: "at_passed (reply_of a) = ar_passed a" "at_envelope (reply_of a) = Some (ar_envelope a)"
  by (simp_all add: reply_of_def)

lemma line_api_simps [simp]:
  "an_status (line_api X g now sh att runs) w = (map_sum sh id (serve_status X g (fst w)), w)"
  "an_attest (line_api X g now sh att runs) m = on_snd (att m)"
  "an_pull (line_api X g now sh att runs) env w = guard_reply sh (snd w) (Pull X g now (fst w) env)"
  "an_clear (line_api X g now sh att runs) env w = guard_reply sh (snd w) (Clear X g (fst w) env)"
  "an_passing (line_api X g now sh att runs) m = on_snd (runs m)"
  by (simp_all add: line_api_def)

text \<open>What a witness the guard trusts answers for a commit, in the state the watcher asks in.\<close>

definition answers :: "ext \<Rightarrow> guard \<Rightarrow> (string \<Rightarrow> 'c \<Rightarrow> (string + attest_reply) \<times> 'c) \<Rightarrow> string \<Rightarrow> 'c \<Rightarrow> attest_result \<Rightarrow> 'c \<Rightarrow> bool" where
  "answers X g att m c a c' \<longleftrightarrow>
     att m c = (Inr (reply_of a), c')
     \<and> (\<exists>w (run :: unit check_runner) fin tree dir s s'. witness_run (x_lib X) w run fin m tree dir False s = (Inr a, s')
          \<and> trusts_witness X g w \<and> json_roundtrips X a)"

lemma serve_status_at:
  assumes "guard_ok X g" "repo_wf r" "ref_of r (g_ref g) = Some m"
  shows "\<exists>ev. serve_status X g r = Inr \<lparr>wt_master = m, wt_event = (case ref_of r StopRef of None \<Rightarrow> [] | Some sid \<Rightarrow> sid), wt_andon = ev\<rparr>"
proof -
  have "repo_Ref (x_git X) r (g_ref g) = Inr m" using assms repo_wfD [OF assms(2,3)] by (auto simp: guard_ok_def repo_Ref_def resolve_def)
  moreover obtain sid ev where s: "Stopped X r = Go (sid, ev)" using Stopped_total [OF assms(2)] by blast
  ultimately show ?thesis using s [unfolded Stopped_event [OF assms(2)]] s by (auto simp: serve_status_def split: option.splits)
qed

lemma answered_statement:
  assumes "answers X g att m c a c'"
  shows "\<exists>results k. trusted_statement X g (ar_envelope a) (ar_statement a) k \<and> pr_checks (st_predicate (ar_statement a)) = results
      \<and> (m \<noteq> [] \<longrightarrow> st_commit (ar_statement a) = Inr m)
      \<and> (if ar_passed a then list_all2 (good_result False) (cs_required (cn_checks (g_constitution g))) results
         else \<exists>ds k ts rs code ev. cs_required (cn_checks (g_constitution g)) = ds @ k # ts \<and> results = rs @ [ran_result k code ev] \<and> code \<noteq> 0)
      \<and> distinct (map ck_name (cs_required (cn_checks (g_constitution g))))"
proof -
  obtain w fin tree dir s s' and run :: "unit check_runner" where w: "witness_run (x_lib X) w run fin m tree dir False s = (Inr a, s')"
      "trusts_witness X g w" "json_roundtrips X a"
    using assms by (auto simp: answers_def)
  obtain results where r: "run_checks run dir (run_prefix w) (run_timeout w) False [] (cs_required (cn_checks (wi_constitution w))) s = (Inr (results, ar_passed a), s')"
      "ar_statement a = NewStatement m tree (checks_predicate_of w results fin)"
    using witness_run_Inr [OF w(1)] by blast
  have g: "g_constitution g = wi_constitution w" "distinct (map ck_name (cs_required (cn_checks (wi_constitution w))))"
    using w(2) by (auto simp: trusts_witness_def)
  have "trusted_statement X g (ar_envelope a) (ar_statement a) (KeyID (x_lib X) (lib_public (x_lib X) (wi_key w)))"
    using witness_trusted [OF w] by simp
  moreover have "pr_checks (st_predicate (ar_statement a)) = results" unfolding r(2) by (simp add: NewStatement_def checks_predicate_of_def)
  moreover have "m \<noteq> [] \<longrightarrow> st_commit (ar_statement a) = Inr m" unfolding r(2) by (simp add: NewStatement_commit)
  ultimately show ?thesis using run_checks_results [OF r(1)] g by fastforce
qed

lemma answered_failure:
  assumes "answers X g att m c a c'" "\<not> ar_passed a" "ref_of r (g_ref g) = Some m" "ref_of r StopRef = None" "m \<noteq> []"
  shows "\<exists>k. may_pull X g r (ar_envelope a) m k"
proof -
  obtain k ds q ts rs code ev where s: "trusted_statement X g (ar_envelope a) (ar_statement a) k"
      "pr_checks (st_predicate (ar_statement a)) = rs @ [ran_result q code ev]" "st_commit (ar_statement a) = Inr m"
      "cs_required (cn_checks (g_constitution g)) = ds @ q # ts" "code \<noteq> 0"
    using answered_statement [OF assms(1)] assms(2,5) by (auto split: if_splits)
  have "first_failure (rs @ [ran_result q code ev]) (ds @ q # ts) \<noteq> None"
    using s(5) unfolding first_failure_None by (auto simp: ran_result_def)
  then obtain y where y: "first_failure (rs @ [ran_result q code ev]) (ds @ q # ts) = Some y" by blast
  have "may_pull X g r (ar_envelope a) m y"
    unfolding may_pull_def by (intro conjI exI [of _ "ar_statement a"] exI [of _ k]) (use s y assms(3,4) in simp_all)
  then show ?thesis ..
qed

lemma answered_pass:
  assumes "answers X g att m c a c'" "ar_passed a" "ref_of r (g_ref g) = Some m" "ref_of r StopRef = Some sid" "m \<noteq> []"
    and "\<And>bytes ev. obj r sid = Some (Blob_Obj bytes) \<Longrightarrow> x_unmarshal_event X bytes = Some ev \<Longrightarrow> m \<noteq> ae_commit ev"
  shows "may_clear X g r (ar_envelope a) m sid"
proof -
  obtain k where s: "trusted_statement X g (ar_envelope a) (ar_statement a) k" "st_commit (ar_statement a) = Inr m"
      "list_all2 (good_result False) (cs_required (cn_checks (g_constitution g))) (pr_checks (st_predicate (ar_statement a)))"
      "distinct (map ck_name (cs_required (cn_checks (g_constitution g))))"
    using answered_statement [OF assms(1)] assms(2,5) by (auto split: if_splits)
  have "check_passes (pr_checks (st_predicate (ar_statement a))) False q" if "q \<in> set (cs_required (cn_checks (g_constitution g)))" for q
    by (rule passed_check_passes [OF s(3,4) that]) simp
  then show ?thesis using s assms unfolding may_clear_def check_passes_run by blast
qed

lemma attest_on_line:
  "att m c = (Inr (reply_of a), c') \<Longrightarrow> attest_envelope (line_api X g now sh att runs) m (r, c) = (Inr (reply_of a, ar_envelope a), (r, c'))"
  by (simp add: attest_envelope_def on_snd_def)

subsection \<open>One card for an event\<close>

lemma split_char_sep: "split_char c (xs @ c # ys) = split_char c xs @ split_char c ys"
  by (induction xs) (auto split: list.splits)

lemma event_line:
  assumes "newline \<notin> set event"
  shows "''event: '' @ event \<in> set (split_char newline (andon_description event ev m))"
proof -
  have line: "split_char newline (''event: '' @ event) = [''event: '' @ event]"
    using assms by (intro split_char_none) auto
  obtain lead rest where d: "andon_description event ev m = (lead @ [newline]) @ newline # (''event: '' @ event) @ newline # rest"
    by (auto simp: andon_description_def)
  show ?thesis unfolding d split_char_sep line by simp
qed

text \<open>A tracker that lists its live cards, and either adds the card it is asked to create or fails.\<close>

definition lawful_cards :: "'s bead_cards \<Rightarrow> ('s \<Rightarrow> (string \<times> string list \<times> string) list) \<Rightarrow> bool" where
  "lawful_cards B cards \<longleftrightarrow>
     (\<forall>s label. \<exists>out s'. bc_run B (live_args label) s = (Inr out, s') \<and> cards s' = cards s
        \<and> bc_listed B out = Inr (map (\<lambda>(i, ls, d). (i, d)) (filter (\<lambda>(i, ls, d). label \<in> set ls) (cards s))))
     \<and> (\<forall>s title desc.
          (case bc_run B [''create'', title, ''-t'', ''bug'', ''-p'', ''0'', ''-l'', ''line'', ''-l'', ''andon'', ''-d'', desc, ''--json''] s of
             (Inl e, s') \<Rightarrow> cards s' = cards s
           | (Inr out, s') \<Rightarrow> (\<exists>i. bc_created B out = Inr i \<and> i \<noteq> [] \<and> cards s' = cards s @ [(i, [''line'', ''andon''], desc)])))
     \<and> (\<forall>s. \<forall>x \<in> set (cards s). fst x \<noteq> [])"

definition event_cards :: "string \<Rightarrow> (string \<times> string list \<times> string) list \<Rightarrow> string list" where
  "event_cards event cs =
     map fst (filter (\<lambda>(i, ls, d). ''andon'' \<in> set ls \<and> ''event: '' @ event \<in> set (split_char newline d)) cs)"

lemma lawful_create:
  assumes "lawful_cards B cards"
    and "bc_run B [''create'', title, ''-t'', ''bug'', ''-p'', ''0'', ''-l'', ''line'', ''-l'', ''andon'', ''-d'', desc, ''--json''] s = (Inr out, s')"
    and "bc_created B out = Inr i"
  shows "cards s' = cards s @ [(i, [''line'', ''andon''], desc)]"
proof -
  have "case bc_run B [''create'', title, ''-t'', ''bug'', ''-p'', ''0'', ''-l'', ''line'', ''-l'', ''andon'', ''-d'', desc, ''--json''] s of
             (Inl e, s') \<Rightarrow> cards s' = cards s
           | (Inr out, s') \<Rightarrow> (\<exists>i. bc_created B out = Inr i \<and> i \<noteq> [] \<and> cards s' = cards s @ [(i, [''line'', ''andon''], desc)])"
    by (rule conjunct1 [OF conjunct2 [OF assms(1) [unfolded lawful_cards_def]], THEN spec, THEN spec, THEN spec])
  then show ?thesis using assms(3) unfolding assms(2) by auto
qed

lemma event_cards_id: "lawful_cards B cards \<Longrightarrow> event_cards event (cards s) = i # js \<Longrightarrow> i \<noteq> []"
proof -
  assume "lawful_cards B cards"
  then have "\<forall>x \<in> set (cards s). fst x \<noteq> []" unfolding lawful_cards_def by blast
  moreover assume "event_cards event (cards s) = i # js"
  then have "i \<in> fst ` set (cards s)" unfolding event_cards_def by (metis (no_types, lifting) filter_is_subset image_eqI image_iff list.set_intros(1) list.set_map subsetD)
  ultimately show ?thesis by auto
qed

lemma existing_lawful:
  assumes "lawful_cards B cards"
  shows "\<exists>s'. existing B event s = (Inr (case event_cards event (cards s) of [] \<Rightarrow> [] | i # _ \<Rightarrow> i), s') \<and> cards s' = cards s"
proof -
  obtain out s' where o: "bc_run B (live_args ''andon'') s = (Inr out, s')" "cards s' = cards s"
      "bc_listed B out = Inr (map (\<lambda>(i, ls, d). (i, d)) (filter (\<lambda>(i, ls, d). ''andon'' \<in> set ls) (cards s)))"
    using assms unfolding lawful_cards_def by blast
  have "map fst (filter (\<lambda>(_, desc). line \<in> set (split_char newline desc))
      (map (\<lambda>(i, ls, d). (i, d)) (filter (\<lambda>(i, ls, d). ''andon'' \<in> set ls) cs)))
    = map fst (filter (\<lambda>(i, ls, d). ''andon'' \<in> set ls \<and> line \<in> set (split_char newline d)) cs)" for line and cs :: "(string \<times> string list \<times> string) list"
    by (induction cs) auto
  then show ?thesis using o by (simp add: existing_def live_def event_cards_def)
qed

lemma Raise_lawful:
  assumes "lawful_cards B cards" "newline \<notin> set event" "Raise B event ev m s = (Inr i, s1)"
  shows "event_cards event (cards s) \<noteq> [] \<and> cards s1 = cards s \<and> i = hd (event_cards event (cards s))
    \<or> event_cards event (cards s) = [] \<and> (\<exists>d. cards s1 = cards s @ [(i, [''line'', ''andon''], d)]) \<and> event_cards event (cards s1) = [i]"
proof -
  obtain s' where e: "existing B event s = (Inr (case event_cards event (cards s) of [] \<Rightarrow> [] | i # _ \<Rightarrow> i), s')" "cards s' = cards s"
    using existing_lawful [OF assms(1)] by blast
  show ?thesis
  proof (cases "event_cards event (cards s)")
    case Nil
    let ?d = "andon_description event ev (event_master ev m)"
    have "runBdCreate B [''create'', ''andon: master '' @ take 12 (event_master ev m) @ '' fails '' @ event_check ev,
          ''-t'', ''bug'', ''-p'', ''0'', ''-l'', ''line'', ''-l'', ''andon'', ''-d'', ?d, ''--json''] s' = (Inr i, s1)"
      using assms(3) e Nil by (simp add: Raise_def)
    then obtain out where o: "bc_run B [''create'', ''andon: master '' @ take 12 (event_master ev m) @ '' fails '' @ event_check ev,
          ''-t'', ''bug'', ''-p'', ''0'', ''-l'', ''line'', ''-l'', ''andon'', ''-d'', ?d, ''--json''] s' = (Inr out, s1)" "bc_created B out = Inr i"
      by (auto simp: runBdCreate_def split: prod.splits sum.splits if_splits)
    have "cards s1 = cards s' @ [(i, [''line'', ''andon''], ?d)]" by (rule lawful_create [OF assms(1) o])
    moreover have "event_cards event (cs @ [(i, [''line'', ''andon''], ?d)]) = event_cards event cs @ [i]" for cs
      using event_line [OF assms(2)] by (simp add: event_cards_def)
    ultimately show ?thesis using Nil e(2) by auto
  next
    case (Cons j js)
    then have "j \<noteq> []" by (rule event_cards_id [OF assms(1)])
    then show ?thesis using assms(3) e Cons by (simp add: Raise_def)
  qed
qed

end
