(* ===== verification/Andon_Properties.thy ===== *)
theory Andon_Properties
  imports Andon_Correct Work_Properties
begin

text \<open>
  What the watcher guarantees: the cord moves only on evidence it has seen, a failing master stops the line and a
  passing newer one starts it, a stop has one card.
\<close>

text \<open>C6. Whatever the station answers, a step pulls the cord only with the envelope of a second failing attestation
  of the master whose first one failed too and whose run history has no pass; it clears the cord only on a stopped
  line, with the envelope of a passing attestation of its master.\<close>

theorem cord_moves_on_seen_evidence:
  assumes "andon_Step (noted_api A) (cards_fst C) (w, (s, [])) = (es, (w', (s', cs)))"
  shows "(Pulled env \<in> set cs \<longrightarrow> confirmed_failure cs env) \<and> (Cleared_By env \<in> set cs \<longrightarrow> earned_clear cs env)"
  using andon_Step_calls [OF assms] .

definition ex_failed :: attest_result where
  "ex_failed = \<lparr>ar_commit = ex_master, ar_passed = False, ar_statement = ex_statement ex_master 1,
     ar_envelope = SignStatement ex_lib ''key'' (ex_statement ex_master 1)\<rparr>"

definition ex_failing_runner :: "unit check_runner" where
  "ex_failing_runner = (\<lambda>dir command s. (Ran 1 ''ev'' [], s))"

text \<open>The station: it attests master as failing and any other commit as passing, and has no run history.\<close>

definition ex_attests :: "string \<Rightarrow> string list \<Rightarrow> (string + attest_reply) \<times> string list" where
  "ex_attests m c = (Inr (reply_of (if m = ex_master then ex_failed else ex_attested)), c)"

definition ex_runs :: "string \<Rightarrow> string list \<Rightarrow> (string + string list) \<times> string list" where
  "ex_runs m c = (Inr [], c)"

definition ex_andon_cards :: "string list andon_cards" where
  "ex_andon_cards = \<lparr>ac_raise = \<lambda>event ev m c. (Inr ''card'', event # c), ac_flake = \<lambda>f c. (Inr ''flake'', c),
     ac_resolve = Some (\<lambda>event m c. (None, removeAll event c)), ac_triage = None\<rparr>"

definition ex_watcher :: watcher where
  "ex_watcher = \<lparr>wa_last = [], wa_triaged = []\<rparr>"

lemma ex_answers:
  "answers ex_ext ex_guard ex_attests ex_master c ex_failed c"
  "answers ex_ext ex_guard ex_attests ex_candidate c ex_attested c"
proof -
  have lib: "x_lib ex_ext = ex_lib" by (simp add: ex_ext_def)
  have "runner_ID (cn_runner ex_constitution) = ''local''" by (simp add: ex_constitution_def runner_ID_def)
  then have "witness_run ex_lib ex_witness ex_failing_runner 0 ex_master (ex_id (CHR ''1'')) [] False () = (Inr ex_failed, ())"
    by (simp add: witness_run_def ex_witness_def ex_failing_runner_def ex_failed_def ex_guard_simps ex_check_def ran_result_def
        checks_predicate_of_def ex_statement_def ex_result_def Let_def)
  moreover have "lib_unmarshal ex_lib (lib_marshal ex_lib (ex_statement ex_master 1)) = Some (ex_statement ex_master 1)"
    by (simp add: ex_lib_def ex_st) (simp add: ex_result_def)
  ultimately show "answers ex_ext ex_guard ex_attests ex_master c ex_failed c"
    unfolding answers_def using ex_trusts_witness
    by (auto simp: ex_attests_def lib json_roundtrips_def ex_failed_def intro!: exI [of _ ex_witness] exI [of _ ex_failing_runner])
  show "answers ex_ext ex_guard ex_attests ex_candidate c ex_attested c"
    unfolding answers_def using ex_trusts_witness ex_witness_run ex_marshal
    by (auto simp: ex_attests_def lib json_roundtrips_def ex_attested_def intro!: exI [of _ ex_witness] exI [of _ ex_runner])
qed

text \<open>A station whose master always fails.\<close>

definition ex_reply :: attest_reply where
  "ex_reply = \<lparr>at_commit = ''m'', at_passed = False, at_statement = ex_statement ''m'' 1, at_envelope = Some (ex_envelope ''F'')\<rparr>"

definition ex_status :: watched_status where
  "ex_status = \<lparr>wt_master = ''m'', wt_event = [], wt_andon = None\<rparr>"

definition ex_api :: "string list andon_api" where
  "ex_api = \<lparr>an_status = \<lambda>c. (Inr ex_status, c), an_attest = \<lambda>m c. (Inr ex_reply, c),
     an_pull = \<lambda>env c. (Inr (zero_result\<lparr>res_status := Stopped_Status, res_event := ''e1''\<rparr>), c),
     an_clear = \<lambda>env c. (Inr zero_result, c), an_passing = \<lambda>m c. (Inr [], c)\<rparr>"

theorem cord_moves_on_seen_evidence_witness:
  "confirmed_failure
     (snd (snd (snd (andon_Step (noted_api ex_api) (cards_fst ex_andon_cards) (ex_watcher, ([], []))))))
     (ex_envelope ''F'')"
proof -
  have "andon_Step (noted_api ex_api) (cards_fst ex_andon_cards) (ex_watcher, ([], [])) =
      ([], (ex_watcher\<lparr>wa_last := ''m''\<rparr>, ([''e1''], [Read_Status (Inr ex_status), Attested ''m'' (Inr ex_reply), Listed ''m'' (Inr []),
         Attested ''m'' (Inr ex_reply), Pulled (ex_envelope ''F'')])))"
    by (simp add: andon_Step_def noted_api_def note_reply_def ex_api_def ex_status_def ex_watcher_def attest_envelope_def ex_reply_def
        failed_step_def confirmFailure_def verdict_step_def pull_step_def ensureCard_def triageCard_def cards_fst_def on_fst_def
        ex_andon_cards_def)
  from cord_moves_on_seen_evidence [OF this, of "ex_envelope ''F''"] this show ?thesis by simp
qed

text \<open>C7. A new master that the witness fails twice, with no passing run of it known, has the cord pulled at the end of
  the step: the guard accepts the evidence, the stop ref is set, and a card for that event is asked for.\<close>

theorem failing_master_stops_line:
  assumes line: "guard_ok X g" "git_ok X" "repo_wf r" "ref_of r (g_ref g) = Some m" "ref_of r StopRef = None"
    and new: "m \<noteq> wa_last w"
    and fails: "answers X g att m c a1 c1" "\<not> ar_passed a1" "runs m c1 = (Inr [], c2)"
    and again: "answers X g att m c2 a2 c3" "\<not> ar_passed a2"
  shows "\<exists>r' event. ref_of r' = (ref_of r)(StopRef \<mapsto> event)
      \<and> andon_Step (line_api X g now show_err att runs) (cards_snd C) (w, (r, c))
        = ensureCard (cards_snd C) event (eventFromResult (reply_of a2)) m (w\<lparr>wa_last := m\<rparr>, (r', c3))"
proof -
  let ?A = "line_api X g now show_err att runs"
  have m: "m \<noteq> []" using repo_wfD [OF line(3,4)] by simp
  obtain ev where st: "serve_status X g r = Inr \<lparr>wt_master = m, wt_event = [], wt_andon = ev\<rparr>" (is "_ = Inr ?st")
    using serve_status_at [OF line(1,3,4)] line(5) by auto
  have at: "attest_envelope ?A m (r, c) = (Inr (reply_of a1, ar_envelope a1), (r, c1))"
      "attest_envelope ?A m (r, c2) = (Inr (reply_of a2, ar_envelope a2), (r, c3))"
    using attest_on_line fails(1) again(1) by (auto simp: answers_def)
  have cf: "confirmFailure ?A m (reply_of a1, ar_envelope a1) (r, c1) = (Inr ((reply_of a2, ar_envelope a2), None), (r, c3))"
    using fails(3) again(2) at(2) by (simp add: confirmFailure_def on_snd_def)
  obtain res err r' where p: "Pull X g now r (ar_envelope a2) = ((res, err), r')" by (metis prod.exhaust)
  obtain k where "may_pull X g r (ar_envelope a2) m k" using answered_failure [OF again line(4,5) m] by blast
  then have stopped: "res_status res = Stopped_Status" using Pull_Stopped_iff [OF line(1,2,3)] p by (metis fst_conv)
  from Pull_effect [OF line(1-3) p stopped] have r': "ref_of r' = (ref_of r)(StopRef \<mapsto> res_event res)" "err = None"
    by metis+
  have "andon_Step ?A (cards_snd C) (w, (r, c)) = pull_step ?A (cards_snd C) ?st (reply_of a2, ar_envelope a2) (w\<lparr>wa_last := m\<rparr>, (r, c3))"
    using st at(1) cf m new fails(2) by (simp add: andon_Step_def failed_step_def verdict_step_def)
  also have "\<dots> = ensureCard (cards_snd C) (res_event res) (eventFromResult (reply_of a2)) m (w\<lparr>wa_last := m\<rparr>, (r', c3))"
    using stopped r'(2) p by (simp add: pull_step_def guard_reply_def)
  finally show ?thesis using r'(1) by blast
qed

theorem failing_master_stops_line_witness:
  "\<exists>r' event. ref_of r' = (ref_of ex_repo)(StopRef \<mapsto> event)
     \<and> andon_Step (line_api ex_ext ex_guard 5 (\<lambda>e. []) ex_attests ex_runs) (cards_snd ex_andon_cards) (ex_watcher, (ex_repo, []))
       = ([], (ex_watcher\<lparr>wa_last := ex_master\<rparr>, (r', [event])))"
proof -
  have refs: "ref_of ex_repo (g_ref ex_guard) = Some ex_master" "ref_of ex_repo StopRef = None"
    by (simp_all add: ex_repo_def ex_guard_simps StopRef_def CandidatePrefix_def)
  have new: "ex_master \<noteq> wa_last ex_watcher" by (simp add: ex_watcher_def)
  have raised: "ensureCard (cards_snd ex_andon_cards) event ev m (w, (r', [])) = ([], (w, (r', [event])))" for event ev m w and r' :: repo
    by (simp add: ensureCard_def triageCard_def cards_snd_def on_snd_def ex_andon_cards_def)
  from failing_master_stops_line [OF ex_guard_ok ex_git_ok ex_repo_wf(1) refs new ex_answers(1) _ _ ex_answers(1), of ex_runs "[]" "[]" 5 "\<lambda>e. []" ex_andon_cards]
  show ?thesis by (simp add: ex_failed_def ex_runs_def raised)
qed

text \<open>C8. On a stopped line a new master that is not the commit the cord was pulled on, and that the witness passes
  with every check run, has the cord cleared at the end of the step, without an error, and the event's cards
  retired.\<close>

theorem passing_master_clears_line:
  assumes line: "guard_ok X g" "repo_wf r" "ref_of r (g_ref g) = Some m" "ref_of r StopRef = Some sid"
    and newer: "\<And>bytes ev. obj r sid = Some (Blob_Obj bytes) \<Longrightarrow> x_unmarshal_event X bytes = Some ev \<Longrightarrow> m \<noteq> ae_commit ev"
    and new: "m \<noteq> wa_last w"
    and passes: "answers X g att m c a c1" "ar_passed a"
  shows "\<exists>r'. ref_of r' = (ref_of r)(StopRef := None)
      \<and> andon_Step (line_api X g now show_err att runs) (cards_snd C) (w, (r, c))
        = ([], (w\<lparr>wa_last := m\<rparr>, resolveCards (cards_snd C) sid m (r', c1)))"
proof -
  let ?A = "line_api X g now show_err att runs"
  have m: "m \<noteq> []" "sid \<noteq> []" using repo_wfD [OF line(2,3)] repo_wfD [OF line(2,4)] by simp_all
  obtain ev where st: "serve_status X g r = Inr \<lparr>wt_master = m, wt_event = sid, wt_andon = ev\<rparr>" (is "_ = Inr ?st")
    using serve_status_at [OF line(1-3)] line(4) by auto
  have at: "attest_envelope ?A m (r, c) = (Inr (reply_of a, ar_envelope a), (r, c1))"
    using attest_on_line passes(1) by (auto simp: answers_def)
  obtain res err r' where p: "Clear X g r (ar_envelope a) = ((res, err), r')" by (metis prod.exhaust)
  have "may_clear X g r (ar_envelope a) m sid" by (rule answered_pass [OF passes line(3,4) m(1)]) (rule newer)
  then have cleared: "res_status res = Cleared" using Clear_Cleared_iff [OF line(1,2)] p by (metis fst_conv)
  then have r': "ref_of r' = (ref_of r)(StopRef := None)" "err = None" using Clear_effect [OF line(1,2) p] by simp_all
  have "andon_Step ?A (cards_snd C) (w, (r, c)) = clear_step ?A (cards_snd C) ?st (ar_envelope a) (w\<lparr>wa_last := m\<rparr>, (r, c1))"
    using st at m new passes(2) by (simp add: andon_Step_def verdict_step_def)
  also have "\<dots> = ([], (w\<lparr>wa_last := m\<rparr>, resolveCards (cards_snd C) sid m (r', c1)))"
    using cleared r'(2) p by (simp add: clear_step_def guard_reply_def)
  finally show ?thesis using r'(1) by blast
qed

theorem passing_master_clears_line_witness:
  "\<exists>r'. ref_of r' StopRef = None
     \<and> andon_Step (line_api ex_ext ex_guard 5 (\<lambda>e. []) ex_attests ex_runs) (cards_snd ex_andon_cards) (ex_watcher, (ex_stopped, [ex_stop]))
       = ([], (ex_watcher\<lparr>wa_last := ex_candidate\<rparr>, (r', [])))"
proof -
  have refs: "ref_of ex_stopped (g_ref ex_guard) = Some ex_candidate" "ref_of ex_stopped StopRef = Some ex_stop"
    by (simp_all add: ex_stopped_def ex_guard_simps StopRef_def)
  have newer: "ex_candidate \<noteq> ae_commit ev"
    if "obj ex_stopped ex_stop = Some (Blob_Obj bytes)" "x_unmarshal_event ex_ext bytes = Some ev" for bytes ev
    using that by (auto simp: ex_stopped_def ex_ext_def)
  have new: "ex_candidate \<noteq> wa_last ex_watcher" by (simp add: ex_watcher_def)
  have retired: "resolveCards (cards_snd ex_andon_cards) ex_stop m (r', [ex_stop]) = (r', [])" for m and r' :: repo
    by (simp add: resolveCards_def cards_snd_def on_snd_def ex_andon_cards_def)
  have "ar_passed ex_attested" by (simp add: ex_attested_def)
  have "\<exists>r'. ref_of r' = (ref_of ex_stopped)(StopRef := None)
     \<and> andon_Step (line_api ex_ext ex_guard 5 (\<lambda>e. []) ex_attests ex_runs) (cards_snd ex_andon_cards) (ex_watcher, (ex_stopped, [ex_stop]))
       = ([], (ex_watcher\<lparr>wa_last := ex_candidate\<rparr>, resolveCards (cards_snd ex_andon_cards) ex_stop ex_candidate (r', [ex_stop])))"
    by (rule passing_master_clears_line [OF ex_guard_ok ex_repo_wf(2) refs _ new ex_answers(2) \<open>ar_passed ex_attested\<close>]) (rule newer)
  then show ?thesis by (auto simp: retired)
qed

text \<open>Raising a card is idempotent: once raised for an event, raising it again, whatever the details and the master,
  answers the same card and adds none; the first raise adds at most one.\<close>

theorem andon_card_raised_once:
  assumes "lawful_cards B cards" "newline \<notin> set event" "Raise B event ev m s = (Inr i, s1)"
  shows "\<exists>s2. Raise B event ev' m' s1 = (Inr i, s2) \<and> cards s2 = cards s1 \<and> i \<in> set (event_cards event (cards s1))
    \<and> length (cards s1) \<le> length (cards s) + (if event_cards event (cards s) = [] then 1 else 0)"
proof -
  obtain s2 where e: "existing B event s1 = (Inr (case event_cards event (cards s1) of [] \<Rightarrow> [] | i # _ \<Rightarrow> i), s2)" "cards s2 = cards s1"
    using existing_lawful [OF assms(1)] by blast
  obtain js where js: "event_cards event (cards s1) = i # js"
    using Raise_lawful [OF assms] by (cases "event_cards event (cards s1)") auto
  then have "i \<noteq> []" by (rule event_cards_id [OF assms(1)])
  then have "Raise B event ev' m' s1 = (Inr i, s2)" using e(1) js by (simp add: Raise_def)
  moreover have "length (cards s1) \<le> length (cards s) + (if event_cards event (cards s) = [] then 1 else 0)"
    using Raise_lawful [OF assms] by auto
  ultimately show ?thesis using e(2) js by auto
qed

text \<open>A tracker with room for one card.\<close>

definition ex_card_tracker :: "string option bead_cards" where
  "ex_card_tracker =
     \<lparr>bc_run = \<lambda>args s.
        (if hd args = ''create'' then (case s of None \<Rightarrow> (Inr ''c1'', Some (args ! 11)) | Some d \<Rightarrow> (Inl (''full'', []), s))
         else case s of
                None \<Rightarrow> (Inr ''-'', s)
              | Some d \<Rightarrow> (Inr (if args ! 2 \<in> {''line'', ''andon''} then CHR ''+'' # d else ''-''), s)),
      bc_listed = \<lambda>out. Inr (if hd out = CHR ''+'' then [(''c1'', tl out)] else []),
      bc_created = Inr\<rparr>"

definition ex_cards_of :: "string option \<Rightarrow> (string \<times> string list \<times> string) list" where
  "ex_cards_of s = (case s of None \<Rightarrow> [] | Some d \<Rightarrow> [(''c1'', [''line'', ''andon''], d)])"

lemma ex_cards_lawful: "lawful_cards ex_card_tracker ex_cards_of"
  by (auto simp: lawful_cards_def ex_card_tracker_def ex_cards_of_def live_args_def split: option.splits)
    (rule exI [of _ "''-''"], simp)+

theorem andon_card_raised_once_witness:
  "\<exists>s1 s2. Raise ex_card_tracker ''e1'' ex_event ex_master None = (Inr ''c1'', s1)
     \<and> Raise ex_card_tracker ''e1'' ex_event ex_candidate s1 = (Inr ''c1'', s2) \<and> ex_cards_of s2 = ex_cards_of s1"
proof -
  obtain s1 where r: "Raise ex_card_tracker ''e1'' ex_event ex_master None = (Inr ''c1'', s1)"
    by (simp add: Raise_def existing_def live_def live_args_def runBdCreate_def ex_card_tracker_def)
  from andon_card_raised_once [OF ex_cards_lawful _ r, of ex_event ex_candidate] r show ?thesis by auto
qed

text \<open>When the second attestation of a failure errs, the step ends with that error and asks for no card, even on a
  stopped line; when the first one errs, it does ask.\<close>

lemma unconfirmed_failure_leaves_no_card:
  assumes "an_status A s = (Inr st, s1)" "wt_master st \<noteq> []" "wt_master st \<noteq> wa_last w"
    and "attest_envelope A (wt_master st) s1 = (Inr a, s2)" "\<not> at_passed (fst a)"
    and "an_passing A (wt_master st) s2 = (Inr [], s3)" "attest_envelope A (wt_master st) s3 = (Inl e, s4)"
  shows "andon_Step A C (w, s) = ([A_Call (''confirm attest '' @ wt_master st) e], (w, s4))"
  using assms by (simp add: andon_Step_def failed_step_def confirmFailure_def Let_def)

end
