(* ===== verification/Budgets.thy ===== *)
theory Budgets
  imports Constitution_Rules Go_Time Go_Text "HOL-Library.AList"
begin

text \<open>
  \<open>line/station/budget.go\<close>: token budgets over rolling windows, and the log of usage they are metered from
  (\<open>line/linestore/usage.go\<close>). Sums and percentages are the source's \<open>int64\<close> ones, wrap included.
\<close>

record token_usage =
  tu_at :: time
  tu_station :: string
  tu_role :: string
  tu_card :: string
  tu_tokens :: int

record budget_status =
  bz_scope :: string
  bz_card :: string
  bz_used :: int
  bz_limit :: int
  bz_period :: string
  bz_percent :: int
  bz_warn :: int
  bz_exhausted :: bool

definition BudgetScopeLine :: string where "BudgetScopeLine = ''line''"
definition BudgetScopeCard :: string where "BudgetScopeCard = ''card''"
definition maxReportedTokens :: int where "maxReportedTokens = 1000000000"

definition budget_period :: "budget \<Rightarrow> duration" where
  "budget_period b = (case PeriodDuration b of None \<Rightarrow> 0 | Some d \<Rightarrow> d)"

text \<open>The key of \<open>spent\<close> a report counts under, when it counts at all.\<close>

definition spent_key :: "budget \<Rightarrow> time \<Rightarrow> token_usage \<Rightarrow> string option" where
  "spent_key b now u =
     (if tu_at u < now - budget_period b then None
      else if bu_scope b = BudgetScopeCard then Some (tu_card u)
      else if bu_scope b = BudgetScopeLine \<or> bu_scope b = tu_role u then Some []
      else None)"

definition add_spent :: "string \<Rightarrow> int \<Rightarrow> (string \<times> int) list \<Rightarrow> (string \<times> int) list" where
  "add_spent k t m = AList.update k (wrap64 ((case map_of m k of None \<Rightarrow> 0 | Some n \<Rightarrow> n) + t)) m"

definition spent_table :: "budget \<Rightarrow> time \<Rightarrow> token_usage list \<Rightarrow> (string \<times> int) list" where
  "spent_table b now us =
     foldl (\<lambda>m u. case spent_key b now u of None \<Rightarrow> m | Some k \<Rightarrow> add_spent k (tu_tokens u) m) [] us"

definition status_of :: "budget \<Rightarrow> string \<times> int \<Rightarrow> budget_status" where
  "status_of b ku =
     \<lparr>bz_scope = bu_scope b, bz_card = fst ku, bz_used = snd ku, bz_limit = bu_tokens b, bz_period = bu_period b,
      bz_percent = go_quot (wrap64 (snd ku * 100)) (bu_tokens b), bz_warn = WarnPercentOrDefault b, bz_exhausted = (bu_tokens b \<le> snd ku)\<rparr>"

definition budget_lines :: "budget \<Rightarrow> time \<Rightarrow> token_usage list \<Rightarrow> budget_status list" where
  "budget_lines b now us =
     (let spent = spent_table b now us;
          m = (if bu_scope b \<noteq> BudgetScopeCard \<and> spent = [] then [([], 0)] else spent)
      in map (\<lambda>k. status_of b (k, the (map_of m k))) (sort (map fst m)))"

definition budgetStatuses :: "budget list \<Rightarrow> token_usage list \<Rightarrow> time \<Rightarrow> budget_status list" where
  "budgetStatuses bs us now = concat (map (\<lambda>b. budget_lines b now us) bs)"

definition budget_covers :: "string \<Rightarrow> string \<Rightarrow> budget_status \<Rightarrow> bool" where
  "budget_covers role cid b \<longleftrightarrow>
     bz_scope b = BudgetScopeLine \<or> bz_scope b = role \<or> (bz_scope b = BudgetScopeCard \<and> bz_card b = cid)"

definition budgetBlock :: "budget_status list \<Rightarrow> string \<Rightarrow> string \<Rightarrow> string" where
  "budgetBlock sts role cid =
     (case find_first (\<lambda>b. bz_exhausted b \<and> budget_covers role cid b) sts of
        None \<Rightarrow> []
      | Some b \<Rightarrow> ''token budget '' @ bz_scope b @ '' is exhausted: '' @ show_int (bz_used b) @ '' of '' @ show_int (bz_limit b)
          @ '' tokens used in '' @ bz_period b)"

text \<open>What \<open>before\<close> says of a budget; the zero status when it does not list it.\<close>

definition status_before :: "budget_status list \<Rightarrow> budget_status \<Rightarrow> bool \<times> int" where
  "status_before bs a =
     foldl (\<lambda>was b. if bz_scope b = bz_scope a \<and> bz_card b = bz_card a then (bz_exhausted b, bz_percent b) else was) (False, 0) bs"

definition budget_name :: "budget_status \<Rightarrow> string" where
  "budget_name a = ''token budget '' @ bz_scope a @ (if bz_card a = [] then [] else '' for '' @ bz_card a)"

definition spent_text :: "budget_status \<Rightarrow> string" where
  "spent_text a = show_int (bz_used a) @ '' of '' @ show_int (bz_limit a) @ '' tokens used in '' @ bz_period a"

definition exhausted_notice :: "budget_status \<Rightarrow> string" where
  "exhausted_notice a = budget_name a @ '' exhausted: '' @ spent_text a
     @ ''. No new cards are offered in this scope until usage ages out of the window; running work continues.''"

definition warn_notice :: "budget_status \<Rightarrow> string" where
  "warn_notice a = budget_name a @ '' is at '' @ show_int (bz_percent a) @ ''%: '' @ spent_text a"

definition budgetNotices :: "budget_status list \<Rightarrow> budget_status list \<Rightarrow> string list" where
  "budgetNotices before after =
     concat (map (\<lambda>a. case status_before before a of (ex, pct) \<Rightarrow>
       if bz_exhausted a \<and> \<not> ex then [exhausted_notice a]
       else if \<not> bz_exhausted a \<and> bz_warn a \<le> bz_percent a \<and> pct < bz_warn a then [warn_notice a]
       else []) after)"

text \<open>\<open>Store.TokenUsageSince\<close>, and the widest window of the constitution's budgets.\<close>

definition TokenUsageSince :: "time \<Rightarrow> token_usage list \<Rightarrow> token_usage list" where
  "TokenUsageSince since us = filter (\<lambda>u. since \<le> tu_at u) us"

definition budget_window :: "budget list \<Rightarrow> duration" where
  "budget_window bs = foldl (\<lambda>d b. max d (budget_period b)) (budget_period (hd bs)) (tl bs)"

text \<open>No store is \<open>None\<close>.\<close>

definition currentBudgets :: "budget list \<Rightarrow> token_usage list option \<Rightarrow> time \<Rightarrow> budget_status list \<times> token_usage list" where
  "currentBudgets bs store now =
     (case store of
        None \<Rightarrow> ([], [])
      | Some log \<Rightarrow>
          (if bs = [] then ([], [])
           else let us = TokenUsageSince (now - budget_window bs) log in (budgetStatuses bs us now, us)))"

definition budgetBlockFor :: "budget list \<Rightarrow> token_usage list option \<Rightarrow> time \<Rightarrow> string \<Rightarrow> string \<Rightarrow> string" where
  "budgetBlockFor bs store now role cid = budgetBlock (fst (currentBudgets bs store now)) role cid"

subsection \<open>What the meters mean\<close>

text \<open>The tokens reported in a budget's window under a key.\<close>

definition spent_in :: "budget \<Rightarrow> time \<Rightarrow> string \<Rightarrow> token_usage list \<Rightarrow> int" where
  "spent_in b now k us = sum_list (map tu_tokens (filter (\<lambda>u. spent_key b now u = Some k) us))"

lemma wrap64_add: "wrap64 (wrap64 a + b) = wrap64 (a + b)"
proof -
  have "wrap64 a + b + 2 ^ 63 = (a + 2 ^ 63) mod 2 ^ 64 + b" by (simp add: wrap64_def)
  then have "(wrap64 a + b + 2 ^ 63) mod 2 ^ 64 = (a + 2 ^ 63 + b) mod 2 ^ 64" by (simp only: mod_add_left_eq)
  also have "a + 2 ^ 63 + b = a + b + 2 ^ 63" by simp
  finally show ?thesis unfolding wrap64_def [of "wrap64 a + b"] wrap64_def [of "a + b"] by simp
qed

lemma map_of_add_spent: "map_of (add_spent k t m) j = (if j = k then Some (wrap64 ((case map_of m k of None \<Rightarrow> 0 | Some n \<Rightarrow> n) + t)) else map_of m j)"
  by (simp add: add_spent_def update_conv')

lemma map_of_spent_table:
  "map_of (spent_table b now us) k
     = (if \<exists>u \<in> set us. spent_key b now u = Some k then Some (wrap64 (spent_in b now k us)) else None)"
proof (induction us rule: rev_induct)
  case Nil
  then show ?case by (simp add: spent_table_def)
next
  case (snoc u us)
  have t: "spent_table b now (us @ [u]) = (case spent_key b now u of None \<Rightarrow> spent_table b now us | Some k \<Rightarrow> add_spent k (tu_tokens u) (spent_table b now us))"
    by (cases "spent_key b now u") (simp_all add: spent_table_def)
  have zero: "\<not> (\<exists>u \<in> set us. spent_key b now u = Some k) \<Longrightarrow> spent_in b now k us = 0"
    by (auto simp: spent_in_def filter_empty_conv)
  have s: "spent_in b now k (us @ [u]) = spent_in b now k us + (if spent_key b now u = Some k then tu_tokens u else 0)"
    by (simp add: spent_in_def)
  show ?case unfolding t using snoc zero
    by (auto simp: s map_of_add_spent wrap64_add split: option.splits)
qed

lemma distinct_spent_table: "distinct (map fst (spent_table b now us))"
proof -
  have "distinct (map fst m) \<Longrightarrow> distinct (map fst (foldl (\<lambda>m u. case spent_key b now u of None \<Rightarrow> m | Some k \<Rightarrow> add_spent k (tu_tokens u) m) m us))" for m
    by (induction us arbitrary: m) (auto simp: add_spent_def distinct_update split: option.splits)
  then show ?thesis by (simp add: spent_table_def)
qed

text \<open>The statuses: one for each budget that is not by card, one for each card with usage in the window.\<close>

definition metered :: "budget \<Rightarrow> time \<Rightarrow> token_usage list \<Rightarrow> string \<Rightarrow> bool" where
  "metered b now us k \<longleftrightarrow>
     (if bu_scope b = BudgetScopeCard then \<exists>u \<in> set us. spent_key b now u = Some k else k = [])"

lemma spent_key_scope: "bu_scope b \<noteq> BudgetScopeCard \<Longrightarrow> spent_key b now u = Some k \<Longrightarrow> k = []"
  by (auto simp: spent_key_def split: if_splits)

lemma in_spent_table: "k \<in> fst ` set (spent_table b now us) \<longleftrightarrow> (\<exists>u \<in> set us. spent_key b now u = Some k)"
  using map_of_spent_table [of b now us k] by (metis map_of_eq_None_iff option.distinct(1))

lemma budget_lines_meter:
  "set (budget_lines b now us) = (\<lambda>k. status_of b (k, wrap64 (spent_in b now k us))) ` {k. metered b now us k}"
proof (cases "bu_scope b \<noteq> BudgetScopeCard \<and> spent_table b now us = []")
  case True
  then have "\<not> (\<exists>u \<in> set us. spent_key b now u = Some k)" for k
    using in_spent_table [of k b now us] by simp
  then have "spent_in b now [] us = 0" by (auto simp: spent_in_def filter_empty_conv)
  then show ?thesis using True by (simp add: budget_lines_def metered_def wrap64_def)
next
  case False
  have keys: "fst ` set (spent_table b now us) = {k. metered b now us k}"
  proof (cases "bu_scope b = BudgetScopeCard")
    case True
    then show ?thesis using in_spent_table [of _ b now us] by (auto simp: metered_def)
  next
    case ne: False
    then obtain k where "k \<in> fst ` set (spent_table b now us)" using False by (cases "spent_table b now us") auto
    then obtain u where u: "u \<in> set us" "spent_key b now u = Some k" using in_spent_table [of k b now us] by blast
    then have "spent_key b now u = Some []" using spent_key_scope [OF ne] by auto
    then show ?thesis using ne u(1) in_spent_table [of _ b now us] spent_key_scope [OF ne] by (auto simp: metered_def)
  qed
  have "the (map_of (spent_table b now us) k) = wrap64 (spent_in b now k us)" if "k \<in> fst ` set (spent_table b now us)" for k
    using that map_of_spent_table [of b now us k] in_spent_table [of k b now us] by simp
  then have "(\<lambda>k. status_of b (k, the (map_of (spent_table b now us) k))) ` fst ` set (spent_table b now us)
      = (\<lambda>k. status_of b (k, wrap64 (spent_in b now k us))) ` fst ` set (spent_table b now us)"
    by (intro image_cong) auto
  moreover have "budget_lines b now us = map (\<lambda>k. status_of b (k, the (map_of (spent_table b now us) k))) (sort (map fst (spent_table b now us)))"
    using False by (auto simp: budget_lines_def Let_def)
  ultimately show ?thesis unfolding keys [symmetric] by simp
qed

lemma set_budgetStatuses:
  "set (budgetStatuses bs us now) = {status_of b (k, wrap64 (spent_in b now k us)) | b k. b \<in> set bs \<and> metered b now us k}"
  by (auto simp: budgetStatuses_def budget_lines_meter)

lemma distinct_budget_lines: "distinct (map bz_card (budget_lines b now us))"
  using distinct_spent_table [of b now us] by (auto simp: budget_lines_def Let_def status_of_def comp_def)

lemma budgetBlock_empty: "budgetBlock sts role cid = [] \<longleftrightarrow> \<not> (\<exists>b \<in> set sts. bz_exhausted b \<and> budget_covers role cid b)"
  by (auto simp: budgetBlock_def find_first_None split: option.splits dest: find_first_SomeD)

lemma budget_window_max: "b \<in> set bs \<Longrightarrow> budget_period b \<le> budget_window bs"
proof -
  have "d \<le> foldl (\<lambda>d b. max d (budget_period b)) d xs \<and> (\<forall>b \<in> set xs. budget_period b \<le> foldl (\<lambda>d b. max d (budget_period b)) d xs)" for d xs
  proof (induction xs arbitrary: d)
    case (Cons a xs)
    show ?case using Cons.IH [of "max d (budget_period a)"] by auto
  qed simp
  moreover assume "b \<in> set bs"
  ultimately show ?thesis by (cases bs) (auto simp: budget_window_def)
qed

lemma spent_in_window:
  assumes "b \<in> set bs"
  shows "spent_in b now k (TokenUsageSince (now - budget_window bs) us) = spent_in b now k us"
proof -
  have "spent_key b now u = None" if "\<not> now - budget_window bs \<le> tu_at u" for u
    using that budget_window_max [OF assms] by (auto simp: spent_key_def)
  then have "filter (\<lambda>u. spent_key b now u = Some k) (TokenUsageSince (now - budget_window bs) us) = filter (\<lambda>u. spent_key b now u = Some k) us"
    by (auto simp: TokenUsageSince_def intro!: filter_cong) (metis option.distinct(1))
  then show ?thesis by (simp add: spent_in_def)
qed

text \<open>The key a budget counts a role's work on a card under.\<close>

definition budget_key :: "budget \<Rightarrow> string \<Rightarrow> string" where
  "budget_key b cid = (if bu_scope b = BudgetScopeCard then cid else [])"

lemma budget_blocks_iff:
  assumes "\<forall>b \<in> set bs. 1 \<le> bu_tokens b" "role \<noteq> BudgetScopeCard"
  shows "budgetBlockFor bs (Some log) now role cid \<noteq> [] \<longleftrightarrow>
    (\<exists>b \<in> set bs. bu_scope b \<in> {BudgetScopeLine, role, BudgetScopeCard} \<and> bu_tokens b \<le> wrap64 (spent_in b now (budget_key b cid) log))"
proof -
  let ?us = "TokenUsageSince (now - budget_window bs) log"
  have covers: "budget_covers role cid (status_of b (k, n)) \<and> metered b now ?us k \<and> bu_tokens b \<le> n \<longleftrightarrow>
      bu_scope b \<in> {BudgetScopeLine, role, BudgetScopeCard} \<and> k = budget_key b cid \<and> metered b now ?us k \<and> bu_tokens b \<le> n" for b k n
    using assms(2) by (auto simp: budget_covers_def status_of_def budget_key_def metered_def BudgetScopeLine_def BudgetScopeCard_def split: if_splits)
  have met: "metered b now ?us (budget_key b cid)" if "b \<in> set bs" "bu_tokens b \<le> wrap64 (spent_in b now (budget_key b cid) ?us)" for b
  proof (rule ccontr)
    assume "\<not> metered b now ?us (budget_key b cid)"
    then have "spent_in b now (budget_key b cid) ?us = 0"
      by (auto simp: metered_def budget_key_def spent_in_def filter_empty_conv split: if_splits)
    then show False using that assms(1) by (force simp: wrap64_def)
  qed
  show ?thesis
  proof (cases "bs = []")
    case False
    then have "budgetBlockFor bs (Some log) now role cid \<noteq> [] \<longleftrightarrow>
        (\<exists>b \<in> set bs. \<exists>k. metered b now ?us k \<and> bu_tokens b \<le> wrap64 (spent_in b now k ?us)
           \<and> budget_covers role cid (status_of b (k, wrap64 (spent_in b now k ?us))))"
    proof -
      have ex: "bz_exhausted (status_of b (k, n)) \<longleftrightarrow> bu_tokens b \<le> n" for b k n by (simp add: status_of_def)
      have "budgetBlockFor bs (Some log) now role cid \<noteq> [] \<longleftrightarrow>
          (\<exists>st \<in> {status_of b (k, wrap64 (spent_in b now k ?us)) | b k. b \<in> set bs \<and> metered b now ?us k}. bz_exhausted st \<and> budget_covers role cid st)"
        using False by (simp add: budgetBlockFor_def currentBudgets_def Let_def budgetBlock_empty set_budgetStatuses) blast
      also have "\<dots> \<longleftrightarrow> (\<exists>b \<in> set bs. \<exists>k. metered b now ?us k \<and> bz_exhausted (status_of b (k, wrap64 (spent_in b now k ?us)))
           \<and> budget_covers role cid (status_of b (k, wrap64 (spent_in b now k ?us))))" by blast
      finally show ?thesis unfolding ex .
    qed
    also have "\<dots> \<longleftrightarrow> (\<exists>b \<in> set bs. bu_scope b \<in> {BudgetScopeLine, role, BudgetScopeCard}
        \<and> bu_tokens b \<le> wrap64 (spent_in b now (budget_key b cid) ?us))"
    proof (intro bex_cong refl)
      fix b assume "b \<in> set bs"
      have "(\<exists>k. metered b now ?us k \<and> bu_tokens b \<le> wrap64 (spent_in b now k ?us)
          \<and> budget_covers role cid (status_of b (k, wrap64 (spent_in b now k ?us)))) \<longleftrightarrow>
        (\<exists>k. bu_scope b \<in> {BudgetScopeLine, role, BudgetScopeCard} \<and> k = budget_key b cid \<and> metered b now ?us k
          \<and> bu_tokens b \<le> wrap64 (spent_in b now k ?us))"
        by (intro ex_cong1) (metis covers)
      then show "(\<exists>k. metered b now ?us k \<and> bu_tokens b \<le> wrap64 (spent_in b now k ?us)
          \<and> budget_covers role cid (status_of b (k, wrap64 (spent_in b now k ?us)))) \<longleftrightarrow>
        bu_scope b \<in> {BudgetScopeLine, role, BudgetScopeCard} \<and> bu_tokens b \<le> wrap64 (spent_in b now (budget_key b cid) ?us)"
        using met [OF \<open>b \<in> set bs\<close>] by auto
    qed
    also have "\<dots> \<longleftrightarrow> (\<exists>b \<in> set bs. bu_scope b \<in> {BudgetScopeLine, role, BudgetScopeCard}
        \<and> bu_tokens b \<le> wrap64 (spent_in b now (budget_key b cid) log))"
      by (intro bex_cong refl) (simp only: spent_in_window)
    finally show ?thesis .
  qed (simp add: budgetBlockFor_def currentBudgets_def budgetBlock_def)
qed

end
