(* ===== verification/Card_Routes.thy ===== *)
theory Card_Routes
  imports Budgets Succession
begin

text \<open>
  \<open>line/station/cards.go\<close>: the card routes of \<open>line serve\<close>, with the epic ledger (\<open>epic_approvals.go\<close>), the usage
  route of \<open>budget.go\<close> and the acceptance requests (\<open>acceptance_request.go\<close>). The card tracker acts on a state
  \<open>'s\<close> and is a record of operations; the JSON it answers is text, read by the decoders of the server. What a
  request's body decodes to is part of the request. Answers are the summary a route returns and what it wrote.
\<close>

subsection \<open>The tracker and the server\<close>

record new_card =
  nw_title :: string
  nw_description :: string
  nw_type :: string
  nw_priority :: int
  nw_parent :: string
  nw_acceptance :: string

record list_filter =
  lf_status :: string
  lf_label :: string
  lf_parent :: string
  lf_ready :: bool

record 's card_tracker =
  kt_list :: "list_filter \<Rightarrow> 's \<Rightarrow> (string + string) \<times> 's"
  kt_show :: "string \<Rightarrow> 's \<Rightarrow> (string + string) \<times> 's"
  kt_create :: "new_card \<Rightarrow> 's \<Rightarrow> (string + string) \<times> 's"
  kt_comment :: "string \<Rightarrow> string \<Rightarrow> 's \<Rightarrow> (string + unit) \<times> 's"
  kt_add_label :: "string \<Rightarrow> string \<Rightarrow> 's \<Rightarrow> (string + unit) \<times> 's"
  kt_remove_label :: "string \<Rightarrow> string \<Rightarrow> 's \<Rightarrow> (string + unit) \<times> 's"
  kt_claim :: "string \<Rightarrow> string \<Rightarrow> 's \<Rightarrow> (string + unit) \<times> 's"
  kt_release :: "string \<Rightarrow> string \<Rightarrow> string \<Rightarrow> 's \<Rightarrow> (string + unit) \<times> 's"
  kt_close :: "string \<Rightarrow> string \<Rightarrow> string \<Rightarrow> 's \<Rightarrow> (string + unit) \<times> 's"

text \<open>The fields the routes read of \<open>bd show --json\<close>; a field that is missing or of another type is zero.\<close>

record issue =
  is_id :: string
  is_type :: string
  is_parent :: string
  is_labels :: "string list"
  is_assignee :: string
  is_status :: string
  is_comments :: nat

record card_json =
  cj_issue :: "string \<Rightarrow> issue option"                    \<comment> \<open>\<open>unmarshalIssue\<close>: none for an empty array\<close>
  cj_valid :: "string \<Rightarrow> bool"
  cj_rows :: "string \<Rightarrow> string + (string \<times> string) list"  \<comment> \<open>ids with the raw cards\<close>
  cj_array :: "string list \<Rightarrow> string"

record card_server =
  ks_json :: card_json
  ks_constitution :: constitution
  ks_digest :: string
  ks_viceroy :: bool
  ks_store :: bool
  ks_ledger :: bool

record line_event =
  le_at :: time
  le_kind :: string
  le_card :: string
  le_station :: string
  le_detail :: string

record 's card_world =
  kw_tracker :: 's
  kw_counts :: "(string \<times> string) \<Rightarrow> int"
  kw_epics :: "string \<rightharpoonup> string"
  kw_usage :: "token_usage list"
  kw_events :: "line_event list"
  kw_supervisor :: supervisor

record caller =
  kc_name :: string
  kc_role :: string
  kc_agent :: string

datatype card_reply = Wrote_Ok | Wrote_Raw string | Wrote_Offer bool string | Wrote_Card string

type_synonym 's route = "'s card_world \<Rightarrow> (vice_fault + string \<times> card_reply) \<times> 's card_world"

text \<open>A call on the tracker, and a check that may end the request.\<close>

definition tracked :: "('s \<Rightarrow> (string + 'a) \<times> 's) \<Rightarrow> 's card_world \<Rightarrow> (vice_fault + 'a) \<times> 's card_world" where
  "tracked f w = (case f (kw_tracker w) of (r, s) \<Rightarrow> (map_sum V_Failed id r, w\<lparr>kw_tracker := s\<rparr>))"

definition unless :: "vice_fault option \<Rightarrow> 's card_world \<Rightarrow> (vice_fault + unit) \<times> 's card_world" where
  "unless e w = (case e of Some f \<Rightarrow> (Inl f, w) | None \<Rightarrow> (Inr (), w))"

definition recordEvent :: "card_server \<Rightarrow> caller \<Rightarrow> time \<Rightarrow> string \<Rightarrow> string \<Rightarrow> string \<Rightarrow> 's card_world \<Rightarrow> 's card_world" where
  "recordEvent S st now kind cid detail w =
     (if ks_store S then w\<lparr>kw_events := kw_events w @ [\<lparr>le_at = now, le_kind = kind, le_card = cid, le_station = kc_name st, le_detail = detail\<rparr>]\<rparr>
      else w)"

subsection \<open>Texts\<close>

definition maxTitle :: nat where "maxTitle = 200"
definition maxDesc :: nat where "maxDesc = 16384"
definition makerRole :: string where "makerRole = ''maker''"
definition gembaRole :: string where "gembaRole = ''gemba''"
definition needsKing :: string where "needsKing = ''king''"
definition LabelProposed :: string where "LabelProposed = ''line-proposed''"
definition cardTypes :: "string list" where "cardTypes = [''bug'', ''feature'', ''task'', ''epic'', ''chore'']"

definition card_char :: "char \<Rightarrow> bool" where
  "card_char c \<longleftrightarrow> is_lower c \<or> is_digit c \<or> c = CHR ''-''"

text \<open>\<open>cardIDRe\<close> and \<open>wordRe\<close>.\<close>

definition card_id_matches :: "string \<Rightarrow> bool" where
  "card_id_matches s \<longleftrightarrow>
     (case split_char (CHR ''.'') s of
        [] \<Rightarrow> False
      | p # ps \<Rightarrow> p \<noteq> [] \<and> list_all card_char p \<and> list_all (\<lambda>q. q \<noteq> [] \<and> list_all is_digit q) ps)"

definition word_char :: "char \<Rightarrow> bool" where
  "word_char c \<longleftrightarrow> is_upper c \<or> is_lower c \<or> is_digit c \<or> c \<in> set ''_.:-''"

definition word_ok :: "string \<Rightarrow> bool" where
  "word_ok s \<longleftrightarrow> s \<noteq> [] \<and> length s \<le> 64 \<and> list_all word_char s"

text \<open>\<open>utf8.ValidString\<close>.\<close>

definition utf8_tail :: "nat \<Rightarrow> nat \<Rightarrow> char \<Rightarrow> bool" where
  "utf8_tail lo hi c \<longleftrightarrow> lo \<le> byte c \<and> byte c \<le> hi"

fun valid_utf8 :: "string \<Rightarrow> bool" where
  "valid_utf8 [] = True"
| "valid_utf8 (c # cs) =
     (let b = byte c in
      if b < 128 then valid_utf8 cs
      else if 194 \<le> b \<and> b \<le> 223 then
        (case cs of c1 # r \<Rightarrow> utf8_tail 128 191 c1 \<and> valid_utf8 r | _ \<Rightarrow> False)
      else if 224 \<le> b \<and> b \<le> 239 then
        (case cs of
           c1 # c2 # r \<Rightarrow>
             utf8_tail (if b = 224 then 160 else 128) (if b = 237 then 159 else 191) c1 \<and> utf8_tail 128 191 c2 \<and> valid_utf8 r
         | _ \<Rightarrow> False)
      else if 240 \<le> b \<and> b \<le> 244 then
        (case cs of
           c1 # c2 # c3 # r \<Rightarrow>
             utf8_tail (if b = 240 then 144 else 128) (if b = 244 then 143 else 191) c1 \<and> utf8_tail 128 191 c2
             \<and> utf8_tail 128 191 c3 \<and> valid_utf8 r
         | _ \<Rightarrow> False)
      else False)"

definition text_ok :: "string \<Rightarrow> bool" where
  "text_ok s \<longleftrightarrow> trim_space s \<noteq> [] \<and> length s \<le> maxDesc \<and> valid_utf8 s"

definition validID :: "string \<Rightarrow> vice_fault option" where
  "validID cid = fail_if (\<not> card_id_matches cid) (V_Http 400 (''invalid card id '' @ go_quote cid))"

definition requireReason :: "string \<Rightarrow> vice_fault option" where
  "requireReason reason = fail_if (\<not> text_ok reason) (V_Http 400 (''reason must be 1..'' @ show_nat maxDesc @ '' bytes of UTF-8''))"

definition validateNew :: "new_card \<Rightarrow> vice_fault option" where
  "validateNew c =
     first_err
       [fail_if (trim_space (nw_title c) = [] \<or> maxTitle < length (nw_title c) \<or> \<not> valid_utf8 (nw_title c))
          (V_Http 400 (''title must be 1..'' @ show_nat maxTitle @ '' bytes'')),
        fail_if (maxDesc < length (nw_description c) \<or> maxDesc < length (nw_acceptance c))
          (V_Http 400 (''description and acceptance are capped at '' @ show_nat maxDesc @ '' bytes'')),
        fail_if (nw_type c \<notin> set cardTypes)
          (V_Http 400 (''type '' @ go_quote (nw_type c) @ '': want one of '' @ join '', '' cardTypes)),
        fail_if (nw_priority c < 0 \<or> 4 < nw_priority c) (V_Http 400 (''priority '' @ show_int (nw_priority c) @ '': want 0..4'')),
        if nw_parent c \<noteq> [] then validID (nw_parent c) else None]"

subsection \<open>Reading a card\<close>

definition cardAssignee :: "card_json \<Rightarrow> string \<Rightarrow> string" where
  "cardAssignee J raw = (case cj_issue J raw of None \<Rightarrow> [] | Some i \<Rightarrow> is_assignee i)"

definition cardLabels :: "card_json \<Rightarrow> string \<Rightarrow> string list" where
  "cardLabels J raw = (case cj_issue J raw of None \<Rightarrow> [] | Some i \<Rightarrow> is_labels i)"

text \<open>The ids above a hierarchical id, nearest first.\<close>

function id_ancestors :: "string \<Rightarrow> string list" where
  "id_ancestors p = (case cut_last (CHR ''.'') p of None \<Rightarrow> [] | Some (q, _) \<Rightarrow> q # id_ancestors q)"
  by pat_completeness auto
termination
  by (relation "measure length") (auto dest: cut_last_SomeD)

definition cardLineage :: "card_json \<Rightarrow> string \<Rightarrow> string \<Rightarrow> string \<times> string list" where
  "cardLineage J raw cid =
     (case cj_issue J raw of
        None \<Rightarrow> ([], [])
      | Some i \<Rightarrow>
          (let anc = id_ancestors cid
           in (is_type i, if is_parent i \<noteq> [] \<and> is_parent i \<notin> set anc then anc @ [is_parent i] else anc)))"

subsection \<open>The epic ledger\<close>

definition revokeEpicApproval :: "card_server \<Rightarrow> string \<Rightarrow> 's card_world \<Rightarrow> 's card_world" where
  "revokeEpicApproval S cid w = (if ks_ledger S then w\<lparr>kw_epics := (kw_epics w)(cid := None)\<rparr> else w)"

definition approveEpic :: "string \<Rightarrow> string \<Rightarrow> 's card_world \<Rightarrow> 's card_world" where
  "approveEpic cid via w = w\<lparr>kw_epics := (kw_epics w)(cid \<mapsto> via)\<rparr>"

fun under_approved :: "card_server \<Rightarrow> 's card_tracker \<Rightarrow> string list \<Rightarrow> 's card_world \<Rightarrow> (vice_fault + bool) \<times> 's card_world" where
  "under_approved S T [] w = (Inr False, w)"
| "under_approved S T (a # as) w =
     (if kw_epics w a = None then under_approved S T as w
      else call (tracked (kt_show T a) w) (\<lambda>raw w1.
        case cj_issue (ks_json S) raw of
          None \<Rightarrow> under_approved S T as w1
        | Some i \<Rightarrow>
            (if is_type i \<noteq> EpicType then under_approved S T as w1
             else if is_status i = ''closed'' then under_approved S T as (w1\<lparr>kw_epics := (kw_epics w1)(a := None)\<rparr>)
             else (Inr True, w1))))"

definition underApprovedEpic :: "card_server \<Rightarrow> 's card_tracker \<Rightarrow> string list \<Rightarrow> 's card_world \<Rightarrow> (vice_fault + bool) \<times> 's card_world" where
  "underApprovedEpic S T as w = (if ks_ledger S then under_approved S T as w else (Inr False, w))"

subsection \<open>Requests\<close>

record card_request =
  cq_path :: string
  cq_method :: string
  cq_gen :: string
  cq_filter :: list_filter                              \<comment> \<open>the query of a list\<close>
  cq_new :: "vice_fault + new_card"                     \<comment> \<open>what the body decodes to, for each type it is decoded into\<close>
  cq_text :: "vice_fault + string"
  cq_reason :: "vice_fault + string \<times> bool"            \<comment> \<open>with the wish to escalate to the king\<close>
  cq_change :: "vice_fault + string list \<times> string list"
  cq_role :: "vice_fault + string"

definition decoded :: "vice_fault + 'a \<Rightarrow> 's card_world \<Rightarrow> (vice_fault + 'a) \<times> 's card_world" where
  "decoded b w = (b, w)"

definition writeRaw :: "card_server \<Rightarrow> string \<Rightarrow> string \<Rightarrow> 's route" where
  "writeRaw S summary out w =
     (if cj_valid (ks_json S) out then (Inr (summary, Wrote_Raw out), w) else (Inl (V_Failed ''bd returned invalid JSON''), w))"

subsection \<open>Listing, creating, commenting\<close>

definition blocked_for :: "card_server \<Rightarrow> caller \<Rightarrow> time \<Rightarrow> string \<Rightarrow> 's card_world \<Rightarrow> string" where
  "blocked_for S st now cid w =
     budgetBlockFor (cn_budgets (ks_constitution S)) (if ks_store S then Some (kw_usage w) else None) now (kc_role st) cid"

definition dropBudgetBlocked :: "card_server \<Rightarrow> caller \<Rightarrow> time \<Rightarrow> string \<Rightarrow> 's card_world \<Rightarrow> (vice_fault + string) \<times> 's card_world" where
  "dropBudgetBlocked S st now out w =
     (case cj_rows (ks_json S) out of
        Inl e \<Rightarrow> (Inl (V_Failed (''parse ready cards: '' @ e)), w)
      | Inr rows \<Rightarrow> (Inr (cj_array (ks_json S) (map snd (filter (\<lambda>r. blocked_for S st now (fst r) w = []) rows))), w))"

definition filter_fault :: "list_filter \<Rightarrow> vice_fault option" where
  "filter_fault f =
     first_err
       (map (\<lambda>v. fail_if (v \<noteq> [] \<and> \<not> word_ok v) (V_Http 400 (''invalid filter '' @ go_quote v))) [lf_status f, lf_label f]
        @ [if lf_parent f \<noteq> [] then validID (lf_parent f) else None])"

definition serveCardList :: "card_server \<Rightarrow> 's card_tracker \<Rightarrow> caller \<Rightarrow> time \<Rightarrow> card_request \<Rightarrow> 's route" where
  "serveCardList S T st now q w =
     call (unless (filter_fault (cq_filter q)) w) (\<lambda>_ w.
     call (tracked (kt_list T (cq_filter q)) w) (\<lambda>out w.
       if lf_ready (cq_filter q) \<and> kc_role st = makerRole
       then call (dropBudgetBlocked S st now out w) (\<lambda>kept w. writeRaw S ''list'' kept w)
       else writeRaw S ''list'' out w))"

definition serveCardCreate :: "card_server \<Rightarrow> 's card_tracker \<Rightarrow> card_request \<Rightarrow> 's route" where
  "serveCardCreate S T q w =
     call (decoded (cq_new q) w) (\<lambda>c w.
     call (unless (validateNew c) w) (\<lambda>_ w.
     call (tracked (kt_create T c) w) (\<lambda>out w.
     writeRaw S (''create '' @ nw_type c) out w)))"

definition requireOwnCard :: "card_server \<Rightarrow> 's card_tracker \<Rightarrow> caller \<Rightarrow> string \<Rightarrow> 's card_world \<Rightarrow> (vice_fault + unit) \<times> 's card_world" where
  "requireOwnCard S T st cid w =
     call (tracked (kt_show T cid) w) (\<lambda>raw w.
       let holder = cardAssignee (ks_json S) raw in
       unless (fail_if (holder \<noteq> kc_agent st)
         (V_Http 403 (''card '' @ cid @ '' is claimed by '' @ go_quote holder @ '', not '' @ go_quote (kc_agent st)))) w)"

definition admitOwnComment :: "card_server \<Rightarrow> 's card_tracker \<Rightarrow> caller \<Rightarrow> string \<Rightarrow> 's card_world \<Rightarrow> (vice_fault + unit) \<times> 's card_world" where
  "admitOwnComment S T st cid w =
     call (requireOwnCard S T st cid w) (\<lambda>_ w.
       let n = kw_counts w (kc_agent st, cid) in
       if CommentCapOrDefault (cn_cards (ks_constitution S)) \<le> n
       then (Inl (V_Http 429 (''comment cap of '' @ show_int n @ '' reached for card '' @ cid)), w)
       else (Inr (), w\<lparr>kw_counts := (kw_counts w)((kc_agent st, cid) := n + 1)\<rparr>))"

definition serveCardComment :: "card_server \<Rightarrow> 's card_tracker \<Rightarrow> caller \<Rightarrow> card_request \<Rightarrow> string \<Rightarrow> 's route" where
  "serveCardComment S T st q cid w =
     call (if kc_role st \<noteq> viceroy_role then admitOwnComment S T st cid w else (Inr (), w)) (\<lambda>_ w.
     call (decoded (cq_text q) w) (\<lambda>body w.
     call (unless (fail_if (\<not> text_ok body) (V_Http 400 (''comment text must be 1..'' @ show_nat maxDesc @ '' bytes of UTF-8''))) w) (\<lambda>_ w.
     call (tracked (kt_comment T cid body) w) (\<lambda>_ w.
     (Inr (''comment '' @ cid, Wrote_Ok), w)))))"

subsection \<open>The viceroy\<close>

definition viceroyClose :: "card_server \<Rightarrow> 's card_tracker \<Rightarrow> caller \<Rightarrow> time \<Rightarrow> card_request \<Rightarrow> string \<Rightarrow> 's route" where
  "viceroyClose S T st now q cid w =
     call (decoded (cq_reason q) w) (\<lambda>(reason, _) w.
     call (unless (requireReason reason) w) (\<lambda>_ w.
     call (tracked (kt_show T cid) w) (\<lambda>raw w.
     call (unless (fail_if (\<not> (case cardLineage (ks_json S) raw cid of (typ, ancestors) \<Rightarrow>
               DelegatesClose (ks_constitution S) cid typ (cardLabels (ks_json S) raw) ancestors now))
             (V_Http 403 (''no constitution delegation lets the viceroy close '' @ cid))) w) (\<lambda>_ w.
     call (unless (fail_if (case cj_issue (ks_json S) raw of None \<Rightarrow> True | Some i \<Rightarrow> is_comments i = 0)
             (V_Http 409 (''card '' @ cid @ '' has no comment recording its decision''))) w) (\<lambda>_ w.
     call (tracked (kt_close T cid (kc_agent st) reason) w) (\<lambda>_ w.
     (Inr (''close '' @ cid, Wrote_Ok),
      recordEvent S st now ''close'' cid (reason @ '' (viceroy close delegation, constitution '' @ ks_digest S @ '')'')
        (revokeEpicApproval S cid w))))))))"

definition viceroyMayLabel :: "card_server \<Rightarrow> string \<Rightarrow> bool" where
  "viceroyMayLabel S label \<longleftrightarrow>
     label = LabelGaveUp \<or> has_prefix label LabelNeedsPrefix \<or> MayLabel (cn_viceroy (ks_constitution S)) label"

definition auditLabelComment :: "caller \<Rightarrow> string \<Rightarrow> string \<Rightarrow> string" where
  "auditLabelComment st verb label = ''label '' @ label @ '' '' @ verb @ '' by '' @ kc_name st @ '' ('' @ kc_role st @ '')''"

definition label_faults :: "card_server \<Rightarrow> string list \<Rightarrow> string list \<Rightarrow> string \<Rightarrow> vice_fault option list" where
  "label_faults S add remove l =
     [fail_if (\<not> word_ok l) (V_Http 400 (''invalid label '' @ go_quote l)),
      fail_if (\<not> viceroyMayLabel S l) (V_Http 403 (''the constitution does not let the viceroy touch label '' @ go_quote l)),
      fail_if (l \<in> set add \<and> l \<in> set remove) (V_Http 400 (''label '' @ go_quote l @ '' is both added and removed''))]"

definition change_fault :: "card_server \<Rightarrow> string list \<Rightarrow> string list \<Rightarrow> vice_fault option" where
  "change_fault S add remove =
     first_err
       (fail_if (add = [] \<and> remove = []) (V_Http 400 ''name at least one label to add or remove'')
        # concat (map (label_faults S add remove) (add @ remove)))"

fun apply_labels :: "(string \<Rightarrow> 's card_world \<Rightarrow> (vice_fault + unit) \<times> 's card_world) \<Rightarrow> string list \<Rightarrow> 's card_world \<Rightarrow> (vice_fault + unit) \<times> 's card_world" where
  "apply_labels f [] w = (Inr (), w)"
| "apply_labels f (l # ls) w = call (f l w) (\<lambda>_ w. apply_labels f ls w)"

definition change_label :: "card_server \<Rightarrow> 's card_tracker \<Rightarrow> caller \<Rightarrow> time \<Rightarrow> string \<Rightarrow> bool \<Rightarrow> string \<Rightarrow> 's card_world \<Rightarrow> (vice_fault + unit) \<times> 's card_world" where
  "change_label S T st now cid add l w =
     call (tracked (if add then kt_add_label T cid l else kt_remove_label T cid l) w) (\<lambda>_ w.
     tracked (kt_comment T cid (auditLabelComment st (if add then ''added'' else ''removed'') l))
       (recordEvent S st now ''label'' cid ((if add then ''add '' else ''remove '') @ l) w))"

definition viceroyLabels :: "card_server \<Rightarrow> 's card_tracker \<Rightarrow> caller \<Rightarrow> time \<Rightarrow> card_request \<Rightarrow> string \<Rightarrow> 's route" where
  "viceroyLabels S T st now q cid w =
     call (decoded (cq_change q) w) (\<lambda>(add, remove) w.
     call (unless (change_fault S add remove) w) (\<lambda>_ w.
     call (apply_labels (change_label S T st now cid True) add w) (\<lambda>_ w.
     call (apply_labels (change_label S T st now cid False) remove w) (\<lambda>_ w.
     (Inr (''labels '' @ cid, Wrote_Ok), w)))))"

definition serve_offer :: "card_server \<Rightarrow> 's card_tracker \<Rightarrow> caller \<Rightarrow> time \<Rightarrow> string \<Rightarrow> 's route" where
  "serve_offer S T st now cid w =
     call (tracked (kt_show T cid) w) (\<lambda>raw w.
       let labels = cardLabels (ks_json S) raw in
       if LabelLine \<in> set labels then (Inr (''offer '' @ cid @ '' label='' @ LabelLine @ '' (already)'', Wrote_Offer True LabelLine), w)
       else case cardLineage (ks_json S) raw cid of (typ, ancestors) \<Rightarrow>
         call (underApprovedEpic S T ancestors w) (\<lambda>inherited w.
           let offered = Delegates (ks_constitution S) typ ancestors inherited;
               label = (if offered then LabelLine else LabelProposed) in
           call (if label \<in> set labels then (Inr (), w) else tracked (kt_add_label T cid label) w) (\<lambda>_ w.
           (Inr (''offer '' @ cid @ '' label='' @ label, Wrote_Offer offered label),
            recordEvent S st now ''offer'' cid (''label '' @ label) w))))"

definition raiseNeed :: "card_server \<Rightarrow> 's card_tracker \<Rightarrow> caller \<Rightarrow> card_request \<Rightarrow> string \<Rightarrow> 's route" where
  "raiseNeed S T st q cid w =
     call (decoded (cq_role q) w) (\<lambda>role w.
     call (unless (fail_if (role \<noteq> needsKing \<and> role \<notin> set Roles)
             (V_Http 400 (''role '' @ go_quote role @ '': want king or one of '' @ join '', '' Roles))) w) (\<lambda>_ w.
     call (requireOwnCard S T st cid w) (\<lambda>_ w.
     call (tracked (kt_add_label T cid (LabelNeedsPrefix @ role)) w) (\<lambda>_ w.
     (Inr (''needs '' @ cid @ '' '' @ role, Wrote_Ok), w)))))"

subsection \<open>Settling\<close>

datatype settle_action = Claim_Card | Close_Card | Release_Card | Give_Up_Card

definition action_text :: "settle_action \<Rightarrow> string" where
  "action_text a = (case a of Claim_Card \<Rightarrow> ''claim'' | Close_Card \<Rightarrow> ''close'' | Release_Card \<Rightarrow> ''release'' | Give_Up_Card \<Rightarrow> ''give-up'')"

definition holds_card :: "card_server \<Rightarrow> 's card_tracker \<Rightarrow> caller \<Rightarrow> settle_action \<Rightarrow> string \<Rightarrow> 's card_world \<Rightarrow> (vice_fault + unit) \<times> 's card_world" where
  "holds_card S T st a cid w =
     (if a = Claim_Card then (Inr (), w)
      else call (tracked (kt_show T cid) w) (\<lambda>raw w.
        let holder = cardAssignee (ks_json S) raw in
        unless (fail_if (holder \<noteq> kc_agent st \<and> \<not> (a = Give_Up_Card \<and> holder = []))
          (V_Http 403 (''card '' @ cid @ '' is claimed by '' @ go_quote holder @ '', not '' @ go_quote (kc_agent st)))) w))"

definition claim_card :: "card_server \<Rightarrow> 's card_tracker \<Rightarrow> caller \<Rightarrow> time \<Rightarrow> string \<Rightarrow> 's card_world \<Rightarrow> (vice_fault + unit) \<times> 's card_world" where
  "claim_card S T st now cid w =
     call (unless (case blocked_for S st now cid w of [] \<Rightarrow> None | why \<Rightarrow> Some (V_Http 429 why)) w) (\<lambda>_ w.
     call (tracked (kt_claim T cid (kc_agent st)) w) (\<lambda>_ w.
     (Inr (), w\<lparr>kw_counts := (kw_counts w)((kc_agent st, cid) := 0)\<rparr>)))"

definition give_up_card :: "'s card_tracker \<Rightarrow> string \<Rightarrow> string \<Rightarrow> bool \<Rightarrow> 's card_world \<Rightarrow> (vice_fault + unit) \<times> 's card_world" where
  "give_up_card T cid reason king w =
     call (tracked (kt_comment T cid (''gave up: '' @ reason)) w) (\<lambda>_ w.
     call (tracked (kt_add_label T cid LabelGaveUp) w) (\<lambda>_ w.
     if king then tracked (kt_add_label T cid (LabelNeedsPrefix @ needsKing)) w else (Inr (), w)))"

definition settle_card :: "card_server \<Rightarrow> 's card_tracker \<Rightarrow> caller \<Rightarrow> time \<Rightarrow> card_request \<Rightarrow> settle_action \<Rightarrow> string \<Rightarrow> 's route" where
  "settle_card S T st now q a cid w =
     call (holds_card S T st a cid w) (\<lambda>_ w.
     call (if a = Claim_Card then (Inr ([], False), w)
           else call (decoded (cq_reason q) w) (\<lambda>(reason, king) w. call (unless (requireReason reason) w) (\<lambda>_ w. (Inr (reason, king), w))))
       (\<lambda>(reason, king) w.
     call (case a of
             Claim_Card \<Rightarrow> claim_card S T st now cid w
           | Close_Card \<Rightarrow> call (tracked (kt_close T cid (kc_agent st) reason) w) (\<lambda>_ w. (Inr (), revokeEpicApproval S cid w))
           | Release_Card \<Rightarrow> tracked (kt_release T cid (kc_agent st) reason) w
           | Give_Up_Card \<Rightarrow> give_up_card T cid reason king w) (\<lambda>_ w.
     (Inr (action_text a @ '' '' @ cid, Wrote_Ok), recordEvent S st now (action_text a) cid reason w))))"

subsection \<open>Routing\<close>

datatype card_action = Act_Comments | Act_Needs | Act_Offer | Act_Labels | Act_Settle settle_action

definition cardActions :: "(string \<times> card_action \<times> string list) list" where
  "cardActions =
     [(''comments'', Act_Comments, [viceroy_role, ''maker'', ''andon'', ''kaizen'', ''gemba'']),
      (''needs'', Act_Needs, [''maker'', ''andon'', ''kaizen'', ''gemba'']),
      (''offer'', Act_Offer, [viceroy_role]),
      (''claim'', Act_Settle Claim_Card, [makerRole]),
      (''close'', Act_Settle Close_Card, [makerRole, viceroy_role]),
      (''release'', Act_Settle Release_Card, [makerRole]),
      (''give-up'', Act_Settle Give_Up_Card, [makerRole]),
      (''labels'', Act_Labels, [viceroy_role])]"

datatype card_path = Cards_Root | Card_At string | Card_Action string card_action "string list" | No_Card_Path

definition card_path_of :: "string \<Rightarrow> card_path" where
  "card_path_of path =
     (let rest = trim_prefix (trim_prefix path ''/v1/cards'') ''/'' in
      if rest = [] then Cards_Root
      else case split_char (CHR ''/'') rest of
             [cid] \<Rightarrow> Card_At cid
           | [cid, act] \<Rightarrow> (case map_of cardActions act of Some (a, roles) \<Rightarrow> Card_Action cid a roles | None \<Rightarrow> No_Card_Path)
           | _ \<Rightarrow> No_Card_Path)"

definition wanted_method :: "card_request \<Rightarrow> card_path \<Rightarrow> vice_fault + string" where
  "wanted_method q p =
     (case p of
        Cards_Root \<Rightarrow> (if cq_method q \<in> {''GET'', ''POST''} then Inr (cq_method q)
                       else Inl (V_Http 405 (''use GET or POST for '' @ cq_path q)))
      | Card_At _ \<Rightarrow> Inr ''GET''
      | Card_Action _ _ _ \<Rightarrow> Inr ''POST''
      | No_Card_Path \<Rightarrow> Inl (V_Http 404 (''no route '' @ cq_path q)))"

definition writer_gate :: "card_server \<Rightarrow> caller \<Rightarrow> card_request \<Rightarrow> string list \<Rightarrow> 's card_world \<Rightarrow> (vice_fault + unit) \<times> 's card_world" where
  "writer_gate S st q roles w =
     (if cq_method q \<noteq> ''POST'' then (Inr (), w)
      else if kc_role st \<notin> set roles then (Inl (V_Http 403 (''role '' @ go_quote (kc_role st) @ '' may not write cards'')), w)
      else if kc_role st = viceroy_role \<and> ks_viceroy S then
        (case Admit (cq_gen q) False (kw_supervisor w) of
           (Some e, v) \<Rightarrow> (Inl e, w\<lparr>kw_supervisor := v\<rparr>)
         | (None, v) \<Rightarrow> (Inr (), w\<lparr>kw_supervisor := v\<rparr>))
      else (Inr (), w))"

definition card_action_route :: "card_server \<Rightarrow> 's card_tracker \<Rightarrow> caller \<Rightarrow> time \<Rightarrow> card_request \<Rightarrow> string \<Rightarrow> card_action \<Rightarrow> 's route" where
  "card_action_route S T st now q cid a w =
     (case a of
        Act_Needs \<Rightarrow> raiseNeed S T st q cid w
      | Act_Comments \<Rightarrow> serveCardComment S T st q cid w
      | Act_Labels \<Rightarrow> viceroyLabels S T st now q cid w
      | Act_Offer \<Rightarrow> serve_offer S T st now cid w
      | Act_Settle b \<Rightarrow>
          (if b = Close_Card \<and> kc_role st = viceroy_role then viceroyClose S T st now q cid w else settle_card S T st now q b cid w))"

definition routeCards :: "card_server \<Rightarrow> 's card_tracker option \<Rightarrow> caller \<Rightarrow> time \<Rightarrow> card_request \<Rightarrow> 's route" where
  "routeCards S tracker st now q w =
     (let p = card_path_of (cq_path q) in
      case wanted_method q p of
        Inl e \<Rightarrow> (Inl e, w)
      | Inr want \<Rightarrow>
          (if cq_method q \<noteq> want then (Inl (V_Http 405 (''use '' @ want @ '' for '' @ cq_path q)), w)
           else call (writer_gate S st q (case p of Card_Action _ _ roles \<Rightarrow> roles | _ \<Rightarrow> [viceroy_role]) w) (\<lambda>_ w.
             case tracker of
               None \<Rightarrow> (Inl (V_Http 503 ''cards are not configured (line serve --beads)''), w)
             | Some T \<Rightarrow>
                 (case p of
                    Cards_Root \<Rightarrow> (if cq_method q = ''GET'' then serveCardList S T st now q w else serveCardCreate S T q w)
                  | Card_At cid \<Rightarrow>
                      call (unless (validID cid) w) (\<lambda>_ w. call (tracked (kt_show T cid) w) (\<lambda>out w. writeRaw S (''show '' @ cid) out w))
                  | Card_Action cid a roles \<Rightarrow> call (unless (validID cid) w) (\<lambda>_ w. card_action_route S T st now q cid a w)
                  | No_Card_Path \<Rightarrow> (Inl (V_Http 404 (''no route '' @ cq_path q)), w)))))"

end
