(* ===== verification/Call_Log.thy ===== *)
theory Call_Log
  imports Main
begin

text \<open>Records of calls in which each call is allowed by those before it.\<close>

definition all_authorised :: "('c set \<Rightarrow> 'c \<Rightarrow> bool) \<Rightarrow> 'c list \<Rightarrow> bool" where
  "all_authorised P log \<longleftrightarrow> (\<forall>pre c post. log = pre @ c # post \<longrightarrow> P (set pre) c)"

lemma all_authorised_Nil [simp]: "all_authorised P []"
  by (simp add: all_authorised_def)

lemma all_authorised_snoc: "all_authorised P (log @ [c]) \<longleftrightarrow> all_authorised P log \<and> P (set log) c"
proof
  assume a: "all_authorised P (log @ [c])"
  have "P (set pre) d" if "log = pre @ d # post" for pre d post
    using a [unfolded all_authorised_def, rule_format, of pre d "post @ [c]"] that by simp
  moreover have "P (set log) c" using a [unfolded all_authorised_def, rule_format, of log c "[]"] by simp
  ultimately show "all_authorised P log \<and> P (set log) c" unfolding all_authorised_def by blast
next
  assume a: "all_authorised P log \<and> P (set log) c"
  have "P (set pre) d" if "log @ [c] = pre @ d # post" for pre d post
  proof (cases post rule: rev_cases)
    case Nil
    then show ?thesis using a that by simp
  next
    case (snoc post' e)
    then have "log = pre @ d # post'" using that by simp
    then show ?thesis using a unfolding all_authorised_def by blast
  qed
  then show "all_authorised P (log @ [c])" unfolding all_authorised_def by blast
qed

end
