(* ===== verification/Card_Authority.thy ===== *)
theory Card_Authority
  imports Card_Routes Call_Log
begin

text \<open>
  Who may do what to a card. The tracker's calls are recorded with what it showed, and every write a route makes is
  authorised by the caller's role and by what was shown before it. The routes are taken apart by a few rules about
  \<open>keeps\<close>: an invariant that holds after every call, also when the request ends in an error.
\<close>

subsection \<open>Recording the tracker\<close>

datatype card_call =
    K_Show string "string + string" | K_Create new_card | K_Comment string string | K_Add string string | K_Remove string string
  | K_Claim string string | K_Release string string string | K_Close string string string

definition noted :: "('a \<Rightarrow> card_call list) \<Rightarrow> ('s \<Rightarrow> 'a \<times> 's) \<Rightarrow> 's \<times> card_call list \<Rightarrow> 'a \<times> ('s \<times> card_call list)" where
  "noted c f w = (case f (fst w) of (x, s) \<Rightarrow> (x, (s, snd w @ c x)))"

definition noted_tracker :: "'s card_tracker \<Rightarrow> ('s \<times> card_call list) card_tracker" where
  "noted_tracker T =
     \<lparr>kt_list = \<lambda>f. noted (\<lambda>_. []) (kt_list T f), kt_show = \<lambda>i. noted (\<lambda>r. [K_Show i r]) (kt_show T i),
      kt_create = \<lambda>c. noted (\<lambda>_. [K_Create c]) (kt_create T c), kt_comment = \<lambda>i t. noted (\<lambda>_. [K_Comment i t]) (kt_comment T i t),
      kt_add_label = \<lambda>i l. noted (\<lambda>_. [K_Add i l]) (kt_add_label T i l),
      kt_remove_label = \<lambda>i l. noted (\<lambda>_. [K_Remove i l]) (kt_remove_label T i l),
      kt_claim = \<lambda>i a. noted (\<lambda>_. [K_Claim i a]) (kt_claim T i a),
      kt_release = \<lambda>i a t. noted (\<lambda>_. [K_Release i a t]) (kt_release T i a t),
      kt_close = \<lambda>i a t. noted (\<lambda>_. [K_Close i a t]) (kt_close T i a t)\<rparr>"

subsection \<open>Authority\<close>

definition own_roles :: "string set" where "own_roles = {''maker'', ''andon'', ''kaizen'', ''gemba''}"

text \<open>The card was shown held by one of \<open>agents\<close>.\<close>

definition shown_held :: "card_server \<Rightarrow> card_call set \<Rightarrow> string \<Rightarrow> string set \<Rightarrow> bool" where
  "shown_held S seen cid agents \<longleftrightarrow> (\<exists>raw. K_Show cid (Inr raw) \<in> seen \<and> cardAssignee (ks_json S) raw \<in> agents)"

definition offer_granted :: "card_server \<Rightarrow> card_call set \<Rightarrow> string \<Rightarrow> bool" where
  "offer_granted S seen cid \<longleftrightarrow>
     (\<exists>raw typ ancestors inherited. K_Show cid (Inr raw) \<in> seen \<and> cardLineage (ks_json S) raw cid = (typ, ancestors)
        \<and> Delegates (ks_constitution S) typ ancestors inherited
        \<and> (inherited \<longrightarrow> (\<exists>a \<in> set ancestors. \<exists>epic i. K_Show a (Inr epic) \<in> seen \<and> cj_issue (ks_json S) epic = Some i
             \<and> is_type i = EpicType \<and> is_status i \<noteq> ''closed'')))"

definition close_granted :: "card_server \<Rightarrow> time \<Rightarrow> card_call set \<Rightarrow> string \<Rightarrow> bool" where
  "close_granted S now seen cid \<longleftrightarrow>
     (\<exists>raw typ ancestors i. K_Show cid (Inr raw) \<in> seen \<and> cardLineage (ks_json S) raw cid = (typ, ancestors)
        \<and> DelegatesClose (ks_constitution S) cid typ (cardLabels (ks_json S) raw) ancestors now
        \<and> cj_issue (ks_json S) raw = Some i \<and> is_comments i \<noteq> 0)"

text \<open>What a caller may do, with the calls seen before it.\<close>

definition authorised :: "card_server \<Rightarrow> caller \<Rightarrow> time \<Rightarrow> token_usage list \<Rightarrow> card_call set \<Rightarrow> card_call \<Rightarrow> bool" where
  "authorised S st now us seen c \<longleftrightarrow>
     (case c of
        K_Show _ _ \<Rightarrow> True
      | K_Create n \<Rightarrow> kc_role st = viceroy_role \<and> validateNew n = None
      | K_Comment cid t \<Rightarrow>
          kc_role st = viceroy_role \<or> kc_role st \<in> own_roles \<and> shown_held S seen cid {kc_agent st}
          \<or> kc_role st = makerRole \<and> shown_held S seen cid {kc_agent st, []}
      | K_Add cid l \<Rightarrow>
          kc_role st = viceroy_role \<and> (viceroyMayLabel S l \<or> l = LabelProposed \<or> l = LabelLine \<and> offer_granted S seen cid)
          \<or> kc_role st \<in> own_roles \<and> shown_held S seen cid {kc_agent st} \<and> (\<exists>role. l = LabelNeedsPrefix @ role \<and> role \<in> insert needsKing (set Roles))
          \<or> kc_role st = makerRole \<and> shown_held S seen cid {kc_agent st, []} \<and> l \<in> {LabelGaveUp, LabelNeedsPrefix @ needsKing}
      | K_Remove cid l \<Rightarrow> kc_role st = viceroy_role \<and> viceroyMayLabel S l
      | K_Claim cid a \<Rightarrow>
          kc_role st = makerRole \<and> a = kc_agent st
          \<and> budgetBlockFor (cn_budgets (ks_constitution S)) (if ks_store S then Some us else None) now makerRole cid = []
      | K_Release cid a t \<Rightarrow> kc_role st = makerRole \<and> a = kc_agent st \<and> shown_held S seen cid {kc_agent st}
      | K_Close cid a t \<Rightarrow>
          a = kc_agent st \<and> (kc_role st = makerRole \<and> shown_held S seen cid {kc_agent st}
            \<or> kc_role st = viceroy_role \<and> close_granted S now seen cid))"

lemma shown_held_mono: "shown_held S F cid as \<Longrightarrow> F \<subseteq> G \<Longrightarrow> shown_held S G cid as"
  unfolding shown_held_def by blast

lemma offer_granted_mono: "offer_granted S F cid \<Longrightarrow> F \<subseteq> G \<Longrightarrow> offer_granted S G cid"
  unfolding offer_granted_def by (meson subsetD)

lemma close_granted_mono: "close_granted S now F cid \<Longrightarrow> F \<subseteq> G \<Longrightarrow> close_granted S now G cid"
  unfolding close_granted_def by (meson subsetD)

lemma authorised_mono: "authorised S st now us F c \<Longrightarrow> F \<subseteq> G \<Longrightarrow> authorised S st now us G c"
  by (cases c) (auto simp: authorised_def dest: shown_held_mono offer_granted_mono close_granted_mono)

subsection \<open>Rules\<close>

definition calls_of :: "('s \<times> card_call list) card_world \<Rightarrow> card_call list" where
  "calls_of w = snd (kw_tracker w)"

text \<open>The calls so far were authorised, and \<open>F\<close> is among them.\<close>

definition seen_at :: "(card_call set \<Rightarrow> card_call \<Rightarrow> bool) \<Rightarrow> token_usage list \<Rightarrow> card_call set \<Rightarrow> ('s \<times> card_call list) card_world \<Rightarrow> bool" where
  "seen_at P us F w \<longleftrightarrow> all_authorised P (calls_of w) \<and> F \<subseteq> set (calls_of w) \<and> kw_usage w = us"

definition keeps :: "(card_call set \<Rightarrow> card_call \<Rightarrow> bool) \<Rightarrow> token_usage list \<Rightarrow> card_call set
    \<Rightarrow> (('s \<times> card_call list) card_world \<Rightarrow> (vice_fault + 'a) \<times> ('s \<times> card_call list) card_world) \<Rightarrow> bool" where
  "keeps P us F f \<longleftrightarrow> (\<forall>w. seen_at P us F w \<longrightarrow> seen_at P us F (snd (f w)))"

lemma keeps_ret: "keeps P us F (Pair r)"
  by (simp add: keeps_def)

lemma keeps_unless:
  assumes "e = None \<Longrightarrow> keeps P us F g"
  shows "keeps P us F (\<lambda>w. call (unless e w) (\<lambda>_. g))"
  using assms by (cases e) (auto simp: keeps_def unless_def)

lemma keeps_decoded:
  assumes "\<And>x. b = Inr x \<Longrightarrow> keeps P us F (g x)"
  shows "keeps P us F (\<lambda>w. call (decoded b w) g)"
  using assms by (cases b) (auto simp: keeps_def decoded_def)

lemma keeps_call:
  fixes f :: "('s \<times> card_call list) card_world \<Rightarrow> (vice_fault + 'a) \<times> ('s \<times> card_call list) card_world"
  assumes "keeps P us F f" "\<And>x. keeps P us F (g x)"
  shows "keeps P us F (\<lambda>w. call (f w) g)"
  unfolding keeps_def
proof (intro allI impI)
  fix w :: "('s \<times> card_call list) card_world"
  obtain r w1 where fw: "f w = (r, w1)" by fastforce
  assume "seen_at P us F w"
  then have "seen_at P us F w1" using assms(1) fw by (force simp: keeps_def)
  then show "seen_at P us F (snd (call (f w) g))" using assms(2) fw unfolding keeps_def by (cases r) auto
qed

lemma keeps_show:
  fixes T :: "'s card_tracker"
  assumes "\<And>raw. keeps P us (insert (K_Show cid (Inr raw)) F) (g raw)" "\<And>G r. P G (K_Show cid r)"
  shows "keeps P us F (\<lambda>w. call (tracked (kt_show (noted_tracker T) cid) w) g)"
  unfolding keeps_def
proof (intro allI impI)
  fix w :: "('s \<times> card_call list) card_world"
  assume w: "seen_at P us F w"
  obtain r s where r: "kt_show T cid (fst (kw_tracker w)) = (r, s)" by fastforce
  let ?w = "w\<lparr>kw_tracker := (s, calls_of w @ [K_Show cid r])\<rparr>"
  have t: "tracked (kt_show (noted_tracker T) cid) w = (map_sum V_Failed id r, ?w)"
    by (simp add: tracked_def noted_tracker_def noted_def r calls_of_def)
  have seen: "seen_at P us F ?w" "r = Inr raw \<Longrightarrow> seen_at P us (insert (K_Show cid (Inr raw)) F) ?w" for raw
    using w assms(2) by (auto simp: seen_at_def calls_of_def all_authorised_snoc)
  show "seen_at P us F (snd (call (tracked (kt_show (noted_tracker T) cid) w) g))"
  proof (cases r)
    case (Inr raw)
    then have "seen_at P us (insert (K_Show cid (Inr raw)) F) (snd (g raw ?w))" using assms(1) seen(2) unfolding keeps_def by blast
    then show ?thesis using t Inr by (simp add: seen_at_def)
  qed (use seen(1) t in simp)
qed

lemma keeps_tracked:
  assumes "\<And>G. F \<subseteq> G \<Longrightarrow> P G c"
  shows "keeps P us F (tracked (noted (\<lambda>_. [c]) f))"
  using assms by (auto simp: keeps_def tracked_def noted_def seen_at_def calls_of_def all_authorised_snoc split: prod.splits)

lemma keeps_list: "keeps P us F (tracked (noted (\<lambda>_. []) f))"
  by (auto simp: keeps_def tracked_def noted_def seen_at_def calls_of_def split: prod.splits)

text \<open>Steps that leave the tracker and the usage alone.\<close>

lemma keeps_pure:
  assumes "\<And>w. kw_tracker (snd (f w)) = kw_tracker w" "\<And>w. kw_usage (snd (f w)) = kw_usage w"
  shows "keeps P us F f"
  using assms by (simp add: keeps_def seen_at_def calls_of_def)

lemma keeps_world:
  assumes "keeps P us F f" "\<And>w. kw_tracker (h w) = kw_tracker w" "\<And>w. kw_usage (h w) = kw_usage w"
  shows "keeps P us F (\<lambda>w. f (h w))"
  using assms by (simp add: keeps_def seen_at_def calls_of_def)

lemma keeps_if: "(b \<Longrightarrow> keeps P us F f) \<Longrightarrow> (\<not> b \<Longrightarrow> keeps P us F g) \<Longrightarrow> keeps P us F (\<lambda>w. if b then f w else g w)"
  by (auto simp: keeps_def)

lemma noted_tracker_simps [simp]:
  "kt_create (noted_tracker T) c = noted (\<lambda>_. [K_Create c]) (kt_create T c)"
  "kt_comment (noted_tracker T) i t = noted (\<lambda>_. [K_Comment i t]) (kt_comment T i t)"
  "kt_add_label (noted_tracker T) i l = noted (\<lambda>_. [K_Add i l]) (kt_add_label T i l)"
  "kt_remove_label (noted_tracker T) i l = noted (\<lambda>_. [K_Remove i l]) (kt_remove_label T i l)"
  "kt_claim (noted_tracker T) i a = noted (\<lambda>_. [K_Claim i a]) (kt_claim T i a)"
  "kt_release (noted_tracker T) i a t = noted (\<lambda>_. [K_Release i a t]) (kt_release T i a t)"
  "kt_close (noted_tracker T) i a t = noted (\<lambda>_. [K_Close i a t]) (kt_close T i a t)"
  "kt_list (noted_tracker T) f = noted (\<lambda>_. []) (kt_list T f)"
  by (simp_all add: noted_tracker_def)

lemma recordEvent_simps [simp]:
  "kw_tracker (recordEvent S st now k cid d w) = kw_tracker w" "kw_usage (recordEvent S st now k cid d w) = kw_usage w"
  "kw_tracker (revokeEpicApproval S cid w) = kw_tracker w" "kw_usage (revokeEpicApproval S cid w) = kw_usage w"
  by (simp_all add: recordEvent_def revokeEpicApproval_def)

lemma writeRaw_keeps: "keeps P us F (writeRaw S summary out)"
  by (rule keeps_pure) (simp_all add: writeRaw_def)

subsection \<open>The routes\<close>

lemma call_assoc: "call (call r f) g = call r (\<lambda>x w. call (f x w) g)"
  by (simp add: call_def split: prod.splits sum.splits)

lemma call_if: "call (if b then r else t) f = (if b then call r f else call t f)"
  by simp

lemma keeps_Inr: "keeps P us F (g x) \<Longrightarrow> keeps P us F (\<lambda>w. call (Inr x, w) g)"
  by (simp add: keeps_def)

lemma keeps_finish:
  assumes "\<And>w. kw_tracker (h w) = kw_tracker w" "\<And>w. kw_usage (h w) = kw_usage w"
  shows "keeps P us F (\<lambda>w. (r, h w))"
  using assms by (simp add: keeps_def seen_at_def calls_of_def)

lemma list_keeps: "keeps (authorised S st now us) us F (serveCardList S (noted_tracker T) st now q)"
  unfolding serveCardList_def noted_tracker_simps
  by (intro keeps_unless keeps_call keeps_list keeps_if writeRaw_keeps)
    (auto intro!: keeps_call keeps_pure writeRaw_keeps simp: dropBudgetBlocked_def split: sum.splits)

lemma create_keeps: "kc_role st = viceroy_role \<Longrightarrow> keeps (authorised S st now us) us F (serveCardCreate S (noted_tracker T) q)"
  unfolding serveCardCreate_def noted_tracker_simps
  by (intro keeps_decoded keeps_unless keeps_call keeps_tracked writeRaw_keeps) (simp add: authorised_def)

lemma own_card_keeps:
  assumes "\<And>G. shown_held S G cid {kc_agent st} \<Longrightarrow> F \<subseteq> G \<Longrightarrow> keeps (authorised S st now us) us G g"
  shows "keeps (authorised S st now us) us F (\<lambda>w. call (requireOwnCard S (noted_tracker T) st cid w) (\<lambda>_. g))"
proof -
  have "keeps (authorised S st now us) us (insert (K_Show cid (Inr raw)) F) g" if "cardAssignee (ks_json S) raw = kc_agent st" for raw
    by (rule assms) (use that in \<open>auto simp: shown_held_def\<close>)
  then show ?thesis
    unfolding requireOwnCard_def call_assoc Let_def
    by (intro keeps_show keeps_unless) (auto simp: authorised_def fail_if_def split: if_splits)
qed

lemma comment_keeps:
  assumes "kc_role st = viceroy_role \<or> kc_role st \<in> own_roles"
  shows "keeps (authorised S st now us) us F (serveCardComment S (noted_tracker T) st q cid)"
proof -
  let ?rest = "\<lambda>w. call (decoded (cq_text q) w) (\<lambda>body w.
     call (unless (fail_if (\<not> text_ok body) (V_Http 400 (''comment text must be 1..'' @ show_nat maxDesc @ '' bytes of UTF-8''))) w) (\<lambda>_ w.
     call (tracked (kt_comment (noted_tracker T) cid body) w) (\<lambda>_ w.
     (Inr (''comment '' @ cid, Wrote_Ok), w))))"
  have rest: "keeps (authorised S st now us) us G ?rest" if "kc_role st = viceroy_role \<or> shown_held S G cid {kc_agent st}" for G
    unfolding noted_tracker_simps
    by (intro keeps_decoded keeps_unless keeps_call keeps_tracked keeps_ret)
      (use that assms in \<open>auto simp: authorised_def dest: shown_held_mono\<close>)
  show ?thesis
  proof (cases "kc_role st = viceroy_role")
    case True
    then show ?thesis using rest [of F] unfolding serveCardComment_def by (simp only: if_False simp_thms call_simps not_True_eq_False refl)
  next
    case False
    have "keeps (authorised S st now us) us F (\<lambda>w. call (requireOwnCard S (noted_tracker T) st cid w) (\<lambda>_ w.
        call (let n = kw_counts w (kc_agent st, cid) in
           if CommentCapOrDefault (cn_cards (ks_constitution S)) \<le> n
           then (Inl (V_Http 429 (''comment cap of '' @ show_int n @ '' reached for card '' @ cid)), w)
           else (Inr (), w\<lparr>kw_counts := (kw_counts w)((kc_agent st, cid) := n + 1)\<rparr>)) (\<lambda>_. ?rest)))"
      by (intro own_card_keeps keeps_call keeps_pure rest) (auto simp: Let_def)
    then show ?thesis using False unfolding serveCardComment_def admitOwnComment_def by (simp only: if_True not_False_eq_True call_assoc)
  qed
qed

lemma need_keeps:
  assumes "kc_role st \<in> own_roles"
  shows "keeps (authorised S st now us) us F (raiseNeed S (noted_tracker T) st q cid)"
  unfolding raiseNeed_def noted_tracker_simps
  by (intro keeps_decoded keeps_unless own_card_keeps keeps_call keeps_tracked keeps_ret)
    (use assms in \<open>auto simp: authorised_def fail_if_def dest: shown_held_mono split: if_splits\<close>)

lemma viceroy_close_keeps:
  assumes "kc_role st = viceroy_role"
  shows "keeps (authorised S st now us) us F (viceroyClose S (noted_tracker T) st now q cid)"
  unfolding viceroyClose_def noted_tracker_simps split_def
  apply (intro keeps_decoded keeps_unless keeps_show keeps_call keeps_tracked keeps_finish)
  subgoal for b raw G
    using assms by (auto simp: authorised_def close_granted_def fail_if_def split: if_splits option.splits prod.splits)
  by (auto simp: authorised_def)

lemma keeps_record: "keeps P us F f \<Longrightarrow> keeps P us F (\<lambda>w. f (recordEvent S st now k cid d w))"
  by (rule keeps_world) simp_all

lemma keeps_branch: "keeps P us F f \<Longrightarrow> keeps P us F g \<Longrightarrow> keeps P us F (\<lambda>w. if b w then f w else g w)"
  by (simp add: keeps_def)

lemma keeps_cong: "(\<And>w. f w = g w) \<Longrightarrow> keeps P us F f \<Longrightarrow> keeps P us F g"
  by (simp add: keeps_def)

lemma apply_labels_keeps:
  assumes "\<And>l. l \<in> set ls \<Longrightarrow> keeps P us F (f l)"
  shows "keeps P us F (apply_labels f ls)"
  using assms
proof (induction ls)
  case Nil
  then show ?case by (auto intro: keeps_pure)
next
  case (Cons l ls)
  have "keeps P us F (\<lambda>w. call (f l w) (\<lambda>_. apply_labels f ls))"
    by (intro keeps_call Cons) (use Cons.prems in auto)
  then show ?case by (rule keeps_cong [rotated]) simp
qed

lemma change_label_keeps:
  assumes "kc_role st = viceroy_role" "viceroyMayLabel S l"
  shows "keeps (authorised S st now us) us F (change_label S (noted_tracker T) st now cid add l)"
proof -
  have "keeps (authorised S st now us) us F (tracked (if add then kt_add_label (noted_tracker T) cid l else kt_remove_label (noted_tracker T) cid l))"
    using assms by (cases add) (auto intro!: keeps_tracked simp: authorised_def)
  moreover have "keeps (authorised S st now us) us F (tracked (kt_comment (noted_tracker T) cid t))" for t
    unfolding noted_tracker_simps by (intro keeps_tracked) (use assms in \<open>simp add: authorised_def\<close>)
  ultimately show ?thesis
    unfolding change_label_def by (intro keeps_call keeps_record)
qed

lemma change_fault_None:
  assumes "change_fault S add remove = None" "l \<in> set add \<union> set remove"
  shows "viceroyMayLabel S l"
proof -
  have "\<forall>e \<in> set (label_faults S add remove l). e = None"
    using assms by (auto simp: change_fault_def first_err_None simp del: fail_if_simps)
  then show ?thesis by (simp add: label_faults_def fail_if_def split: if_splits)
qed

lemma labels_keeps:
  assumes "kc_role st = viceroy_role"
  shows "keeps (authorised S st now us) us F (viceroyLabels S (noted_tracker T) st now q cid)"
  unfolding viceroyLabels_def split_def
  by (intro keeps_decoded keeps_unless keeps_call apply_labels_keeps change_label_keeps keeps_ret assms)
    (auto dest: change_fault_None)

definition open_epic :: "card_server \<Rightarrow> card_call set \<Rightarrow> string list \<Rightarrow> bool" where
  "open_epic S seen as \<longleftrightarrow>
     (\<exists>a \<in> set as. \<exists>epic i. K_Show a (Inr epic) \<in> seen \<and> cj_issue (ks_json S) epic = Some i \<and> is_type i = EpicType \<and> is_status i \<noteq> ''closed'')"

lemma under_approved_keeps:
  assumes "\<And>G. F \<subseteq> G \<Longrightarrow> keeps (authorised S st now us) us G (g False)"
    and "\<And>G. F \<subseteq> G \<Longrightarrow> open_epic S G as \<Longrightarrow> keeps (authorised S st now us) us G (g True)"
  shows "keeps (authorised S st now us) us F (\<lambda>w. call (under_approved S (noted_tracker T) as w) g)"
  using assms
proof (induction as arbitrary: F)
  case Nil
  then show ?case by (simp add: keeps_def)
next
  case (Cons a as)
  let ?P = "authorised S st now us" and ?U = "\<lambda>w. call (under_approved S (noted_tracker T) as w) g"
  have rest: "keeps ?P us G ?U" if "F \<subseteq> G" for G
  proof (rule Cons.IH)
    fix H assume H: "G \<subseteq> H"
    then show "keeps ?P us H (g False)" using Cons.prems(1) that by blast
    assume "open_epic S H as"
    then have "open_epic S H (a # as)" by (auto simp: open_epic_def)
    then show "keeps ?P us H (g True)" using Cons.prems(2) that H by blast
  qed
  have shown: "keeps ?P us (insert (K_Show a (Inr raw)) F) (\<lambda>w. call (case cj_issue (ks_json S) raw of
          None \<Rightarrow> under_approved S (noted_tracker T) as w
        | Some i \<Rightarrow>
            (if is_type i \<noteq> EpicType then under_approved S (noted_tracker T) as w
             else if is_status i = ''closed'' then under_approved S (noted_tracker T) as (w\<lparr>kw_epics := (kw_epics w)(a := None)\<rparr>)
             else (Inr True, w))) g)" for raw
  proof (cases "cj_issue (ks_json S) raw")
    case None
    then show ?thesis using rest by (simp add: subset_insertI)
  next
    case (Some i)
    have "keeps ?P us (insert (K_Show a (Inr raw)) F) (\<lambda>w. ?U (w\<lparr>kw_epics := (kw_epics w)(a := None)\<rparr>))"
      by (rule keeps_world [where h = "\<lambda>w. w\<lparr>kw_epics := (kw_epics w)(a := None)\<rparr>"]) (simp_all add: rest subset_insertI)
    moreover have "keeps ?P us (insert (K_Show a (Inr raw)) F) (g True)" if "is_type i = EpicType" "is_status i \<noteq> ''closed''"
      by (rule Cons.prems(2)) (use that Some in \<open>auto simp: open_epic_def\<close>)
    moreover note rest [OF subset_insertI, of "K_Show a (Inr raw)"]
    ultimately show ?thesis unfolding Some option.case
      by (cases "is_type i = EpicType"; cases "is_status i = ''closed''") simp_all
  qed
  have "keeps ?P us F (\<lambda>w. if kw_epics w a = None then ?U w
      else call (tracked (kt_show (noted_tracker T) a) w) (\<lambda>raw w. call (case cj_issue (ks_json S) raw of
          None \<Rightarrow> under_approved S (noted_tracker T) as w
        | Some i \<Rightarrow>
            (if is_type i \<noteq> EpicType then under_approved S (noted_tracker T) as w
             else if is_status i = ''closed'' then under_approved S (noted_tracker T) as (w\<lparr>kw_epics := (kw_epics w)(a := None)\<rparr>)
             else (Inr True, w))) g))"
    by (intro keeps_branch keeps_show rest shown order_refl) (simp add: authorised_def)
  then show ?case by (rule keeps_cong [rotated]) (simp add: call_assoc)
qed

lemma offer_keeps:
  assumes "kc_role st = viceroy_role"
  shows "keeps (authorised S st now us) us F (serve_offer S (noted_tracker T) st now cid)"
proof -
  let ?P = "authorised S st now us"
  let ?finish = "\<lambda>labels ty ancestors inherited w. let offered = Delegates (ks_constitution S) ty ancestors inherited;
               label = (if offered then LabelLine else LabelProposed) in
           call (if label \<in> set labels then (Inr (), w) else tracked (kt_add_label (noted_tracker T) cid label) w) (\<lambda>_ w.
           (Inr (''offer '' @ cid @ '' label='' @ label, Wrote_Offer offered label),
            recordEvent S st now ''offer'' cid (''label '' @ label) w))"
  have finish: "keeps ?P us G (?finish labels ty ancestors inherited)"
    if "K_Show cid (Inr raw) \<in> G" "cardLineage (ks_json S) raw cid = (ty, ancestors)" "inherited \<Longrightarrow> open_epic S G ancestors" for G raw ty ancestors inherited labels
  proof -
    have "?P H (K_Add cid (if Delegates (ks_constitution S) ty ancestors inherited then LabelLine else LabelProposed))" if "G \<subseteq> H" for H
    proof -
      have "?P G (K_Add cid (if Delegates (ks_constitution S) ty ancestors inherited then LabelLine else LabelProposed))"
      proof (cases "Delegates (ks_constitution S) ty ancestors inherited")
        case True
        then have "offer_granted S G cid"
          using \<open>K_Show cid (Inr raw) \<in> G\<close> \<open>cardLineage (ks_json S) raw cid = (ty, ancestors)\<close> \<open>inherited \<Longrightarrow> open_epic S G ancestors\<close>
          unfolding offer_granted_def open_epic_def by blast
        then show ?thesis using True assms by (simp add: authorised_def)
      qed (use assms in \<open>simp add: authorised_def\<close>)
      then show ?thesis using that by (rule authorised_mono)
    qed
    then show ?thesis unfolding Let_def noted_tracker_simps
      by (intro keeps_call keeps_if keeps_tracked keeps_finish keeps_ret) simp_all
  qed
  have shown: "keeps ?P us (insert (K_Show cid (Inr raw)) F) (\<lambda>w. let labels = cardLabels (ks_json S) raw in
       if LabelLine \<in> set labels then (Inr (''offer '' @ cid @ '' label='' @ LabelLine @ '' (already)'', Wrote_Offer True LabelLine), w)
       else case cardLineage (ks_json S) raw cid of (ty, ancestors) \<Rightarrow>
         call (underApprovedEpic S (noted_tracker T) ancestors w) (?finish labels ty ancestors))" for raw
  proof -
    obtain ty ancestors where l: "cardLineage (ks_json S) raw cid = (ty, ancestors)" by fastforce
    have "keeps ?P us (insert (K_Show cid (Inr raw)) F) (\<lambda>w. call (under_approved S (noted_tracker T) ancestors w) (?finish labels ty ancestors))" for labels
      by (rule under_approved_keeps; rule finish [OF _ l]) auto
    moreover have "keeps ?P us (insert (K_Show cid (Inr raw)) F) (\<lambda>w. call (Inr False, w) (?finish labels ty ancestors))" for labels
      by (rule keeps_Inr, rule finish [OF _ l]) auto
    ultimately show ?thesis unfolding l Let_def [of "cardLabels (ks_json S) raw"] prod.case underApprovedEpic_def
      by (intro keeps_if keeps_ret) (cases "ks_ledger S"; simp)
  qed
  show ?thesis unfolding serve_offer_def by (rule keeps_show [OF shown]) (simp add: authorised_def)
qed

lemma claim_keeps:
  assumes "kc_role st = makerRole"
  shows "keeps (authorised S st now us) us F (claim_card S (noted_tracker T) st now cid)"
proof (unfold keeps_def, intro allI impI)
  fix w :: "('a \<times> card_call list) card_world"
  let ?P = "authorised S st now us"
  assume w: "seen_at ?P us F w"
  show "seen_at ?P us F (snd (claim_card S (noted_tracker T) st now cid w))"
  proof (cases "blocked_for S st now cid w")
    case Nil
    then have "?P G (K_Claim cid (kc_agent st))" for G
      using w assms by (auto simp: authorised_def blocked_for_def seen_at_def)
    then have "keeps ?P us F (\<lambda>w. call (tracked (kt_claim (noted_tracker T) cid (kc_agent st)) w) (\<lambda>_ w.
        (Inr (), w\<lparr>kw_counts := (kw_counts w)((kc_agent st, cid) := 0)\<rparr>)))"
      unfolding noted_tracker_simps by (intro keeps_call keeps_tracked keeps_finish) simp_all
    then show ?thesis using w Nil by (simp add: claim_card_def unless_def keeps_def)
  qed (use w in \<open>simp add: claim_card_def unless_def\<close>)
qed

lemma settle_keeps:
  assumes "kc_role st = makerRole"
  shows "keeps (authorised S st now us) us F (settle_card S (noted_tracker T) st now q a cid)"
proof -
  let ?P = "authorised S st now us"
  have act: "keeps ?P us G (\<lambda>w. case a of
             Claim_Card \<Rightarrow> claim_card S (noted_tracker T) st now cid w
           | Close_Card \<Rightarrow> call (tracked (kt_close (noted_tracker T) cid (kc_agent st) reason) w) (\<lambda>_ w. (Inr (), revokeEpicApproval S cid w))
           | Release_Card \<Rightarrow> tracked (kt_release (noted_tracker T) cid (kc_agent st) reason) w
           | Give_Up_Card \<Rightarrow> give_up_card (noted_tracker T) cid reason king w)"
    if "a = Claim_Card \<or> shown_held S G cid {kc_agent st} \<or> (a = Give_Up_Card \<and> shown_held S G cid {kc_agent st, []})" for G reason king
  proof -
    have held: "shown_held S H cid {kc_agent st}" if "a \<noteq> Claim_Card" "a \<noteq> Give_Up_Card" "G \<subseteq> H" for H
      using that \<open>a = Claim_Card \<or> _\<close> shown_held_mono by blast
    have free: "shown_held S H cid {kc_agent st, []}" if "a = Give_Up_Card" "G \<subseteq> H" for H
      using that \<open>a = Claim_Card \<or> _\<close> shown_held_mono [of S G cid _ H] by (auto simp: shown_held_def)
    show ?thesis
    proof (cases a)
      case Claim_Card
      then show ?thesis using claim_keeps [OF assms] by simp
    next
      case Give_Up_Card
      have "keeps ?P us G (give_up_card (noted_tracker T) cid reason king)"
        unfolding give_up_card_def noted_tracker_simps
        by (intro keeps_call keeps_tracked keeps_if keeps_ret) (use free Give_Up_Card assms in \<open>simp_all add: authorised_def\<close>)
      then show ?thesis using Give_Up_Card by simp
    next
      case Close_Card
      then show ?thesis unfolding noted_tracker_simps Close_Card settle_action.case
        by (intro keeps_call keeps_tracked keeps_finish) (use held Close_Card assms in \<open>simp_all add: authorised_def\<close>)
    next
      case Release_Card
      then show ?thesis unfolding noted_tracker_simps Release_Card settle_action.case
        by (intro keeps_tracked) (use held Release_Card assms in \<open>simp_all add: authorised_def\<close>)
    qed
  qed
  let ?rest = "\<lambda>w. call (if a = Claim_Card then (Inr ([], False), w)
           else call (decoded (cq_reason q) w) (\<lambda>(reason, king) w. call (unless (requireReason reason) w) (\<lambda>_ w. (Inr (reason, king), w))))
       (\<lambda>(reason, king) w.
     call (case a of
             Claim_Card \<Rightarrow> claim_card S (noted_tracker T) st now cid w
           | Close_Card \<Rightarrow> call (tracked (kt_close (noted_tracker T) cid (kc_agent st) reason) w) (\<lambda>_ w. (Inr (), revokeEpicApproval S cid w))
           | Release_Card \<Rightarrow> tracked (kt_release (noted_tracker T) cid (kc_agent st) reason) w
           | Give_Up_Card \<Rightarrow> give_up_card (noted_tracker T) cid reason king w) (\<lambda>_ w.
     (Inr (action_text a @ '' '' @ cid, Wrote_Ok), recordEvent S st now (action_text a) cid reason w)))"
  have rest: "keeps ?P us G ?rest"
    if "a = Claim_Card \<or> shown_held S G cid {kc_agent st} \<or> (a = Give_Up_Card \<and> shown_held S G cid {kc_agent st, []})" for G
    unfolding split_def
    by (intro keeps_call keeps_if keeps_ret keeps_decoded keeps_unless act [OF that] keeps_finish) simp_all
  show ?thesis
  proof (cases "a = Claim_Card")
    case True
    have "keeps ?P us F (\<lambda>w. call (Inr (), w) (\<lambda>_. ?rest))" by (rule keeps_Inr, rule rest) (simp add: True)
    then show ?thesis using True unfolding settle_card_def holds_card_def by (simp only: if_True refl)
  next
    case False
    have "keeps ?P us F (\<lambda>w. call (tracked (kt_show (noted_tracker T) cid) w) (\<lambda>raw w.
        call (unless (fail_if (cardAssignee (ks_json S) raw \<noteq> kc_agent st \<and> \<not> (a = Give_Up_Card \<and> cardAssignee (ks_json S) raw = []))
          (V_Http 403 (''card '' @ cid @ '' is claimed by '' @ go_quote (cardAssignee (ks_json S) raw) @ '', not '' @ go_quote (kc_agent st)))) w) (\<lambda>_. ?rest)))"
      by (intro keeps_show keeps_unless rest) (auto simp: fail_if_def shown_held_def authorised_def split: if_splits)
    then show ?thesis using False unfolding settle_card_def holds_card_def by (simp only: if_False call_assoc Let_def)
  qed
qed

lemma action_keeps:
  assumes "map_of cardActions t = Some (a, roles)" "kc_role st \<in> set roles"
  shows "keeps (authorised S st now us) us F (card_action_route S (noted_tracker T) st now q cid a)"
proof -
  have roles: "kc_role st = viceroy_role \<or> kc_role st \<in> own_roles" if "a = Act_Comments"
    using assms that by (auto simp: cardActions_def own_roles_def makerRole_def split: if_splits)
  have own: "kc_role st \<in> own_roles" if "a = Act_Needs"
    using assms that by (auto simp: cardActions_def own_roles_def split: if_splits)
  have viceroy: "kc_role st = viceroy_role" if "a = Act_Offer \<or> a = Act_Labels"
    using assms that by (auto simp: cardActions_def split: if_splits)
  have maker: "kc_role st = makerRole" if "a = Act_Settle b" "\<not> (b = Close_Card \<and> kc_role st = viceroy_role)" for b
    using assms that by (auto simp: cardActions_def split: if_splits)
  show ?thesis
  proof (cases a)
    case (Act_Settle b)
    show ?thesis
    proof (cases "b = Close_Card \<and> kc_role st = viceroy_role")
      case True
      then show ?thesis by (simp add: card_action_route_def [abs_def] Act_Settle viceroy_close_keeps)
    next
      case False
      have m: "kc_role st = makerRole" by (rule maker [OF Act_Settle False])
      show ?thesis using False by (auto simp: card_action_route_def [abs_def] Act_Settle settle_keeps [OF m])
    qed
  qed (use comment_keeps [OF roles] need_keeps [OF own] labels_keeps [OF viceroy] offer_keeps [OF viceroy] in
      \<open>simp_all add: card_action_route_def [abs_def]\<close>)
qed

lemma writer_gate_keeps: "keeps P us F (writer_gate S st q roles)"
  by (rule keeps_pure) (auto simp: writer_gate_def split: prod.splits option.splits)

lemma keeps_gate:
  assumes "cq_method q = ''POST'' \<Longrightarrow> kc_role st \<in> set roles \<Longrightarrow> keeps P us F g" "cq_method q \<noteq> ''POST'' \<Longrightarrow> keeps P us F g"
  shows "keeps P us F (\<lambda>w. call (writer_gate S st q roles w) (\<lambda>_. g))"
proof (cases "cq_method q = ''POST'' \<and> kc_role st \<notin> set roles")
  case True
  then show ?thesis by (simp add: writer_gate_def keeps_def)
next
  case False
  then show ?thesis using assms by (intro keeps_call writer_gate_keeps) auto
qed

lemma card_path_action: "card_path_of p = Card_Action cid a roles \<Longrightarrow> \<exists>t. map_of cardActions t = Some (a, roles)"
  by (auto simp: card_path_of_def Let_def split: if_splits list.splits option.splits)

lemma routeCards_keeps:
  fixes T :: "'s card_tracker"
  shows "keeps (authorised S st now us) us F (routeCards S (Some (noted_tracker T)) st now q)"
proof -
  let ?P = "authorised S st now us"
  let ?p = "card_path_of (cq_path q)"
  have served: "keeps ?P us F (\<lambda>w. call (writer_gate S st q (case ?p of Card_Action _ _ roles \<Rightarrow> roles | _ \<Rightarrow> [viceroy_role]) w) (\<lambda>_ w.
      case ?p of
        Cards_Root \<Rightarrow> (if cq_method q = ''GET'' then serveCardList S (noted_tracker T) st now q w else serveCardCreate S (noted_tracker T) q w)
      | Card_At cid \<Rightarrow>
          call (unless (validID cid) w) (\<lambda>_ w. call (tracked (kt_show (noted_tracker T) cid) w) (\<lambda>out w. writeRaw S (''show '' @ cid) out w))
      | Card_Action cid a roles \<Rightarrow> call (unless (validID cid) w) (\<lambda>_ w. card_action_route S (noted_tracker T) st now q cid a w)
      | No_Card_Path \<Rightarrow> (Inl (V_Http 404 (''no route '' @ cq_path q)), w)))"
    if m: "wanted_method q ?p = Inr (cq_method q)"
  proof (cases ?p)
    case Cards_Root
    have "kc_role st = viceroy_role" if "cq_method q = ''POST''" "kc_role st \<in> set [viceroy_role]" using that by simp
    then show ?thesis unfolding Cards_Root card_path.case
      by (intro keeps_gate keeps_if list_keeps create_keeps) (use m Cards_Root in \<open>auto simp: wanted_method_def split: if_splits\<close>)
  next
    case (Card_At cid)
    then show ?thesis unfolding Card_At card_path.case
      by (intro keeps_gate keeps_unless keeps_show writeRaw_keeps) (simp_all add: authorised_def)
  next
    case (Card_Action cid a roles)
    obtain t where t: "map_of cardActions t = Some (a, roles)" using card_path_action [OF Card_Action] by blast
    have "cq_method q = ''POST''" using m Card_Action by (simp add: wanted_method_def)
    then show ?thesis unfolding Card_Action card_path.case
      by (intro keeps_gate keeps_unless action_keeps [OF t]) simp_all
  next
    case No_Card_Path
    then show ?thesis using m by (simp add: wanted_method_def)
  qed
  show ?thesis
  proof (cases "wanted_method q ?p = Inr (cq_method q)")
    case True
    then show ?thesis using served unfolding routeCards_def Let_def True sum.case option.case by simp
  next
    case False
    then show ?thesis by (intro keeps_pure) (auto simp: routeCards_def Let_def split: sum.splits)
  qed
qed

end
