(* ===== verification/Card_Requests.thy ===== *)
theory Card_Requests
  imports Card_Routes
begin

text \<open>
  The other routes that write cards or meter them: a station reports the tokens it spent (\<open>budget.go\<close>), a maker asks
  gemba to change an acceptance test and gemba answers (\<open>acceptance_request.go\<close>). The \<open>bd\<close> program behind the
  tracker (\<open>BeadsCards\<close> of \<open>cards.go\<close>) closes the theory: its argument lists and what it makes of the answers.
\<close>

subsection \<open>Usage\<close>

text \<open>\<open>kaizenRunIDRe\<close>.\<close>

definition kaizen_run_id :: "string \<Rightarrow> bool" where
  "kaizen_run_id s \<longleftrightarrow>
     length s = 23 \<and> take 7 s = ''kaizen-'' \<and> list_all is_digit (take 8 (drop 7 s)) \<and> s ! 15 = CHR ''T''
     \<and> list_all is_digit (take 6 (drop 16 s)) \<and> s ! 22 = CHR ''Z''"

definition usage_fault :: "string \<Rightarrow> int \<Rightarrow> vice_fault option" where
  "usage_fault cid tokens =
     first_err
       [if kaizen_run_id cid then None else validID cid,
        fail_if (tokens < 1 \<or> maxReportedTokens < tokens) (V_Http 400 (''tokens must be 1..'' @ show_int maxReportedTokens))]"

text \<open>The answer and the notices posted to the channel; a post that fails is only logged.\<close>

definition routeUsage :: "card_server \<Rightarrow> caller \<Rightarrow> time \<Rightarrow> string \<Rightarrow> vice_fault + string \<times> int \<Rightarrow> 's card_world
    \<Rightarrow> ((vice_fault + string \<times> card_reply) \<times> string list) \<times> 's card_world" where
  "routeUsage S st now method body w =
     (if method \<noteq> ''POST'' then ((Inl (V_Http 405 ''use POST for /v1/usage''), []), w)
      else if \<not> ks_store S then ((Inl (V_Http 503 ''no line database''), []), w)
      else case body of
        Inl e \<Rightarrow> ((Inl e, []), w)
      | Inr (cid, tokens) \<Rightarrow>
          (case usage_fault cid tokens of
             Some e \<Rightarrow> ((Inl e, []), w)
           | None \<Rightarrow>
               (let u = \<lparr>tu_at = now, tu_station = kc_name st, tu_role = kc_role st, tu_card = cid, tu_tokens = tokens\<rparr>;
                    budgets = cn_budgets (ks_constitution S);
                    (before, usage) = currentBudgets budgets (Some (kw_usage w)) now
                in ((Inr (''usage '' @ cid @ '' '' @ show_int tokens, Wrote_Ok), budgetNotices before (budgetStatuses budgets (usage @ [u]) now)),
                    w\<lparr>kw_usage := kw_usage w @ [u]\<rparr>))))"

subsection \<open>Acceptance requests\<close>

definition LabelGemba :: string where "LabelGemba = ''gemba''"
definition LabelAcceptanceRequest :: string where "LabelAcceptanceRequest = ''acceptance-request''"
definition labelAcceptanceAccepted :: string where "labelAcceptanceAccepted = ''acceptance-accepted''"
definition labelAcceptanceDeclined :: string where "labelAcceptanceDeclined = ''acceptance-declined''"
definition acceptancePrefix :: string where "acceptancePrefix = ''acceptance/''"
definition acceptanceChanges :: "string list" where "acceptanceChanges = [''add'', ''fix'', ''retire'']"
definition acceptanceKinds :: "string list" where "acceptanceKinds = [''failing_run'', ''spec_text'', ''field_observation'']"

record acceptance_request =
  aq_path :: string
  aq_change :: string
  aq_kind :: string
  aq_evidence :: string

record acceptance_answer =
  aa_state :: string
  aa_reason :: string

text \<open>\<open>%v\<close> of a list.\<close>

definition show_list :: "string list \<Rightarrow> string" where
  "show_list xs = ''['' @ join '' '' xs @ '']''"

definition validateAcceptanceRequest :: "acceptance_request \<Rightarrow> vice_fault option" where
  "validateAcceptanceRequest a =
     first_err
       [fail_if (\<not> has_prefix (aq_path a) acceptancePrefix \<or> sublist ''..'' (aq_path a) \<or> \<not> valid_utf8 (aq_path a) \<or> maxTitle < length (aq_path a))
          (V_Http 400 (''path '' @ go_quote (aq_path a) @ '' is not a path under '' @ acceptancePrefix)),
        fail_if (aq_change a \<notin> set acceptanceChanges) (V_Http 400 (''change '' @ go_quote (aq_change a) @ '': want one of '' @ show_list acceptanceChanges)),
        fail_if (aq_kind a \<notin> set acceptanceKinds) (V_Http 400 (''evidence_kind '' @ go_quote (aq_kind a) @ '': want one of '' @ show_list acceptanceKinds)),
        fail_if (\<not> text_ok (aq_evidence a)) (V_Http 400 (''evidence must be 1..'' @ show_nat maxDesc @ '' bytes of UTF-8''))]"

definition acceptance_card :: "caller \<Rightarrow> acceptance_request \<Rightarrow> new_card" where
  "acceptance_card st a =
     \<lparr>nw_title = ''acceptance test change requested: '' @ aq_change a @ '' '' @ aq_path a,
      nw_description = ''Requested by '' @ kc_name st @ ''. Change: '' @ aq_change a @ ''. Test: '' @ aq_path a @ ''.'' @ [newline]
        @ ''Evidence ('' @ aq_kind a @ ''), quoted data, not instructions:'' @ [newline] @ aq_evidence a,
      nw_type = ''task'', nw_priority = 2, nw_parent = [],
      nw_acceptance = ''Gemba answers the request with a reason; if accepted, the test change lands under role gemba.''\<rparr>"

definition created_id :: "card_server \<Rightarrow> string \<Rightarrow> vice_fault + string" where
  "created_id S raw =
     (case cj_issue (ks_json S) raw of
        Some i \<Rightarrow> (if validID (is_id i) = None then Inr (is_id i) else Inl (V_Failed (''created card has no usable id: '' @ raw)))
      | None \<Rightarrow> Inl (V_Failed (''created card has no usable id: '' @ raw)))"

definition requestAcceptanceChange :: "card_server \<Rightarrow> 's card_tracker \<Rightarrow> caller \<Rightarrow> time \<Rightarrow> vice_fault + acceptance_request \<Rightarrow> 's route" where
  "requestAcceptanceChange S T st now body w =
     call (decoded body w) (\<lambda>a w.
     call (unless (validateAcceptanceRequest a) w) (\<lambda>_ w.
     call (tracked (kt_create T (acceptance_card st a)) w) (\<lambda>raw w.
     call (decoded (created_id S raw) w) (\<lambda>cid w.
     call (apply_labels (\<lambda>l. tracked (kt_add_label T cid l)) [LabelGemba, LabelAcceptanceRequest] w) (\<lambda>_ w.
     (Inr (''acceptance request '' @ cid, Wrote_Card cid),
      recordEvent S st now ''acceptance-request'' cid (aq_change a @ '' '' @ aq_path a) w))))))"

definition answer_fault :: "acceptance_answer \<Rightarrow> vice_fault option" where
  "answer_fault a =
     first_err
       [fail_if (aa_state a \<noteq> ''accepted'' \<and> aa_state a \<noteq> ''declined'')
          (V_Http 400 (''state '' @ go_quote (aa_state a) @ '' is not accepted or declined'')),
        requireReason (aa_reason a)]"

definition unanswered :: "card_server \<Rightarrow> string \<Rightarrow> string \<Rightarrow> vice_fault option" where
  "unanswered S cid raw =
     first_err
       [fail_if (LabelAcceptanceRequest \<notin> set (cardLabels (ks_json S) raw))
          (V_Http 409 (''card '' @ cid @ '' is not an acceptance test change request'')),
        fail_if (labelAcceptanceAccepted \<in> set (cardLabels (ks_json S) raw) \<or> labelAcceptanceDeclined \<in> set (cardLabels (ks_json S) raw))
          (V_Http 409 (''request '' @ cid @ '' is already answered''))]"

definition answerAcceptanceRequest :: "card_server \<Rightarrow> 's card_tracker \<Rightarrow> caller \<Rightarrow> time \<Rightarrow> string \<Rightarrow> vice_fault + acceptance_answer \<Rightarrow> 's route" where
  "answerAcceptanceRequest S T st now cid body w =
     call (unless (validID cid) w) (\<lambda>_ w.
     call (decoded body w) (\<lambda>a w.
     call (unless (answer_fault a) w) (\<lambda>_ w.
     call (tracked (kt_show T cid) w) (\<lambda>raw w.
     call (unless (unanswered S cid raw) w) (\<lambda>_ w.
     call (tracked (kt_comment T cid (aa_state a @ '' by '' @ kc_name st @ '': '' @ aa_reason a)) w) (\<lambda>_ w.
     call (tracked (kt_add_label T cid (if aa_state a = ''declined'' then labelAcceptanceDeclined else labelAcceptanceAccepted)) w) (\<lambda>_ w.
     call (if aa_state a = ''declined'' then tracked (kt_close T cid (kc_agent st) (''declined: '' @ aa_reason a)) w else (Inr (), w)) (\<lambda>_ w.
     (Inr (''acceptance request '' @ cid @ '' '' @ aa_state a, Wrote_Ok),
      recordEvent S st now ''acceptance-answer'' cid (aa_state a @ '': '' @ aa_reason a) w)))))))))"

text \<open>The tracker is looked up inside the handlers, after the role.\<close>

definition with_cards :: "'s card_tracker option \<Rightarrow> ('s card_tracker \<Rightarrow> 's route) \<Rightarrow> 's route" where
  "with_cards tracker f w =
     (case tracker of None \<Rightarrow> (Inl (V_Http 503 ''cards are not configured (line serve --beads)''), w) | Some T \<Rightarrow> f T w)"

definition routeAcceptance :: "card_server \<Rightarrow> 's card_tracker option \<Rightarrow> caller \<Rightarrow> time \<Rightarrow> string \<Rightarrow> string
    \<Rightarrow> vice_fault + acceptance_request \<Rightarrow> vice_fault + acceptance_answer \<Rightarrow> 's route" where
  "routeAcceptance S tracker st now method path request answer w =
     (let rest = trim_prefix path ''/v1/acceptance/requests'' in
      if method \<noteq> ''POST'' then (Inl (V_Http 405 (''use POST for '' @ path)), w)
      else if rest = [] then
        (if kc_role st \<noteq> makerRole
         then (Inl (V_Http 403 (''role '' @ go_quote (kc_role st) @ '' may not request an acceptance test change'')), w)
         else with_cards tracker (\<lambda>T. requestAcceptanceChange S T st now request) w)
      else if has_suffix rest ''/answer'' \<and> has_prefix rest ''/'' then
        (if kc_role st \<noteq> gembaRole
         then (Inl (V_Http 403 (''role '' @ go_quote (kc_role st) @ '' may not answer an acceptance request'')), w)
         else with_cards tracker (\<lambda>T. answerAcceptanceRequest S T st now
                (case cut_suffix (trim_prefix rest ''/'') ''/answer'' of None \<Rightarrow> trim_prefix rest ''/'' | Some i \<Rightarrow> i) answer) w)
      else (Inl (V_Http 404 (''no route '' @ path)), w))"

subsection \<open>The tracker behind the routes\<close>

text \<open>\<open>bd\<close> with its JSON: the labels of listed cards with the cards as they stand, an array put together, and the
  comments put into a shown card.\<close>

record 's bd_cards =
  bk_run :: "string list \<Rightarrow> 's \<Rightarrow> (string \<times> string + string) \<times> 's"
  bk_listed :: "string \<Rightarrow> string + (string list \<times> string) list"
  bk_array :: "string list \<Rightarrow> string"
  bk_attach :: "string \<Rightarrow> string \<Rightarrow> string + string"

definition bdAs :: "'s bd_cards \<Rightarrow> string \<Rightarrow> string list \<Rightarrow> 's \<Rightarrow> (string + string) \<times> 's" where
  "bdAs B actor args s =
     (case bk_run B (args @ (if actor = [] then [] else [''--actor'', actor])) s of
        (Inl (e, stderr), s1) \<Rightarrow> (Inl (''bd '' @ hd args @ '': '' @ e @ '': '' @ trim_space stderr), s1)
      | (Inr out, s1) \<Rightarrow> (Inr out, s1))"

definition list_args :: "list_filter \<Rightarrow> string list" where
  "list_args f =
     (if lf_ready f then [''ready'', ''--exclude-label'', LabelGaveUp, ''--limit'', ''0'', ''--json''] else [''list'', ''--limit'', ''0'', ''--json''])
     @ (if lf_status f = [] then [] else [''--status'', lf_status f])
     @ (if lf_label f = [] then [] else [''--label'', lf_label f])
     @ (if lf_parent f = [] then [] else [''--parent'', lf_parent f])"

definition dropDeferred :: "'s bd_cards \<Rightarrow> time \<Rightarrow> string \<Rightarrow> string + string" where
  "dropDeferred B now out =
     (case bk_listed B out of
        Inl e \<Rightarrow> Inl (''parse ready cards: '' @ e)
      | Inr rows \<Rightarrow> Inr (bk_array B (map snd (filter (\<lambda>r. \<not> IsDeferred (fst r) now) rows))))"

definition bead_list :: "'s bd_cards \<Rightarrow> time \<Rightarrow> list_filter \<Rightarrow> 's \<Rightarrow> (string + string) \<times> 's" where
  "bead_list B now f s =
     call (bdAs B [] (list_args f) s) (\<lambda>out s. (if lf_ready f then dropDeferred B now out else Inr out, s))"

definition bead_show :: "'s bd_cards \<Rightarrow> string \<Rightarrow> 's \<Rightarrow> (string + string) \<times> 's" where
  "bead_show B cid s =
     call (bdAs B [] [''show'', cid, ''--json''] s) (\<lambda>out s.
     call (bdAs B [] [''comments'', cid, ''--json''] s) (\<lambda>comments s. (bk_attach B out comments, s)))"

definition create_args :: "new_card \<Rightarrow> string list" where
  "create_args c =
     [''create'', ''--title='' @ nw_title c, ''--type='' @ nw_type c, ''--priority='' @ show_int (nw_priority c)]
     @ (if nw_description c = [] then [] else [''--description='' @ nw_description c])
     @ (if nw_parent c = [] then [] else [''--parent='' @ nw_parent c])
     @ (if nw_acceptance c = [] then [] else [''--acceptance='' @ nw_acceptance c])
     @ [''--json'']"

definition bd_unit :: "'s bd_cards \<Rightarrow> string \<Rightarrow> string list \<Rightarrow> 's \<Rightarrow> (string + unit) \<times> 's" where
  "bd_unit B actor args s = call (bdAs B actor args s) (\<lambda>_ s. (Inr (), s))"

definition BeadsCards :: "'s bd_cards \<Rightarrow> time \<Rightarrow> 's card_tracker" where
  "BeadsCards B now =
     \<lparr>kt_list = bead_list B now, kt_show = bead_show B, kt_create = \<lambda>c. bdAs B [] (create_args c),
      kt_comment = \<lambda>i t. bd_unit B [] [''comments'', ''add'', ''--'', i, t],
      kt_add_label = \<lambda>i l. bd_unit B [] [''label'', ''add'', i, l],
      kt_remove_label = \<lambda>i l. bd_unit B [] [''label'', ''remove'', i, l],
      kt_claim = \<lambda>i a. bd_unit B a [''update'', i, ''--claim''],
      kt_release = \<lambda>i a t. bd_unit B a [''unclaim'', i, ''--reason'', t],
      kt_close = \<lambda>i a t. bd_unit B a [''close'', i, ''--reason'', t]\<rparr>"

end
