(* ===== verification/Card_Properties.thy ===== *)
theory Card_Properties
  imports Card_Authority Card_Requests Line_Example
begin

text \<open>
  What the card routes guarantee: who may write which card, and that spent budgets keep cards from makers.
\<close>


definition ex_issue :: issue where
  "ex_issue = \<lparr>is_id = ''c1'', is_type = ''task'', is_parent = [], is_labels = [''line''], is_assignee = ''m1'', is_status = ''in_progress'', is_comments = 0\<rparr>"

definition ex_json :: card_json where
  "ex_json = \<lparr>cj_issue = \<lambda>_. Some ex_issue, cj_valid = \<lambda>_. True, cj_rows = \<lambda>_. Inr [], cj_array = \<lambda>_. ''[]''\<rparr>"

definition ex_budgeted :: constitution where
  "ex_budgeted = ex_constitution\<lparr>cn_budgets := [\<lparr>bu_scope = ''line'', bu_tokens = 100, bu_period = ''24h'', bu_warn_percent = 0\<rparr>]\<rparr>"

definition ex_server :: card_server where
  "ex_server = \<lparr>ks_json = ex_json, ks_constitution = ex_budgeted, ks_digest = ''sha256:c'', ks_viceroy = False, ks_store = True, ks_ledger = False\<rparr>"

definition ex_plain_tracker :: "unit card_tracker" where
  "ex_plain_tracker =
     \<lparr>kt_list = \<lambda>_ s. (Inr ''[]'', s), kt_show = \<lambda>_ s. (Inr ''{}'', s), kt_create = \<lambda>_ s. (Inr ''{}'', s), kt_comment = \<lambda>_ _ s. (Inr (), s),
      kt_add_label = \<lambda>_ _ s. (Inr (), s), kt_remove_label = \<lambda>_ _ s. (Inr (), s), kt_claim = \<lambda>_ _ s. (Inr (), s),
      kt_release = \<lambda>_ _ _ s. (Inr (), s), kt_close = \<lambda>_ _ _ s. (Inr (), s)\<rparr>"

definition ex_no_viceroy :: supervisor where
  "ex_no_viceroy = \<lparr>su_starting = False, su_pending = None, su_current = None, su_log = [], su_next = 0\<rparr>"

definition ex_card_world :: "'s \<Rightarrow> token_usage list \<Rightarrow> 's card_world" where
  "ex_card_world s us = \<lparr>kw_tracker = s, kw_counts = \<lambda>_. 0, kw_epics = Map.empty, kw_usage = us, kw_events = [], kw_supervisor = ex_no_viceroy\<rparr>"

definition ex_maker_caller :: caller where
  "ex_maker_caller = \<lparr>kc_name = ''maker'', kc_role = ''maker'', kc_agent = ''m1''\<rparr>"

definition ex_card_request :: "string \<Rightarrow> card_request" where
  "ex_card_request path =
     \<lparr>cq_path = path, cq_method = ''POST'', cq_gen = [], cq_filter = \<lparr>lf_status = [], lf_label = [], lf_parent = [], lf_ready = False\<rparr>,
      cq_new = Inl (V_Http 400 []), cq_text = Inl (V_Http 400 []), cq_reason = Inr (''landed'', False), cq_change = Inl (V_Http 400 []),
      cq_role = Inl (V_Http 400 [])\<rparr>"


lemma failed_not_http: "map_sum V_Failed id r \<noteq> Inl (V_Http n t)"
  by (cases r) simp_all

text \<open>C10. A maker's claim is answered 429, without a call on the tracker, exactly when some token budget for the line, for
  makers or for the card is spent: the tokens reported in its rolling window that count toward it (summed in 64 bits)
  reach its limit.\<close>

theorem claims_blocked_iff_budget_spent:
  assumes "\<forall>b \<in> set (cn_budgets (ks_constitution S)). 1 \<le> bu_tokens b" "ks_store S" "kc_role st = makerRole"
  shows "(\<exists>why. settle_card S T st now q Claim_Card cid w = (Inl (V_Http 429 why), w)) \<longleftrightarrow>
    (\<exists>b \<in> set (cn_budgets (ks_constitution S)). bu_scope b \<in> {BudgetScopeLine, makerRole, BudgetScopeCard}
       \<and> bu_tokens b \<le> wrap64 (spent_in b now (budget_key b cid) (kw_usage w)))"
proof -
  have "makerRole \<noteq> BudgetScopeCard" by (simp add: makerRole_def BudgetScopeCard_def)
  then have "blocked_for S st now cid w \<noteq> [] \<longleftrightarrow>
      (\<exists>b \<in> set (cn_budgets (ks_constitution S)). bu_scope b \<in> {BudgetScopeLine, makerRole, BudgetScopeCard}
         \<and> bu_tokens b \<le> wrap64 (spent_in b now (budget_key b cid) (kw_usage w)))"
    using budget_blocks_iff [OF assms(1)] assms(2,3) by (simp add: blocked_for_def)
  moreover have "(\<exists>why. settle_card S T st now q Claim_Card cid w = (Inl (V_Http 429 why), w)) \<longleftrightarrow> blocked_for S st now cid w \<noteq> []"
    by (auto simp: settle_card_def holds_card_def claim_card_def unless_def tracked_def failed_not_http split: list.splits prod.splits sum.splits)
      (auto simp: call_def failed_not_http split: sum.splits)
  ultimately show ?thesis by simp
qed

theorem claims_blocked_iff_budget_spent_witness:
  "\<exists>why. settle_card ex_server ex_plain_tracker ex_maker_caller 50 (ex_card_request ''/v1/cards/c1/claim'') Claim_Card ''c1''
      (ex_card_world () [\<lparr>tu_at = 10, tu_station = ''maker'', tu_role = ''maker'', tu_card = ''c0'', tu_tokens = 100\<rparr>])
    = (Inl (V_Http 429 why), ex_card_world () [\<lparr>tu_at = 10, tu_station = ''maker'', tu_role = ''maker'', tu_card = ''c0'', tu_tokens = 100\<rparr>])"
proof -
  have period: "PeriodDuration \<lparr>bu_scope = ''line'', bu_tokens = 100, bu_period = ''24h'', bu_warn_percent = 0\<rparr> = Some (24 * hour)"
    by code_simp
  have spent: "\<exists>b \<in> set (cn_budgets (ks_constitution ex_server)). bu_scope b \<in> {BudgetScopeLine, makerRole, BudgetScopeCard}
      \<and> bu_tokens b \<le> wrap64 (spent_in b 50 (budget_key b ''c1'') [\<lparr>tu_at = 10, tu_station = ''maker'', tu_role = ''maker'', tu_card = ''c0'', tu_tokens = 100\<rparr>])"
    by (simp add: ex_server_def ex_budgeted_def BudgetScopeLine_def BudgetScopeCard_def spent_in_def spent_key_def budget_period_def period
        budget_key_def wrap64_def hour_def minute_def second_def)
  show ?thesis
    by (subst claims_blocked_iff_budget_spent)
      (use spent in \<open>simp_all add: ex_card_world_def ex_maker_caller_def makerRole_def ex_server_def ex_budgeted_def\<close>)
qed

end

