(* ===== verification/Deploy.thy ===== *)
theory Deploy
  imports Succession
begin

text \<open>
  Rolling the line onto its own host. \<open>line/station/deploy.go\<close> keeps the requests, the desired release and the
  last outcome in one file and asks the king; \<open>line/deploy/deploy.go\<close> is the actuator that polls the desired
  release and applies it. The builder of images, the chat channel and the platform's backend are parameters.
\<close>

subsection \<open>State\<close>

record release =
  rl_commit :: string
  rl_image :: string
  rl_digest :: string

record deploy_request =
  dr_release :: release
  dr_at :: time
  dr_by :: string
  dr_approved :: bool
  dr_approved_by :: string

record deploy_status =
  ds_commit :: string
  ds_state :: string
  ds_detail :: string
  ds_at :: time

record deploy_file =
  df_requests :: "deploy_request list"
  df_desired :: string
  df_status :: "deploy_status option"

definition StateApplied :: string where "StateApplied = ''applied''"
definition StateRolledBack :: string where "StateRolledBack = ''rolled_back''"
definition StateFailed :: string where "StateFailed = ''failed''"
definition deployerName :: string where "deployerName = ''deployer''"
definition shortLen :: nat where "shortLen = 12"
definition minShort :: nat where "minShort = 7"

subsection \<open>Releases\<close>

text \<open>\<open>path.Base\<close>: the last element, without trailing slashes.\<close>

definition path_base :: "string \<Rightarrow> string" where
  "path_base p =
     (if p = [] then ''.''
      else let q = rev (dropWhile (\<lambda>c. c = CHR ''/'') (rev p))
           in if q = [] then ''/'' else last (split_char (CHR ''/'') q))"

definition image_ok :: "string \<Rightarrow> bool" where
  "image_ok s \<longleftrightarrow>
     s \<noteq> [] \<and> (is_lower (hd s) \<or> is_digit (hd s))
     \<and> list_all (\<lambda>c. is_lower c \<or> is_upper c \<or> is_digit c \<or> c \<in> set ''._:/-'') (tl s)"

definition digest_ok :: "string \<Rightarrow> bool" where
  "digest_ok s \<longleftrightarrow> (case cut_prefix s ''sha256:'' of None \<Rightarrow> False | Some h \<Rightarrow> length h = 64 \<and> list_all is_hex h)"

definition Validate :: "bool \<Rightarrow> release \<Rightarrow> string option" where
  "Validate container r =
     first_err
       ([fail_if (\<not> full_hex (rl_commit r)) (''release commit '' @ go_quote (rl_commit r) @ '' is not a full lowercase hex object id'')]
        @ (if \<not> container then []
           else [fail_if (\<not> image_ok (rl_image r) \<or> CHR '':'' \<in> set (path_base (rl_image r)))
                   (''release image '' @ go_quote (rl_image r) @ '' must be a repository without tag or digest''),
                 fail_if (\<not> digest_ok (rl_digest r))
                   (''release '' @ rl_commit r @ '': image '' @ rl_image r @ '' is not pinned by a sha256 digest'')]))"

subsection \<open>Asking for a release\<close>

text \<open>The run store is the witness runs' commits with whether they passed.\<close>

record 's deploy_env =
  de_ext :: ext
  de_guard :: guard
  de_repo :: "'s \<Rightarrow> repo"
  de_runs :: "'s \<Rightarrow> (string \<times> bool) list option"
  de_build :: "(string \<Rightarrow> 's \<Rightarrow> (string + release) \<times> 's) option"
  de_post :: "(string \<Rightarrow> 's \<Rightarrow> string option \<times> 's) option"

definition CommitPassed :: "(string \<times> bool) list \<Rightarrow> string \<Rightarrow> bool" where
  "CommitPassed runs commit \<longleftrightarrow> filter (\<lambda>r. fst r = commit \<and> snd r) runs \<noteq> []"

definition attested :: "'s deploy_env \<Rightarrow> string \<Rightarrow> 's \<Rightarrow> vice_fault + bool" where
  "attested E commit s = (case de_runs E s of None \<Rightarrow> Inl (V_Http 503 ''no run store'') | Some runs \<Rightarrow> Inr (CommitPassed runs commit))"

definition deployable :: "'s deploy_env \<Rightarrow> string \<Rightarrow> 's \<Rightarrow> vice_fault option" where
  "deployable E commit s =
     (let r = de_repo E s; ref = g_ref (de_guard E) in
      case repo_Ref (x_git (de_ext E)) r ref of
        Inl e \<Rightarrow> Some (V_Git e)
      | Inr master \<Rightarrow>
          (if master \<noteq> commit then Some (V_Http 409 (commit @ '' is not the line'' @ [CHR 0x27] @ ''s master ('' @ master @ '')''))
           else case Stopped (de_ext E) r of
                  Fail e \<Rightarrow> Some (V_Guard e)
                | Answer a \<Rightarrow> None
                | Go (sid, ev) \<Rightarrow>
                    (if sid \<noteq> [] then Some (V_Http 409 (''the line is stopped (andon event '' @ sid @ '')''))
                     else case attested E commit s of
                            Inl e \<Rightarrow> Some e
                          | Inr ok \<Rightarrow> fail_if (\<not> ok) (V_Http 409 (commit @ '' has no passing attestation'')))))"

text \<open>A request for the commit that need not be asked again.\<close>

definition already_asked :: "deploy_file \<Rightarrow> string \<Rightarrow> deploy_request option" where
  "already_asked f commit =
     (if (case df_status f of None \<Rightarrow> False | Some t \<Rightarrow> ds_commit t = commit \<and> ds_state t \<noteq> StateApplied) then None
      else find_first (\<lambda>r. rl_commit (dr_release r) = commit) (df_requests f))"

definition build_release :: "'s deploy_env \<Rightarrow> string \<Rightarrow> 's \<Rightarrow> (vice_fault + release) \<times> 's" where
  "build_release E commit s =
     (case de_build E of
        None \<Rightarrow> (Inr \<lparr>rl_commit = commit, rl_image = [], rl_digest = []\<rparr>, s)
      | Some build \<Rightarrow>
          (case build commit s of
             (Inl e, s1) \<Rightarrow> (Inl (V_Http 502 (''build release: '' @ e)), s1)
           | (Inr rel, s1) \<Rightarrow>
               (case Validate True rel of
                  Some e \<Rightarrow> (Inl (V_Http 502 (''build release: '' @ e)), s1)
                | None \<Rightarrow>
                    (if rl_commit rel \<noteq> commit
                     then (Inl (V_Http 502 (''build release: built '' @ rl_commit rel @ '', wanted '' @ commit)), s1)
                     else (Inr rel, s1)))))"

definition store_request :: "deploy_request \<Rightarrow> deploy_file \<Rightarrow> deploy_file" where
  "store_request q f =
     f\<lparr>df_requests := filter (\<lambda>r. rl_commit (dr_release r) \<noteq> rl_commit (dr_release q)) (df_requests f) @ [q]\<rparr>"

definition server_post :: "'s deploy_env \<Rightarrow> string \<Rightarrow> 's \<Rightarrow> string option \<times> 's" where
  "server_post E text s = (case de_post E of None \<Rightarrow> (None, s) | Some post \<Rightarrow> post text s)"

definition RequestDeploy :: "'s deploy_env \<Rightarrow> time \<Rightarrow> string \<Rightarrow> string \<Rightarrow> deploy_file \<Rightarrow> 's \<Rightarrow> (vice_fault + deploy_request) \<times> deploy_file \<times> 's" where
  "RequestDeploy E now commit by f s =
     (case deployable E commit s of
        Some e \<Rightarrow> (Inl e, f, s)
      | None \<Rightarrow>
          (case already_asked f commit of
             Some r \<Rightarrow> (Inr r, f, s)
           | None \<Rightarrow>
               (case build_release E commit s of
                  (Inl e, s1) \<Rightarrow> (Inl e, f, s1)
                | (Inr rel, s1) \<Rightarrow>
                    (let q = \<lparr>dr_release = rel, dr_at = now, dr_by = by, dr_approved = False, dr_approved_by = []\<rparr>;
                         f1 = store_request q f; short = take shortLen commit
                     in case server_post E (''redeploy line to '' @ short @ ''? reply: approve deploy '' @ short) s1 of
                          (Some e, s2) \<Rightarrow> (Inl (V_Http 502 (''request stored but the channel post failed: '' @ e)), f1, s2)
                        | (None, s2) \<Rightarrow> (Inr q, f1, s2)))))"

subsection \<open>The king's approval\<close>

definition pending_index :: "deploy_file \<Rightarrow> string \<Rightarrow> string + nat" where
  "pending_index f short =
     (case filter (\<lambda>i. \<not> dr_approved (df_requests f ! i) \<and> has_prefix (rl_commit (dr_release (df_requests f ! i))) short) [0..<length (df_requests f)] of
        [] \<Rightarrow> Inl (''no pending deploy request '' @ short)
      | [i] \<Rightarrow> Inr i
      | _ \<Rightarrow> Inl (''deploy id '' @ short @ '' is ambiguous''))"

definition approve_in :: "string \<Rightarrow> string \<Rightarrow> string \<Rightarrow> deploy_file \<Rightarrow> (string + string) \<times> deploy_file" where
  "approve_in master short msg f =
     (case pending_index f short of
        Inl e \<Rightarrow> (Inl e, f)
      | Inr i \<Rightarrow>
          (let r = df_requests f ! i; commit = rl_commit (dr_release r) in
           if commit \<noteq> master then (Inl (''deploy request '' @ short @ '' is stale: master is now '' @ master), f)
           else (Inr commit, f\<lparr>df_requests := (df_requests f)[i := r\<lparr>dr_approved := True, dr_approved_by := msg\<rparr>], df_desired := commit\<rparr>)))"

definition ApproveDeploy :: "'s deploy_env \<Rightarrow> string \<Rightarrow> string \<Rightarrow> deploy_file \<Rightarrow> 's \<Rightarrow> (vice_fault + string) \<times> deploy_file" where
  "ApproveDeploy E short msg f s =
     (if length short < minShort then (Inl (V_Failed (''deploy id '' @ go_quote short @ '' is too short'')), f)
      else case repo_Ref (x_git (de_ext E)) (de_repo E s) (g_ref (de_guard E)) of
             Inl e \<Rightarrow> (Inl (V_Git e), f)
           | Inr master \<Rightarrow> (case approve_in master short msg f of (r, f1) \<Rightarrow> (map_sum V_Failed id r, f1)))"

subsection \<open>The deployer's routes\<close>

definition desired_release :: "deploy_file \<Rightarrow> release option" where
  "desired_release f =
     foldl (\<lambda>out r. if dr_approved r \<and> rl_commit (dr_release r) = df_desired f then Some (dr_release r) else out) None (df_requests f)"

definition status_fault :: "deploy_status \<Rightarrow> vice_fault option" where
  "status_fault t =
     fail_if (ds_state t \<notin> {StateApplied, StateRolledBack, StateFailed}) (V_Http 400 (''unknown state '' @ go_quote (ds_state t)))"

definition store_status :: "deploy_status \<Rightarrow> deploy_file \<Rightarrow> (vice_fault + unit) \<times> deploy_file" where
  "store_status t f =
     (if ds_commit t = [] \<or> ds_commit t \<noteq> df_desired f
      then (Inl (V_Http 409 (go_quote (ds_commit t) @ '' is not the desired release'')), f)
      else (Inr (), f\<lparr>df_status := Some t\<rparr>))"

definition status_text :: "deploy_status \<Rightarrow> string" where
  "status_text t =
     ''deploy of line '' @ take shortLen (ds_commit t) @ '': '' @ ds_state t
     @ (if ds_detail t \<noteq> [] then '' ('' @ ds_detail t @ '')'' else [])"

definition report_status :: "'s deploy_env \<Rightarrow> deploy_status \<Rightarrow> deploy_file \<Rightarrow> 's \<Rightarrow> (vice_fault + string) \<times> deploy_file \<times> 's" where
  "report_status E t f s =
     (case status_fault t of
        Some e \<Rightarrow> (Inl e, f, s)
      | None \<Rightarrow>
          (case store_status t f of
             (Inl e, f1) \<Rightarrow> (Inl e, f1, s)
           | (Inr _, f1) \<Rightarrow>
               (case server_post E (status_text t) s of
                  (Some e, s1) \<Rightarrow> (Inl (V_Http 502 (''status stored but the channel post failed: '' @ e)), f1, s1)
                | (None, s1) \<Rightarrow> (Inr (ds_state t), f1, s1))))"

datatype deploy_reply = Asked deploy_request | Desired_Is "release option" | Status_Is string "deploy_status option" | Reported string

record deploy_http =
  dh_path :: string
  dh_method :: string
  dh_commit :: string                           \<comment> \<open>of the query\<close>
  dh_status :: "vice_fault + deploy_status"     \<comment> \<open>the decoded body\<close>

definition deploy_method :: "deploy_http \<Rightarrow> string option" where
  "deploy_method q =
     (if dh_path q = ''/v1/deploy/requests'' then Some ''POST''
      else if dh_path q = ''/v1/deploy/status'' then Some (if dh_method q = ''POST'' then ''POST'' else ''GET'')
      else if dh_path q = ''/v1/deploy/desired'' then Some ''GET''
      else None)"

definition routeDeploy :: "'s deploy_env \<Rightarrow> time \<Rightarrow> string \<Rightarrow> string \<Rightarrow> deploy_http \<Rightarrow> deploy_file option \<Rightarrow> 's
    \<Rightarrow> (vice_fault + deploy_reply) \<times> deploy_file option \<times> 's" where
  "routeDeploy E now name role q D s =
     (case D of
        None \<Rightarrow> (Inl (V_Http 503 ''deploy is not configured''), D, s)
      | Some f \<Rightarrow>
          (case deploy_method q of
             None \<Rightarrow> (Inl (V_Http 404 (''no route '' @ dh_path q)), D, s)
           | Some want \<Rightarrow>
               (if dh_method q \<noteq> want then (Inl (V_Http 405 (''use '' @ want @ '' for '' @ dh_path q)), D, s)
                else if dh_path q = ''/v1/deploy/requests'' then
                  (if role \<noteq> viceroy_role then (Inl (V_Http 403 (''role '' @ go_quote role @ '' may not request a deploy'')), D, s)
                   else case commitParam (dh_commit q) of
                          Some e \<Rightarrow> (Inl e, D, s)
                        | None \<Rightarrow> (case RequestDeploy E now (dh_commit q) name f s of (r, f1, s1) \<Rightarrow> (map_sum id Asked r, Some f1, s1)))
                else if dh_path q = ''/v1/deploy/desired'' then (Inr (Desired_Is (desired_release f)), D, s)
                else if dh_method q = ''GET'' then (Inr (Status_Is (df_desired f) (df_status f)), D, s)
                else if name \<noteq> deployerName then (Inl (V_Http 403 ''only the deployer reports deploy outcomes''), D, s)
                else case dh_status q of
                       Inl e \<Rightarrow> (Inl e, D, s)
                     | Inr t \<Rightarrow> (case report_status E t f s of (r, f1, s1) \<Rightarrow> (map_sum id Reported r, Some f1, s1)))))"

text \<open>The deployer's token opens its routes and the status page alone.\<close>

definition deployerStation :: "string \<Rightarrow> string \<Rightarrow> string \<Rightarrow> (string \<times> string) option" where
  "deployerStation token header path =
     (case cut_prefix header ''Bearer '' of
        None \<Rightarrow> None
      | Some tok \<Rightarrow>
          (if tok = [] \<or> token = [] \<or> tok \<noteq> token then None
           else if path = ''/v1/status'' \<or> has_prefix path ''/v1/deploy/'' then Some (deployerName, deployerName)
           else None))"

end
