(* ===== verification/Deploy_Actuator.thy ===== *)
theory Deploy_Actuator
  imports Deploy
begin

text \<open>
  The actuator of \<open>line/deploy/deploy.go\<close>: one poll of the desired release, its health probe and its rollback. The
  clock and the sleep are operations of the world, so the probe is a partial function; it returns on every clock that
  a sleep moves on. Contexts are not cancelled.
\<close>

record 's actuator =
  ac_container :: bool
  ac_window :: duration
  ac_poll :: duration
  ac_desired :: "'s \<Rightarrow> (string + release option) \<times> 's"
  ac_report :: "deploy_status \<Rightarrow> 's \<Rightarrow> string option \<times> 's"
  ac_current :: "'s \<Rightarrow> (string + release) \<times> 's"
  ac_apply :: "release \<Rightarrow> 's \<Rightarrow> string option \<times> 's"
  ac_rollback :: "release \<Rightarrow> 's \<Rightarrow> string option \<times> 's"
  ac_health :: "'s \<Rightarrow> string option \<times> 's"
  ac_now :: "'s \<Rightarrow> time"
  ac_sleep :: "duration \<Rightarrow> 's \<Rightarrow> 's"

definition HealthWindow :: duration where "HealthWindow = 60 * second"

definition actuator_poll :: "'s actuator \<Rightarrow> duration" where
  "actuator_poll A = (if 0 < ac_poll A then ac_poll A else 2 * second)"

definition actuator_window :: "'s actuator \<Rightarrow> duration" where
  "actuator_window A = (if ac_window A \<le> 0 then HealthWindow else ac_window A)"

partial_function (option) probe :: "'s actuator \<Rightarrow> time \<Rightarrow> 's \<Rightarrow> (string option \<times> 's) option" where
  "probe A deadline s =
     (case ac_health A s of
        (None, s1) \<Rightarrow> Some (None, s1)
      | (Some e, s1) \<Rightarrow>
          (if \<not> ac_now A s1 + actuator_poll A < deadline
           then Some (Some (''not healthy within '' @ duration_string (actuator_window A) @ '': '' @ e), s1)
           else probe A deadline (ac_sleep A (actuator_poll A) s1)))"

declare probe.simps [code]

definition healthy :: "'s actuator \<Rightarrow> 's \<Rightarrow> (string option \<times> 's) option" where
  "healthy A s = probe A (ac_now A s + actuator_window A) s"

definition actuator_report :: "'s actuator \<Rightarrow> string \<Rightarrow> string \<Rightarrow> string \<Rightarrow> 's \<Rightarrow> string option \<times> 's" where
  "actuator_report A commit state detail s =
     ac_report A \<lparr>ds_commit = commit, ds_state = state, ds_detail = detail, ds_at = ac_now A s\<rparr> s"

definition errors_join :: "string option \<Rightarrow> string \<Rightarrow> string" where
  "errors_join a b = (case a of None \<Rightarrow> b | Some e \<Rightarrow> e @ [newline] @ b)"

definition actuator_fail :: "'s actuator \<Rightarrow> release \<Rightarrow> release \<Rightarrow> string \<Rightarrow> 's \<Rightarrow> string option \<times> 's" where
  "actuator_fail A want prev why s =
     (case ac_rollback A prev s of
        (Some e, s1) \<Rightarrow>
          (case actuator_report A (rl_commit want) StateFailed (why @ ''; rollback failed: '' @ e) s1 of (r, s2) \<Rightarrow> (Some (errors_join r e), s2))
      | (None, s1) \<Rightarrow> actuator_report A (rl_commit want) StateRolledBack why s1)"

text \<open>\<open>Actuator.Once\<close>: the error, the commit settled, and the world.\<close>

definition roll_out :: "'s actuator \<Rightarrow> release \<Rightarrow> release \<Rightarrow> 's \<Rightarrow> (string option \<times> 's) option" where
  "roll_out A want prev s =
     (case ac_apply A want s of
        (Some e, s1) \<Rightarrow> Some (actuator_fail A want prev (''apply: '' @ e) s1)
      | (None, s1) \<Rightarrow>
          (case healthy A s1 of
             None \<Rightarrow> None
           | Some (Some e, s2) \<Rightarrow> Some (actuator_fail A want prev (''unhealthy: '' @ e) s2)
           | Some (None, s2) \<Rightarrow> Some (actuator_report A (rl_commit want) StateApplied [] s2)))"

definition already_runs :: "'s actuator \<Rightarrow> release \<Rightarrow> release \<Rightarrow> bool" where
  "already_runs A want prev \<longleftrightarrow> rl_commit prev = rl_commit want \<and> (\<not> ac_container A \<or> rl_digest prev = rl_digest want)"

definition actuator_Once :: "'s actuator \<Rightarrow> string \<Rightarrow> 's \<Rightarrow> (string option \<times> string \<times> 's) option" where
  "actuator_Once A settled s =
     (case ac_desired A s of
        (Inl e, s1) \<Rightarrow> Some (Some (''desired: '' @ e), settled, s1)
      | (Inr None, s1) \<Rightarrow> Some (None, settled, s1)
      | (Inr (Some want), s1) \<Rightarrow>
          (if rl_commit want = settled then Some (None, settled, s1)
           else case Validate (ac_container A) want of
                  Some e \<Rightarrow> (case actuator_report A (rl_commit want) StateFailed (''refused: '' @ e) s1 of (r, s2) \<Rightarrow> Some (r, rl_commit want, s2))
                | None \<Rightarrow>
                    (case ac_current A s1 of
                       (Inl e, s2) \<Rightarrow> Some (Some (''current release: '' @ e), settled, s2)
                     | (Inr prev, s2) \<Rightarrow>
                         (if already_runs A want prev then Some (None, rl_commit want, s2)
                          else map_option (\<lambda>(r, s3). (r, rl_commit want, s3)) (roll_out A want prev s2)))))"

subsection \<open>The probe returns\<close>

text \<open>A clock: a probe does not turn it back, a sleep moves it on by at least its length.\<close>

definition lawful_clock :: "'s actuator \<Rightarrow> bool" where
  "lawful_clock A \<longleftrightarrow> (\<forall>s. ac_now A s \<le> ac_now A (snd (ac_health A s))) \<and> (\<forall>d s. ac_now A s + d \<le> ac_now A (ac_sleep A d s))"

lemma actuator_poll_pos: "1 \<le> actuator_poll A"
  by (simp add: actuator_poll_def second_def)

lemma probe_returns:
  assumes "lawful_clock A"
  shows "\<exists>r s'. probe A deadline s = Some (r, s')"
proof (induction "nat (deadline - ac_now A s)" arbitrary: s rule: less_induct)
  case less
  obtain r s1 where h: "ac_health A s = (r, s1)" by fastforce
  have mono: "ac_now A s \<le> ac_now A s1" using assms h by (metis lawful_clock_def snd_conv)
  show ?case
  proof (cases r)
    case None
    then show ?thesis by (subst probe.simps) (simp add: h)
  next
    case (Some e)
    let ?s = "ac_sleep A (actuator_poll A) s1"
    show ?thesis
    proof (cases "ac_now A s1 + actuator_poll A < deadline")
      case True
      have "ac_now A s1 + actuator_poll A \<le> ac_now A ?s" using assms by (simp add: lawful_clock_def)
      then have "nat (deadline - ac_now A ?s) < nat (deadline - ac_now A s)"
        using mono True actuator_poll_pos [of A] by linarith
      from less [OF this] obtain r' s' where "probe A deadline ?s = Some (r', s')" by blast
      then show ?thesis by (subst probe.simps) (simp add: h Some True)
    qed (subst probe.simps, simp add: h Some)
  qed
qed

text \<open>What the probe leaves alone, and that it passes only on a passing probe.\<close>

definition probing_keeps :: "'s actuator \<Rightarrow> ('s \<Rightarrow> 'k) \<Rightarrow> bool" where
  "probing_keeps A K \<longleftrightarrow> (\<forall>s. K (snd (ac_health A s)) = K s) \<and> (\<forall>d s. K (ac_sleep A d s) = K s)"

lemma probe_keeps:
  fixes A :: "'s actuator"
  assumes "probe A deadline s = Some res" "probing_keeps A K"
  shows "K (snd res) = K s"
proof -
  have "probing_keeps A K \<longrightarrow> K (snd res) = K s"
  proof (rule probe.raw_induct [OF _ assms(1), where P = "\<lambda>A d s res. probing_keeps A K \<longrightarrow> K (snd res) = K s"])
    fix probe :: "'s actuator \<Rightarrow> time \<Rightarrow> 's \<Rightarrow> (string option \<times> 's) option" and A :: "'s actuator" and d s y
    assume IH: "\<And>A d s y. probe A d s = Some y \<Longrightarrow> probing_keeps A K \<longrightarrow> K (snd y) = K s"
    obtain r s1 where h: "ac_health A s = (r, s1)" by fastforce
    assume "(case ac_health A s of
        (None, s1) \<Rightarrow> Some (None, s1)
      | (Some e, s1) \<Rightarrow>
          if \<not> ac_now A s1 + actuator_poll A < d
          then Some (Some (''not healthy within '' @ duration_string (actuator_window A) @ '': '' @ e), s1)
          else probe A d (ac_sleep A (actuator_poll A) s1)) = Some y"
    moreover have "probing_keeps A K \<Longrightarrow> K s1 = K s" using h unfolding probing_keeps_def by (metis snd_conv)
    moreover have "probing_keeps A K \<Longrightarrow> K (ac_sleep A (actuator_poll A) s1) = K s1" unfolding probing_keeps_def by blast
    ultimately show "probing_keeps A K \<longrightarrow> K (snd y) = K s"
      using IH [of A d "ac_sleep A (actuator_poll A) s1" y] by (auto simp: h split: option.splits if_splits)
  qed
  then show ?thesis using assms(2) by blast
qed

lemma probe_passed:
  fixes A :: "'s actuator"
  assumes "probe A deadline s = Some (None, s')"
  shows "\<exists>t. ac_health A t = (None, s')"
proof -
  have "fst (None :: string option, s') = None \<longrightarrow> (\<exists>t. ac_health A t = (None, snd (None :: string option, s')))"
  proof (rule probe.raw_induct [OF _ assms, where P = "\<lambda>A d s res. fst res = None \<longrightarrow> (\<exists>t. ac_health A t = (None, snd res))"])
    fix probe :: "'s actuator \<Rightarrow> time \<Rightarrow> 's \<Rightarrow> (string option \<times> 's) option" and A :: "'s actuator" and d s y
    assume IH: "\<And>A d s y. probe A d s = Some y \<Longrightarrow> fst y = None \<longrightarrow> (\<exists>t. ac_health A t = (None, snd y))"
    obtain r s1 where h: "ac_health A s = (r, s1)" by fastforce
    assume "(case ac_health A s of
        (None, s1) \<Rightarrow> Some (None, s1)
      | (Some e, s1) \<Rightarrow>
          if \<not> ac_now A s1 + actuator_poll A < d
          then Some (Some (''not healthy within '' @ duration_string (actuator_window A) @ '': '' @ e), s1)
          else probe A d (ac_sleep A (actuator_poll A) s1)) = Some y"
    then show "fst y = None \<longrightarrow> (\<exists>t. ac_health A t = (None, snd y))"
      using IH [of A d "ac_sleep A (actuator_poll A) s1" y] by (auto simp: h intro: exI [of _ s] split: option.splits if_splits)
  qed
  then show ?thesis by simp
qed

end
