(* ===== verification/Deploy_Steps.thy ===== *)
theory Deploy_Steps
  imports Deploy_Actuator Call_Log
begin

text \<open>
  Deployments under interleaving: a request checks the line on one state and is stored on a later one, the king
  approves, the deployer reports, reads the desired release and applies what it read, and the line and its world
  change in between as they like. The log says on which state each decision was taken.
\<close>

datatype 's deploy_event = Gated string 's | Kinged string string 's | Rolled release

record 's rollout =
  ro_file :: deploy_file
  ro_world :: 's
  ro_asking :: "string list"          \<comment> \<open>requests between their checks and their write\<close>
  ro_read :: "release option"         \<comment> \<open>the actuator's last answer\<close>
  ro_log :: "'s deploy_event list"

definition no_deploys :: deploy_file where
  "no_deploys = \<lparr>df_requests = [], df_desired = [], df_status = None\<rparr>"

definition rollout_start :: "'s \<Rightarrow> 's rollout" where
  "rollout_start s = \<lparr>ro_file = no_deploys, ro_world = s, ro_asking = [], ro_read = None, ro_log = []\<rparr>"

inductive rollout_step :: "'s deploy_env \<Rightarrow> bool \<Rightarrow> 's rollout \<Rightarrow> 's rollout \<Rightarrow> bool" for E container where
  ask: "deployable E c (ro_world m) = None \<Longrightarrow> already_asked (ro_file m) c = None
    \<Longrightarrow> rollout_step E container m (m\<lparr>ro_asking := c # ro_asking m, ro_log := ro_log m @ [Gated c (ro_world m)]\<rparr>)"
| store: "rl_commit (dr_release q) \<in> set (ro_asking m) \<Longrightarrow> \<not> dr_approved q
    \<Longrightarrow> rollout_step E container m (m\<lparr>ro_file := store_request q (ro_file m)\<rparr>)"
| approve: "ApproveDeploy E short msg (ro_file m) (ro_world m) = (Inr c, f)
    \<Longrightarrow> rollout_step E container m (m\<lparr>ro_file := f, ro_log := ro_log m @ [Kinged c msg (ro_world m)]\<rparr>)"
| outcome: "store_status t (ro_file m) = (Inr (), f) \<Longrightarrow> rollout_step E container m (m\<lparr>ro_file := f\<rparr>)"
| read: "rollout_step E container m (m\<lparr>ro_read := desired_release (ro_file m)\<rparr>)"
| roll: "ro_read m = Some rel \<Longrightarrow> Validate container rel = None
    \<Longrightarrow> rollout_step E container m (m\<lparr>ro_log := ro_log m @ [Rolled rel]\<rparr>)"
| world: "rollout_step E container m (m\<lparr>ro_world := s\<rparr>)"

inductive_cases rollout_stepE: "rollout_step E container m m'"

subsection \<open>The handlers take these steps\<close>

lemma build_release_commit: "build_release E commit s = (Inr rel, s') \<Longrightarrow> rl_commit rel = commit"
  by (auto simp: build_release_def split: option.splits prod.splits sum.splits if_splits)

lemma RequestDeploy_steps:
  assumes "RequestDeploy E now commit by (ro_file m) (ro_world m) = (r, f, s)"
  shows "\<exists>m'. (rollout_step E container)\<^sup>*\<^sup>* m m' \<and> ro_file m' = f \<and> ro_world m' = s"
proof (cases "deployable E commit (ro_world m) = None \<and> already_asked (ro_file m) commit = None")
  case False
  then have "f = ro_file m \<and> s = ro_world m" using assms by (auto simp: RequestDeploy_def split: option.splits)
  then show ?thesis by blast
next
  case True
  define m1 where "m1 = m\<lparr>ro_asking := commit # ro_asking m, ro_log := ro_log m @ [Gated commit (ro_world m)]\<rparr>"
  define m2 where "m2 = m1\<lparr>ro_world := s\<rparr>"
  have "rollout_step E container m m1" "rollout_step E container m1 m2"
    unfolding m2_def using True by (auto simp: m1_def intro: rollout_step.intros)
  then have steps: "(rollout_step E container)\<^sup>*\<^sup>* m m2" by simp
  have m2: "ro_file m2 = ro_file m" "ro_world m2 = s" "commit \<in> set (ro_asking m2)" by (simp_all add: m2_def m1_def)
  obtain b s1 where b: "build_release E commit (ro_world m) = (b, s1)" by fastforce
  show ?thesis
  proof (cases b)
    case (Inl e)
    then have "f = ro_file m" using assms True b by (auto simp: RequestDeploy_def)
    then show ?thesis using steps m2 by auto
  next
    case (Inr rel)
    define q where "q = \<lparr>dr_release = rel, dr_at = now, dr_by = by, dr_approved = False, dr_approved_by = []\<rparr>"
    define m3 where "m3 = m2\<lparr>ro_file := store_request q (ro_file m2)\<rparr>"
    have "fst (snd (RequestDeploy E now commit by (ro_file m) (ro_world m))) = store_request q (ro_file m)"
      using True by (simp add: RequestDeploy_def Let_def q_def b Inr split: prod.split option.split)
    then have f: "f = store_request q (ro_file m)" by (simp add: assms)
    have "rl_commit rel = commit" using b build_release_commit unfolding Inr by fastforce
    then have "rollout_step E container m2 m3" unfolding m3_def using rollout_step.store [of q m2] m2(3) by (simp add: q_def)
    with steps have "(rollout_step E container)\<^sup>*\<^sup>* m m3" by simp
    moreover have "ro_file m3 = f" "ro_world m3 = s" by (simp_all add: m3_def f m2)
    ultimately show ?thesis by blast
  qed
qed

text \<open>The actuator with the releases it applies recorded.\<close>

definition recorded :: "('s \<Rightarrow> 'a \<times> 's) \<Rightarrow> 's \<times> release list \<Rightarrow> 'a \<times> 's \<times> release list" where
  "recorded f w = (case f (fst w) of (x, s) \<Rightarrow> (x, s, snd w))"

definition recorded_actuator :: "'s actuator \<Rightarrow> ('s \<times> release list) actuator" where
  "recorded_actuator A =
     \<lparr>ac_container = ac_container A, ac_window = ac_window A, ac_poll = ac_poll A, ac_desired = recorded (ac_desired A),
      ac_report = \<lambda>t. recorded (ac_report A t), ac_current = recorded (ac_current A),
      ac_apply = \<lambda>r w. (case ac_apply A r (fst w) of (x, s) \<Rightarrow> (x, s, snd w @ [r])),
      ac_rollback = \<lambda>r. recorded (ac_rollback A r), ac_health = recorded (ac_health A), ac_now = \<lambda>w. ac_now A (fst w),
      ac_sleep = \<lambda>d w. (ac_sleep A d (fst w), snd w)\<rparr>"

lemma recorded_simps [simp]:
  "ac_container (recorded_actuator A) = ac_container A" "snd (snd (recorded f w)) = snd w"
  "ac_desired (recorded_actuator A) = recorded (ac_desired A)" "ac_report (recorded_actuator A) t = recorded (ac_report A t)"
  "ac_current (recorded_actuator A) = recorded (ac_current A)" "ac_rollback (recorded_actuator A) r = recorded (ac_rollback A r)"
  "ac_apply (recorded_actuator A) r w = (case ac_apply A r (fst w) of (x, s) \<Rightarrow> (x, s, snd w @ [r]))"
  by (simp_all add: recorded_actuator_def recorded_def split: prod.splits)

lemma recorded_ret: "recorded f w = (x, w') \<Longrightarrow> snd w' = snd w"
  by (auto simp: recorded_def split: prod.splits)

lemma recorded_fail: "snd (snd (actuator_fail (recorded_actuator A) want prev why w)) = snd w"
  by (auto simp: actuator_fail_def actuator_report_def recorded_def split: prod.splits option.splits)

lemma probing_records: "probing_keeps (recorded_actuator A) snd"
  by (simp add: probing_keeps_def recorded_actuator_def recorded_def split: prod.splits)

text \<open>One poll applies at most one release: the one it read, which is new to it and validates.\<close>

lemma Once_applies_desired:
  assumes "actuator_Once (recorded_actuator A) settled (s, []) = Some (err, settled', s', applied)"
  shows "applied = [] \<or> (\<exists>want s1. ac_desired A s = (Inr (Some want), s1) \<and> applied = [want]
    \<and> rl_commit want \<noteq> settled \<and> settled' = rl_commit want \<and> Validate (ac_container A) want = None)"
proof -
  have roll: "snd (snd x) = snd w @ [want]" if "roll_out (recorded_actuator A) want prev w = Some x" for want prev w x
    using that
    by (auto simp: roll_out_def healthy_def actuator_report_def recorded_fail recorded_ret split: prod.splits option.splits
        dest!: probe_keeps [OF _ probing_records])
  obtain d s1 where d: "ac_desired A s = (d, s1)" by fastforce
  then have "ac_desired (recorded_actuator A) (s, []) = (d, s1, [])" by (simp add: recorded_def)
  then show ?thesis using assms d
    by (auto simp: actuator_Once_def actuator_report_def recorded_def split: sum.splits option.splits prod.splits if_splits dest!: roll)
qed

subsection \<open>Nothing is applied that the king did not approve\<close>

definition deploy_allowed :: "'s deploy_env \<Rightarrow> 's deploy_event set \<Rightarrow> 's deploy_event \<Rightarrow> bool" where
  "deploy_allowed E seen e =
     (case e of
        Gated c s \<Rightarrow> deployable E c s = None
      | Kinged c msg s \<Rightarrow> repo_Ref (x_git (de_ext E)) (de_repo E s) (g_ref (de_guard E)) = Inr c \<and> (\<exists>s0. Gated c s0 \<in> seen)
      | Rolled rel \<Rightarrow> \<exists>msg s. Kinged (rl_commit rel) msg s \<in> seen)"

definition rollout_inv :: "'s deploy_env \<Rightarrow> 's rollout \<Rightarrow> bool" where
  "rollout_inv E m \<longleftrightarrow>
     all_authorised (deploy_allowed E) (ro_log m)
     \<and> (\<forall>c \<in> set (ro_asking m). \<exists>s. Gated c s \<in> set (ro_log m))
     \<and> (\<forall>q \<in> set (df_requests (ro_file m)). (\<exists>s. Gated (rl_commit (dr_release q)) s \<in> set (ro_log m))
          \<and> (dr_approved q \<longrightarrow> (\<exists>msg s. Kinged (rl_commit (dr_release q)) msg s \<in> set (ro_log m))))
     \<and> (\<forall>rel. ro_read m = Some rel \<longrightarrow> (\<exists>msg s. Kinged (rl_commit rel) msg s \<in> set (ro_log m)))"

lemma desired_release_approved:
  assumes "desired_release f = Some rel"
  shows "\<exists>q \<in> set (df_requests f). dr_approved q \<and> dr_release q = rel"
proof -
  have "foldl (\<lambda>out r. if dr_approved r \<and> rl_commit (dr_release r) = d then Some (dr_release r) else out) None qs = Some rel
      \<Longrightarrow> \<exists>q \<in> set qs. dr_approved q \<and> dr_release q = rel" for d qs
    by (induction qs rule: rev_induct) (auto split: if_splits)
  then show ?thesis using assms by (simp add: desired_release_def)
qed

lemma pending_index_Inr:
  assumes "pending_index f short = Inr i"
  shows "i < length (df_requests f) \<and> \<not> dr_approved (df_requests f ! i) \<and> has_prefix (rl_commit (dr_release (df_requests f ! i))) short"
proof -
  let ?is = "filter (\<lambda>i. \<not> dr_approved (df_requests f ! i) \<and> has_prefix (rl_commit (dr_release (df_requests f ! i))) short) [0..<length (df_requests f)]"
  have "?is = [i]" using assms by (simp add: pending_index_def split: list.splits)
  then have "i \<in> set ?is" by simp
  then show ?thesis by simp
qed

lemma map_sum_Inr: "map_sum f id x = Inr c \<longleftrightarrow> x = Inr c"
  by (cases x) simp_all

lemma ApproveDeploy_Inr:
  assumes "ApproveDeploy E short msg f s = (Inr c, f')"
  shows "\<exists>i < length (df_requests f). let q = df_requests f ! i in \<not> dr_approved q \<and> rl_commit (dr_release q) = c
    \<and> f' = f\<lparr>df_requests := (df_requests f)[i := q\<lparr>dr_approved := True, dr_approved_by := msg\<rparr>], df_desired := c\<rparr>"
    and "repo_Ref (x_git (de_ext E)) (de_repo E s) (g_ref (de_guard E)) = Inr c"
proof -
  obtain master where master: "repo_Ref (x_git (de_ext E)) (de_repo E s) (g_ref (de_guard E)) = Inr master"
    and ap: "approve_in master short msg f = (Inr c, f')"
    using assms by (auto simp: ApproveDeploy_def map_sum_Inr split: if_splits sum.splits prod.splits)
  obtain i where i: "pending_index f short = Inr i" using ap by (auto simp: approve_in_def split: sum.splits)
  show "repo_Ref (x_git (de_ext E)) (de_repo E s) (g_ref (de_guard E)) = Inr c"
    using ap i master by (simp add: approve_in_def Let_def split: if_splits)
  show "\<exists>i < length (df_requests f). let q = df_requests f ! i in \<not> dr_approved q \<and> rl_commit (dr_release q) = c
    \<and> f' = f\<lparr>df_requests := (df_requests f)[i := q\<lparr>dr_approved := True, dr_approved_by := msg\<rparr>], df_desired := c\<rparr>"
    using ap i pending_index_Inr [OF i] by (intro exI [of _ i]) (auto simp: approve_in_def Let_def split: if_splits)
qed


text \<open>What a longer log and a changed request leave of the invariant.\<close>

definition deploys_ok :: "'s deploy_event set \<Rightarrow> deploy_file \<Rightarrow> bool" where
  "deploys_ok seen f \<longleftrightarrow>
     (\<forall>q \<in> set (df_requests f). (\<exists>s. Gated (rl_commit (dr_release q)) s \<in> seen)
        \<and> (dr_approved q \<longrightarrow> (\<exists>msg s. Kinged (rl_commit (dr_release q)) msg s \<in> seen)))"

lemma deploys_ok_mono: "deploys_ok F f \<Longrightarrow> F \<subseteq> G \<Longrightarrow> deploys_ok G f"
  unfolding deploys_ok_def by (meson subsetD)

lemma deploys_ok_store:
  assumes "deploys_ok F f" "\<exists>s. Gated (rl_commit (dr_release q)) s \<in> F" "\<not> dr_approved q"
  shows "deploys_ok F (store_request q f)"
  using assms by (auto simp: deploys_ok_def store_request_def)

lemma deploys_ok_approve:
  assumes "deploys_ok F f" "ApproveDeploy E short msg f s = (Inr c, f')"
  shows "deploys_ok (insert (Kinged c msg s) F) f'" "\<exists>s0. Gated c s0 \<in> F"
proof -
  obtain i where i: "i < length (df_requests f)" "rl_commit (dr_release (df_requests f ! i)) = c"
    and f': "df_requests f' = (df_requests f)[i := (df_requests f ! i)\<lparr>dr_approved := True, dr_approved_by := msg\<rparr>]"
    using ApproveDeploy_Inr(1) [OF assms(2)] by (auto simp: Let_def)
  have old: "(\<exists>s. Gated (rl_commit (dr_release q)) s \<in> F) \<and> (dr_approved q \<longrightarrow> (\<exists>msg s. Kinged (rl_commit (dr_release q)) msg s \<in> F))"
    if "q \<in> set (df_requests f)" for q
    using assms(1) that by (simp add: deploys_ok_def)
  from old [OF nth_mem [OF i(1)]] show gate: "\<exists>s0. Gated c s0 \<in> F" by (simp add: i(2))
  have "set (df_requests f') \<subseteq> insert ((df_requests f ! i)\<lparr>dr_approved := True, dr_approved_by := msg\<rparr>) (set (df_requests f))"
    unfolding f' by (rule set_update_subset_insert)
  then show "deploys_ok (insert (Kinged c msg s) F) f'" using old gate i(2) by (fastforce simp: deploys_ok_def)
qed

lemma rollout_inv_iff:
  "rollout_inv E m \<longleftrightarrow>
     all_authorised (deploy_allowed E) (ro_log m) \<and> (\<forall>c \<in> set (ro_asking m). \<exists>s. Gated c s \<in> set (ro_log m))
     \<and> deploys_ok (set (ro_log m)) (ro_file m)
     \<and> (\<forall>rel. ro_read m = Some rel \<longrightarrow> (\<exists>msg s. Kinged (rl_commit rel) msg s \<in> set (ro_log m)))"
  by (simp add: rollout_inv_def deploys_ok_def)

lemma rollout_step_inv:
  assumes "rollout_step E container m m'" "rollout_inv E m"
  shows "rollout_inv E m'"
  using assms(1)
proof (cases rule: rollout_step.cases)
  case (ask c)
  then show ?thesis using assms(2)
    by (auto simp: rollout_inv_iff all_authorised_snoc deploy_allowed_def intro: deploys_ok_mono)
next
  case (store q)
  then show ?thesis using assms(2) by (auto simp: rollout_inv_iff intro!: deploys_ok_store)
next
  case (approve short msg c f)
  have inv: "deploys_ok (set (ro_log m)) (ro_file m)" using assms(2) by (simp add: rollout_inv_iff)
  show ?thesis using assms(2) approve deploys_ok_approve [OF inv approve(2)] ApproveDeploy_Inr(2) [OF approve(2)]
    by (auto simp: rollout_inv_iff all_authorised_snoc deploy_allowed_def) blast+
next
  case (outcome t f)
  then have "df_requests f = df_requests (ro_file m)" by (auto simp: store_status_def split: if_splits)
  then show ?thesis using assms(2) outcome(1) by (auto simp: rollout_inv_iff deploys_ok_def)
next
  case read
  then show ?thesis using assms(2) by (fastforce simp: rollout_inv_iff deploys_ok_def dest: desired_release_approved)
next
  case (roll rel)
  then show ?thesis using assms(2)
    by (auto simp: rollout_inv_iff all_authorised_snoc deploy_allowed_def intro: deploys_ok_mono)
next
  case (world s)
  then show ?thesis using assms(2) by (simp add: rollout_inv_iff)
qed

lemma rollout_start_inv: "rollout_inv E (rollout_start s)"
  by (simp add: rollout_inv_iff rollout_start_def no_deploys_def deploys_ok_def)

lemma rollout_reach_inv: "(rollout_step E container)\<^sup>*\<^sup>* (rollout_start s) m \<Longrightarrow> rollout_inv E m"
  by (induction rule: rtranclp_induct) (auto intro: rollout_start_inv rollout_step_inv)

end
