(* ===== verification/Deploy_Properties.thy ===== *)
theory Deploy_Properties
  imports Deploy_Steps Line_Example
begin

text \<open>What deployments guarantee: nothing is applied unasked, and what is applied is healthy or rolled back.\<close>

lemma Stopped_no_Answer: "Stopped X r \<noteq> Answer a"
  by (auto simp: Stopped_def stopID_def git_stage_def split: sum.splits)

lemma deployable_None:
  "deployable E c s = None \<longleftrightarrow>
     repo_Ref (x_git (de_ext E)) (de_repo E s) (g_ref (de_guard E)) = Inr c \<and> (\<exists>ev. Stopped (de_ext E) (de_repo E s) = Go ([], ev))
     \<and> (\<exists>runs. de_runs E s = Some runs \<and> (c, True) \<in> set runs)"
proof (cases "Stopped (de_ext E) (de_repo E s)")
  case (Answer a)
  then show ?thesis using Stopped_no_Answer by blast
next
  case (Fail e)
  then show ?thesis by (auto simp: deployable_def Let_def split: sum.splits)
next
  case (Go x)
  then show ?thesis
    by (cases x) (auto simp: deployable_def attested_def CommitPassed_def filter_empty_conv Let_def
        intro: bexI [of _ "(c, True)"] split: sum.splits option.splits)
qed

text \<open>C11. Under every interleaving of requests, approvals, reports, readings and changes of the line, a release is applied
  only after the king approved its commit while it was the line's master, and that approval came after a request that
  was checked on a state in which the commit was the master, the cord was not pulled and a witness run of it had
  passed.\<close>

theorem applied_release_was_approved:
  assumes "(rollout_step E container)\<^sup>*\<^sup>* (rollout_start s0) m" "ro_log m = pre @ Rolled rel # post"
  shows "\<exists>msg s before after s1 ev runs. pre = before @ Kinged (rl_commit rel) msg s # after
    \<and> repo_Ref (x_git (de_ext E)) (de_repo E s) (g_ref (de_guard E)) = Inr (rl_commit rel)
    \<and> Gated (rl_commit rel) s1 \<in> set before
    \<and> repo_Ref (x_git (de_ext E)) (de_repo E s1) (g_ref (de_guard E)) = Inr (rl_commit rel)
    \<and> Stopped (de_ext E) (de_repo E s1) = Go ([], ev) \<and> de_runs E s1 = Some runs \<and> (rl_commit rel, True) \<in> set runs"
proof -
  have ok: "deploy_allowed E (set pre') e" if "ro_log m = pre' @ e # post'" for pre' e post'
    using rollout_reach_inv [OF assms(1)] that unfolding rollout_inv_def all_authorised_def by blast
  from ok [OF assms(2)] obtain msg s where "Kinged (rl_commit rel) msg s \<in> set pre" by (auto simp: deploy_allowed_def)
  then obtain before after where pre: "pre = before @ Kinged (rl_commit rel) msg s # after" by (meson split_list)
  from ok [of before "Kinged (rl_commit rel) msg s" "after @ Rolled rel # post"] obtain s1
    where k: "repo_Ref (x_git (de_ext E)) (de_repo E s) (g_ref (de_guard E)) = Inr (rl_commit rel)" "Gated (rl_commit rel) s1 \<in> set before"
    using assms(2) pre by (auto simp: deploy_allowed_def)
  then obtain b1 b2 where "before = b1 @ Gated (rl_commit rel) s1 # b2" by (meson split_list)
  then have "deployable E (rl_commit rel) s1 = None"
    using ok [of b1 "Gated (rl_commit rel) s1"] assms(2) pre by (simp add: deploy_allowed_def)
  then show ?thesis using pre k unfolding deployable_None by blast
qed

subsection \<open>A line that deploys itself\<close>

text \<open>The actuator against serve: its reading and its report are the deployer's routes.\<close>

definition line_actuator :: "'s deploy_env \<Rightarrow> (vice_fault \<Rightarrow> string) \<Rightarrow> 's actuator \<Rightarrow> (deploy_file \<times> 's) actuator" where
  "line_actuator E say A =
     \<lparr>ac_container = ac_container A, ac_window = ac_window A, ac_poll = ac_poll A,
      ac_desired = \<lambda>(f, s). (Inr (desired_release f), f, s),
      ac_report = \<lambda>t (f, s). (case report_status E t f s of (Inl e, f1, s1) \<Rightarrow> (Some (say e), f1, s1) | (Inr _, f1, s1) \<Rightarrow> (None, f1, s1)),
      ac_current = \<lambda>(f, s). (case ac_current A s of (r, s1) \<Rightarrow> (r, f, s1)),
      ac_apply = \<lambda>r (f, s). (case ac_apply A r s of (e, s1) \<Rightarrow> (e, f, s1)),
      ac_rollback = \<lambda>r (f, s). (case ac_rollback A r s of (e, s1) \<Rightarrow> (e, f, s1)),
      ac_health = \<lambda>(f, s). (case ac_health A s of (e, s1) \<Rightarrow> (e, f, s1)),
      ac_now = \<lambda>(f, s). ac_now A s, ac_sleep = \<lambda>d (f, s). (f, ac_sleep A d s)\<rparr>"

definition dx_env :: "(release \<times> bool) deploy_env" where
  "dx_env = \<lparr>de_ext = ex_ext, de_guard = ex_guard, de_repo = \<lambda>_. ex_repo, de_runs = \<lambda>_. Some [(ex_master, True)], de_build = None, de_post = None\<rparr>"

definition dx_release :: "string \<Rightarrow> release" where
  "dx_release c = \<lparr>rl_commit = c, rl_image = [], rl_digest = []\<rparr>"

text \<open>A platform on which applying works or not; it says whether applying was tried.\<close>

definition dx_platform :: "bool \<Rightarrow> (release \<times> bool) actuator" where
  "dx_platform works =
     \<lparr>ac_container = False, ac_window = 0, ac_poll = 0, ac_desired = \<lambda>s. (Inr None, s), ac_report = \<lambda>t s. (None, s),
      ac_current = \<lambda>s. (Inr (fst s), s), ac_apply = \<lambda>r s. (if works then (None, r, True) else (Some ''disk full'', fst s, True)),
      ac_rollback = \<lambda>r s. (None, r, snd s), ac_health = \<lambda>s. (None, s), ac_now = \<lambda>s. 5, ac_sleep = \<lambda>d s. s\<rparr>"

lemma dx_master: "repo_Ref (x_git (de_ext dx_env)) (de_repo dx_env s) (g_ref (de_guard dx_env)) = Inr ex_master"
proof -
  have "ref_of ex_repo ''refs/heads/master'' = Some ex_master" by (simp add: ex_repo_def CandidatePrefix_def)
  then show ?thesis by (simp add: dx_env_def ex_guard_simps ex_git_simps repo_Ref_def resolve_def is_hash_def ex_obj)
qed

lemma dx_deployable: "deployable dx_env ex_master s = None"
proof -
  have "ref_of ex_repo StopRef = None" by (simp add: ex_repo_def StopRef_def CandidatePrefix_def)
  then have "\<exists>ev. Stopped ex_ext ex_repo = Go ([], ev)" by (auto simp: Stopped_event [OF ex_repo_wf(1)])
  then show ?thesis using dx_master [of s] unfolding deployable_None by (simp add: dx_env_def)
qed

definition dx_request :: "time \<Rightarrow> deploy_request" where
  "dx_request now = \<lparr>dr_release = dx_release ex_master, dr_at = now, dr_by = ''viceroy'', dr_approved = False, dr_approved_by = []\<rparr>"

definition dx_approved :: "time \<Rightarrow> string \<Rightarrow> deploy_file" where
  "dx_approved now msg = \<lparr>df_requests = [(dx_request now)\<lparr>dr_approved := True, dr_approved_by := msg\<rparr>], df_desired = ex_master, df_status = None\<rparr>"

lemma dx_asks:
  assumes "already_asked f ex_master = None"
  shows "RequestDeploy dx_env now ex_master ''viceroy'' f s = (Inr (dx_request now), store_request (dx_request now) f, s)"
proof -
  have "de_build dx_env = None" "de_post dx_env = None" by (simp_all add: dx_env_def)
  then show ?thesis using assms
    by (simp add: RequestDeploy_def dx_deployable build_release_def server_post_def Let_def dx_request_def dx_release_def)
qed

lemma dx_king:
  assumes "df_requests f = [dx_request now]"
  shows "ApproveDeploy dx_env (take 12 ex_master) msg f s
    = (Inr ex_master, f\<lparr>df_requests := [(dx_request now)\<lparr>dr_approved := True, dr_approved_by := msg\<rparr>], df_desired := ex_master\<rparr>)"
proof -
  have "pending_index f (take 12 ex_master) = Inr 0"
    using assms by (simp add: pending_index_def dx_request_def dx_release_def has_prefix_def)
  moreover have "length (take 12 ex_master) = 12" by (simp add: ex_id_def)
  ultimately show ?thesis using assms
    by (simp add: ApproveDeploy_def dx_master approve_in_def Let_def minShort_def dx_request_def dx_release_def)
qed


text \<open>C13. A release that was rolled back cannot be rolled out again: the viceroy may ask for it anew and the king approve it
  anew, and serve hands it to the actuator, which leaves it alone because it has settled that commit. (On a platform
  whose disk was full the first time.)\<close>

theorem reapproved_release_is_not_rolled:
  "\<exists>f1 f2 f3 f4 f5 s0 s1 q1 q2 rel.
     RequestDeploy dx_env 1 ex_master ''viceroy'' no_deploys s0 = (Inr q1, f1, s0)
     \<and> ApproveDeploy dx_env (take 12 ex_master) ''m1'' f1 s0 = (Inr ex_master, f2)
     \<and> actuator_Once (line_actuator dx_env say (dx_platform False)) [] (f2, s0) = Some (None, ex_master, f3, s1)
     \<and> snd s1 \<and> map_option ds_state (df_status f3) = Some StateRolledBack
     \<and> RequestDeploy dx_env 9 ex_master ''viceroy'' f3 s1 = (Inr q2, f4, s1)
     \<and> ApproveDeploy dx_env (take 12 ex_master) ''m2'' f4 s1 = (Inr ex_master, f5)
     \<and> desired_release f5 = Some rel \<and> rl_commit rel = ex_master \<and> rl_commit (fst s1) \<noteq> ex_master
     \<and> actuator_Once (line_actuator dx_env say (dx_platform True)) ex_master (f5, s1) = Some (None, ex_master, f5, s1)"
proof -
  let ?s0 = "(dx_release [], False)" and ?s1 = "(dx_release [], True)"
  let ?f1 = "store_request (dx_request 1) no_deploys"
  let ?f2 = "dx_approved 1 ''m1''"
  let ?t = "\<lparr>ds_commit = ex_master, ds_state = StateRolledBack, ds_detail = ''apply: disk full'', ds_at = 5\<rparr>"
  let ?f3 = "?f2\<lparr>df_status := Some ?t\<rparr>"
  let ?f4 = "store_request (dx_request 9) ?f3"
  let ?f5 = "(dx_approved 9 ''m2'')\<lparr>df_status := Some ?t\<rparr>"
  have "full_hex ex_master" by (simp add: full_hex_def ex_id_def is_hex_def in_range_def list_all_iff)
  then have ok: "Validate False (dx_release ex_master) = None" by (simp add: Validate_def dx_release_def)
  have no: "de_post dx_env = None" by (simp add: dx_env_def)
  have asked: "already_asked no_deploys ex_master = None" "already_asked ?f3 ex_master = None"
    by (simp_all add: already_asked_def no_deploys_def StateRolledBack_def StateApplied_def)
  have files: "df_requests ?f1 = [dx_request 1]" "df_requests ?f4 = [dx_request 9]"
    by (simp_all add: store_request_def no_deploys_def dx_approved_def dx_request_def dx_release_def)
  have same: "?f1\<lparr>df_requests := [(dx_request 1)\<lparr>dr_approved := True, dr_approved_by := ''m1''\<rparr>], df_desired := ex_master\<rparr> = ?f2"
      "?f4\<lparr>df_requests := [(dx_request 9)\<lparr>dr_approved := True, dr_approved_by := ''m2''\<rparr>], df_desired := ex_master\<rparr> = ?f5"
    by (simp_all add: store_request_def no_deploys_def dx_approved_def)
  have king: "ApproveDeploy dx_env (take 12 ex_master) ''m1'' ?f1 ?s0 = (Inr ex_master, ?f2)"
      "ApproveDeploy dx_env (take 12 ex_master) ''m2'' ?f4 ?s1 = (Inr ex_master, ?f5)"
    by (simp_all only: dx_king [OF files(1)] dx_king [OF files(2)] same)
  have want: "desired_release ?f2 = Some (dx_release ex_master)" "desired_release ?f5 = Some (dx_release ex_master)"
    by (simp_all add: desired_release_def dx_approved_def dx_request_def dx_release_def)
  have ne: "ex_master \<noteq> []" "[] \<noteq> ex_master" by (simp_all add: ex_id_def)
  have first: "actuator_Once (line_actuator dx_env say (dx_platform False)) [] (?f2, ?s0) = Some (None, ex_master, ?f3, ?s1)"
    using ok ne
    by (simp add: actuator_Once_def line_actuator_def dx_platform_def want already_runs_def roll_out_def actuator_fail_def actuator_report_def
        report_status_def status_fault_def StateRolledBack_def store_status_def server_post_def no)
      (simp add: dx_release_def dx_approved_def)
  have second: "actuator_Once (line_actuator dx_env say (dx_platform True)) ex_master (?f5, ?s1) = Some (None, ex_master, ?f5, ?s1)"
    by (simp add: actuator_Once_def line_actuator_def want) (simp add: dx_release_def)
  show ?thesis
    by (intro exI conjI, rule dx_asks [OF asked(1)], rule king(1), rule first, simp, simp, rule dx_asks [OF asked(2)], rule king(2), rule want(2))
      (use second in \<open>simp_all add: dx_release_def ne(2)\<close>)
qed






subsection \<open>A deployment\<close>

text \<open>One request, approval, reading and application.\<close>

lemma dx_rolls:
  "\<exists>m. (rollout_step dx_env False)\<^sup>*\<^sup>* (rollout_start s) m
    \<and> ro_log m = [Gated ex_master s, Kinged ex_master ''m1'' s, Rolled (dx_release ex_master)]"
proof -
  define m1 where "m1 = (rollout_start s)\<lparr>ro_asking := [ex_master], ro_log := [Gated ex_master s]\<rparr>"
  define m2 where "m2 = m1\<lparr>ro_file := store_request (dx_request 1) no_deploys\<rparr>"
  define m3 where "m3 = m2\<lparr>ro_file := dx_approved 1 ''m1'', ro_log := [Gated ex_master s, Kinged ex_master ''m1'' s]\<rparr>"
  define m4 where "m4 = m3\<lparr>ro_read := Some (dx_release ex_master)\<rparr>"
  define m5 where "m5 = m4\<lparr>ro_log := [Gated ex_master s, Kinged ex_master ''m1'' s, Rolled (dx_release ex_master)]\<rparr>"
  have "rollout_step dx_env False (rollout_start s) m1"
    using rollout_step.ask [of dx_env ex_master "rollout_start s" False] dx_deployable
    by (simp add: m1_def rollout_start_def already_asked_def no_deploys_def)
  moreover have "rollout_step dx_env False m1 m2"
    using rollout_step.store [of "dx_request 1" m1 dx_env False]
    by (simp add: m2_def m1_def rollout_start_def dx_request_def dx_release_def)
  moreover have "rollout_step dx_env False m2 m3"
  proof -
    have f: "df_requests (ro_file m2) = [dx_request 1]" by (simp add: m2_def store_request_def no_deploys_def)
    have "(ro_file m2)\<lparr>df_requests := [(dx_request 1)\<lparr>dr_approved := True, dr_approved_by := ''m1''\<rparr>], df_desired := ex_master\<rparr> = dx_approved 1 ''m1''"
      by (simp add: m2_def store_request_def no_deploys_def dx_approved_def)
    then have "ApproveDeploy dx_env (take 12 ex_master) ''m1'' (ro_file m2) (ro_world m2) = (Inr ex_master, dx_approved 1 ''m1'')"
      using dx_king [OF f] by simp
    from rollout_step.approve [of dx_env "take 12 ex_master" "''m1''" m2 _ _ False, OF this]
    show ?thesis by (simp add: m3_def m2_def m1_def rollout_start_def)
  qed
  moreover have "rollout_step dx_env False m3 m4"
  proof -
    have "desired_release (ro_file m3) = Some (dx_release ex_master)"
      by (simp add: m3_def desired_release_def dx_approved_def dx_request_def dx_release_def)
    then show ?thesis using rollout_step.read [of dx_env False m3] by (simp add: m4_def)
  qed
  moreover have "rollout_step dx_env False m4 m5"
  proof -
    have "full_hex ex_master" by (simp add: full_hex_def ex_id_def is_hex_def in_range_def list_all_iff)
    then have "Validate False (dx_release ex_master) = None" by (simp add: Validate_def dx_release_def)
    then show ?thesis using rollout_step.roll [of m4 "dx_release ex_master" False dx_env]
      by (simp add: m5_def m4_def m3_def)
  qed
  ultimately have "(rollout_step dx_env False)\<^sup>*\<^sup>* (rollout_start s) m5" by (meson converse_rtranclp_into_rtranclp rtranclp.rtrancl_refl)
  then show ?thesis by (intro exI [of _ m5]) (simp add: m5_def)
qed

theorem applied_release_was_approved_witness:
  "\<exists>m. (rollout_step dx_env False)\<^sup>*\<^sup>* (rollout_start (dx_release [], True)) m \<and> Rolled (dx_release ex_master) \<in> set (ro_log m)
    \<and> (\<exists>msg s s1. Kinged ex_master msg s \<in> set (ro_log m) \<and> Gated ex_master s1 \<in> set (ro_log m)
      \<and> repo_Ref (x_git (de_ext dx_env)) (de_repo dx_env s) (g_ref (de_guard dx_env)) = Inr ex_master)"
proof -
  obtain m where m: "(rollout_step dx_env False)\<^sup>*\<^sup>* (rollout_start (dx_release [], True)) m"
    "ro_log m = [Gated ex_master (dx_release [], True), Kinged ex_master ''m1'' (dx_release [], True)] @ Rolled (dx_release ex_master) # []"
    using dx_rolls by fastforce
  from applied_release_was_approved [OF m] obtain msg s before after s1
    where "[Gated ex_master (dx_release [], True), Kinged ex_master ''m1'' (dx_release [], True)] = before @ Kinged ex_master msg s # after"
      "repo_Ref (x_git (de_ext dx_env)) (de_repo dx_env s) (g_ref (de_guard dx_env)) = Inr ex_master" "Gated ex_master s1 \<in> set before"
    by (auto simp: dx_release_def)
  moreover from this m(2) have "Kinged ex_master msg s \<in> set (ro_log m)" "Gated ex_master s1 \<in> set (ro_log m)"
      "Rolled (dx_release ex_master) \<in> set (ro_log m)" by simp_all
  ultimately show ?thesis using m(1) by blast
qed

end
