(* ===== verification/Channel.thy ===== *)
theory Channel
  imports Card_Routes "HOL-Library.Product_Lexorder"
begin

text \<open>
  The king's channel (\<open>channel.go\<close>, \<open>channel_approvals.go\<close>, \<open>channel_answer.go\<close>, \<open>channel_card.go\<close>, \<open>defer.go\<close> and the
  message handlers of \<open>channel_gateway.go\<close> under \<open>line/station\<close>): what people write in the line's chat goes to an
  inbox, what the king writes, clicks or types as a command is carried out. The tracker, the chat service and the hooks
  for constitution, deployments and workloads act on a world \<open>'s\<close>; the ledger of epics, the inbox and the position in
  the chat are the channel's own files.
\<close>

subsection \<open>State\<close>

record discord_message =
  dm_id :: string
  dm_content :: string
  dm_timestamp :: string
  dm_author :: string
  dm_username :: string

record inbox_message =
  im_id :: string
  im_author :: string
  im_author_id :: string
  im_principal :: string
  im_text :: string
  im_ts :: string

record card_summary =
  sm_id :: string
  sm_title :: string
  sm_labels :: "string list"

record 's channel_state =
  cs_world :: 's
  cs_epics :: "string \<rightharpoonup> string"
  cs_inbox :: "inbox_message list"
  cs_last :: string
  cs_me :: string

record 's chat =
  ch_id :: string
  ch_king :: string
  ch_json :: card_json
  ch_summaries :: "string \<Rightarrow> string + card_summary list"
  ch_created :: "string \<Rightarrow> string + string"             \<comment> \<open>the id in what creating a card answers\<close>
  ch_cards :: "'s card_tracker option"
  ch_ledger :: bool
  ch_constitution :: "(nat \<Rightarrow> string \<Rightarrow> 's \<Rightarrow> string option \<times> 's) option"
  ch_restart :: "('s \<Rightarrow> 's) option"
  ch_deploy :: "(string \<Rightarrow> string \<Rightarrow> 's \<Rightarrow> (string + string) \<times> 's) option"
  ch_workload :: "(string \<Rightarrow> string \<Rightarrow> 's \<Rightarrow> string option \<times> 's) option"
  ch_whoami :: "'s \<Rightarrow> (string + string) \<times> 's"
  ch_messages :: "string \<Rightarrow> 's \<Rightarrow> (string + discord_message list) \<times> 's"
  ch_message :: "string \<Rightarrow> 's \<Rightarrow> (string + discord_message) \<times> 's"
  ch_post :: "string \<Rightarrow> 's \<Rightarrow> 's"                        \<comment> \<open>a failure is only logged\<close>
  ch_respond :: "string \<Rightarrow> string \<Rightarrow> string \<Rightarrow> 's \<Rightarrow> 's"
  ch_choices :: "string \<Rightarrow> string \<Rightarrow> (string \<times> string) list \<Rightarrow> 's \<Rightarrow> 's"

definition on_world :: "('s \<Rightarrow> 'a \<times> 's) \<Rightarrow> 's channel_state \<Rightarrow> 'a \<times> 's channel_state" where
  "on_world f cs = (case f (cs_world cs) of (r, s) \<Rightarrow> (r, cs\<lparr>cs_world := s\<rparr>))"

definition reply :: "'s chat \<Rightarrow> string \<Rightarrow> 's channel_state \<Rightarrow> 's channel_state" where
  "reply C text cs = cs\<lparr>cs_world := ch_post C text (cs_world cs)\<rparr>"

definition maxChoices :: nat where "maxChoices = 25"
definition maxChoiceChars :: nat where "maxChoiceChars = 100"
definition inboxPage :: nat where "inboxPage = 200"

subsection \<open>The king's word on a card\<close>

text \<open>A call on the tracker; the error ends the sequence.\<close>

definition did :: "('s \<Rightarrow> (string + 'a) \<times> 's) \<Rightarrow> 's channel_state \<Rightarrow> ('a \<Rightarrow> 's channel_state \<Rightarrow> (string + 'b) \<times> 's channel_state)
    \<Rightarrow> (string + 'b) \<times> 's channel_state" where
  "did f cs k = call (on_world f cs) k"

definition recordEpicApproval :: "'s chat \<Rightarrow> 's card_tracker \<Rightarrow> string \<Rightarrow> string \<Rightarrow> 's channel_state \<Rightarrow> (string + unit) \<times> 's channel_state" where
  "recordEpicApproval C T cid via cs =
     (if \<not> ch_ledger C then (Inr (), cs)
      else did (kt_show T cid) cs (\<lambda>raw cs.
        if fst (cardLineage (ch_json C) raw cid) \<noteq> EpicType then (Inr (), cs)
        else (Inr (), cs\<lparr>cs_epics := (cs_epics cs)(cid \<mapsto> via)\<rparr>)))"

definition approve_steps :: "'s chat \<Rightarrow> 's card_tracker \<Rightarrow> string \<Rightarrow> string \<Rightarrow> 's channel_state \<Rightarrow> (string + unit) \<times> 's channel_state" where
  "approve_steps C T cid via cs =
     call (recordEpicApproval C T cid via cs) (\<lambda>_ cs.
     did (kt_remove_label T cid LabelGaveUp) cs (\<lambda>_ cs.
     did (kt_remove_label T cid LabelDeferred) cs (\<lambda>_ cs.
     on_world (kt_add_label T cid LabelLine) cs)))"

definition approveCard :: "'s chat \<Rightarrow> string \<Rightarrow> string \<Rightarrow> 's channel_state \<Rightarrow> string \<times> 's channel_state" where
  "approveCard C cid via cs =
     (case ch_cards C of
        None \<Rightarrow> (''cannot approve '' @ cid @ '': cards are not configured'', cs)
      | Some T \<Rightarrow>
          (case approve_steps C T cid via cs of
             (Inl e, cs1) \<Rightarrow> (''could not approve '' @ cid, cs1)
           | (Inr _, cs1) \<Rightarrow>
               (''approved '' @ cid, snd (on_world (kt_comment T cid (''approved by the king ('' @ via @ '')'')) cs1))))"

definition showCardLabels :: "'s chat \<Rightarrow> 's card_tracker \<Rightarrow> string \<Rightarrow> 's channel_state \<Rightarrow> (string + string list) \<times> 's channel_state" where
  "showCardLabels C T cid cs =
     did (kt_show T cid) cs (\<lambda>raw cs.
       case cj_issue (ch_json C) raw of None \<Rightarrow> (Inl ''no such card'', cs) | Some i \<Rightarrow> (Inr (is_labels i), cs))"

definition answer_steps :: "'s card_tracker \<Rightarrow> string \<Rightarrow> string \<Rightarrow> string \<Rightarrow> 's channel_state \<Rightarrow> (string + unit) \<times> 's channel_state" where
  "answer_steps T cid body via cs =
     did (kt_comment T cid (''answer from the king ('' @ via @ ''):'' @ [newline] @ body)) cs (\<lambda>_ cs.
     on_world (kt_remove_label T cid (LabelNeedsPrefix @ needsKing)) cs)"

definition answerCard :: "'s chat \<Rightarrow> string \<Rightarrow> string \<Rightarrow> string \<Rightarrow> 's channel_state \<Rightarrow> string \<times> 's channel_state" where
  "answerCard C cid body via cs =
     (case ch_cards C of
        None \<Rightarrow> (''cannot answer '' @ cid @ '': cards are not configured'', cs)
      | Some T \<Rightarrow>
          (case showCardLabels C T cid cs of
             (Inl e, cs1) \<Rightarrow> (''could not answer '' @ cid, cs1)
           | (Inr labels, cs1) \<Rightarrow>
               (if LabelNeedsPrefix @ needsKing \<notin> set labels then (cid @ '' is not waiting on the king'', cs1)
                else case answer_steps T cid body via cs1 of
                       (Inl e, cs2) \<Rightarrow> (''could not answer '' @ cid, cs2)
                     | (Inr _, cs2) \<Rightarrow> (''answered '' @ cid, cs2))))"

fun remove_each :: "'s card_tracker \<Rightarrow> string \<Rightarrow> string list \<Rightarrow> 's channel_state \<Rightarrow> (string + unit) \<times> 's channel_state" where
  "remove_each T cid [] cs = (Inr (), cs)"
| "remove_each T cid (l # ls) cs = did (kt_remove_label T cid l) cs (\<lambda>_ cs. remove_each T cid ls cs)"

definition defer_steps :: "'s chat \<Rightarrow> 's card_tracker \<Rightarrow> string \<Rightarrow> string \<Rightarrow> 's channel_state \<Rightarrow> (string + unit) \<times> 's channel_state" where
  "defer_steps C T cid till cs =
     call (showCardLabels C T cid cs) (\<lambda>labels cs.
     call (remove_each T cid (filter (\<lambda>l. has_prefix l LabelDeferUntilPrefix) labels) cs) (\<lambda>_ cs.
     call (if till \<noteq> [] then on_world (kt_add_label T cid (LabelDeferUntilPrefix @ till)) cs else (Inr (), cs)) (\<lambda>_ cs.
     on_world (kt_add_label T cid LabelDeferred) cs)))"

definition deferCard :: "'s chat \<Rightarrow> string \<Rightarrow> string \<Rightarrow> string \<Rightarrow> 's channel_state \<Rightarrow> string \<times> 's channel_state" where
  "deferCard C cid till via cs =
     (case ch_cards C of
        None \<Rightarrow> (''cannot defer '' @ cid @ '': cards are not configured'', cs)
      | Some T \<Rightarrow>
          (if till \<noteq> [] \<and> parse_date till = None then (''invalid date '' @ till @ '': use YYYY-MM-DD'', cs)
           else case defer_steps C T cid till cs of
                  (Inl e, cs1) \<Rightarrow> (''could not defer '' @ cid, cs1)
                | (Inr _, cs1) \<Rightarrow>
                    (let said = ''deferred '' @ cid @ (if till \<noteq> [] then '' until '' @ till else [])
                     in (said, snd (on_world (kt_comment T cid (said @ '' by the king ('' @ via @ '')'')) cs1)))))"

subsection \<open>Filing a card\<close>

record command_option =
  co_name :: string
  co_string :: string            \<comment> \<open>empty unless the value is a string\<close>
  co_int :: "int option"         \<comment> \<open>what the value reads as an integer\<close>

fun option_card :: "command_option list \<Rightarrow> new_card \<Rightarrow> string + new_card" where
  "option_card [] c = Inr c"
| "option_card (o1 # os) c =
     (if co_name o1 = ''title'' then option_card os (c\<lparr>nw_title := co_string o1\<rparr>)
      else if co_name o1 = ''description'' then option_card os (c\<lparr>nw_description := co_string o1\<rparr>)
      else if co_name o1 = ''type'' then option_card os (c\<lparr>nw_type := co_string o1\<rparr>)
      else if co_name o1 = ''priority'' then
        (case co_int o1 of None \<Rightarrow> Inl ''invalid priority: want an integer 0..4'' | Some n \<Rightarrow> option_card os (c\<lparr>nw_priority := n\<rparr>))
      else option_card os c)"

definition default_card :: new_card where
  "default_card = \<lparr>nw_title = [], nw_description = [], nw_type = ''task'', nw_priority = 2, nw_parent = [], nw_acceptance = []\<rparr>"

definition fault_message :: "vice_fault \<Rightarrow> string" where
  "fault_message e = (case e of V_Http n t \<Rightarrow> t | V_Failed t \<Rightarrow> t | _ \<Rightarrow> [])"

definition fileCard :: "'s chat \<Rightarrow> command_option list \<Rightarrow> string \<Rightarrow> 's channel_state \<Rightarrow> string \<times> 's channel_state" where
  "fileCard C opts via cs =
     (case ch_cards C of
        None \<Rightarrow> (''cannot file a card: cards are not configured'', cs)
      | Some T \<Rightarrow>
          (case option_card opts default_card of
             Inl e \<Rightarrow> (e, cs)
           | Inr c \<Rightarrow>
               (case validateNew c of
                  Some e \<Rightarrow> (''invalid card: '' @ fault_message e, cs)
                | None \<Rightarrow>
                    (case on_world (kt_create T c) cs of
                       (Inl e, cs1) \<Rightarrow> (''could not file the card'', cs1)
                     | (Inr raw, cs1) \<Rightarrow>
                         (case ch_created C raw of
                            Inl e \<Rightarrow> (''filed a card but could not read its id'', cs1)
                          | Inr cid \<Rightarrow>
                              (if \<not> card_id_matches cid then (''filed a card but could not read its id'', cs1)
                               else case approveCard C cid via cs1 of
                                      (said, cs2) \<Rightarrow>
                                        (if said \<noteq> ''approved '' @ cid then ''filed '' @ cid @ '' but '' @ said else ''filed '' @ cid, cs2)))))))"

subsection \<open>Messages\<close>

datatype king_command =
    Approve_Constitution string | Approve_Deploy string | Approve_Workload string | Defer_Card string string
  | Answer_Card string string | Approve_Card string | No_Command

text \<open>The commands' regular expressions; the first that matches counts.\<close>

definition constitution_command :: "string \<Rightarrow> king_command option" where
  "constitution_command t =
     (case cut_prefix t ''approve constitution '' of
        None \<Rightarrow> None
      | Some n \<Rightarrow> if n \<noteq> [] \<and> length n \<le> 9 \<and> list_all is_digit n then Some (Approve_Constitution n) else None)"

definition deploy_command :: "string \<Rightarrow> king_command option" where
  "deploy_command t =
     (case cut_prefix t ''approve deploy '' of
        None \<Rightarrow> None
      | Some n \<Rightarrow> if 7 \<le> length n \<and> length n \<le> 64 \<and> list_all is_hex n then Some (Approve_Deploy n) else None)"

definition workload_command :: "string \<Rightarrow> king_command option" where
  "workload_command t =
     (case cut_prefix t ''approve workload '' of
        None \<Rightarrow> None
      | Some n \<Rightarrow> (case cut_prefix n ''wl-'' of
          None \<Rightarrow> None
        | Some k \<Rightarrow> if k \<noteq> [] \<and> list_all is_digit k then Some (Approve_Workload n) else None))"

definition date_shape :: "string \<Rightarrow> bool" where
  "date_shape d \<longleftrightarrow> length d = 10 \<and> d ! 4 = CHR ''-'' \<and> d ! 7 = CHR ''-'' \<and> list_all is_digit (take 4 d @ take 2 (drop 5 d) @ drop 8 d)"

definition defer_command :: "string \<Rightarrow> king_command option" where
  "defer_command t =
     (case cut_prefix t ''defer '' of
        None \<Rightarrow> None
      | Some r \<Rightarrow>
          (case cut_space r of
             (cid, rest) \<Rightarrow>
               (if \<not> card_id_matches cid then None
                else if CHR '' '' \<notin> set r then Some (Defer_Card cid [])
                else case cut_prefix rest ''until '' of
                       None \<Rightarrow> None
                     | Some d \<Rightarrow> if date_shape d then Some (Defer_Card cid d) else None)))"

definition answer_command :: "string \<Rightarrow> king_command option" where
  "answer_command t =
     (case cut_prefix t ''answer '' of
        None \<Rightarrow> None
      | Some r \<Rightarrow>
          (case cut_space r of
             (cid, body) \<Rightarrow> if CHR '' '' \<in> set r \<and> card_id_matches cid \<and> body \<noteq> [] then Some (Answer_Card cid body) else None))"

definition approve_command :: "string \<Rightarrow> king_command option" where
  "approve_command t =
     (case cut_prefix t ''approve '' of
        None \<Rightarrow> None
      | Some cid \<Rightarrow> if card_id_matches cid then Some (Approve_Card cid) else None)"

definition parse_command :: "string \<Rightarrow> king_command" where
  "parse_command t =
     (case first_err (map (\<lambda>p. p t) [constitution_command, deploy_command, workload_command, defer_command, answer_command, approve_command]) of
        None \<Rightarrow> No_Command
      | Some c \<Rightarrow> c)"

end
