(* ===== verification/Channel_Feed.thy ===== *)
theory Channel_Feed
  imports Channel
begin

text \<open>
  What feeds the channel: the REST poller and the gateway's messages, which share one position in the chat, and the
  king's reactions and slash commands. One lock serialises what moves the position, so each of these is one step.
\<close>

subsection \<open>Commands\<close>

definition king_says :: "'s chat \<Rightarrow> inbox_message \<Rightarrow> bool" where
  "king_says C m \<longleftrightarrow> ch_king C \<noteq> [] \<and> im_author_id m = ch_king C"

definition approveConstitution :: "'s chat \<Rightarrow> inbox_message \<Rightarrow> string \<Rightarrow> 's channel_state \<Rightarrow> 's channel_state" where
  "approveConstitution C m num cs =
     (if \<not> king_says C m then cs
      else let n = read_nat num; t = show_nat n in
           case ch_constitution C of
             None \<Rightarrow> reply C (''cannot approve constitution '' @ t @ '': not configured'') cs
           | Some apply \<Rightarrow>
               (case on_world (apply n (im_id m)) cs of
                  (Some e, cs1) \<Rightarrow> reply C (''could not approve constitution '' @ t @ '': '' @ e) cs1
                | (None, cs1) \<Rightarrow>
                    (let cs2 = reply C (''constitution proposal '' @ t @ '' approved; reloading'') cs1
                     in case ch_restart C of None \<Rightarrow> cs2 | Some restart \<Rightarrow> cs2\<lparr>cs_world := restart (cs_world cs2)\<rparr>)))"

definition approveDeploy :: "'s chat \<Rightarrow> inbox_message \<Rightarrow> string \<Rightarrow> 's channel_state \<Rightarrow> 's channel_state" where
  "approveDeploy C m short cs =
     (if \<not> king_says C m then cs
      else case ch_deploy C of
             None \<Rightarrow> reply C (''cannot approve deploy '' @ short @ '': not configured'') cs
           | Some apply \<Rightarrow>
               (case on_world (apply short (im_id m)) cs of
                  (Inl e, cs1) \<Rightarrow> reply C (''could not approve deploy '' @ short @ '': '' @ e) cs1
                | (Inr commit, cs1) \<Rightarrow> reply C (''deploy '' @ take 12 commit @ '' approved; the deployer will roll it'') cs1))"

definition approveWorkload :: "'s chat \<Rightarrow> inbox_message \<Rightarrow> string \<Rightarrow> 's channel_state \<Rightarrow> 's channel_state" where
  "approveWorkload C m wid cs =
     (if \<not> king_says C m then cs
      else case ch_workload C of
             None \<Rightarrow> reply C (''cannot approve workload '' @ wid @ '': not configured'') cs
           | Some apply \<Rightarrow>
               (case on_world (apply wid (im_id m)) cs of
                  (Some e, cs1) \<Rightarrow> reply C (''could not approve workload '' @ wid @ '': '' @ e) cs1
                | (None, cs1) \<Rightarrow> reply C (''workload '' @ wid @ '' approved; the controller will start it'') cs1))"

definition reply_with :: "'s chat \<Rightarrow> string \<times> 's channel_state \<Rightarrow> 's channel_state" where
  "reply_with C r = reply C (fst r) (snd r)"

definition command :: "'s chat \<Rightarrow> inbox_message \<Rightarrow> 's channel_state \<Rightarrow> 's channel_state" where
  "command C m cs =
     (let via = ''discord message '' @ im_id m in
      case parse_command (im_text m) of
        Approve_Constitution n \<Rightarrow> approveConstitution C m n cs
      | Approve_Deploy short \<Rightarrow> approveDeploy C m short cs
      | Approve_Workload wid \<Rightarrow> approveWorkload C m wid cs
      | Defer_Card cid till \<Rightarrow> reply_with C (deferCard C cid till via cs)
      | Answer_Card cid body \<Rightarrow> reply_with C (answerCard C cid body via cs)
      | Approve_Card cid \<Rightarrow> reply_with C (approveCard C cid via cs)
      | No_Command \<Rightarrow> cs)"

subsection \<open>Delivery\<close>

definition snowflakeLess :: "string \<Rightarrow> string \<Rightarrow> bool" where
  "snowflakeLess a b = (if length a \<noteq> length b then length a < length b else a < b)"

definition inbox_entry :: "'s chat \<Rightarrow> discord_message \<Rightarrow> inbox_message" where
  "inbox_entry C m =
     \<lparr>im_id = dm_id m, im_author = dm_username m, im_author_id = dm_author m,
      im_principal = (if ch_king C \<noteq> [] \<and> dm_author m = ch_king C then ''king'' else ''unknown''),
      im_text = dm_content m, im_ts = dm_timestamp m\<rparr>"

definition deliver :: "'s chat \<Rightarrow> discord_message \<Rightarrow> 's channel_state \<Rightarrow> 's channel_state" where
  "deliver C m cs =
     (if \<not> snowflakeLess (cs_last cs) (dm_id m) then cs
      else let cs1 =
             (if dm_author m = cs_me cs then cs
              else let im = inbox_entry C m; cs0 = cs\<lparr>cs_inbox := cs_inbox cs @ [im]\<rparr>
                   in if im_principal im = ''king'' then command C im cs0 else cs0)
           in cs1\<lparr>cs_last := dm_id m\<rparr>)"

definition snowflake_key :: "string \<Rightarrow> nat \<times> string" where
  "snowflake_key s = (length s, s)"

definition nowSnowflake :: "int \<Rightarrow> string" where
  "nowSnowflake millis = show_int (wrap64 ((millis - 1420070400000) * 2 ^ 22))"

text \<open>\<open>Poll\<close> in two parts: who the bot is, and the page after the position. \<open>millis\<close> is the clock.\<close>

definition know_me :: "'s chat \<Rightarrow> 's channel_state \<Rightarrow> (string + unit) \<times> 's channel_state" where
  "know_me C cs =
     (if cs_me cs \<noteq> [] then (Inr (), cs)
      else call (on_world (ch_whoami C) cs) (\<lambda>me cs. (Inr (), cs\<lparr>cs_me := me\<rparr>)))"

definition take_page :: "'s chat \<Rightarrow> int \<Rightarrow> discord_message list \<Rightarrow> 's channel_state \<Rightarrow> 's channel_state" where
  "take_page C millis msgs cs =
     (let sorted = sort_key (\<lambda>m. snowflake_key (dm_id m)) msgs in
      if cs_last cs = [] then cs\<lparr>cs_last := (if sorted = [] then nowSnowflake millis else dm_id (last sorted))\<rparr>
      else fold (deliver C) sorted cs)"

definition Poll :: "'s chat \<Rightarrow> int \<Rightarrow> 's channel_state \<Rightarrow> (string + unit) \<times> 's channel_state" where
  "Poll C millis cs =
     call (know_me C cs) (\<lambda>_ cs.
     call (on_world (ch_messages C (cs_last cs)) cs) (\<lambda>msgs cs.
     (Inr (), take_page C millis msgs cs)))"

definition gatewayMessage :: "'s chat \<Rightarrow> string \<Rightarrow> discord_message \<Rightarrow> 's channel_state \<Rightarrow> 's channel_state" where
  "gatewayMessage C chan m cs = (if chan \<noteq> ch_id C then cs else deliver C m cs)"

text \<open>\<open>readInbox\<close>: a page of the inbox.\<close>

definition readInbox :: "string \<Rightarrow> 's channel_state \<Rightarrow> inbox_message list" where
  "readInbox after cs = take inboxPage (filter (\<lambda>m. after = [] \<or> snowflakeLess after (im_id m)) (cs_inbox cs))"

subsection \<open>Reactions\<close>

definition token_char :: "char \<Rightarrow> bool" where
  "token_char c \<longleftrightarrow> is_lower c \<or> is_digit c"

text \<open>\<open>cardTokenRe\<close>: runs of letters and digits joined by single dashes and dots; the token read so far is reversed.\<close>

fun tokens_from :: "string \<Rightarrow> string \<Rightarrow> string list" where
  "tokens_from cur [] = (if cur = [] then [] else [rev cur])"
| "tokens_from cur (c # cs) =
     (if token_char c then tokens_from (c # cur) cs
      else if cur \<noteq> [] \<and> (c = CHR ''-'' \<or> c = CHR ''.'') \<and> cs \<noteq> [] \<and> token_char (hd cs) then tokens_from (c # cur) cs
      else (if cur = [] then [] else [rev cur]) @ tokens_from [] cs)"

definition card_tokens :: "string \<Rightarrow> string list" where
  "card_tokens s = tokens_from [] s"

definition chat_cards :: "'s chat \<Rightarrow> list_filter \<Rightarrow> 's channel_state \<Rightarrow> (string + card_summary list) \<times> 's channel_state" where
  "chat_cards C f cs =
     (case ch_cards C of
        None \<Rightarrow> (Inr [], cs)
      | Some T \<Rightarrow> did (kt_list T f) cs (\<lambda>raw cs. (case ch_summaries C raw of Inl e \<Rightarrow> Inl (''decode cards: '' @ e) | Inr l \<Rightarrow> Inr l, cs)))"

definition any_card :: list_filter where
  "any_card = \<lparr>lf_status = [], lf_label = [], lf_parent = [], lf_ready = False\<rparr>"

definition approveEmoji :: string where
  "approveEmoji = [CHR 0xE2, CHR 0x9C, CHR 0x85]"

record reaction =
  re_user :: string
  re_channel :: string
  re_message :: string
  re_emoji :: string

definition named_cards :: "card_summary list \<Rightarrow> string \<Rightarrow> string list" where
  "named_cards cards text = remdups (filter (\<lambda>t. t \<in> sm_id ` set cards) (card_tokens text))"

definition gatewayReaction :: "'s chat \<Rightarrow> reaction \<Rightarrow> 's channel_state \<Rightarrow> 's channel_state" where
  "gatewayReaction C r cs =
     (if ch_king C = [] \<or> re_user r \<noteq> ch_king C \<or> re_channel r \<noteq> ch_id C \<or> re_emoji r \<noteq> approveEmoji then cs
      else case on_world (ch_message C (re_message r)) cs of
             (Inl e, cs1) \<Rightarrow> cs1
           | (Inr post, cs1) \<Rightarrow>
               (if dm_author post \<noteq> cs_me cs1 then cs1
                else case chat_cards C any_card cs1 of
                       (Inl e, cs2) \<Rightarrow> cs2
                     | (Inr cards, cs2) \<Rightarrow>
                         (case named_cards cards (dm_content post) of
                            [cid] \<Rightarrow> reply_with C (approveCard C cid (''discord reaction on message '' @ re_message r) cs2)
                          | _ \<Rightarrow> cs2)))"

subsection \<open>Slash commands\<close>

definition interactionApplicationCommand :: nat where "interactionApplicationCommand = 2"
definition interactionAutocomplete :: nat where "interactionAutocomplete = 4"

record interaction =
  ia_id :: string
  ia_token :: string
  ia_type :: nat
  ia_channel :: string
  ia_member :: string
  ia_user :: string
  ia_name :: string
  ia_options :: "command_option list"

definition respond :: "'s chat \<Rightarrow> interaction \<Rightarrow> string \<times> 's channel_state \<Rightarrow> 's channel_state" where
  "respond C i r = (case r of (text, cs) \<Rightarrow> cs\<lparr>cs_world := ch_respond C (ia_id i) (ia_token i) text (cs_world cs)\<rparr>)"

definition choice_name :: "card_summary \<Rightarrow> string" where
  "choice_name c = sm_id c @ '' '' @ sm_title c"

definition proposed_choices :: "time \<Rightarrow> string \<Rightarrow> card_summary list \<Rightarrow> (string \<times> string) list" where
  "proposed_choices now typed cards =
     take maxChoices
       (map (\<lambda>c. (take maxChoiceChars ((if IsDeferred (sm_labels c) now then ''(deferred) '' else []) @ choice_name c), sm_id c))
         (filter (\<lambda>c. LabelLine \<notin> set (sm_labels c) \<and> sublist (map to_lower typed) (map to_lower (choice_name c))) cards))"

definition proposedChoices :: "'s chat \<Rightarrow> time \<Rightarrow> string \<Rightarrow> 's channel_state \<Rightarrow> (string + (string \<times> string) list) \<times> 's channel_state" where
  "proposedChoices C now typed cs =
     call (chat_cards C (any_card\<lparr>lf_label := LabelProposed\<rparr>) cs) (\<lambda>cards cs. (Inr (proposed_choices now typed cards), cs))"

definition card_option :: "command_option list \<Rightarrow> string" where
  "card_option opts = foldl (\<lambda>c o1. if co_name o1 = ''card'' then co_string o1 else c) [] opts"

definition approve_interaction :: "'s chat \<Rightarrow> time \<Rightarrow> interaction \<Rightarrow> 's channel_state \<Rightarrow> 's channel_state" where
  "approve_interaction C now i cs =
     (let card = card_option (ia_options i) in
      if ia_type i = interactionAutocomplete then
        (case proposedChoices C now card cs of
           (Inl e, cs1) \<Rightarrow> cs1
         | (Inr choices, cs1) \<Rightarrow> cs1\<lparr>cs_world := ch_choices C (ia_id i) (ia_token i) choices (cs_world cs1)\<rparr>)
      else if ia_type i = interactionApplicationCommand then
        respond C i (if card_id_matches card then approveCard C card (''discord interaction '' @ ia_id i) cs else (''invalid card id '' @ card, cs))
      else cs)"

definition gatewayInteraction :: "'s chat \<Rightarrow> time \<Rightarrow> interaction \<Rightarrow> 's channel_state \<Rightarrow> 's channel_state" where
  "gatewayInteraction C now i cs =
     (let user = (if ia_member i = [] then ia_user i else ia_member i) in
      if ch_king C = [] \<or> user \<noteq> ch_king C \<or> ia_channel i \<noteq> ch_id C then cs
      else if ia_name i = ''card'' then
        (if ia_type i \<noteq> interactionApplicationCommand then cs
         else respond C i (fileCard C (ia_options i) (''discord interaction '' @ ia_id i) cs))
      else if ia_name i = ''approve'' then approve_interaction C now i cs
      else cs)"

end
