(* ===== verification/Channel_Correct.thy ===== *)
theory Channel_Correct
  imports Channel_Feed
begin

text \<open>
  The channel's guarantees, piece by piece: the king's word acts on the world and the ledger only, so the position in
  the chat only moves forward; a step that is not the king's leaves the tracker alone; the commands read back; and
  over a tracker that does what it says, approving and deferring have their effect.
\<close>

subsection \<open>What the king's word leaves alone\<close>

definition same_feed :: "'s channel_state \<Rightarrow> 's channel_state \<Rightarrow> bool" where
  "same_feed a b \<longleftrightarrow> cs_inbox b = cs_inbox a \<and> cs_last b = cs_last a \<and> cs_me b = cs_me a"

lemma same_feed_refl [simp, intro]: "same_feed a a"
  by (simp add: same_feed_def)

lemma same_feed_trans: "same_feed a b \<Longrightarrow> same_feed b c \<Longrightarrow> same_feed a c"
  by (simp add: same_feed_def)

lemma on_world_feed: "same_feed cs (snd (on_world f cs))"
  by (simp add: on_world_def same_feed_def split: prod.split)

lemma call_feed:
  assumes "same_feed cs (snd r)" "\<And>x cs'. same_feed cs cs' \<Longrightarrow> same_feed cs (snd (k x cs'))"
  shows "same_feed cs (snd (call r k))"
  using assms by (cases r; cases "fst r") (auto simp: call_def)

lemma did_feed:
  assumes "\<And>x cs'. same_feed cs cs' \<Longrightarrow> same_feed cs (snd (k x cs'))"
  shows "same_feed cs (snd (did f cs k))"
  unfolding did_def by (rule call_feed [OF on_world_feed assms])

lemma step_feed: "same_feed a cs \<Longrightarrow> same_feed a (snd (on_world f cs))"
  using on_world_feed same_feed_trans by blast

lemma reply_feed: "same_feed a cs \<Longrightarrow> same_feed a (reply C t cs)"
  by (simp add: reply_def same_feed_def)

lemma did_feed_from: "same_feed a cs \<Longrightarrow> (\<And>x cs'. same_feed a cs' \<Longrightarrow> same_feed a (snd (k x cs'))) \<Longrightarrow> same_feed a (snd (did f cs k))"
  unfolding did_def by (cases "on_world f cs"; cases "fst (on_world f cs)") (use step_feed [of a cs f] in auto)

lemma call_feed_from: "same_feed a (snd r) \<Longrightarrow> (\<And>x cs'. same_feed a cs' \<Longrightarrow> same_feed a (snd (k x cs'))) \<Longrightarrow> same_feed a (snd (call r k))"
  by (cases r; cases "fst r") (auto simp: call_def)

lemma recordEpicApproval_feed: "same_feed a cs \<Longrightarrow> same_feed a (snd (recordEpicApproval C T cid via cs))"
  by (auto simp: recordEpicApproval_def same_feed_def intro!: did_feed_from [unfolded same_feed_def])

lemma approve_steps_feed: "same_feed a cs \<Longrightarrow> same_feed a (snd (approve_steps C T cid via cs))"
  unfolding approve_steps_def by (intro call_feed_from did_feed_from recordEpicApproval_feed step_feed)

lemma approveCard_feed:
  assumes "same_feed a cs"
  shows "same_feed a (snd (approveCard C cid via cs))"
proof (cases "ch_cards C")
  case (Some T)
  obtain r cs1 where d: "approve_steps C T cid via cs = (r, cs1)" by fastforce
  then have "same_feed a cs1" using approve_steps_feed [OF assms, of C T cid via] by simp
  then show ?thesis using Some d by (auto simp: approveCard_def intro: step_feed split: sum.split)
qed (use assms in \<open>simp add: approveCard_def\<close>)

lemma showCardLabels_feed: "same_feed a cs \<Longrightarrow> same_feed a (snd (showCardLabels C T cid cs))"
  unfolding showCardLabels_def by (intro did_feed_from) (auto split: option.split)

lemma answerCard_feed:
  assumes "same_feed a cs"
  shows "same_feed a (snd (answerCard C cid body via cs))"
proof (cases "ch_cards C")
  case (Some T)
  have steps: "same_feed a cs' \<Longrightarrow> same_feed a (snd (answer_steps T cid body via cs'))" for cs'
    unfolding answer_steps_def by (intro did_feed_from step_feed)
  obtain r cs1 where l: "showCardLabels C T cid cs = (r, cs1)" by fastforce
  then have cs1: "same_feed a cs1" using showCardLabels_feed [OF assms, of C T cid] by simp
  obtain e cs2 where "answer_steps T cid body via cs1 = (e, cs2)" by fastforce
  moreover from this have "same_feed a cs2" using steps [OF cs1] by simp
  ultimately show ?thesis using Some l cs1 by (auto simp: answerCard_def split: sum.split)
qed (use assms in \<open>simp add: answerCard_def\<close>)

lemma remove_each_feed: "same_feed a cs \<Longrightarrow> same_feed a (snd (remove_each T cid ls cs))"
  by (induction ls arbitrary: cs) (auto intro!: did_feed_from)

lemma defer_steps_feed: "same_feed a cs \<Longrightarrow> same_feed a (snd (defer_steps C T cid till cs))"
  unfolding defer_steps_def by (intro call_feed_from showCardLabels_feed remove_each_feed step_feed) (auto intro: step_feed)

lemma deferCard_feed:
  assumes "same_feed a cs"
  shows "same_feed a (snd (deferCard C cid till via cs))"
proof (cases "ch_cards C")
  case (Some T)
  obtain r cs1 where d: "defer_steps C T cid till cs = (r, cs1)" by fastforce
  then have "same_feed a cs1" using defer_steps_feed [OF assms, of C T cid till] by simp
  then show ?thesis using assms Some d by (auto simp: deferCard_def Let_def intro: step_feed split: sum.split)
qed (use assms in \<open>simp add: deferCard_def\<close>)

lemma hook_feed: "same_feed a cs \<Longrightarrow> on_world f cs = (r, cs1) \<Longrightarrow> same_feed a cs1"
  using step_feed [of a cs f] by simp

lemma command_feed: "same_feed cs (command C m cs)"
proof -
  have "same_feed cs (approveConstitution C m n cs)" for n
    by (auto simp: approveConstitution_def Let_def intro!: reply_feed split: option.split prod.split dest: hook_feed [OF same_feed_refl])
      (auto simp: reply_def same_feed_def dest!: hook_feed [OF same_feed_refl, unfolded same_feed_def])
  moreover have "same_feed cs (approveDeploy C m n cs)" "same_feed cs (approveWorkload C m n cs)" for n
    by (auto simp: approveDeploy_def approveWorkload_def intro!: reply_feed split: option.split prod.split sum.split dest: hook_feed [OF same_feed_refl])
  ultimately show ?thesis
    by (auto simp: command_def Let_def reply_with_def intro!: reply_feed approveCard_feed answerCard_feed deferCard_feed split: king_command.split)
qed


subsection \<open>The position in the chat\<close>

lemma snowflakeLess_key: "snowflakeLess a b \<longleftrightarrow> snowflake_key a < snowflake_key b"
  by (auto simp: snowflakeLess_def snowflake_key_def)

lemma snowflake_key_inj: "snowflake_key a = snowflake_key b \<longleftrightarrow> a = b"
  by (auto simp: snowflake_key_def)

lemma snowflake_key_Nil: "snowflake_key [] \<le> snowflake_key a"
  by (cases a) (simp_all add: snowflake_key_def)

datatype feed_event = Poll_At int | Message_In string discord_message | Reacted reaction | Interacted time interaction

fun feed_step :: "'s chat \<Rightarrow> feed_event \<Rightarrow> 's channel_state \<Rightarrow> 's channel_state" where
  "feed_step C (Poll_At t) cs = snd (Poll C t cs)"
| "feed_step C (Message_In chan m) cs = gatewayMessage C chan m cs"
| "feed_step C (Reacted r) cs = gatewayReaction C r cs"
| "feed_step C (Interacted now i) cs = gatewayInteraction C now i cs"

definition feed :: "'s chat \<Rightarrow> feed_event list \<Rightarrow> 's channel_state \<Rightarrow> 's channel_state" where
  "feed C evs cs = fold (feed_step C) evs cs"

text \<open>The inbox is in the order of the chat and behind the position; what happens later extends it.\<close>

definition feed_inv :: "'s channel_state \<Rightarrow> bool" where
  "feed_inv cs \<longleftrightarrow> sorted_wrt snowflakeLess (map im_id (cs_inbox cs)) \<and> (\<forall>m \<in> set (cs_inbox cs). \<not> snowflakeLess (cs_last cs) (im_id m))"

definition later :: "'s channel_state \<Rightarrow> 's channel_state \<Rightarrow> bool" where
  "later a b \<longleftrightarrow> prefix (cs_inbox a) (cs_inbox b) \<and> snowflake_key (cs_last a) \<le> snowflake_key (cs_last b) \<and> (feed_inv a \<longrightarrow> feed_inv b)"

lemma later_refl [simp, intro]: "later a a"
  by (simp add: later_def)

lemma later_trans: "later a b \<Longrightarrow> later b c \<Longrightarrow> later a c"
  unfolding later_def using prefix_order.trans order_trans by blast

lemma same_feed_later: "same_feed a b \<Longrightarrow> later a b"
  by (simp add: same_feed_def later_def feed_inv_def)

lemma deliver_effect:
  assumes "snowflakeLess (cs_last cs) (dm_id m)"
  shows "cs_last (deliver C m cs) = dm_id m" "cs_me (deliver C m cs) = cs_me cs"
    "cs_inbox (deliver C m cs) = cs_inbox cs @ (if dm_author m = cs_me cs then [] else [inbox_entry C m])"
  using assms command_feed [of _ C] by (auto simp: deliver_def Let_def same_feed_def)

lemma deliver_later: "later cs (deliver C m cs)"
proof (cases "snowflakeLess (cs_last cs) (dm_id m)")
  case True
  have "\<forall>x \<in> set (cs_inbox cs). \<not> snowflakeLess (cs_last cs) (im_id x) \<Longrightarrow> \<forall>x \<in> set (cs_inbox cs). snowflakeLess (im_id x) (dm_id m)"
    using True by (auto simp: snowflakeLess_key)
  moreover have "im_id (inbox_entry C m) = dm_id m" by (simp add: inbox_entry_def)
  ultimately show ?thesis using True
    by (auto simp: later_def feed_inv_def deliver_effect [OF True] sorted_wrt_append snowflakeLess_key)
next
  case False
  then show ?thesis by (simp add: deliver_def)
qed

lemma deliver_passed: "snowflake_key (dm_id m) \<le> snowflake_key (cs_last cs) \<Longrightarrow> deliver C m cs = cs"
  by (simp add: deliver_def snowflakeLess_key)

lemma deliver_passes: "snowflake_key (dm_id m) \<le> snowflake_key (cs_last (deliver C m cs))"
  using deliver_effect(1) [of cs m C] by (cases "snowflakeLess (cs_last cs) (dm_id m)") (simp_all add: deliver_def snowflakeLess_key)

lemma page_later: "later cs (fold (deliver C) msgs cs)"
  by (induction msgs arbitrary: cs) (auto intro: later_trans deliver_later)

lemma take_page_later: "later cs (take_page C t msgs cs)"
proof (cases "cs_last cs = []")
  case True
  then have "take_page C t msgs cs = cs\<lparr>cs_last := cs_last (take_page C t msgs cs)\<rparr>" by (simp add: take_page_def Let_def)
  moreover have "later cs (cs\<lparr>cs_last := l\<rparr>)" for l
    using True snowflake_key_Nil [of l] by (auto simp: later_def feed_inv_def snowflakeLess_key)
  ultimately show ?thesis by metis
qed (simp add: take_page_def Let_def page_later)

lemma on_world_later: "on_world f cs = (r, cs1) \<Longrightarrow> later cs cs1"
  using on_world_feed [of cs f] by (simp add: same_feed_later)

lemma know_me_later: "know_me C cs = (r, cs1) \<Longrightarrow> later cs cs1"
  by (auto simp: know_me_def call_def later_def feed_inv_def on_world_def split: if_splits prod.splits sum.splits)

lemma Poll_later: "later cs (snd (Poll C t cs))"
proof -
  obtain r cs1 where k: "know_me C cs = (r, cs1)" by fastforce
  obtain p cs2 where m: "on_world (ch_messages C (cs_last cs1)) cs1 = (p, cs2)" by fastforce
  have l: "later cs cs1" "later cs1 cs2" using know_me_later [OF k] on_world_later [OF m] by simp_all
  then have "later cs (take_page C t msgs cs2)" for msgs using take_page_later later_trans by metis
  then show ?thesis using l later_trans [OF l] by (cases r; cases p) (simp_all add: Poll_def k m)
qed

lemma reaction_feed: "same_feed cs (gatewayReaction C r cs)"
proof -
  obtain p cs1 where m: "on_world (ch_message C (re_message r)) cs = (p, cs1)" by fastforce
  then have f1: "same_feed cs cs1" using on_world_feed [of cs] by (metis snd_conv)
  obtain l cs2 where l: "chat_cards C any_card cs1 = (l, cs2)" by fastforce
  have "same_feed cs (snd (chat_cards C any_card cs1))" using f1
    by (auto simp: chat_cards_def intro!: did_feed_from split: option.split)
  then have f2: "same_feed cs cs2" by (simp add: l)
  have "same_feed cs (reply_with C (approveCard C cid via cs2))" for cid via
    unfolding reply_with_def by (intro reply_feed approveCard_feed f2)
  then show ?thesis using f1 f2 by (auto simp: gatewayReaction_def m l split: sum.split list.split)
qed

lemma fileCard_feed: "same_feed cs (snd (fileCard C opts via cs))"
proof (cases "ch_cards C")
  case (Some T)
  have "same_feed cs (snd (on_world (kt_create T c) cs))" for c by (rule on_world_feed)
  moreover have "same_feed cs cs1 \<Longrightarrow> approveCard C cid via cs1 = (r, cs2) \<Longrightarrow> same_feed cs cs2" for cs1 cid r cs2
    using approveCard_feed by (metis snd_conv)
  ultimately show ?thesis using Some
    by (auto simp: fileCard_def split: sum.split option.split prod.split) (metis snd_conv)+
qed (simp add: fileCard_def)

lemma respond_feed: "same_feed cs (snd r) \<Longrightarrow> same_feed cs (respond C i r)"
  by (auto simp: respond_def same_feed_def split: prod.split)

lemma interaction_feed: "same_feed cs (gatewayInteraction C now i cs)"
proof -
  have "same_feed cs (snd (proposedChoices C now t cs))" for t
    unfolding proposedChoices_def chat_cards_def
    by (auto intro!: call_feed_from did_feed_from split: option.split)
  then have "proposedChoices C now t cs = (r, cs1) \<Longrightarrow> same_feed cs cs1" for t r cs1 by (metis snd_conv)
  then have "same_feed cs (approve_interaction C now i cs)"
    by (auto simp: approve_interaction_def Let_def intro!: respond_feed approveCard_feed split: prod.split sum.split)
      (auto simp: same_feed_def)
  then show ?thesis by (auto simp: gatewayInteraction_def Let_def intro!: respond_feed fileCard_feed)
qed

lemma feed_step_later: "later cs (feed_step C ev cs)"
  by (cases ev) (auto simp: Poll_later gatewayMessage_def deliver_later intro: same_feed_later reaction_feed interaction_feed)

lemma feed_later: "later cs (feed C evs cs)"
  unfolding feed_def by (induction evs arbitrary: cs) (auto intro: later_trans feed_step_later)

text \<open>A poll delivers what is new in its page.\<close>

lemma page_complete:
  assumes "sorted_wrt snowflakeLess (map dm_id msgs)" "m \<in> set msgs" "snowflakeLess (cs_last cs) (dm_id m)" "dm_author m \<noteq> cs_me cs"
  shows "inbox_entry C m \<in> set (cs_inbox (fold (deliver C) msgs cs))"
  using assms
proof (induction msgs arbitrary: cs)
  case (Cons x xs)
  let ?cs = "deliver C x cs"
  have keep: "inbox_entry C m \<in> set (cs_inbox ?cs) \<Longrightarrow> inbox_entry C m \<in> set (cs_inbox (fold (deliver C) xs ?cs))"
    using page_later [of ?cs C xs] by (auto simp: later_def prefix_def)
  show ?case
  proof (cases "m = x")
    case True
    then show ?thesis using Cons.prems keep by (simp add: deliver_effect)
  next
    case False
    then have m: "m \<in> set xs" "snowflakeLess (dm_id x) (dm_id m)" using Cons.prems by auto
    have "snowflakeLess (cs_last ?cs) (dm_id m) \<and> cs_me ?cs = cs_me cs"
      using m(2) Cons.prems(3) deliver_effect(1,2) [of cs x C] by (cases "snowflakeLess (cs_last cs) (dm_id x)") (auto simp: deliver_def)
    then show ?thesis using Cons.IH [of ?cs] Cons.prems m(1) by simp
  qed
qed simp


subsection \<open>Others than the king\<close>

definition by_king :: "'s chat \<Rightarrow> string \<Rightarrow> bool" where
  "by_king C who \<longleftrightarrow> ch_king C \<noteq> [] \<and> who = ch_king C"

fun kings_event :: "'s chat \<Rightarrow> feed_event \<Rightarrow> bool" where
  "kings_event C (Poll_At t) \<longleftrightarrow> False"
| "kings_event C (Message_In chan m) \<longleftrightarrow> by_king C (dm_author m)"
| "kings_event C (Reacted r) \<longleftrightarrow> by_king C (re_user r)"
| "kings_event C (Interacted now i) \<longleftrightarrow> by_king C (if ia_member i = [] then ia_user i else ia_member i)"

text \<open>Reading the chat leaves \<open>K\<close> alone and shows no message of the king's.\<close>

definition reading_keeps :: "'s chat \<Rightarrow> ('s \<Rightarrow> 'k) \<Rightarrow> bool" where
  "reading_keeps C K \<longleftrightarrow> (\<forall>s. K (snd (ch_whoami C s)) = K s) \<and> (\<forall>a s. K (snd (ch_messages C a s)) = K s)"

definition king_silent :: "'s chat \<Rightarrow> bool" where
  "king_silent C \<longleftrightarrow> (\<forall>a s msgs. fst (ch_messages C a s) = Inr msgs \<longrightarrow> (\<forall>m \<in> set msgs. \<not> by_king C (dm_author m)))"

definition same_effects :: "('s \<Rightarrow> 'k) \<Rightarrow> 's channel_state \<Rightarrow> 's channel_state \<Rightarrow> bool" where
  "same_effects K a b \<longleftrightarrow> K (cs_world b) = K (cs_world a) \<and> cs_epics b = cs_epics a"

lemma same_effects_refl [simp, intro]: "same_effects K a a"
  by (simp add: same_effects_def)

lemma same_effects_trans: "same_effects K a b \<Longrightarrow> same_effects K b c \<Longrightarrow> same_effects K a c"
  by (simp add: same_effects_def)

lemma deliver_effects: "\<not> by_king C (dm_author m) \<Longrightarrow> same_effects K cs (deliver C m cs)"
  by (auto simp: deliver_def Let_def inbox_entry_def by_king_def same_effects_def)

lemma page_effects: "\<forall>m \<in> set msgs. \<not> by_king C (dm_author m) \<Longrightarrow> same_effects K cs (fold (deliver C) msgs cs)"
  by (induction msgs arbitrary: cs) (auto intro: same_effects_trans deliver_effects)

lemma Poll_effects:
  assumes "reading_keeps C K" "king_silent C"
  shows "same_effects K cs (snd (Poll C t cs))"
proof -
  obtain r cs1 where k: "know_me C cs = (r, cs1)" by fastforce
  obtain p cs2 where m: "on_world (ch_messages C (cs_last cs1)) cs1 = (p, cs2)" by fastforce
  have "K (snd (ch_whoami C s)) = K s" for s using assms(1) by (simp add: reading_keeps_def)
  then have "same_effects K cs cs1" using k
    by (auto simp: know_me_def call_def on_world_def same_effects_def split: if_splits prod.splits sum.splits) (metis snd_conv)+
  moreover have "same_effects K cs1 cs2" using m assms(1) unfolding reading_keeps_def
    by (auto simp: on_world_def same_effects_def split: prod.splits) (metis snd_conv)
  ultimately have e: "same_effects K cs cs1" "same_effects K cs cs2" by (blast intro: same_effects_trans)+
  have "same_effects K cs2 (take_page C t msgs cs2)" if "p = Inr msgs" for msgs
  proof -
    have "fst (ch_messages C (cs_last cs1) (cs_world cs1)) = Inr msgs" using m that by (auto simp: on_world_def split: prod.splits)
    then have "\<forall>m \<in> set msgs. \<not> by_king C (dm_author m)" using assms(2) by (auto simp: king_silent_def)
    then have "same_effects K cs2 (fold (deliver C) (sort_key (\<lambda>m. snowflake_key (dm_id m)) msgs) cs2)"
      by (intro page_effects) simp
    then show ?thesis by (simp add: take_page_def Let_def same_effects_def)
  qed
  then show ?thesis using e by (cases r; cases p) (auto simp: Poll_def k m intro: same_effects_trans)
qed

lemma feed_step_effects:
  assumes "reading_keeps C K" "king_silent C" "\<not> kings_event C ev"
  shows "same_effects K cs (feed_step C ev cs)"
  using assms
  by (cases ev) (auto simp: Poll_effects gatewayMessage_def deliver_effects gatewayReaction_def gatewayInteraction_def by_king_def Let_def)

lemma feed_effects:
  assumes "reading_keeps C K" "king_silent C" "\<forall>ev \<in> set evs. \<not> kings_event C ev"
  shows "same_effects K cs (feed C evs cs)"
  using assms(3) unfolding feed_def
  by (induction evs arbitrary: cs) (auto intro: same_effects_trans feed_step_effects [OF assms(1,2)])

subsection \<open>Commands read back\<close>

fun print_command :: "king_command \<Rightarrow> string" where
  "print_command (Approve_Constitution n) = ''approve constitution '' @ n"
| "print_command (Approve_Deploy c) = ''approve deploy '' @ c"
| "print_command (Approve_Workload w) = ''approve workload '' @ w"
| "print_command (Defer_Card cid d) = ''defer '' @ cid @ (if d = [] then [] else '' until '' @ d)"
| "print_command (Answer_Card cid t) = ''answer '' @ cid @ '' '' @ t"
| "print_command (Approve_Card cid) = ''approve '' @ cid"
| "print_command No_Command = []"

fun wf_command :: "king_command \<Rightarrow> bool" where
  "wf_command (Approve_Constitution n) \<longleftrightarrow> n \<noteq> [] \<and> length n \<le> 9 \<and> list_all is_digit n"
| "wf_command (Approve_Deploy c) \<longleftrightarrow> 7 \<le> length c \<and> length c \<le> 64 \<and> list_all is_hex c"
| "wf_command (Approve_Workload w) \<longleftrightarrow> (\<exists>k. w = ''wl-'' @ k \<and> k \<noteq> [] \<and> list_all is_digit k)"
| "wf_command (Defer_Card cid d) \<longleftrightarrow> card_id_matches cid \<and> (d = [] \<or> date_shape d)"
| "wf_command (Answer_Card cid t) \<longleftrightarrow> card_id_matches cid \<and> t \<noteq> []"
| "wf_command (Approve_Card cid) \<longleftrightarrow> card_id_matches cid"
| "wf_command No_Command \<longleftrightarrow> False"

lemma card_id_no_space:
  assumes "card_id_matches cid"
  shows "CHR '' '' \<notin> set cid"
proof
  assume "CHR '' '' \<in> set cid"
  have "x \<in> set s \<Longrightarrow> x = c \<or> (\<exists>w \<in> set (split_char c s). x \<in> set w)" for x c and s :: string
    by (induction s) (auto split: list.split)
  from this [of "CHR '' ''" cid "CHR ''.''"] \<open>CHR '' '' \<in> set cid\<close>
  obtain w where "w \<in> set (split_char (CHR ''.'') cid)" "CHR '' '' \<in> set w" by auto
  moreover from this(1) have "\<forall>x \<in> set w. card_char x" using assms
    by (auto simp: card_id_matches_def list_all_iff card_char_def split: list.splits)
  moreover have "\<not> card_char (CHR '' '')" by (simp add: card_char_def is_lower_def is_digit_def in_range_def)
  ultimately show False by blast
qed

lemma cut_space_id: "CHR '' '' \<notin> set cid \<Longrightarrow> cut_space (cid @ CHR '' '' # t) = (cid, t)" "CHR '' '' \<notin> set cid \<Longrightarrow> cut_space cid = (cid, [])"
  by (induction cid) (auto simp: cut_space_def)

lemma cut_space_split: "CHR '' '' \<in> set r \<Longrightarrow> r = fst (cut_space r) @ CHR '' '' # snd (cut_space r)"
  by (induction r) (auto simp: cut_space_def)


lemma cut_prefix_simps [simp]:
  "cut_prefix s [] = Some s" "cut_prefix [] (d # p) = None" "cut_prefix (c # s) (d # p) = (if c = d then cut_prefix s p else None)"
  by (auto simp: cut_prefix_def has_prefix_def)

lemma cut_prefix_SomeD: "cut_prefix s p = Some r \<Longrightarrow> s = p @ r"
  by simp

lemma constitution_reads: "constitution_command t = Some c \<longleftrightarrow> (\<exists>n. c = Approve_Constitution n \<and> wf_command c \<and> t = print_command c)"
proof
  assume "constitution_command t = Some c"
  then show "\<exists>n. c = Approve_Constitution n \<and> wf_command c \<and> t = print_command c"
    by (auto simp: constitution_command_def dest!: cut_prefix_SomeD split: option.splits if_splits)
next
  assume "\<exists>n. c = Approve_Constitution n \<and> wf_command c \<and> t = print_command c"
  then show "constitution_command t = Some c" by (auto simp: constitution_command_def)
qed

lemma deploy_reads: "deploy_command t = Some c \<longleftrightarrow> (\<exists>n. c = Approve_Deploy n \<and> wf_command c \<and> t = print_command c)"
proof
  assume "deploy_command t = Some c"
  then show "\<exists>n. c = Approve_Deploy n \<and> wf_command c \<and> t = print_command c"
    by (auto simp: deploy_command_def dest!: cut_prefix_SomeD split: option.splits if_splits)
next
  assume "\<exists>n. c = Approve_Deploy n \<and> wf_command c \<and> t = print_command c"
  then show "deploy_command t = Some c" by (auto simp: deploy_command_def)
qed

lemma workload_reads: "workload_command t = Some c \<longleftrightarrow> (\<exists>n. c = Approve_Workload n \<and> wf_command c \<and> t = print_command c)"
proof
  assume "workload_command t = Some c"
  then show "\<exists>n. c = Approve_Workload n \<and> wf_command c \<and> t = print_command c"
    by (auto simp: workload_command_def dest!: cut_prefix_SomeD split: option.splits if_splits)
next
  assume "\<exists>n. c = Approve_Workload n \<and> wf_command c \<and> t = print_command c"
  then show "workload_command t = Some c" by (auto simp: workload_command_def)
qed

lemma approve_reads: "approve_command t = Some c \<longleftrightarrow> (\<exists>n. c = Approve_Card n \<and> wf_command c \<and> t = print_command c)"
proof
  assume "approve_command t = Some c"
  then show "\<exists>n. c = Approve_Card n \<and> wf_command c \<and> t = print_command c"
    by (auto simp: approve_command_def dest!: cut_prefix_SomeD split: option.splits if_splits)
next
  assume "\<exists>n. c = Approve_Card n \<and> wf_command c \<and> t = print_command c"
  then show "approve_command t = Some c" by (auto simp: approve_command_def)
qed

lemma answer_reads: "answer_command t = Some c \<longleftrightarrow> (\<exists>n b. c = Answer_Card n b \<and> wf_command c \<and> t = print_command c)"
proof
  assume "answer_command t = Some c"
  then obtain r where r: "t = ''answer '' @ r" "CHR '' '' \<in> set r" "card_id_matches (fst (cut_space r))" "snd (cut_space r) \<noteq> []"
      "c = Answer_Card (fst (cut_space r)) (snd (cut_space r))"
    by (auto simp: answer_command_def dest!: cut_prefix_SomeD split: option.splits prod.splits if_splits)
  then show "\<exists>n b. c = Answer_Card n b \<and> wf_command c \<and> t = print_command c" using cut_space_split [OF r(2)] by simp
next
  assume "\<exists>n b. c = Answer_Card n b \<and> wf_command c \<and> t = print_command c"
  then show "answer_command t = Some c"
    using card_id_no_space by (auto simp: answer_command_def cut_space_id)
qed

lemma defer_reads: "defer_command t = Some c \<longleftrightarrow> (\<exists>n d. c = Defer_Card n d \<and> wf_command c \<and> t = print_command c)"
proof
  assume "defer_command t = Some c"
  then obtain r where r: "t = ''defer '' @ r" "card_id_matches (fst (cut_space r))"
      "CHR '' '' \<notin> set r \<and> c = Defer_Card (fst (cut_space r)) []
       \<or> CHR '' '' \<in> set r \<and> (\<exists>d. snd (cut_space r) = ''until '' @ d \<and> date_shape d \<and> c = Defer_Card (fst (cut_space r)) d)"
    by (auto simp: defer_command_def dest!: cut_prefix_SomeD split: option.splits prod.splits if_splits)
  from r(3) show "\<exists>n d. c = Defer_Card n d \<and> wf_command c \<and> t = print_command c"
  proof
    assume "CHR '' '' \<notin> set r \<and> c = Defer_Card (fst (cut_space r)) []"
    then show ?thesis using r(1,2) cut_space_id(2) [of r] by simp
  next
    assume "CHR '' '' \<in> set r \<and> (\<exists>d. snd (cut_space r) = ''until '' @ d \<and> date_shape d \<and> c = Defer_Card (fst (cut_space r)) d)"
    moreover from this obtain d where "snd (cut_space r) = ''until '' @ d" "date_shape d" "c = Defer_Card (fst (cut_space r)) d" by blast
    ultimately show ?thesis using r(1,2) cut_space_split [of r] by (auto simp: date_shape_def)
  qed
next
  assume "\<exists>n d. c = Defer_Card n d \<and> wf_command c \<and> t = print_command c"
  then obtain n d where c: "c = Defer_Card n d" "card_id_matches n" "d = [] \<or> date_shape d" "t = print_command c" by auto
  have n: "CHR '' '' \<notin> set n" using card_id_no_space [OF c(2)] .
  show "defer_command t = Some c"
    using c n by (cases "d = []") (simp_all add: defer_command_def cut_space_id)
qed

lemma print_answer_inj:
  assumes "wf_command (Answer_Card a b)" "wf_command (Answer_Card a' b')" "print_command (Answer_Card a b) = print_command (Answer_Card a' b')"
  shows "a = a' \<and> b = b'"
proof -
  have "cut_space (a @ CHR '' '' # b) = cut_space (a' @ CHR '' '' # b')" using assms(3) by simp
  then show ?thesis using assms(1,2) card_id_no_space by (simp add: cut_space_id(1))
qed

lemma print_defer_inj:
  assumes "wf_command (Defer_Card a b)" "wf_command (Defer_Card a' b')" "print_command (Defer_Card a b) = print_command (Defer_Card a' b')"
  shows "a = a' \<and> b = b'"
proof -
  let ?s = "\<lambda>x d. x @ (if d = [] then [] else '' until '' @ d)"
  have e: "?s a b = ?s a' b'" using assms(3) by (simp only: print_command.simps same_append_eq)
  have n: "CHR '' '' \<notin> set a" "CHR '' '' \<notin> set a'" using assms(1,2) card_id_no_space by simp_all
  have f: "fst (cut_space (?s x d)) = x" "(CHR '' '' \<in> set (?s x d)) = (d \<noteq> [])" if "CHR '' '' \<notin> set x" for x d
    using that by (simp_all add: cut_space_id)
  have "a = a'" using f(1) [OF n(1), of b] f(1) [OF n(2), of b'] unfolding e by simp
  moreover have "(b \<noteq> []) = (b' \<noteq> [])" using f(2) [OF n(1), of b] f(2) [OF n(2), of b'] unfolding e by simp
  ultimately show ?thesis using e by (cases "b = []") auto
qed

lemma print_command_inj:
  assumes "wf_command c" "wf_command c'" "print_command c = print_command c'"
  shows "c = c'"
proof (cases "\<exists>a b a' b'. c = Answer_Card a b \<and> c' = Answer_Card a' b' \<or> c = Defer_Card a b \<and> c' = Defer_Card a' b'")
  case True
  then show ?thesis using assms print_answer_inj print_defer_inj by blast
next
  case False
  then show ?thesis using assms by (cases c; cases c') (auto dest!: card_id_no_space)
qed

lemma first_err_eq:
  assumes "\<forall>x \<in> set xs. x = None \<or> x = Some c" "Some c \<in> set xs"
  shows "first_err xs = Some c"
  using assms by (induction xs) auto

lemma first_err_in: "first_err xs = Some c \<Longrightarrow> Some c \<in> set xs"
  by (induction xs rule: first_err.induct) auto

lemmas command_reads = constitution_reads deploy_reads workload_reads defer_reads answer_reads approve_reads

lemma parse_command_iff:
  assumes "c \<noteq> No_Command"
  shows "parse_command t = c \<longleftrightarrow> wf_command c \<and> t = print_command c"
proof -
  let ?ps = "map (\<lambda>p. p t) [constitution_command, deploy_command, workload_command, defer_command, answer_command, approve_command]"
  have read: "Some x \<in> set ?ps \<Longrightarrow> wf_command x \<and> t = print_command x" for x
    using command_reads [of t x] by (auto simp: eq_commute [of "Some x"])
  have reads: "wf_command x \<Longrightarrow> t = print_command x \<Longrightarrow> Some x \<in> set ?ps" for x
    using command_reads [of t x] by (cases x) (auto simp del: print_command.simps)
  show ?thesis
  proof
    assume "parse_command t = c"
    then have "first_err ?ps = Some c" using assms by (auto simp: parse_command_def split: option.splits)
    then show "wf_command c \<and> t = print_command c" by (rule read [OF first_err_in])
  next
    assume c: "wf_command c \<and> t = print_command c"
    have "x = None \<or> x = Some c" if "x \<in> set ?ps" for x
    proof (cases x)
      case (Some y)
      then have "wf_command y \<and> t = print_command y" using that by (intro read) (simp only:)
      then have "y = c" using c print_command_inj [of y c] by simp
      then show ?thesis using Some by simp
    qed simp
    then have "first_err ?ps = Some c" by (intro first_err_eq ballI reads) (use c in simp_all)
    then show "parse_command t = c" by (simp add: parse_command_def)
  qed
qed

end
