(* ===== verification/Channel_Properties.thy ===== *)
theory Channel_Properties
  imports Channel_Correct
begin

text \<open>What the king's channel guarantees.\<close>


text \<open>A channel over a world of labels with a log of posts; the tracker shows what it holds.\<close>

record kx_world =
  kx_labels :: "string \<Rightarrow> string list"
  kx_posts :: "string list"

definition kx_tracker :: "kx_world card_tracker" where
  "kx_tracker =
     \<lparr>kt_list = \<lambda>_ s. (Inr ''[]'', s), kt_show = \<lambda>i s. (Inr i, s), kt_create = \<lambda>_ s. (Inr ''{}'', s), kt_comment = \<lambda>_ _ s. (Inr (), s),
      kt_add_label = \<lambda>i l s. (Inr (), s\<lparr>kx_labels := (kx_labels s)(i := l # kx_labels s i)\<rparr>),
      kt_remove_label = \<lambda>i l s. (Inr (), s\<lparr>kx_labels := (kx_labels s)(i := removeAll l (kx_labels s i))\<rparr>),
      kt_claim = \<lambda>_ _ s. (Inr (), s), kt_release = \<lambda>_ _ _ s. (Inr (), s), kt_close = \<lambda>_ _ _ s. (Inr (), s)\<rparr>"

definition kx_channel :: "kx_world chat" where
  "kx_channel =
     \<lparr>ch_id = ''1'', ch_king = ''77'', ch_json = \<lparr>cj_issue = \<lambda>_. None, cj_valid = \<lambda>_. True, cj_rows = \<lambda>_. Inr [], cj_array = \<lambda>_. []\<rparr>,
      ch_summaries = \<lambda>_. Inr [], ch_created = \<lambda>_. Inl [], ch_cards = Some kx_tracker, ch_ledger = False, ch_constitution = None, ch_restart = None,
      ch_deploy = None, ch_workload = None, ch_whoami = \<lambda>s. (Inr ''9'', s), ch_messages = \<lambda>_ s. (Inr [], s),
      ch_message = \<lambda>_ s. (Inl [], s), ch_post = \<lambda>t s. s\<lparr>kx_posts := kx_posts s @ [t]\<rparr>, ch_respond = \<lambda>_ _ _ s. s, ch_choices = \<lambda>_ _ _ s. s\<rparr>"

definition kx_message :: "string \<Rightarrow> string \<Rightarrow> string \<Rightarrow> discord_message" where
  "kx_message n who t = \<lparr>dm_id = n, dm_content = t, dm_timestamp = [], dm_author = who, dm_username = who\<rparr>"

definition kx_state :: "kx_world channel_state" where
  "kx_state = \<lparr>cs_world = \<lparr>kx_labels = \<lambda>_. [], kx_posts = []\<rparr>, cs_epics = Map.empty, cs_inbox = [], cs_last = ''5'', cs_me = ''9''\<rparr>"


text \<open>C14. Only the king commands. While neither a message in the chat nor an event is the king's, nothing but the inbox and
  the position changes: the ledger of approved epics stays, and so does everything in the world that reading the chat
  leaves alone, the tracker, the deployments, the workloads and the constitution among it.\<close>

theorem only_the_king_commands:
  assumes "reading_keeps C K" "king_silent C" "\<forall>ev \<in> set evs. \<not> kings_event C ev"
  shows "K (cs_world (feed C evs cs)) = K (cs_world cs) \<and> cs_epics (feed C evs cs) = cs_epics cs"
  using feed_effects [OF assms, of cs] by (simp add: same_effects_def)

theorem only_the_king_commands_witness:
  "kx_labels (cs_world (feed kx_channel [Message_In ''1'' (kx_message ''8'' ''3'' ''approve c1''), Poll_At 0] kx_state)) = kx_labels (cs_world kx_state)"
proof -
  have "reading_keeps kx_channel kx_labels" "king_silent kx_channel"
    by (simp_all add: reading_keeps_def king_silent_def kx_channel_def)
  moreover have "\<forall>ev \<in> set [Message_In ''1'' (kx_message ''8'' ''3'' ''approve c1''), Poll_At 0]. \<not> kings_event kx_channel ev"
    by (simp add: by_king_def kx_channel_def kx_message_def)
  ultimately show ?thesis using only_the_king_commands [of kx_channel kx_labels] by blast
qed

text \<open>The commands have one reading: a text is read as a command exactly when it is that command written out, with a
  well-formed card, commit, workload, number or date.\<close>

theorem commands_read_back:
  assumes "c \<noteq> No_Command"
  shows "parse_command t = c \<longleftrightarrow> wf_command c \<and> t = print_command c"
  using assms by (rule parse_command_iff)

theorem commands_read_back_witness:
  "parse_command ''defer c1 until 2026-01-31'' = Defer_Card ''c1'' ''2026-01-31''"
proof -
  have "card_id_matches ''c1''" "date_shape ''2026-01-31''" by code_simp+
  then show ?thesis by (subst commands_read_back) simp_all
qed

subsection \<open>The king's word has its effect\<close>

text \<open>A tracker that does what it says to labels and shows them.\<close>

definition lawful_labels :: "card_json \<Rightarrow> 's card_tracker \<Rightarrow> ('s \<Rightarrow> string \<Rightarrow> string list) \<Rightarrow> bool" where
  "lawful_labels J T lb \<longleftrightarrow>
     (\<forall>i l s s'. kt_add_label T i l s = (Inr (), s') \<longrightarrow> set (lb s' i) = insert l (set (lb s i)))
     \<and> (\<forall>i l s s'. kt_remove_label T i l s = (Inr (), s') \<longrightarrow> set (lb s' i) = set (lb s i) - {l})
     \<and> (\<forall>i t s. lb (snd (kt_comment T i t s)) = lb s) \<and> (\<forall>i s. lb (snd (kt_show T i s)) = lb s)
     \<and> (\<forall>i s raw s' is. kt_show T i s = (Inr raw, s') \<longrightarrow> cj_issue J raw = Some is \<longrightarrow> is_labels is = lb s i)"

lemma lawful_labelsD:
  assumes "lawful_labels J T lb"
  shows "on_world (kt_add_label T i l) cs = (Inr (), cs') \<Longrightarrow> set (lb (cs_world cs') i) = insert l (set (lb (cs_world cs) i))"
    and "on_world (kt_remove_label T i l) cs = (Inr (), cs') \<Longrightarrow> set (lb (cs_world cs') i) = set (lb (cs_world cs) i) - {l}"
    and "lb (cs_world (snd (on_world (kt_comment T i t) cs))) = lb (cs_world cs)"
    and "on_world (kt_show T i) cs = (r, cs') \<Longrightarrow> lb (cs_world cs') = lb (cs_world cs)"
  using assms by (auto simp: lawful_labels_def on_world_def split: prod.splits) (metis snd_conv)+

lemma call_Inr: "call r k = (Inr y, s) \<longleftrightarrow> (\<exists>x s1. r = (Inr x, s1) \<and> k x s1 = (Inr y, s))"
  by (cases r; cases "fst r") (auto simp: call_def)

lemma did_Inr: "did f cs k = (Inr y, cs') \<longleftrightarrow> (\<exists>x cs1. on_world f cs = (Inr x, cs1) \<and> k x cs1 = (Inr y, cs'))"
  by (simp add: did_def call_Inr)

lemma approve_labels:
  assumes "lawful_labels J T lb" "approve_steps C T cid via cs = (Inr (), cs')"
  shows "LabelLine \<in> set (lb (cs_world cs') cid) \<and> LabelGaveUp \<notin> set (lb (cs_world cs') cid) \<and> LabelDeferred \<notin> set (lb (cs_world cs') cid)"
proof -
  obtain cs1 cs2 cs3 where s: "on_world (kt_remove_label T cid LabelGaveUp) cs1 = (Inr (), cs2)"
      "on_world (kt_remove_label T cid LabelDeferred) cs2 = (Inr (), cs3)" "on_world (kt_add_label T cid LabelLine) cs3 = (Inr (), cs')"
    using assms(2) by (auto simp: approve_steps_def call_Inr did_Inr)
  have "LabelLine \<noteq> LabelGaveUp" "LabelLine \<noteq> LabelDeferred" by (simp_all add: LabelLine_def LabelGaveUp_def LabelDeferred_def)
  then show ?thesis
    using lawful_labelsD(2) [OF assms(1) s(1)] lawful_labelsD(2) [OF assms(1) s(2)] lawful_labelsD(1) [OF assms(1) s(3)] by auto
qed

lemma remove_each_labels:
  assumes "lawful_labels J T lb" "remove_each T cid ls cs = (Inr (), cs')"
  shows "set (lb (cs_world cs') cid) = set (lb (cs_world cs) cid) - set ls"
  using assms(2) by (induction ls arbitrary: cs) (auto simp: did_Inr lawful_labelsD(2) [OF assms(1)])

lemma defer_labels:
  assumes "lawful_labels (ch_json C) T lb" "defer_steps C T cid till cs = (Inr (), cs')"
  shows "LabelDeferred \<in> set (lb (cs_world cs') cid)
    \<and> {l \<in> set (lb (cs_world cs') cid). has_prefix l LabelDeferUntilPrefix} = (if till = [] then {} else {LabelDeferUntilPrefix @ till})"
proof -
  let ?P = "\<lambda>l. has_prefix l LabelDeferUntilPrefix"
  obtain labels cs1 cs2 cs3 where s: "showCardLabels C T cid cs = (Inr labels, cs1)" "remove_each T cid (filter ?P labels) cs1 = (Inr (), cs2)"
      "(if till \<noteq> [] then on_world (kt_add_label T cid (LabelDeferUntilPrefix @ till)) cs2 else (Inr (), cs2)) = (Inr (), cs3)"
      "on_world (kt_add_label T cid LabelDeferred) cs3 = (Inr (), cs')"
    using assms(2) by (auto simp: defer_steps_def call_Inr)
  have np: "\<not> ?P LabelDeferred" "?P (LabelDeferUntilPrefix @ till)"
    by (simp_all add: has_prefix_def LabelDeferred_def LabelDeferUntilPrefix_def)
  obtain raw where raw: "on_world (kt_show T cid) cs = (Inr raw, cs1)" "map_option is_labels (cj_issue (ch_json C) raw) = Some labels"
    using s(1) by (auto simp: showCardLabels_def did_Inr split: option.splits)
  then have "labels = lb (cs_world cs) cid" using assms(1) by (auto simp: lawful_labels_def on_world_def split: prod.splits)
  then have "labels = lb (cs_world cs1) cid" using lawful_labelsD(4) [OF assms(1) raw(1)] by simp
  then have two: "{l \<in> set (lb (cs_world cs2) cid). ?P l} = {}" using remove_each_labels [OF assms(1) s(2)] by auto
  have three: "set (lb (cs_world cs3) cid) = (if till = [] then {} else {LabelDeferUntilPrefix @ till}) \<union> set (lb (cs_world cs2) cid)"
    using s(3) lawful_labelsD(1) [OF assms(1)] by (auto split: if_splits)
  show ?thesis using lawful_labelsD(1) [OF assms(1) s(4)] two three np by auto
qed

text \<open>C16. The king's word has its effect on any tracker that does what it says: after an approval that reports success the
  card is on the line, not given up and not deferred; after a deferral that reports success it is deferred until the
  named date, or until further notice when none is named, whatever deferrals it carried before.\<close>

theorem king_word_has_effect:
  assumes "lawful_labels (ch_json C) T lb" "ch_cards C = Some T"
  shows "(approveCard C cid via cs = (''approved '' @ cid, cs') \<longrightarrow>
      LabelLine \<in> set (lb (cs_world cs') cid) \<and> LabelGaveUp \<notin> set (lb (cs_world cs') cid) \<and> \<not> IsDeferred (lb (cs_world cs') cid) now)
    \<and> (deferCard C cid till via cs = (''deferred '' @ cid @ (if till \<noteq> [] then '' until '' @ till else []), cs') \<longrightarrow>
      (IsDeferred (lb (cs_world cs') cid) now \<longleftrightarrow> till = [] \<or> (\<exists>d. parse_date till = Some d \<and> now < d)))"
proof (intro conjI impI)
  assume a: "approveCard C cid via cs = (''approved '' @ cid, cs')"
  obtain r cs1 where s: "approve_steps C T cid via cs = (r, cs1)" by fastforce
  then have "r = Inr ()" and w: "cs' = snd (on_world (kt_comment T cid (''approved by the king ('' @ via @ '')'')) cs1)"
    using a assms(2) by (auto simp: approveCard_def split: sum.splits)
  then have "lb (cs_world cs') = lb (cs_world cs1)" using lawful_labelsD(3) [OF assms(1)] by simp
  then show "LabelLine \<in> set (lb (cs_world cs') cid)" "LabelGaveUp \<notin> set (lb (cs_world cs') cid)" "\<not> IsDeferred (lb (cs_world cs') cid) now"
    using approve_labels [OF assms(1), of C cid via cs cs1] s \<open>r = Inr ()\<close> by (simp_all add: IsDeferred_def)
next
  assume d: "deferCard C cid till via cs = (''deferred '' @ cid @ (if till \<noteq> [] then '' until '' @ till else []), cs')"
  obtain r cs1 where s: "defer_steps C T cid till cs = (r, cs1)" by fastforce
  have date: "till \<noteq> [] \<Longrightarrow> parse_date till \<noteq> None" using d assms(2) by (auto simp: deferCard_def split: if_splits)
  then have "r = Inr ()" and w: "lb (cs_world cs') = lb (cs_world cs1)"
    using d assms(2) s lawful_labelsD(3) [OF assms(1)] by (auto simp: deferCard_def Let_def split: sum.splits if_splits)
  let ?ls = "lb (cs_world cs1) cid" and ?P = "\<lambda>l. has_prefix l LabelDeferUntilPrefix"
  have ls: "LabelDeferred \<in> set ?ls" "{l \<in> set ?ls. ?P l} = (if till = [] then {} else {LabelDeferUntilPrefix @ till})"
    using defer_labels [OF assms(1), of cid till cs cs1] s \<open>r = Inr ()\<close> by simp_all
  have "find_first ?P ?ls = (if till = [] then None else Some (LabelDeferUntilPrefix @ till))"
  proof (cases "find_first ?P ?ls")
    case None
    then have "{l \<in> set ?ls. ?P l} = {}" by (auto simp: find_first_None)
    then show ?thesis using ls(2) None by (auto split: if_splits)
  next
    case (Some l)
    then have "l \<in> {l \<in> set ?ls. ?P l}" by (auto dest: find_first_SomeD)
    then show ?thesis using ls(2) Some by (auto split: if_splits)
  qed
  then show "IsDeferred (lb (cs_world cs') cid) now \<longleftrightarrow> till = [] \<or> (\<exists>d. parse_date till = Some d \<and> now < d)"
    using ls(1) w date by (cases "till = []") (auto simp: IsDeferred_def LabelDeferUntilPrefix_def split: option.split)
qed

definition kx_shown :: "kx_world chat" where
  "kx_shown = kx_channel\<lparr>ch_json := (ch_json kx_channel)\<lparr>cj_issue := \<lambda>raw. Some \<lparr>is_id = raw, is_type = ''task'', is_parent = [], is_labels = [],
     is_assignee = [], is_status = ''open'', is_comments = 0\<rparr>\<rparr>\<rparr>"

theorem king_word_has_effect_witness:
  "\<exists>cs'. approveCard kx_channel ''c1'' ''m'' kx_state = (''approved c1'', cs')
     \<and> LabelLine \<in> set (kx_labels (cs_world cs') ''c1'') \<and> \<not> IsDeferred (kx_labels (cs_world cs') ''c1'') 0"
proof -
  have "lawful_labels (ch_json kx_channel) kx_tracker kx_labels" by (simp add: lawful_labels_def kx_tracker_def kx_channel_def)
  moreover have cards: "ch_cards kx_channel = Some kx_tracker" by (simp add: kx_channel_def)
  moreover have "ch_ledger kx_channel = False" by (simp add: kx_channel_def)
  then obtain cs' where cs': "approveCard kx_channel ''c1'' ''m'' kx_state = (''approved c1'', cs')"
    by (simp add: approveCard_def cards approve_steps_def recordEpicApproval_def did_def on_world_def kx_tracker_def)
  ultimately show ?thesis using king_word_has_effect [of kx_channel kx_tracker kx_labels "''c1''" "''m''" kx_state cs'] by (intro exI [of _ cs']) simp
qed

end
