(* ===== verification/Spec2Isabelle.thy ===== *)
theory Spec2Isabelle
  imports Line_Properties Depmaint_Properties Station_Properties Work_Properties Succession_Properties
    Andon_Properties Card_Properties Deploy_Properties Channel_Properties
begin

text \<open>
  Sweatshop: a merge line guarded by signed evidence, the stations that work on it, and the tools that keep its
  dependencies up to date. The theories follow the Go packages under \<open>src/\<close>, one definition per function.

  \<^bold>\<open>The program.\<close> A repository has one guarded branch. Makers (\<open>line/maker\<close>) pick a card, work it in a
  container and push a candidate. A witness (\<open>line/witness\<close>) runs the checks the constitution
  (\<open>line/constitution\<close>) requires on a clean checkout and signs the outcome (\<open>line/attest\<close>). The guard
  (\<open>line/guard\<close>) alone moves the branch: \<open>Merge\<close> asks for trusted evidence, \<open>Pull\<close> stops the line on a failing
  head and \<open>Clear\<close> starts it again. All of them work on git repositories through \<open>line/gitx\<close>. Around the guard,
  \<open>line serve\<close> (\<open>line/station\<close>) keeps workloads, heartbeats and requests in files; the controller
  (\<open>line/controller\<close>) reconciles the workloads with a container engine, and heijunka (\<open>line/heijunka\<close>) levels
  the number of makers, asks for Kaizen analyses, escalates needs nobody answers and reclaims abandoned cards.
  \<open>depmaint\<close> is a separate program: it plans coordinated dependency upgrades and drives them as campaigns.

  \<^bold>\<open>Theories and sources.\<close>
  \<^item> \<open>Go_Prelude\<close>, \<open>Go_Encoding\<close>, \<open>Go_Lib\<close>, \<open>Go_Float\<close>, \<open>Go_Time\<close>, \<open>Go_Text\<close>: what the source uses of Go's
    standard library. Strings are lists of bytes, \<open>int\<close> and \<open>int64\<close> are mathematical integers with the wrap
    written out where a difference or product could leave 64 bits, an error is \<open>Inl\<close> or \<open>Some\<close> of its text
    or of a constructor of its own. The prelude holds the interface of a state machine with an invariant,
    which the machines below interpret.
  \<^item> \<open>Attest\<close> (\<open>line/attest\<close>); \<open>Constitution\<close>, \<open>Constitution_Rules\<close> (\<open>line/constitution\<close>).
  \<^item> \<open>Repo\<close>, \<open>Repo_Transfer\<close>, \<open>Repo_History\<close>, \<open>Bundle\<close> (\<open>line/gitx\<close>: \<open>git.go\<close>, \<open>transfer.go\<close>, \<open>bundle.go\<close>).
    A repository is the record of its objects, their modification times and its refs.
  \<^item> \<open>Guard\<close> (\<open>line/guard\<close>), \<open>Guard_Spec\<close> (the merge, pull and clear policies without control flow),
    \<open>Line_Protocol\<close> (pushes, merges, pulls and clears interleaved, each deciding on one state and writing on
    a later one).
  \<^item> \<open>Witness\<close>, \<open>Witness_Correct\<close>, \<open>Tail_Buffer\<close> (\<open>line/witness\<close> and the output buffer of the maker).
  \<^item> \<open>Maker\<close>, \<open>Maker_Correct\<close> (\<open>line/maker/runner.go\<close>); \<open>Container\<close> (the flags and environment of a container,
    \<open>line/station/succession.go\<close> and \<open>line/maker/runner.go\<close>).
  \<^item> \<open>Workloads\<close>, \<open>Workloads_Inv\<close> (\<open>line/station/workloads.go\<close>, \<open>workload_store.go\<close>); \<open>Controller\<close>,
    \<open>Controller_Correct\<close> (\<open>line/controller/controller.go\<close>).
  \<^item> \<open>Station_Liveness\<close>, \<open>Station_Watch\<close> (\<open>line/station/liveness.go\<close>); \<open>Station_Kaizen\<close>
    (\<open>kaizen_request.go\<close>, \<open>heijunka_levels.go\<close>, \<open>heijunka_state.go\<close> of the station).
  \<^item> \<open>Andon\<close>, \<open>Andon_Correct\<close> (\<open>line/andon\<close>): the watcher over records of operations for the station and
    the cards; composed with the guard and a trusted witness in \<open>Andon_Correct\<close>.
  \<^item> \<open>Succession\<close>, \<open>Succession_Steps\<close> (the supervisor of viceroy generations, the rest of
    \<open>line/station/succession.go\<close>): the handlers, and the machine in which their parts under the lock interleave
    with watchers, container exits and restarts of serve.
  \<^item> \<open>Deploy\<close> (\<open>line/station/deploy.go\<close>), \<open>Deploy_Actuator\<close> (\<open>line/deploy/deploy.go\<close>), \<open>Deploy_Steps\<close>: requests,
    the king's approval, the actuator's poll, and the machine in which they interleave with changes of the line.
  \<^item> \<open>Channel\<close>, \<open>Channel_Feed\<close>, \<open>Channel_Correct\<close> (\<open>channel.go\<close> and the other \<open>channel_\<close> files of the station):
    the king's commands, and the poller and gateway that feed them.
  \<^item> \<open>Card_Routes\<close>, \<open>Card_Requests\<close> (\<open>cards.go\<close>, \<open>epic_approvals.go\<close>, \<open>acceptance_request.go\<close>, \<open>defer.go\<close> of the
    station): the routes over a record of the tracker's operations, and the argument lists of \<open>bd\<close>. \<open>Card_Authority\<close>
    records the tracker's calls and says who may make which, over the records of \<open>Call_Log\<close>. \<open>Budgets\<close> (\<open>budget.go\<close>, \<open>line/linestore/usage.go\<close>).
  \<^item> \<open>Heijunka\<close>, \<open>Heijunka_Worker\<close> with \<open>Heijunka_Correct\<close>, \<open>Heijunka_Chores\<close> (\<open>line/heijunka\<close>).
  \<^item> \<open>Semver\<close>, \<open>Planner\<close>, \<open>Planner_Correct\<close>, \<open>Campaign\<close>, \<open>Campaign_Report\<close>, \<open>Campaign_Inv\<close>, \<open>Project\<close>
    (\<open>depmaint/internal/planner\<close>, \<open>campaign\<close>, \<open>project\<close>).
  \<^item> \<open>Line_Example\<close>, \<open>Station_Example\<close>, \<open>Depmaint_Example\<close>: concrete instances on which the definitions run;
    \<open>Line_Properties\<close>, \<open>Station_Properties\<close>, \<open>Work_Properties\<close>, \<open>Depmaint_Properties\<close>,
    \<open>Succession_Properties\<close>, \<open>Andon_Properties\<close>, \<open>Card_Properties\<close>, \<open>Deploy_Properties\<close>,
    \<open>Channel_Properties\<close>: the properties, with a witness for each one that has hypotheses.

  \<^bold>\<open>What the theorems show.\<close>
  \<^item> The guard implements its three policies exactly, moves the branch only to a first-parent child whatever
    calls interleave, keeps the line closed to untagged commits within one call, and changes nothing when it
    refuses. Between calls there is a race, also proved: the cord check and the branch swap are two steps.
  \<^item> Evidence: what verifies was signed; what the witness signs reads back; the witness's verdict is the
    guard's. A parsed constitution is well formed.
  \<^item> Repositories: a push or a bundle leaves the other side with everything the commit needs, provided closed
    sides; pruning breaks that closure, and the consequence is proved on an instance.
  \<^item> Makers take the best eligible card, close it only after a commit with its trailer landed, and settle every
    card they claimed with a closing, releasing or escalating call.
  \<^item> The watcher moves the cord only on evidence it has seen; over the guard, a failing master stops the line and a
    passing newer one starts it; a stop has one card.
  \<^item> The viceroy: a granted succession runs the attested master, and the log of generations is one line. A check-in
    that meets its deadline can leave no generation running; the schedule is evaluated.
  \<^item> Every write on a card is authorised by the caller's role and by what the tracker showed in the same request; a
    maker's claim is refused exactly while a budget that covers it is spent.
  \<^item> A release is applied only after the king approved it as the line's master, and a poll of the actuator leaves a
    healthy release running. A release that was rolled back cannot be rolled out again; the schedule is evaluated.
  \<^item> A message of the chat is delivered once, only the king's are commands, and his approvals and deferrals have their
    effect on the cards.
  \<^item> Workloads keep their audit trail, quota and lifetime; one controller pass retires what has ended. Levels
    settle within the distance in agents; needs are parked after three timeouts; alarms alternate.
  \<^item> Upgrade plans satisfy every requirement of the project; projects are the connected components; campaigns
    keep counters, logs and budget consistent under every sequence of calls.

  \<^bold>\<open>Parameters.\<close> Code outside \<open>src/\<close> is an argument: cryptography, hashes and the JSON and TOML codecs (record
  \<open>lib\<close> of \<open>Attest\<close> and the arguments of \<open>Parse\<close>), go-git's differences, ids, walks, refspecs and pack codec
  (records \<open>gogit\<close> and \<open>history\<close>, the argument of \<open>write_bundle\<close>), the \<open>bd\<close> tracker, the container engines, the
  package registries and the chat channel. Predicates named \<open>lawful_...\<close> and the hypotheses of the properties
  state what the source relies on of them. Maps are association lists or functions; where Go's iteration order
  could show, the order is an argument or the one stated in the theory.

  \<^bold>\<open>Termination.\<close> Loops over data are structural or have a measure; the planner's search ends because every
  repair uses up a published version. Recursions that the source bounds only by the shape of its data
  (\<open>Project.find\<close>, copying objects, selecting objects for a bundle, the ring buffer, the health probe) are partial functions in
  which not returning is \<open>None\<close>, and they are proved to return on the data the callers pass. The maker's and the
  worker's endless loops are modelled by their bodies; retries (\<open>tries\<close>) take the code's counts. No fuel is used
  in a property.

  \<^bold>\<open>Simplifications.\<close> One call reads the clock once (the health probe reads it on every turn) and contexts are
  not cancelled. Failures of files, SQL statements and HTTP transport are not modelled, nor are log lines; the text
  of some library errors is a constructor. Quoting and UTF-8 repair are those of ASCII text. A station's requests are atomic where it holds its lock; the guard's are not.

  \<^bold>\<open>Not modelled.\<close> The prompt texts of the kaizen, gemba and viceroy stations, the chat service's
  protocols, the report routes of the station server, the platforms' backends of the deployer and the process
  runners, report pages, the layout of a line's directory and the command lines: they render texts, wire flags or
  forward to external programs. Of the line's own logic, the routes that propose and approve a new constitution
  (\<open>constitution.go\<close> of the station), the viceroy's inbox and posts on the channel, and the adapter through which
  a maker reaches the cards over HTTP are left out. Of \<open>depmaint\<close>, the parsers of package managers' output, the SQL schema and the HTTP lookups. \<open>bughunt\<close>
  (repository scanners on \<open>go/ast\<close>) and \<open>agentsh\<close> (a shell daemon) are tools of their own that the line does not
  call.
\<close>

end
